(* ===== verification/Prelude.thy ===== *)
theory Prelude
  imports Main "HOL-Library.Word" "HOL-Library.Monad_Syntax"
begin

text \<open>
  Shared vocabulary of the development: the result type of the Go functions that return
  \<open>(value, error)\<close>, the error values of the Go standard library that the program compares
  and wraps, the units of \<open>time.Duration\<close>, the theorem collections of the components and the
  generic lemmas on lists, maps and options that several components use.
\<close>

section \<open>Theorem collections\<close>

named_theorems go_str \<open>unfolding rules of the string functions of the standard library\<close>
named_theorems step_defs \<open>definitions of the atomic steps of the state machines\<close>
named_theorems frame \<open>fields an operation leaves unchanged\<close>

section \<open>Results\<close>

text \<open>
  A Go function that returns \<open>(T, error)\<close> is a function into \<open>('e, 't) result\<close>: \<open>Inl e\<close> is the
  branch that returns a non-nil error, \<open>Inr v\<close> the branch that returns nil.
\<close>

type_synonym ('e, 'a) result = "'e + 'a"

definition bind_res :: "('e, 'a) result \<Rightarrow> ('a \<Rightarrow> ('e, 'b) result) \<Rightarrow> ('e, 'b) result" where
  "bind_res r f = (case r of Inl e \<Rightarrow> Inl e | Inr v \<Rightarrow> f v)"

definition map_err :: "('e \<Rightarrow> 'f) \<Rightarrow> ('e, 'a) result \<Rightarrow> ('f, 'a) result" where
  "map_err g r = (case r of Inl e \<Rightarrow> Inl (g e) | Inr v \<Rightarrow> Inr v)"

fun is_ok :: "('e, 'a) result \<Rightarrow> bool" where
  "is_ok (Inl _) = False"
| "is_ok (Inr _) = True"

text \<open>The loop \<open>for _, x := range xs { y, err := f(x); if err != nil { return err }; ys = append(ys, y) }\<close>.\<close>

fun map_res :: "('a \<Rightarrow> ('e, 'b) result) \<Rightarrow> 'a list \<Rightarrow> ('e, 'b list) result" where
  "map_res f [] = Inr []"
| "map_res f (x # xs) = bind_res (f x) (\<lambda>y. bind_res (map_res f xs) (\<lambda>ys. Inr (y # ys)))"

section \<open>Go errors\<close>

text \<open>
  Error values. \<open>EText s\<close> is \<open>errors.New(s)\<close> or a \<open>fmt.Errorf\<close> without \<open>%w\<close>; \<open>EWrap p e q\<close> is a
  \<open>fmt.Errorf\<close> whose text is \<open>p\<close>, the text of \<open>e\<close>, \<open>q\<close>, and whose \<open>Unwrap\<close> is \<open>e\<close>; \<open>EJoin\<close> has
  an \<open>Unwrap() []error\<close>. \<open>ETransport\<close> and \<open>EApplication\<close> are the two QUIC close errors with their
  error code and the flag that says the peer closed; the code's name, where the library has
  one, is carried as a string.
\<close>

datatype gerr =
    ECanceled
  | EDeadline
  | ENetClosed
  | ENotExist
  | EText string
  | EWrap string gerr string
  | EJoin "gerr list"
  | ETransport string nat bool
  | EApplication nat bool

text \<open>\<open>errors.Is(err, target)\<close> for a sentinel target: some error of the tree is the target.\<close>

fun errors_Is :: "gerr \<Rightarrow> gerr \<Rightarrow> bool" where
  "errors_Is (EWrap p e q) t = (EWrap p e q = t \<or> errors_Is e t)"
| "errors_Is (EJoin es) t = (EJoin es = t \<or> (\<exists>e \<in> set es. errors_Is e t))"
| "errors_Is e t = (e = t)"

section \<open>Durations\<close>

text \<open>\<open>time.Duration\<close> and \<open>UnixNano\<close> values are counts of nanoseconds.\<close>

type_synonym duration = int

abbreviation Millisecond :: duration where "Millisecond \<equiv> 1000000"
abbreviation Second :: duration where "Second \<equiv> 1000000000"
abbreviation Minute :: duration where "Minute \<equiv> 60000000000"

section \<open>Resolvers\<close>

text \<open>\<open>api.NameResolver\<close>: from a name to an address or an error.\<close>

type_synonym 'ip resolver = "string \<Rightarrow> (gerr, 'ip) result"

section \<open>Lemmas on results\<close>

lemma bind_res_simps [simp]:
  "bind_res (Inl e) f = Inl e"
  "bind_res (Inr v) f = f v"
  by (simp_all add: bind_res_def)

lemma bind_res_eq_Inr: "bind_res r f = Inr w \<longleftrightarrow> (\<exists>v. r = Inr v \<and> f v = Inr w)"
  by (cases r) auto

lemma bind_res_eq_Inl: "bind_res r f = Inl e \<longleftrightarrow> r = Inl e \<or> (\<exists>v. r = Inr v \<and> f v = Inl e)"
  by (cases r) auto

lemma map_err_simps [simp]:
  "map_err g (Inl e) = Inl (g e)"
  "map_err g (Inr v) = Inr v"
  by (simp_all add: map_err_def)

lemma map_err_eq_Inr [simp]: "map_err g r = Inr v \<longleftrightarrow> r = Inr v"
  by (cases r) auto

lemma is_ok_iff: "is_ok r \<longleftrightarrow> (\<exists>v. r = Inr v)"
  by (cases r) auto

lemma map_res_Inr: "map_res f xs = Inr ys \<longleftrightarrow> list_all2 (\<lambda>x y. f x = Inr y) xs ys"
proof (induction xs arbitrary: ys)
  case Nil
  then show ?case by auto
next
  case (Cons x xs)
  then show ?case by (auto simp: bind_res_eq_Inr list_all2_Cons1)
qed

lemma map_res_length: "map_res f xs = Inr ys \<Longrightarrow> length ys = length xs"
  by (simp add: map_res_Inr list_all2_lengthD)

section \<open>Lemmas on lists, maps and finite sets\<close>

lemma dropWhile_rev_idem:
  "dropWhile p (rev (dropWhile p (rev (dropWhile p xs)))) = rev (dropWhile p (rev (dropWhile p xs)))"
proof (cases "dropWhile p xs")
  case Nil
  then show ?thesis by (simp only: rev.simps dropWhile.simps)
next
  case (Cons y ys)
  then have ny: "\<not> p y" by (simp add: dropWhile_eq_Cons_conv)
  then have "dropWhile p (rev ys @ [y]) = dropWhile p (rev ys) @ [y]"
    by (rule dropWhile_append3)
  with Cons ny show ?thesis by simp
qed

lemma card_dom_upd:
  assumes "finite (dom m)"
  shows "card (dom (m(k \<mapsto> v))) = (if k \<in> dom m then card (dom m) else Suc (card (dom m)))"
  using assms by (simp add: insert_absorb)

lemma card_dom_del:
  assumes "finite (dom m)"
  shows "card (dom (m(k := None))) = (if k \<in> dom m then card (dom m) - 1 else card (dom m))"
  using assms by (simp add: card_Diff_singleton)

lemma del_key_lambda [simp]: "(\<lambda>a. if a = k then None else m a) = m(k := None)"
  by auto

lemma card_dom_del_int:
  assumes "finite (dom m)" "k \<in> dom m"
  shows "int (card (dom (m(k := None)))) = int (card (dom m)) - 1"
proof -
  have "0 < card (dom m)" using assms by (auto simp: card_gt_0_iff)
  with card_dom_del [OF assms(1), of k] assms(2) show ?thesis by auto
qed

lemma length_filter_remove1:
  "x \<in> set xs \<Longrightarrow> P x \<Longrightarrow> length (filter P (remove1 x xs)) = length (filter P xs) - 1"
proof (induction xs)
  case Nil
  then show ?case by simp
next
  case (Cons y ys)
  show ?case
  proof (cases "x = y")
    case True
    with Cons.prems show ?thesis by simp
  next
    case False
    with Cons.prems have x: "x \<in> set ys" by simp
    then have "0 < length (filter P ys)" using Cons.prems(2) by (auto simp: filter_empty_conv)
    with Cons.IH [OF x Cons.prems(2)] False show ?thesis by auto
  qed
qed

lemma length_filter_update:
  assumes "i < length xs" "P (xs ! i)" "\<not> P y"
  shows "Suc (length (filter P (xs[i := y]))) = length (filter P xs)"
proof -
  have "filter P xs = filter P (take i xs @ xs ! i # drop (Suc i) xs)"
    using assms(1) by (simp add: id_take_nth_drop [symmetric])
  moreover have "filter P (xs[i := y]) = filter P (take i xs @ y # drop (Suc i) xs)"
    using assms(1) by (simp add: upd_conv_take_nth_drop)
  ultimately show ?thesis using assms(2,3) by simp
qed

text \<open>The list without repetitions, the first occurrence of each element kept in place.\<close>

fun keep_first :: "'a list \<Rightarrow> 'a list" where
  "keep_first [] = []"
| "keep_first (x # xs) = x # filter (\<lambda>y. y \<noteq> x) (keep_first xs)"

lemma set_keep_first [simp]: "set (keep_first xs) = set xs"
  by (induction xs) auto

lemma distinct_keep_first [simp]: "distinct (keep_first xs)"
  by (induction xs) auto

lemma keep_first_filter: "keep_first (filter p xs) = filter p (keep_first xs)"
proof (induction xs)
  case Nil
  then show ?case by simp
next
  case (Cons x xs)
  have "filter p (filter (\<lambda>y. y \<noteq> x) (keep_first xs)) = filter p (keep_first xs)" if "\<not> p x"
    using that by (auto simp: filter_filter intro: filter_cong)
  then show ?case using Cons by (auto simp: filter_filter conj_commute)
qed

lemma keep_first_distinct: "distinct xs \<Longrightarrow> keep_first xs = xs"
  by (induction xs) (auto simp: filter_id_conv)

section \<open>Normalisers\<close>

text \<open>
  The contract of a normalisation function: its results satisfy the normal form, and a value in
  normal form is left alone. Loading and saving a configuration rely on nothing else of it.
\<close>

locale normaliser =
  fixes norm :: "'a \<Rightarrow> ('e, 'a) result" and normal :: "'a \<Rightarrow> bool"
  assumes norm_normal: "norm x = Inr y \<Longrightarrow> normal y"
    and norm_fixed: "normal y \<Longrightarrow> norm y = Inr y"
begin

lemma norm_idem: "norm x = Inr y \<Longrightarrow> norm y = Inr y"
  by (simp add: norm_fixed norm_normal)

lemma normal_iff_fixed: "normal y \<longleftrightarrow> norm y = Inr y"
  using norm_fixed norm_normal by blast

lemma norm_twice: "bind_res (norm x) norm = norm x"
  by (cases "norm x") (auto simp: norm_idem)

lemma norm_error_not_normal: "norm x = Inl e \<Longrightarrow> \<not> normal x"
  using norm_fixed by fastforce

end

end
