(* ===== verification/Go_Strings.thy ===== *)
theory Go_Strings
  imports Prelude
begin

text \<open>
  The functions of the Go packages \<open>strings\<close>, \<open>strconv\<close>, \<open>net\<close> (host:port handling) and
  \<open>path/filepath\<close> that the program calls. A Go string is its list of bytes. Case folding and
  white space are those of ASCII: on a string with bytes above 127 the Go functions decode
  UTF-8 first, which is outside the model.
\<close>

section \<open>Bytes and characters\<close>

abbreviation code :: "char \<Rightarrow> nat" where "code c \<equiv> of_char c"

definition is_space :: "char \<Rightarrow> bool" where
  "is_space c = (code c = 32 \<or> 9 \<le> code c \<and> code c \<le> 13)"

definition is_upper :: "char \<Rightarrow> bool" where
  "is_upper c = (65 \<le> code c \<and> code c \<le> 90)"

definition is_lower :: "char \<Rightarrow> bool" where
  "is_lower c = (97 \<le> code c \<and> code c \<le> 122)"

definition is_digit :: "char \<Rightarrow> bool" where
  "is_digit c = (48 \<le> code c \<and> code c \<le> 57)"

definition lower_char :: "char \<Rightarrow> char" where
  "lower_char c = (if is_upper c then char_of (code c + 32) else c)"

section \<open>Package strings\<close>

definition ToLower :: "string \<Rightarrow> string" where
  "ToLower s = map lower_char s"

definition trim_func :: "(char \<Rightarrow> bool) \<Rightarrow> string \<Rightarrow> string" where
  "trim_func p s = rev (dropWhile p (rev (dropWhile p s)))"

definition TrimSpace :: "string \<Rightarrow> string" where
  "TrimSpace s = trim_func is_space s"

definition Trim :: "string \<Rightarrow> string \<Rightarrow> string" where
  "Trim s cutset = trim_func (\<lambda>c. c \<in> set cutset) s"

definition HasPrefix :: "string \<Rightarrow> string \<Rightarrow> bool" where
  "HasPrefix s p = (take (length p) s = p)"

definition HasSuffix :: "string \<Rightarrow> string \<Rightarrow> bool" where
  "HasSuffix s p = (length p \<le> length s \<and> drop (length s - length p) s = p)"

definition TrimPrefix :: "string \<Rightarrow> string \<Rightarrow> string" where
  "TrimPrefix s p = (if HasPrefix s p then drop (length p) s else s)"

definition TrimSuffix :: "string \<Rightarrow> string \<Rightarrow> string" where
  "TrimSuffix s p = (if HasSuffix s p then take (length s - length p) s else s)"

fun Contains :: "string \<Rightarrow> string \<Rightarrow> bool" where
  "Contains [] p = (p = [])"
| "Contains (c # s) p = (HasPrefix (c # s) p \<or> Contains s p)"

text \<open>
  The verb \<open>%q\<close> of \<open>fmt\<close>: the text in double quotes, with quotes, backslashes and control characters escaped;
  bytes of printable runes outside ASCII stay as they are.
\<close>

definition quote_hex :: "nat \<Rightarrow> char" where
  "quote_hex d = (if d < 10 then char_of (48 + d) else char_of (87 + d))"

definition quote_char :: "char \<Rightarrow> string" where
  "quote_char c =
     (let n = (of_char c :: nat); esc = (\<lambda>l. [CHR 0x5C, l]) in
      if n = 34 \<or> n = 92 then esc c
      else if n = 7 then esc CHR ''a'' else if n = 8 then esc CHR ''b'' else if n = 9 then esc CHR ''t''
      else if n = 10 then esc CHR ''n'' else if n = 11 then esc CHR ''v'' else if n = 12 then esc CHR ''f''
      else if n = 13 then esc CHR ''r''
      else if n < 32 \<or> n = 127 then [CHR 0x5C, CHR ''x'', quote_hex (n div 16), quote_hex (n mod 16)]
      else [c])"

definition go_quote :: "string \<Rightarrow> string" where
  "go_quote s = CHR 0x22 # concat (map quote_char s) @ [CHR 0x22]"

text \<open>\<open>IndexByte\<close> and \<open>LastIndexByte\<close>; Go's \<open>-1\<close> is \<open>None\<close>.\<close>

fun IndexByte :: "string \<Rightarrow> char \<Rightarrow> nat option" where
  "IndexByte [] c = None"
| "IndexByte (x # s) c = (if x = c then Some 0 else map_option Suc (IndexByte s c))"

fun LastIndexByte :: "string \<Rightarrow> char \<Rightarrow> nat option" where
  "LastIndexByte [] c = None"
| "LastIndexByte (x # s) c =
     (case LastIndexByte s c of Some i \<Rightarrow> Some (Suc i) | None \<Rightarrow> if x = c then Some 0 else None)"

definition CountByte :: "string \<Rightarrow> char \<Rightarrow> nat" where
  "CountByte s c = length (filter (\<lambda>x. x = c) s)"

fun split_byte :: "char \<Rightarrow> string \<Rightarrow> string list" where
  "split_byte c [] = [[]]"
| "split_byte c (x # s) =
     (if x = c then [] # split_byte c s
      else (case split_byte c s of [] \<Rightarrow> [[x]] | p # ps \<Rightarrow> (x # p) # ps))"

fun join_with :: "string \<Rightarrow> string list \<Rightarrow> string" where
  "join_with sep [] = []"
| "join_with sep [s] = s"
| "join_with sep (s # t # ts) = s @ sep @ join_with sep (t # ts)"

section \<open>Package strconv\<close>

definition digit_char :: "nat \<Rightarrow> char" where
  "digit_char d = char_of (48 + d)"

definition digit_val :: "char \<Rightarrow> nat" where
  "digit_val c = code c - 48"

fun dec_digits :: "nat \<Rightarrow> string" where
  "dec_digits n = (if n < 10 then [digit_char n] else dec_digits (n div 10) @ [digit_char (n mod 10)])"

definition Itoa :: "int \<Rightarrow> string" where
  "Itoa i = (if i < 0 then CHR ''-'' # dec_digits (nat (- i)) else dec_digits (nat i))"

fun dec_val_acc :: "nat \<Rightarrow> string \<Rightarrow> nat" where
  "dec_val_acc acc [] = acc"
| "dec_val_acc acc (c # s) = dec_val_acc (acc * 10 + digit_val c) s"

definition parse_digits :: "string \<Rightarrow> nat option" where
  "parse_digits s = (if s \<noteq> [] \<and> list_all is_digit s then Some (dec_val_acc 0 s) else None)"

text \<open>
  \<open>strconv.Atoi\<close> and \<open>strconv.ParseInt(s, 10, 64)\<close>: an optional sign, then decimal digits only,
  and a value of 64 bits. \<open>strconv.ParseUint(s, 10, 64)\<close> takes no sign. The value Go returns
  beside a range error (the saturated number) is given by \<open>ParseInt_val\<close> and \<open>ParseUint_val\<close>,
  for the callers that ignore the error.
\<close>

definition Atoi :: "string \<Rightarrow> int option" where
  "Atoi s =
     (let (neg, ds) = (case s of
            c # t \<Rightarrow> if c = CHR ''-'' then (True, t) else if c = CHR ''+'' then (False, t) else (False, s)
          | [] \<Rightarrow> (False, s))
      in case parse_digits ds of
           None \<Rightarrow> None
         | Some n \<Rightarrow>
             (if neg then (if n \<le> 2 ^ 63 then Some (- int n) else None)
              else (if n < 2 ^ 63 then Some (int n) else None)))"

definition ParseUint_val :: "string \<Rightarrow> nat" where
  "ParseUint_val s = (case parse_digits s of None \<Rightarrow> 0 | Some n \<Rightarrow> min n (2 ^ 64 - 1))"

definition ParseInt_val :: "string \<Rightarrow> int" where
  "ParseInt_val s =
     (let (neg, ds) = (case s of
            c # t \<Rightarrow> if c = CHR ''-'' then (True, t) else if c = CHR ''+'' then (False, t) else (False, s)
          | [] \<Rightarrow> (False, s))
      in case parse_digits ds of
           None \<Rightarrow> 0
         | Some n \<Rightarrow> (if neg then - int (min n (2 ^ 63)) else int (min n (2 ^ 63 - 1))))"

section \<open>host:port\<close>

datatype addr_error =
    MissingPort | TooManyColons | MissingBracket | UnexpectedOpen | UnexpectedClose

definition SplitHostPort :: "string \<Rightarrow> (addr_error, string \<times> string) result" where
  "SplitHostPort hp =
     (case LastIndexByte hp CHR '':'' of
        None \<Rightarrow> Inl MissingPort
      | Some i \<Rightarrow>
          bind_res
            (if hp ! 0 = CHR ''['' then
               (case IndexByte hp CHR '']'' of
                  None \<Rightarrow> Inl MissingBracket
                | Some e \<Rightarrow>
                    if e + 1 = length hp then Inl MissingPort
                    else if e + 1 = i then Inr (take (e - 1) (drop 1 hp), 1, e + 1)
                    else if hp ! (e + 1) = CHR '':'' then Inl TooManyColons
                    else Inl MissingPort)
             else if IndexByte (take i hp) CHR '':'' \<noteq> None then Inl TooManyColons
             else Inr (take i hp, 0, 0))
            (\<lambda>(host, j, k).
               if IndexByte (drop j hp) CHR ''['' \<noteq> None then Inl UnexpectedOpen
               else if IndexByte (drop k hp) CHR '']'' \<noteq> None then Inl UnexpectedClose
               else Inr (host, drop (i + 1) hp)))"

definition JoinHostPort :: "string \<Rightarrow> string \<Rightarrow> string" where
  "JoinHostPort host port =
     (if IndexByte host CHR '':'' \<noteq> None then ''['' @ host @ '']:'' @ port
      else host @ '':'' @ port)"

section \<open>Package path/filepath\<close>

fun clean_elems :: "bool \<Rightarrow> string list \<Rightarrow> string list \<Rightarrow> string list" where
  "clean_elems rooted st [] = rev st"
| "clean_elems rooted st (e # es) =
     (if e = [] \<or> e = ''.'' then clean_elems rooted st es
      else if e = ''..'' then
        (case st of
           d # st' \<Rightarrow> if d \<noteq> ''..'' then clean_elems rooted st' es
                        else clean_elems rooted (e # st) es
         | [] \<Rightarrow> if rooted then clean_elems rooted st es else clean_elems rooted (e # st) es)
      else clean_elems rooted (e # st) es)"

definition Clean :: "string \<Rightarrow> string" where
  "Clean p =
     (let rooted = (HasPrefix p ''/''); es = clean_elems rooted [] (split_byte CHR ''/'' p)
      in if rooted then ''/'' @ join_with ''/'' es
         else if es = [] then ''.'' else join_with ''/'' es)"

definition Dir :: "string \<Rightarrow> string" where
  "Dir p = (case LastIndexByte p CHR ''/'' of None \<Rightarrow> Clean [] | Some i \<Rightarrow> Clean (take (i + 1) p))"

definition JoinPath :: "string list \<Rightarrow> string" where
  "JoinPath es = (let ne = filter (\<lambda>e. e \<noteq> []) es in if ne = [] then [] else Clean (join_with ''/'' ne))"

definition Ext :: "string \<Rightarrow> string" where
  "Ext p =
     (let base = (case LastIndexByte p CHR ''/'' of None \<Rightarrow> p | Some i \<Rightarrow> drop (i + 1) p)
      in case LastIndexByte base CHR ''.'' of None \<Rightarrow> [] | Some i \<Rightarrow> drop i base)"

declare dec_digits.simps [simp del]

section \<open>Trimming and case folding\<close>

lemma ToLower_simps [simp]:
  "ToLower [] = []"
  "ToLower (c # s) = lower_char c # ToLower s"
  by (simp_all add: ToLower_def)

lemma ToLower_append [simp]: "ToLower (s @ t) = ToLower s @ ToLower t"
  by (simp add: ToLower_def)

lemma length_ToLower [simp]: "length (ToLower s) = length s"
  by (simp add: ToLower_def)

lemma code_char_of [simp]: "n < 256 \<Longrightarrow> code (char_of n) = n"
  by simp

lemma lower_char_not_upper [simp]: "\<not> is_upper (lower_char c)"
  by (auto simp: lower_char_def is_upper_def)

lemma lower_char_idem [simp]: "lower_char (lower_char c) = lower_char c"
  by (simp add: lower_char_def [of "lower_char c"])

lemma ToLower_idem [simp]: "ToLower (ToLower s) = ToLower s"
  by (simp add: ToLower_def)

lemma is_space_lower_char [simp]: "is_space (lower_char c) = is_space c"
  by (auto simp: lower_char_def is_space_def is_upper_def)

lemma trim_func_idem [simp]: "trim_func p (trim_func p s) = trim_func p s"
proof -
  let ?u = "rev (dropWhile p (rev (dropWhile p s)))"
  have "dropWhile p (rev ?u) = rev ?u"
    by simp
  then show ?thesis
    unfolding trim_func_def by (simp add: dropWhile_rev_idem)
qed

lemma TrimSpace_idem [simp]: "TrimSpace (TrimSpace s) = TrimSpace s"
  by (simp add: TrimSpace_def)

lemma set_trim_func: "set (trim_func p s) \<subseteq> set s"
  by (auto simp: trim_func_def dest!: set_dropWhileD)

lemma trim_func_Nil [simp]: "trim_func p [] = []"
  by (simp add: trim_func_def)

lemma trim_func_eq_Nil: "trim_func p s = [] \<longleftrightarrow> (\<forall>c \<in> set s. p c)"
proof
  assume "trim_func p s = []"
  then have "\<forall>c \<in> set (dropWhile p s). p c" by (simp add: trim_func_def)
  then show "\<forall>c \<in> set s. p c" by (metis Un_iff set_append set_takeWhileD takeWhile_dropWhile_id)
next
  assume "\<forall>c \<in> set s. p c"
  then show "trim_func p s = []" by (auto simp: trim_func_def dest: set_dropWhileD)
qed

lemma trim_func_id:
  assumes "s \<noteq> []" "\<not> p (hd s)" "\<not> p (last s)"
  shows "trim_func p s = s"
proof -
  have "dropWhile p s = s" using assms(1,2) by (cases s) auto
  moreover have "dropWhile p (rev s) = rev s"
    using assms(1,3) by (cases s rule: rev_cases) auto
  ultimately show ?thesis by (simp add: trim_func_def)
qed

lemma trim_func_ends:
  assumes "trim_func p s \<noteq> []"
  shows "\<not> p (hd (trim_func p s))" "\<not> p (last (trim_func p s))"
proof -
  let ?u = "trim_func p s"
  have "dropWhile p ?u = ?u" by (simp add: trim_func_def dropWhile_rev_idem)
  with assms show "\<not> p (hd ?u)" by (metis hd_dropWhile)
  have "dropWhile p (rev ?u) = rev ?u" by (simp add: trim_func_def)
  with assms show "\<not> p (last ?u)" by (metis hd_dropWhile hd_rev rev_is_Nil_conv)
qed

lemma TrimSpace_ToLower: "TrimSpace (ToLower s) = ToLower (TrimSpace s)"
proof -
  have "dropWhile is_space (map lower_char xs) = map lower_char (dropWhile is_space xs)" for xs
    by (induction xs) auto
  then show ?thesis by (simp add: TrimSpace_def trim_func_def ToLower_def rev_map)
qed

section \<open>Searching\<close>

lemma IndexByte_None: "IndexByte s c = None \<longleftrightarrow> c \<notin> set s"
  by (induction s) auto

lemma IndexByte_Some:
  "IndexByte s c = Some i \<longleftrightarrow> i < length s \<and> s ! i = c \<and> c \<notin> set (take i s)"
proof (induction s arbitrary: i)
  case Nil
  then show ?case by simp
next
  case (Cons x s)
  then show ?case by (cases i) auto
qed

lemma IndexByte_split:
  assumes "IndexByte s c = Some i"
  shows "s = take i s @ c # drop (Suc i) s" "c \<notin> set (take i s)"
  using assms id_take_nth_drop [of i s] by (simp_all add: IndexByte_Some)

lemma IndexByte_append:
  "IndexByte (s @ t) c =
     (case IndexByte s c of Some i \<Rightarrow> Some i | None \<Rightarrow> map_option (\<lambda>i. i + length s) (IndexByte t c))"
  by (induction s) (auto simp: option.map_comp comp_def option.map_ident split: option.splits)

lemma LastIndexByte_None: "LastIndexByte s c = None \<longleftrightarrow> c \<notin> set s"
  by (induction s) (auto split: option.splits)

lemma LastIndexByte_append:
  "LastIndexByte (s @ t) c =
     (case LastIndexByte t c of Some i \<Rightarrow> Some (i + length s) | None \<Rightarrow> LastIndexByte s c)"
  by (induction s) (auto split: option.splits)

lemma LastIndexByte_Some:
  "LastIndexByte s c = Some i \<Longrightarrow> i < length s \<and> s ! i = c \<and> c \<notin> set (drop (Suc i) s)"
proof (induction s arbitrary: i)
  case Nil
  then show ?case by simp
next
  case (Cons x s)
  then show ?case by (auto simp: LastIndexByte_None split: option.splits if_splits)
qed

section \<open>Numbers\<close>

lemma digit_char_facts [simp]:
  assumes "d < 10"
  shows "is_digit (digit_char d)" "digit_val (digit_char d) = d"
  using assms by (simp_all add: is_digit_def digit_char_def digit_val_def)

lemma digit_char_literals [simp]:
  "digit_char 0 = CHR ''0''" "digit_char (Suc 0) = CHR ''1''" "digit_char 2 = CHR ''2''" "digit_char 3 = CHR ''3''"
  "digit_char 4 = CHR ''4''" "digit_char 5 = CHR ''5''" "digit_char 6 = CHR ''6''" "digit_char 7 = CHR ''7''"
  "digit_char 8 = CHR ''8''" "digit_char 9 = CHR ''9''"
  by code_simp+

lemma dec_digits_nonempty [simp]: "dec_digits n \<noteq> []"
  by (subst dec_digits.simps) simp

lemma dec_digits_all_digit: "list_all is_digit (dec_digits n)"
proof (induction n rule: dec_digits.induct)
  case (1 n)
  show ?case
  proof (cases "n < 10")
    case True
    then show ?thesis by (subst dec_digits.simps) simp
  next
    case False
    with 1 have "list_all is_digit (dec_digits (n div 10))" by simp
    with False show ?thesis by (subst dec_digits.simps) simp
  qed
qed

lemma dec_val_acc_append: "dec_val_acc a (s @ t) = dec_val_acc (dec_val_acc a s) t"
  by (induction s arbitrary: a) auto

lemma dec_val_dec_digits: "dec_val_acc 0 (dec_digits n) = n"
proof (induction n rule: dec_digits.induct)
  case (1 n)
  show ?case
  proof (cases "n < 10")
    case True
    then show ?thesis by (subst dec_digits.simps) simp
  next
    case False
    with 1 have "dec_val_acc 0 (dec_digits (n div 10)) = n div 10" by simp
    with False show ?thesis by (subst dec_digits.simps) (simp add: dec_val_acc_append)
  qed
qed

lemma parse_digits_dec_digits [simp]: "parse_digits (dec_digits n) = Some n"
  by (simp add: parse_digits_def dec_digits_all_digit dec_val_dec_digits)

lemma hd_dec_digits: "is_digit (hd (dec_digits n))"
  using dec_digits_all_digit [of n] dec_digits_nonempty [of n]
  by (cases "dec_digits n") auto

lemma not_digit_sign [simp]: "\<not> is_digit CHR ''-''" "\<not> is_digit CHR ''+''"
  by (simp_all add: is_digit_def)

lemma Atoi_dec_digits: "n < 2 ^ 63 \<Longrightarrow> Atoi (dec_digits n) = Some (int n)"
proof -
  assume n: "n < 2 ^ 63"
  obtain c t where ct: "dec_digits n = c # t" using dec_digits_nonempty [of n] by (cases "dec_digits n") auto
  with hd_dec_digits [of n] have "c \<noteq> CHR ''-''" "c \<noteq> CHR ''+''" by auto
  with ct n parse_digits_dec_digits [of n] show ?thesis by (simp add: Atoi_def)
qed

lemma Atoi_Itoa: "0 \<le> i \<Longrightarrow> i < 2 ^ 63 \<Longrightarrow> Atoi (Itoa i) = Some i"
  by (simp add: Itoa_def Atoi_dec_digits nat_less_iff)

section \<open>host:port\<close>

text \<open>
  \<open>SplitHostPort\<close> undoes \<open>JoinHostPort\<close> for a host without brackets and a port without colon
  and brackets (in particular a decimal number).
\<close>

lemma SplitHostPort_JoinHostPort:
  assumes host: "CHR ''['' \<notin> set host" "CHR '']'' \<notin> set host"
    and port: "CHR '':'' \<notin> set port" "CHR ''['' \<notin> set port" "CHR '']'' \<notin> set port"
  shows "SplitHostPort (JoinHostPort host port) = Inr (host, port)"
proof (cases "CHR '':'' \<in> set host")
  case True
  let ?hp = "''['' @ host @ '']:'' @ port"
  have idx: "LastIndexByte port CHR '':'' = None" "IndexByte host CHR '']'' = None"
    using host port by (simp_all add: LastIndexByte_None IndexByte_None)
  then have last: "LastIndexByte ?hp CHR '':'' = Some (length host + 2)"
    by (simp add: LastIndexByte_append)
  have fst: "IndexByte ?hp CHR '']'' = Some (length host + 1)"
    using idx by (simp add: IndexByte_append)
  have "IndexByte (drop 1 ?hp) CHR ''['' = None" "IndexByte (drop (length host + 2) ?hp) CHR '']'' = None"
    using host port by (simp_all add: IndexByte_None)
  moreover have "JoinHostPort host port = ?hp"
    using True by (simp add: JoinHostPort_def IndexByte_None)
  ultimately show ?thesis
    using last fst by (simp add: SplitHostPort_def)
next
  case False
  have last: "LastIndexByte (host @ '':'' @ port) CHR '':'' = Some (length host)"
    using port by (simp add: LastIndexByte_append LastIndexByte_None [THEN iffD2])
  have "(host @ '':'' @ port) ! 0 \<noteq> CHR ''[''"
    using host by (cases host) auto
  moreover have "IndexByte (host @ '':'' @ port) CHR ''['' = None" "IndexByte (host @ '':'' @ port) CHR '']'' = None"
    using host port by (simp_all add: IndexByte_None)
  moreover have "JoinHostPort host port = host @ '':'' @ port"
    using False by (simp add: JoinHostPort_def IndexByte_None)
  ultimately show ?thesis
    using last False by (simp add: SplitHostPort_def IndexByte_None)
qed

lemma digits_no_punct:
  assumes "list_all is_digit s"
  shows "CHR '':'' \<notin> set s" "CHR ''['' \<notin> set s" "CHR '']'' \<notin> set s"
  using assms by (auto simp: list_all_iff is_digit_def)

lemma Itoa_no_punct:
  "CHR '':'' \<notin> set (Itoa i)" "CHR ''['' \<notin> set (Itoa i)" "CHR '']'' \<notin> set (Itoa i)"
  using digits_no_punct [OF dec_digits_all_digit] by (auto simp: Itoa_def)

lemma SplitHostPort_JoinHostPort_Itoa:
  assumes "CHR ''['' \<notin> set host" "CHR '']'' \<notin> set host"
  shows "SplitHostPort (JoinHostPort host (Itoa i)) = Inr (host, Itoa i)"
  using assms Itoa_no_punct by (intro SplitHostPort_JoinHostPort)

end
