(* ===== verification/Go_Duration.thy ===== *)
theory Go_Duration
  imports Go_Strings
begin

text \<open>
  \<open>time.Duration.String\<close> and \<open>time.ParseDuration\<close>, which the configuration file uses for every
  duration field, with the proof that parsing undoes printing for every 64-bit duration. In
  \<open>ParseDuration\<close> the fraction is scaled with exact integer division; Go multiplies
  \<open>float64\<close> values there, which is the same number whenever the fraction has no more digits
  than its unit has decimal places (in particular for everything \<open>String\<close> prints).
\<close>

section \<open>Printing\<close>

text \<open>\<open>fmtFrac(buf, v, prec)\<close>: the text of the fraction (with its dot, without trailing zeros).\<close>

fun fmtFrac_loop :: "nat \<Rightarrow> nat \<Rightarrow> bool \<Rightarrow> string \<Rightarrow> string \<times> nat \<times> bool" where
  "fmtFrac_loop 0 v pr buf = (buf, v, pr)"
| "fmtFrac_loop (Suc n) v pr buf =
     (let digit = v mod 10; pr' = (pr \<or> digit \<noteq> 0)
      in fmtFrac_loop n (v div 10) pr' (if pr' then digit_char digit # buf else buf))"

definition fmtFrac :: "nat \<Rightarrow> nat \<Rightarrow> string \<times> nat" where
  "fmtFrac v prec =
     (let (buf, v', pr) = fmtFrac_loop prec v False []
      in (if pr then CHR ''.'' # buf else buf, v'))"

definition micro :: string where
  "micro = [CHR 0xC2, CHR 0xB5]"

definition fmt_unit :: "nat \<Rightarrow> nat \<Rightarrow> string \<Rightarrow> string" where
  "fmt_unit u prec un = (let (fr, v) = fmtFrac u prec in dec_digits v @ fr @ un)"

definition fmt_seconds :: "nat \<Rightarrow> string" where
  "fmt_seconds u =
     (let (fr, s) = fmtFrac u 9; m = s div 60; h = m div 60
      in (if m > 0 then (if h > 0 then dec_digits h @ ''h'' else []) @ dec_digits (m mod 60) @ ''m'' else [])
           @ dec_digits (s mod 60) @ fr @ ''s'')"

definition DurationString :: "duration \<Rightarrow> string" where
  "DurationString d =
     (let u = nat \<bar>d\<bar>;
          body = (if u = 0 then ''0s''
                  else if u < 1000 then fmt_unit u 0 ''ns''
                  else if u < 1000000 then fmt_unit u 3 (micro @ ''s'')
                  else if u < 1000000000 then fmt_unit u 6 ''ms''
                  else fmt_seconds u)
      in if d < 0 then CHR ''-'' # body else body)"

section \<open>Parsing\<close>

definition unitMap :: "string \<Rightarrow> nat option" where
  "unitMap u =
     (if u = ''ns'' then Some 1
      else if u = ''us'' \<or> u = micro @ ''s'' \<or> u = [CHR 0xCE, CHR 0xBC] @ ''s'' then Some 1000
      else if u = ''ms'' then Some 1000000
      else if u = ''s'' then Some 1000000000
      else if u = ''m'' then Some 60000000000
      else if u = ''h'' then Some 3600000000000
      else None)"

text \<open>\<open>leadingFraction\<close>: the digits' value and their scale; digits past 63 bits are skipped.\<close>

fun leadingFraction :: "string \<Rightarrow> nat \<times> nat \<times> bool \<Rightarrow> nat \<times> nat \<times> bool" where
  "leadingFraction [] acc = acc"
| "leadingFraction (c # s) (x, scale, overflow) =
     leadingFraction s
       (if overflow \<or> x > (2 ^ 63 - 1) div 10 \<or> x * 10 + digit_val c > 2 ^ 63 then (x, scale, True)
        else (x * 10 + digit_val c, scale * 10, False))"

definition is_num_char :: "char \<Rightarrow> bool" where
  "is_num_char c = (c = CHR ''.'' \<or> is_digit c)"

text \<open>One round of the loop: the nanoseconds of the leading number with its unit, and the rest.\<close>

definition parse_token :: "string \<Rightarrow> (nat \<times> string) option" where
  "parse_token s =
     (let ds = takeWhile is_digit s; s1 = dropWhile is_digit s; v = dec_val_acc 0 ds;
          dot = (s1 \<noteq> [] \<and> hd s1 = CHR ''.'');
          s2 = (if dot then tl s1 else s1);
          fs = (if dot then takeWhile is_digit s2 else []);
          (f, scale, ov) = leadingFraction fs (0, 1, False);
          s3 = drop (length fs) s2;
          u = takeWhile (\<lambda>c. \<not> is_num_char c) s3;
          rest = dropWhile (\<lambda>c. \<not> is_num_char c) s3
      in if v > 2 ^ 63 \<or> (ds = [] \<and> fs = []) \<or> u = [] then None
         else (case unitMap u of
                 None \<Rightarrow> None
               | Some un \<Rightarrow>
                   if v > 2 ^ 63 div un then None
                   else let w = v * un + (f * un) div scale
                        in if w > 2 ^ 63 then None else Some (w, rest)))"

lemma parse_token_shorter:
  assumes "parse_token s = Some (w, rest)"
  shows "length rest < length s"
proof -
  define s1 where "s1 = dropWhile is_digit s"
  define s2 where "s2 = (if s1 \<noteq> [] \<and> hd s1 = CHR ''.'' then tl s1 else s1)"
  define s3 where "s3 = drop (length (if s1 \<noteq> [] \<and> hd s1 = CHR ''.'' then takeWhile is_digit s2 else [])) s2"
  have "length s1 \<le> length s" by (simp add: s1_def length_dropWhile_le)
  moreover have "length s2 \<le> length s1" by (simp add: s2_def)
  moreover have "length s3 \<le> length s2" by (simp add: s3_def)
  moreover have "rest = dropWhile (\<lambda>c. \<not> is_num_char c) s3" "takeWhile (\<lambda>c. \<not> is_num_char c) s3 \<noteq> []"
    using assms unfolding parse_token_def Let_def s1_def s2_def s3_def
    by (auto split: if_splits option.splits prod.splits)
  moreover have "length (takeWhile (\<lambda>c. \<not> is_num_char c) s3) + length (dropWhile (\<lambda>c. \<not> is_num_char c) s3) = length s3"
    by (metis length_append takeWhile_dropWhile_id)
  ultimately show ?thesis by (cases "takeWhile (\<lambda>c. \<not> is_num_char c) s3") auto
qed

function parse_tokens :: "nat \<Rightarrow> string \<Rightarrow> nat option" where
  "parse_tokens d s =
     (if s = [] then Some d
      else if \<not> is_num_char (hd s) then None
      else case parse_token s of
             None \<Rightarrow> None
           | Some (w, rest) \<Rightarrow> if d + w > 2 ^ 63 then None else parse_tokens (d + w) rest)"
  by pat_completeness auto
termination
  by (relation "measure (\<lambda>(d, s). length s)") (auto dest: parse_token_shorter)

declare parse_tokens.simps [simp del]

definition ParseDuration :: "string \<Rightarrow> duration option" where
  "ParseDuration s0 =
     (let (neg, s) = (case s0 of
            c # t \<Rightarrow> if c = CHR ''-'' then (True, t) else if c = CHR ''+'' then (False, t) else (False, s0)
          | [] \<Rightarrow> (False, s0))
      in if s = ''0'' then Some 0
         else if s = [] then None
         else (case parse_tokens 0 s of
                 None \<Rightarrow> None
               | Some d \<Rightarrow> if neg then Some (- int d) else if d > 2 ^ 63 - 1 then None else Some (int d)))"

section \<open>Parsing undoes printing\<close>

lemma fmtFrac_loop_numeral [simp]:
  "fmtFrac_loop (numeral k) v pr buf =
     (let digit = v mod 10; pr' = (pr \<or> digit \<noteq> 0)
      in fmtFrac_loop (pred_numeral k) (v div 10) pr' (if pr' then digit_char digit # buf else buf))"
  by (simp only: numeral_eq_Suc [of k] fmtFrac_loop.simps)

text \<open>The fraction printed for \<open>v\<close> with \<open>n\<close> places denotes \<open>v mod 10 ^ n\<close> of those places.\<close>

definition frac_value :: "nat \<Rightarrow> string \<Rightarrow> nat" where
  "frac_value prec ds = dec_val_acc 0 ds * 10 ^ (prec - length ds)"

lemma dec_val_acc_shift: "dec_val_acc a s = a * 10 ^ length s + dec_val_acc 0 s"
proof (induction s arbitrary: a)
  case Nil
  then show ?case by simp
next
  case (Cons c s)
  have "dec_val_acc a (c # s) = (a * 10 + digit_val c) * 10 ^ length s + dec_val_acc 0 s"
    using Cons.IH [of "a * 10 + digit_val c"] by simp
  also have "\<dots> = a * 10 ^ length (c # s) + (digit_val c * 10 ^ length s + dec_val_acc 0 s)"
    by (simp add: algebra_simps)
  also have "digit_val c * 10 ^ length s + dec_val_acc 0 s = dec_val_acc 0 (c # s)"
    using Cons.IH [of "digit_val c"] by simp
  finally show ?case .
qed

lemma fmtFrac_loop_inv:
  assumes "fmtFrac_loop n v pr buf = (ds, v', pr')" "list_all is_digit buf"
    and "pr = (buf \<noteq> [])" "length buf \<le> k"
  shows "v' = v div 10 ^ n \<and> list_all is_digit ds \<and> pr' = (ds \<noteq> []) \<and> length ds \<le> k + n \<and>
    dec_val_acc 0 ds * 10 ^ (k + n - length ds)
      = (v mod 10 ^ n) * 10 ^ k + dec_val_acc 0 buf * 10 ^ (k - length buf)"
  using assms
proof (induction n arbitrary: v pr buf k)
  case 0
  then show ?case by auto
next
  case (Suc n)
  define d where "d = v mod 10"
  define pr1 where "pr1 = (pr \<or> d \<noteq> 0)"
  define buf1 where "buf1 = (if pr1 then digit_char d # buf else buf)"
  have d10: "d < 10" by (simp add: d_def)
  have loop: "fmtFrac_loop n (v div 10) pr1 buf1 = (ds, v', pr')" "list_all is_digit buf1"
    "pr1 = (buf1 \<noteq> [])" "length buf1 \<le> Suc k"
    using Suc.prems d10 by (auto simp: Let_def d_def pr1_def buf1_def)
  have divmod: "v mod 10 ^ Suc n = (v div 10 mod 10 ^ n) * 10 + d"
    by (simp add: d_def mod_mult2_eq mult.commute)
  have val: "dec_val_acc 0 buf1 * 10 ^ (Suc k - length buf1)
      = d * 10 ^ k + dec_val_acc 0 buf * 10 ^ (k - length buf)"
  proof (cases pr1)
    case True
    have "10 ^ length buf * 10 ^ (k - length buf) = (10::nat) ^ k"
      using Suc.prems(4) by (simp flip: power_add)
    then have eq: "d * 10 ^ length buf * 10 ^ (k - length buf) = d * 10 ^ k"
      by (simp add: mult.assoc)
    have "dec_val_acc 0 buf1 = d * 10 ^ length buf + dec_val_acc 0 buf"
      using True d10 dec_val_acc_shift [of d buf] by (simp add: buf1_def)
    then show ?thesis using True eq by (simp add: buf1_def algebra_simps)
  next
    case False
    then show ?thesis using Suc.prems(3) by (simp add: buf1_def pr1_def)
  qed
  note ih = Suc.IH [OF loop]
  have "v' = v div 10 ^ Suc n" using ih by (simp add: div_mult2_eq)
  moreover have "dec_val_acc 0 ds * 10 ^ (k + Suc n - length ds)
      = (v mod 10 ^ Suc n) * 10 ^ k + dec_val_acc 0 buf * 10 ^ (k - length buf)"
    using ih val unfolding divmod by (simp add: algebra_simps)
  ultimately show ?case using ih by simp
qed

lemma fmtFrac_facts:
  assumes "fmtFrac v prec = (fr, v')"
  obtains ds where "fr = (if ds = [] then [] else CHR ''.'' # ds)" "list_all is_digit ds"
    "length ds \<le> prec" "frac_value prec ds = v mod 10 ^ prec" "v' = v div 10 ^ prec"
proof -
  obtain ds w pr where l: "fmtFrac_loop prec v False [] = (ds, w, pr)"
    by (cases "fmtFrac_loop prec v False []") auto
  note inv = fmtFrac_loop_inv [OF l, of 0]
  from assms l have "fr = (if pr then CHR ''.'' # ds else ds)" "v' = w" by (auto simp: fmtFrac_def)
  with inv show ?thesis by (intro that [of ds]) (auto simp: frac_value_def)
qed

lemma leadingFraction_digits:
  assumes "list_all is_digit ds" "length ds + k \<le> 9" "x < 10 ^ k"
  shows "leadingFraction ds (x, scale, False) = (dec_val_acc x ds, scale * 10 ^ length ds, False)"
  using assms
proof (induction ds arbitrary: x k scale)
  case Nil
  then show ?case by simp
next
  case (Cons c ds)
  have c: "digit_val c < 10" using Cons.prems(1) by (auto simp: is_digit_def digit_val_def)
  have "(10::nat) ^ k \<le> 10 ^ 8" using Cons.prems(2) by (intro power_increasing) auto
  then have x8: "x < 10 ^ 8" using Cons.prems(3) by linarith
  have next_x: "x * 10 + digit_val c < 10 ^ Suc k" using Cons.prems(3) c by simp
  have "\<not> x > (2 ^ 63 - 1) div 10" "\<not> x * 10 + digit_val c > 2 ^ 63"
    using x8 c by simp_all
  then have "leadingFraction (c # ds) (x, scale, False)
      = leadingFraction ds (x * 10 + digit_val c, scale * 10, False)" by simp
  also have "\<dots> = (dec_val_acc (x * 10 + digit_val c) ds, scale * 10 * 10 ^ length ds, False)"
    using Cons.prems next_x by (intro Cons.IH [where k = "Suc k"]) auto
  finally show ?case by (simp add: mult.assoc)
qed

definition ends_token :: "string \<Rightarrow> bool" where
  "ends_token rest = (rest = [] \<or> is_num_char (hd rest))"

lemma takeWhile_dropWhile_token:
  assumes "list_all (\<lambda>c. \<not> is_num_char c) u" "ends_token rest"
  shows "takeWhile (\<lambda>c. \<not> is_num_char c) (u @ rest) = u" "dropWhile (\<lambda>c. \<not> is_num_char c) (u @ rest) = rest"
  using assms by (induction u; cases rest; simp add: ends_token_def)+

lemma digits_prefix:
  assumes "list_all is_digit ds" "t = [] \<or> \<not> is_digit (hd t)"
  shows "takeWhile is_digit (ds @ t) = ds" "dropWhile is_digit (ds @ t) = t"
  using assms by (induction ds; cases t; simp)+

text \<open>Parsing one printed token: a number, a fraction within the unit's places and the unit.\<close>

lemma parse_token_print:
  assumes un: "unitMap u = Some un" and u: "u \<noteq> []" "list_all (\<lambda>c. \<not> is_num_char c) u"
    and ds: "list_all is_digit ds" "length ds \<le> p" "p \<le> 9" "10 ^ p dvd un"
    and rest: "ends_token rest"
    and bound: "v * un + frac_value p ds * (un div 10 ^ p) \<le> 2 ^ 63"
  shows "parse_token (dec_digits v @ (if ds = [] then [] else CHR ''.'' # ds) @ u @ rest)
           = Some (v * un + frac_value p ds * (un div 10 ^ p), rest)"
proof -
  let ?t = "(if ds = [] then [] else CHR ''.'' # ds) @ u @ rest"
  have hd_u: "\<not> is_digit (hd u)" "hd u \<noteq> CHR ''.''"
    using u by (cases u; simp add: is_num_char_def)+
  have dot: "\<not> is_digit CHR ''.''" by (simp add: is_digit_def)
  have t: "?t = [] \<or> \<not> is_digit (hd ?t)" using hd_u u(1) dot by auto
  have tw: "takeWhile is_digit (dec_digits v @ ?t) = dec_digits v" "dropWhile is_digit (dec_digits v @ ?t) = ?t"
    using digits_prefix [OF dec_digits_all_digit t] by auto
  have fr: "takeWhile is_digit (ds @ u @ rest) = ds"
    using digits_prefix [OF ds(1), of "u @ rest"] hd_u u(1) by auto
  have lf: "leadingFraction ds (0, 1, False) = (dec_val_acc 0 ds, 10 ^ length ds, False)"
    using leadingFraction_digits [OF ds(1), of 0 0 1] ds by simp
  have pos: "0 < un" using un by (auto simp: unitMap_def split: if_splits)
  obtain q where q: "un = 10 ^ p * q" using ds(4) by blast
  have pw: "(10::nat) ^ p = 10 ^ length ds * 10 ^ (p - length ds)"
    using ds(2) by (simp flip: power_add)
  have fval: "(dec_val_acc 0 ds * un) div 10 ^ length ds = frac_value p ds * (un div 10 ^ p)"
    by (simp add: q frac_value_def) (simp add: pw mult.assoc mult.left_commute [of _ "10 ^ length ds"])
  have v: "\<not> v > 2 ^ 63 div un"
    using bound pos by (simp add: not_less less_eq_div_iff_mult_less_eq)
  then have v2: "\<not> v > 2 ^ 63" using div_le_dividend [of "2 ^ 63" un] by linarith
  note tok = takeWhile_dropWhile_token [OF u(2) rest]
  show ?thesis
  proof (cases "ds = []")
    case True
    have "hd (u @ rest) \<noteq> CHR ''.''" using hd_u u(1) by simp
    with True tw tok un u(1) v v2 fval bound show ?thesis
      by (simp add: parse_token_def Let_def dec_val_dec_digits)
  next
    case False
    with tw tok un u(1) v v2 fval bound lf fr show ?thesis
      by (simp add: parse_token_def Let_def dec_val_dec_digits)
  qed
qed

lemma ends_token_dec_digits [simp]: "ends_token (dec_digits n @ t)" "ends_token []"
  using hd_dec_digits [of n] by (simp_all add: ends_token_def is_num_char_def)

lemma parse_tokens_step:
  assumes "parse_token s = Some (w, rest)" "is_num_char (hd s)" "s \<noteq> []" "d + w \<le> 2 ^ 63"
  shows "parse_tokens d s = parse_tokens (d + w) rest"
  using assms by (subst parse_tokens.simps) simp

lemma parse_tokens_Nil [simp]: "parse_tokens d [] = Some d"
  by (subst parse_tokens.simps) simp

lemma parse_tokens_print:
  assumes "unitMap u = Some un" "u \<noteq> []" "list_all (\<lambda>c. \<not> is_num_char c) u"
    and "list_all is_digit ds" "length ds \<le> p" "p \<le> 9" "10 ^ p dvd un" "ends_token rest"
    and "d + (v * un + frac_value p ds * (un div 10 ^ p)) \<le> 2 ^ 63"
  shows "parse_tokens d (dec_digits v @ (if ds = [] then [] else CHR ''.'' # ds) @ u @ rest)
           = parse_tokens (d + (v * un + frac_value p ds * (un div 10 ^ p))) rest"
proof (rule parse_tokens_step)
  show "parse_token (dec_digits v @ (if ds = [] then [] else CHR ''.'' # ds) @ u @ rest)
          = Some (v * un + frac_value p ds * (un div 10 ^ p), rest)"
    using assms by (intro parse_token_print) auto
  show "is_num_char (hd (dec_digits v @ (if ds = [] then [] else CHR ''.'' # ds) @ u @ rest))"
    using hd_dec_digits [of v] by (simp add: is_num_char_def)
  show "dec_digits v @ (if ds = [] then [] else CHR ''.'' # ds) @ u @ rest \<noteq> []" by simp
  show "d + (v * un + frac_value p ds * (un div 10 ^ p)) \<le> 2 ^ 63" by (rule assms)
qed

lemma units:
  "unitMap ''ns'' = Some 1" "unitMap (micro @ ''s'') = Some 1000" "unitMap ''ms'' = Some 1000000"
  "unitMap ''s'' = Some 1000000000" "unitMap ''m'' = Some 60000000000" "unitMap ''h'' = Some 3600000000000"
  by (simp_all add: unitMap_def micro_def)

lemma unit_chars:
  "list_all (\<lambda>c. \<not> is_num_char c) ''ns''" "list_all (\<lambda>c. \<not> is_num_char c) (micro @ ''s'')"
  "list_all (\<lambda>c. \<not> is_num_char c) ''ms''" "list_all (\<lambda>c. \<not> is_num_char c) ''s''"
  "list_all (\<lambda>c. \<not> is_num_char c) ''m''" "list_all (\<lambda>c. \<not> is_num_char c) ''h''"
  by (simp_all add: is_num_char_def is_digit_def micro_def)

lemma parse_fmt_unit:
  assumes "unitMap u = Some (10 ^ p)" "u \<noteq> []" "list_all (\<lambda>c. \<not> is_num_char c) u" "p \<le> 9" "n \<le> 2 ^ 63"
  shows "parse_tokens 0 (fmt_unit n p u) = Some n"
proof -
  obtain fr v where f: "fmtFrac n p = (fr, v)" by (cases "fmtFrac n p")
  then obtain ds where ds: "fr = (if ds = [] then [] else CHR ''.'' # ds)" "list_all is_digit ds"
    "length ds \<le> p" "frac_value p ds = n mod 10 ^ p" "v = n div 10 ^ p"
    by (rule fmtFrac_facts)
  have "v * 10 ^ p + frac_value p ds * (10 ^ p div 10 ^ p) = n"
    using ds(4,5) div_mult_mod_eq [of n "10 ^ p"] by simp
  with parse_tokens_print [OF assms(1-3) ds(2,3) assms(4) dvd_refl, of "[]" 0 v] assms(5) ds(1) f
  show ?thesis by (simp add: fmt_unit_def)
qed

lemma parse_fmt_seconds:
  assumes n: "n \<le> 2 ^ 63"
  shows "parse_tokens 0 (fmt_seconds n) = Some n"
proof -
  obtain fr s where f: "fmtFrac n 9 = (fr, s)" by (cases "fmtFrac n 9")
  then obtain ds where ds: "fr = (if ds = [] then [] else CHR ''.'' # ds)" "list_all is_digit ds"
    "length ds \<le> 9" "frac_value 9 ds = n mod 10 ^ 9" "s = n div 10 ^ 9"
    by (rule fmtFrac_facts)
  define m h where "m = s div 60" and "h = m div 60"
  have n_eq: "n = h * 3600000000000 + (m mod 60) * 60000000000 + (s mod 60 * 1000000000 + n mod 1000000000)"
  proof -
    have "n = s * 1000000000 + n mod 1000000000" using div_mult_mod_eq [of n "10 ^ 9"] ds(5) by simp
    moreover have "s = m * 60 + s mod 60" using div_mult_mod_eq [of s 60] by (simp add: m_def)
    moreover have "m = h * 60 + m mod 60" using div_mult_mod_eq [of m 60] by (simp add: h_def)
    ultimately show ?thesis by linarith
  qed
  have sec: "parse_tokens d (dec_digits (s mod 60) @ fr @ ''s'')
      = Some (d + (s mod 60 * 1000000000 + n mod 1000000000))"
    if "d + (s mod 60 * 1000000000 + n mod 1000000000) \<le> 2 ^ 63" for d
    using parse_tokens_print [OF units(4) _ unit_chars(4) ds(2,3), of "[]" d "s mod 60"] that ds(1,4) by simp
  have mins: "parse_tokens d (dec_digits (m mod 60) @ ''m'' @ dec_digits (s mod 60) @ fr @ ''s'')
      = Some (d + (m mod 60) * 60000000000 + (s mod 60 * 1000000000 + n mod 1000000000))"
    if "d + (m mod 60) * 60000000000 + (s mod 60 * 1000000000 + n mod 1000000000) \<le> 2 ^ 63" for d
    using parse_tokens_print [OF units(5) _ unit_chars(5), of "[]" 0 "dec_digits (s mod 60) @ fr @ ''s''" d "m mod 60"] that
    by (simp add: frac_value_def sec)
  have hrs: "parse_tokens 0 (dec_digits h @ ''h'' @ dec_digits (m mod 60) @ ''m'' @ dec_digits (s mod 60) @ fr @ ''s'')
      = Some n"
    using parse_tokens_print [OF units(6) _ unit_chars(6), of "[]" 0
        "dec_digits (m mod 60) @ ''m'' @ dec_digits (s mod 60) @ fr @ ''s''" 0 h] n n_eq
    by (simp add: frac_value_def mins [simplified])
  show ?thesis
  proof (cases "m > 0")
    case m: True
    show ?thesis
    proof (cases "h > 0")
      case True
      with m hrs f show ?thesis by (simp add: fmt_seconds_def Let_def m_def h_def)
    next
      case False
      with m mins [of 0] f n n_eq show ?thesis by (simp add: fmt_seconds_def Let_def m_def h_def)
    qed
  next
    case False
    then have "h = 0" by (simp add: h_def)
    with False sec [of 0] f n n_eq show ?thesis by (simp add: fmt_seconds_def Let_def m_def)
  qed
qed

definition duration_body :: "nat \<Rightarrow> string" where
  "duration_body u =
     (if u = 0 then ''0s''
      else if u < 1000 then fmt_unit u 0 ''ns''
      else if u < 1000000 then fmt_unit u 3 (micro @ ''s'')
      else if u < 1000000000 then fmt_unit u 6 ''ms''
      else fmt_seconds u)"

lemma DurationString_body:
  "DurationString d = (if d < 0 then CHR ''-'' # duration_body (nat \<bar>d\<bar>) else duration_body (nat \<bar>d\<bar>))"
  by (simp add: DurationString_def duration_body_def Let_def)

lemma parse_zero: "parse_tokens 0 ''0s'' = Some 0"
proof -
  have "dec_digits 0 = ''0''" by code_simp
  then show ?thesis
    using parse_tokens_print [OF units(4) _ unit_chars(4), of "[]" 9 "[]" 0 0] by (simp add: frac_value_def)
qed

lemma parse_duration_body:
  assumes "u \<le> 2 ^ 63"
  shows "parse_tokens 0 (duration_body u) = Some u"
  using assms units unit_chars
  by (auto simp: duration_body_def parse_zero parse_fmt_seconds intro!: parse_fmt_unit)

lemma duration_body_shape:
  "\<exists>c t. duration_body u = c # t \<and> is_digit c \<and> t \<noteq> []"
proof -
  have d: "\<exists>c t. dec_digits n @ s = c # t \<and> is_digit c \<and> t \<noteq> []" if "s \<noteq> []" for n s
    using that hd_dec_digits [of n] dec_digits_nonempty [of n] by (cases "dec_digits n") auto
  have f: "\<exists>c t. fmt_unit n p s = c # t \<and> is_digit c \<and> t \<noteq> []" if "s \<noteq> []" for n p s
    using d that by (auto simp: fmt_unit_def split: prod.splits)
  have "\<exists>c t. fmt_seconds n = c # t \<and> is_digit c \<and> t \<noteq> []" for n
    using d by (auto simp: fmt_seconds_def Let_def split: prod.splits)
  then show ?thesis
    using f by (auto simp: duration_body_def is_digit_def micro_def)
qed

text \<open>Every 64-bit duration is read back from its text.\<close>

lemma ParseDuration_DurationString:
  assumes "- (2 ^ 63) \<le> d" "d < 2 ^ 63"
  shows "ParseDuration (DurationString d) = Some d"
proof -
  define u where "u = nat \<bar>d\<bar>"
  obtain c t where b: "duration_body u = c # t" "is_digit c" "t \<noteq> []" using duration_body_shape by blast
  have c: "c \<noteq> CHR ''-''" "c \<noteq> CHR ''+''" using b(2) by auto
  have "u \<le> 2 ^ 63" using assms by (simp add: u_def nat_le_iff)
  then have p: "parse_tokens 0 (c # t) = Some u" using parse_duration_body b(1) by metis
  show ?thesis
  proof (cases "d < 0")
    case True
    with b c p show ?thesis by (simp add: ParseDuration_def DurationString_body u_def [symmetric]) (simp add: u_def)
  next
    case False
    with b c p assms show ?thesis
      by (simp add: ParseDuration_def DurationString_body u_def [symmetric]) (simp add: u_def nat_less_iff)
  qed
qed

end
