(* ===== verification/Go_Json.thy ===== *)
theory Go_Json
  imports Go_Duration
begin

text \<open>
  The part of \<open>encoding/json\<close> and \<open>os\<close> the program uses, at the level of documents: a JSON text
  is its value, an object the map of its members (so member order does not matter, as in Go; a
  member name is matched exactly). \<open>json.Unmarshal\<close> into a struct is a list of field decoders run
  in turn: an absent member and a \<open>null\<close> leave a scalar field alone, \<open>null\<close> makes a slice nil, a
  value of another type is an error. Numbers are integers. A file system maps cleaned paths to
  contents and says which paths cannot be read or written.
\<close>

section \<open>Values\<close>

datatype json =
    JNull
  | JBool bool
  | JNum int
  | JStr string
  | JArr "json list"
  | JObj "string \<rightharpoonup> json"

definition json_type_error :: "string \<Rightarrow> gerr" where
  "json_type_error t = EText (''json: cannot unmarshal value into Go value of type '' @ t)"

section \<open>Decoders\<close>

type_synonym 'a decoder = "json \<Rightarrow> 'a \<Rightarrow> (gerr, 'a) result"

fun dec_string :: "string decoder" where
  "dec_string JNull d = Inr d"
| "dec_string (JStr s) d = Inr s"
| "dec_string _ d = Inl (json_type_error ''string'')"

fun dec_bool :: "bool decoder" where
  "dec_bool JNull d = Inr d"
| "dec_bool (JBool b) d = Inr b"
| "dec_bool _ d = Inl (json_type_error ''bool'')"

abbreviation int64 :: "int \<Rightarrow> bool" where "int64 i \<equiv> - (2 ^ 63) \<le> i \<and> i < 2 ^ 63"

fun dec_int :: "int decoder" where
  "dec_int JNull d = Inr d"
| "dec_int (JNum i) d = (if int64 i then Inr i else Inl (json_type_error ''int''))"
| "dec_int _ d = Inl (json_type_error ''int'')"

fun dec_uint16 :: "16 word decoder" where
  "dec_uint16 JNull d = Inr d"
| "dec_uint16 (JNum i) d = (if 0 \<le> i \<and> i < 2 ^ 16 then Inr (word_of_int i) else Inl (json_type_error ''uint16''))"
| "dec_uint16 _ d = Inl (json_type_error ''uint16'')"

fun dec_slice :: "'a \<Rightarrow> 'a decoder \<Rightarrow> 'a list option decoder" where
  "dec_slice z f JNull d = Inr None"
| "dec_slice z f (JArr js) d = bind_res (map_res (\<lambda>j. f j z) js) (\<lambda>xs. Inr (Some xs))"
| "dec_slice z f _ d = Inl (json_type_error ''slice'')"

text \<open>A struct field: the decoder runs on the member with the field's tag, if there is one.\<close>

definition field :: "'a decoder \<Rightarrow> string \<Rightarrow> ('r \<Rightarrow> 'a) \<Rightarrow> (('a \<Rightarrow> 'a) \<Rightarrow> 'r \<Rightarrow> 'r)
    \<Rightarrow> (string \<rightharpoonup> json) \<Rightarrow> 'r \<Rightarrow> (gerr, 'r) result" where
  "field f tag get upd ms r =
     (case ms tag of
        None \<Rightarrow> Inr r
      | Some j \<Rightarrow> bind_res (f j (get r)) (\<lambda>v. Inr (upd (\<lambda>_. v) r)))"

fun dec_struct :: "((string \<rightharpoonup> json) \<Rightarrow> 'r \<Rightarrow> (gerr, 'r) result) list \<Rightarrow> 'r decoder" where
  "dec_struct fs JNull r = Inr r"
| "dec_struct fs (JObj ms) r = foldl (\<lambda>acc f. bind_res acc (f ms)) (Inr r) fs"
| "dec_struct fs _ r = Inl (json_type_error ''struct'')"

section \<open>Encoders\<close>

fun enc_slice :: "('a \<Rightarrow> json) \<Rightarrow> 'a list option \<Rightarrow> json" where
  "enc_slice f None = JNull"
| "enc_slice f (Some xs) = JArr (map f xs)"

section \<open>Files\<close>

text \<open>
  \<open>JsonText j\<close> is a file whose bytes are a JSON text for \<open>j\<close>; any other bytes are \<open>OtherText\<close>.
\<close>

datatype content = JsonText json | OtherText string

record fsys =
  fs_files :: "string \<rightharpoonup> content"
  fs_unreadable :: "string \<Rightarrow> bool"
  fs_unwritable :: "string \<Rightarrow> bool"
  fs_mode :: "string \<Rightarrow> nat"

definition os_ReadFile :: "fsys \<Rightarrow> string \<Rightarrow> (gerr, content) result" where
  "os_ReadFile fs p =
     (case fs_files fs (Clean p) of
        None \<Rightarrow> Inl ENotExist
      | Some c \<Rightarrow> if fs_unreadable fs (Clean p) then Inl (EText ''permission denied'') else Inr c)"

definition os_StatOk :: "fsys \<Rightarrow> string \<Rightarrow> bool" where
  "os_StatOk fs p = (fs_files fs (Clean p) \<noteq> None)"

text \<open>\<open>os.WriteFile\<close> (and \<open>os.Create\<close> with one write): the mode only counts for a new file.\<close>

definition os_WriteFile :: "fsys \<Rightarrow> string \<Rightarrow> content \<Rightarrow> nat \<Rightarrow> (gerr, fsys) result" where
  "os_WriteFile fs p c mode =
     (if fs_unwritable fs (Clean p) then Inl (EText ''permission denied'')
      else Inr (fs\<lparr>fs_files := (fs_files fs)(Clean p \<mapsto> c),
                   fs_mode := (if fs_files fs (Clean p) = None then (fs_mode fs)(Clean p := mode) else fs_mode fs)\<rparr>))"

definition os_Rename :: "fsys \<Rightarrow> string \<Rightarrow> string \<Rightarrow> (gerr, fsys) result" where
  "os_Rename fs p q =
     (case fs_files fs (Clean p) of
        None \<Rightarrow> Inl ENotExist
      | Some c \<Rightarrow>
          if fs_unwritable fs (Clean q) then Inl (EText ''permission denied'')
          else Inr (fs\<lparr>fs_files := ((fs_files fs)(Clean p := None))(Clean q \<mapsto> c),
                       fs_mode := (fs_mode fs)(Clean q := fs_mode fs (Clean p))\<rparr>))"

definition os_Chmod :: "fsys \<Rightarrow> string \<Rightarrow> nat \<Rightarrow> (gerr, fsys) result" where
  "os_Chmod fs p mode =
     (if fs_files fs (Clean p) = None then Inl ENotExist
      else Inr (fs\<lparr>fs_mode := (fs_mode fs)(Clean p := mode)\<rparr>))"

section \<open>Lemmas\<close>

lemma dec_slice_enc_slice:
  assumes "\<And>x d. x \<in> set (case xs of None \<Rightarrow> [] | Some ys \<Rightarrow> ys) \<Longrightarrow> f (g x) d = Inr x"
  shows "dec_slice z f (enc_slice g xs) d = Inr xs"
proof (cases xs)
  case None
  then show ?thesis by simp
next
  case (Some ys)
  with assms have "list_all2 (\<lambda>x y. f (g x) z = Inr y) ys ys" by (auto intro: list_all2_refl simp: list_all2_same)
  then have "map_res (\<lambda>j. f j z) (map g ys) = Inr ys" by (simp add: map_res_Inr list_all2_map1)
  with Some show ?thesis by simp
qed

lemma dec_uint16_roundtrip [simp]: "dec_uint16 (JNum (uint w)) d = Inr w"
proof -
  have "uint w < 2 ^ 16" using uint_lt2p [of w] by simp
  then show ?thesis by simp
qed

lemma uint16_bound [simp]: "uint (w :: 16 word) < 65536"
  using uint_lt2p [of w] by simp

lemma field_Some [simp]: "ms tag = Some j \<Longrightarrow>
    field f tag get upd ms r = bind_res (f j (get r)) (\<lambda>v. Inr (upd (\<lambda>_. v) r))"
  by (simp add: field_def)

lemma field_None [simp]: "ms tag = None \<Longrightarrow> field f tag get upd ms r = Inr r"
  by (simp add: field_def)

lemma os_ReadFile_WriteFile:
  "os_WriteFile fs p c m = Inr fs' \<Longrightarrow> \<not> fs_unreadable fs (Clean p) \<Longrightarrow> os_ReadFile fs' p = Inr c"
  by (auto simp: os_WriteFile_def os_ReadFile_def split: if_splits)

lemma os_ReadFile_WriteFile_other:
  "os_WriteFile fs p c m = Inr fs' \<Longrightarrow> Clean q \<noteq> Clean p \<Longrightarrow> os_ReadFile fs' q = os_ReadFile fs q"
  by (auto simp: os_WriteFile_def os_ReadFile_def split: if_splits option.splits)

lemma os_WriteFile_frame [frame]:
  assumes "os_WriteFile fs p c m = Inr fs'"
  shows "fs_unreadable fs' = fs_unreadable fs" "fs_unwritable fs' = fs_unwritable fs"
    "q \<noteq> Clean p \<Longrightarrow> fs_files fs' q = fs_files fs q"
  using assms by (auto simp: os_WriteFile_def split: if_splits)

section \<open>Codecs\<close>

text \<open>
  A pair of an encoder and a decoder that loses nothing on the values in its range. The lemmas
  give the decoding of a struct field, of a slice and of a file written with the encoder.
\<close>

locale codec =
  fixes enc :: "'a \<Rightarrow> json" and dec :: "'a decoder" and valid :: "'a \<Rightarrow> bool"
  assumes dec_enc: "valid x \<Longrightarrow> dec (enc x) d = Inr x"
begin

lemma field_enc:
  assumes "ms tag = Some (enc v)" "valid v"
  shows "field dec tag get upd ms r = Inr (upd (\<lambda>_. v) r)"
  using assms by (simp add: dec_enc)

lemma slice_enc:
  assumes "\<forall>x \<in> set (case xs of None \<Rightarrow> [] | Some ys \<Rightarrow> ys). valid x"
  shows "dec_slice z dec (enc_slice enc xs) d = Inr xs"
  using assms by (intro dec_slice_enc_slice) (simp add: dec_enc)

lemma enc_inj: "valid x \<Longrightarrow> valid y \<Longrightarrow> enc x = enc y \<Longrightarrow> x = y"
  using dec_enc by (metis sum.inject(2))

lemma file_roundtrip:
  assumes "os_WriteFile fs p (JsonText (enc v)) m = Inr fs'" "\<not> fs_unreadable fs (Clean p)" "valid v"
  shows "\<exists>j. os_ReadFile fs' p = Inr (JsonText j) \<and> dec j d = Inr v"
  using assms by (auto simp: dec_enc dest: os_ReadFile_WriteFile)

end

interpretation str_codec: codec JStr dec_string "\<lambda>_. True"
  by unfold_locales simp

interpretation int_codec: codec JNum dec_int int64
  by unfold_locales simp

interpretation bool_codec: codec JBool dec_bool "\<lambda>_. True"
  by unfold_locales simp

end
