(* ===== verification/Config.thy ===== *)
theory Config
  imports Go_Json
begin

text \<open>
  Package \<open>config\<close> (\<open>src/config/config.go\<close>, \<open>src/config/wg_account.go\<close>): the configuration record,
  its defaults and normalisation, the files it is loaded from and saved to, the migrations of
  older layouts, and the account file of the WireGuard commands. The global variables
  \<open>AppConfig\<close> and \<open>ConfigLoaded\<close> and the file system are the state \<open>app\<close>. Nil slices are \<open>None\<close>.
  The YAML library (\<open>sigs.k8s.io/yaml\<close>) is a parameter of the operations that use it.
\<close>

section \<open>Durations in files\<close>

text \<open>
  \<open>float64\<close> rounding of an integer (53 significant bits, ties to even): what \<open>json.Unmarshal\<close>
  stores for a number that is decoded into an \<open>interface{}\<close>.
\<close>

fun bit_len :: "nat \<Rightarrow> nat" where
  "bit_len n = (if n = 0 then 0 else Suc (bit_len (n div 2)))"

declare bit_len.simps [simp del]

definition float64_of :: "int \<Rightarrow> int" where
  "float64_of x =
     (let n = nat \<bar>x\<bar>; e = bit_len n - 53; q = n div 2 ^ e; r = n mod 2 ^ e;
          up = (2 * r > 2 ^ e \<or> 2 * r = 2 ^ e \<and> odd q);
          m = (if up then q + 1 else q) * 2 ^ e
      in if x < 0 then - int m else int m)"

fun Duration_UnmarshalJSON :: "json \<Rightarrow> duration \<Rightarrow> (gerr, duration) result" where
  "Duration_UnmarshalJSON (JStr x) d =
     (case ParseDuration x of
        None \<Rightarrow> Inl (EWrap (''invalid duration '' @ go_quote x @ '': '') (EText ''time: invalid duration'') [])
      | Some v \<Rightarrow> Inr v)"
| "Duration_UnmarshalJSON (JNum x) d =
     (let v = float64_of x in Inr (if int64 v then v else - (2 ^ 63)))"
| "Duration_UnmarshalJSON _ d = Inl (EText ''duration must be string or number'')"

definition Duration_MarshalJSON :: "duration \<Rightarrow> json" where
  "Duration_MarshalJSON d = JStr (DurationString d)"

section \<open>Data\<close>

record SocksConfig =
  BindAddress :: string
  Port :: string
  Username :: string
  Password :: string
  BypassDomain :: "string list option"
  ProxyTCPPort :: "int list option"
  ConnectPort :: int
  DNS :: "string list option"
  DNSTimeout :: duration
  RemoteDNS :: bool
  UseIPv6 :: bool
  HTTP2 :: bool
  L4 :: bool
  WG :: bool
  L4UDP :: string
  NoTunnelIPv4 :: bool
  NoTunnelIPv6 :: bool
  BlockUDP443 :: bool
  SNIAddress :: string
  KeepalivePeriod :: duration
  MTU :: int
  InitialPacketSize :: "16 word"
  ReconnectDelay :: duration
  MaxReconnectAttempts :: int
  ConnectionTimeout :: duration
  IdleTimeout :: duration
  AlwaysReconnect :: bool
  L4HalfOpenTimeout :: duration
  L4ConnectionTimeout :: duration
  L4IdleTimeout :: duration
  L4PoolSize :: int

record LoggingConfig =
  Level :: string
  Format :: string
  SocksVerbose :: bool

record RegistrationInfo =
  DeviceName :: string

text \<open>
  The identity fields of \<open>Config\<close> are those of \<open>KeyConfig\<close>, and its other fields those of
  \<open>PublicConfig\<close>; \<open>legacyConfig\<close> embeds the two structs.
\<close>

record KeyConfig =
  key_PrivateKey :: string
  key_EndpointV4 :: string
  key_EndpointV6 :: string
  key_EndpointH2V4 :: string
  key_EndpointH2V6 :: string
  key_EndpointPubKey :: string
  key_AccountMode :: string
  key_License :: string
  key_ID :: string
  key_AccessToken :: string
  key_IPv4 :: string
  key_IPv6 :: string

record PublicConfig =
  pub_Socks :: SocksConfig
  pub_Registration :: RegistrationInfo
  pub_Logging :: LoggingConfig

record legacyConfig =
  leg_Key :: KeyConfig
  leg_Public :: PublicConfig

record Config =
  PrivateKey :: string
  EndpointV4 :: string
  EndpointV6 :: string
  EndpointH2V4 :: string
  EndpointH2V6 :: string
  EndpointPubKey :: string
  License :: string
  ID :: string
  AccessToken :: string
  AccountMode :: string
  IPv4 :: string
  IPv6 :: string
  Socks :: SocksConfig
  Registration :: RegistrationInfo
  Logging :: LoggingConfig

record app =
  AppConfig :: Config
  ConfigLoaded :: bool
  app_fs :: fsys

section \<open>Zero values and defaults\<close>

definition zeroSocksConfig :: SocksConfig where
  "zeroSocksConfig =
     \<lparr>BindAddress = [], Port = [], Username = [], Password = [], BypassDomain = None, ProxyTCPPort = None,
      ConnectPort = 0, DNS = None, DNSTimeout = 0, RemoteDNS = False, UseIPv6 = False, HTTP2 = False,
      L4 = False, WG = False, L4UDP = [], NoTunnelIPv4 = False, NoTunnelIPv6 = False, BlockUDP443 = False,
      SNIAddress = [], KeepalivePeriod = 0, MTU = 0, InitialPacketSize = 0, ReconnectDelay = 0,
      MaxReconnectAttempts = 0, ConnectionTimeout = 0, IdleTimeout = 0, AlwaysReconnect = False,
      L4HalfOpenTimeout = 0, L4ConnectionTimeout = 0, L4IdleTimeout = 0, L4PoolSize = 0\<rparr>"

definition zeroLoggingConfig :: LoggingConfig where
  "zeroLoggingConfig = \<lparr>Level = [], Format = [], SocksVerbose = False\<rparr>"

definition zeroKeyConfig :: KeyConfig where
  "zeroKeyConfig =
     \<lparr>key_PrivateKey = [], key_EndpointV4 = [], key_EndpointV6 = [], key_EndpointH2V4 = [],
      key_EndpointH2V6 = [], key_EndpointPubKey = [], key_AccountMode = [], key_License = [],
      key_ID = [], key_AccessToken = [], key_IPv4 = [], key_IPv6 = []\<rparr>"

definition zeroPublicConfig :: PublicConfig where
  "zeroPublicConfig =
     \<lparr>pub_Socks = zeroSocksConfig, pub_Registration = \<lparr>DeviceName = []\<rparr>, pub_Logging = zeroLoggingConfig\<rparr>"

definition L4UDPBlock :: string where "L4UDPBlock = ''block''"
definition L4UDPDirect :: string where "L4UDPDirect = ''direct''"
definition L4UDPTunnel :: string where "L4UDPTunnel = ''tunnel''"

definition DefaultKeepalivePeriod :: duration where "DefaultKeepalivePeriod = 30 * Second"
definition DefaultL4HalfOpenTimeout :: duration where "DefaultL4HalfOpenTimeout = 30 * Second"
definition DefaultL4ConnectionTimeout :: duration where "DefaultL4ConnectionTimeout = 30 * Second"
definition DefaultL4IdleTimeout :: duration where "DefaultL4IdleTimeout = 60 * Second"
definition DefaultL4PoolSize :: int where "DefaultL4PoolSize = 1"
definition MaxL4PoolSize :: int where "MaxL4PoolSize = 3"

definition DefaultEndpointH2V4 :: string where "DefaultEndpointH2V4 = ''162.159.198.2''"
definition DefaultEndpointH2V6 :: string where "DefaultEndpointH2V6 = []"

lemmas config_consts =
  L4UDPBlock_def L4UDPDirect_def L4UDPTunnel_def DefaultKeepalivePeriod_def DefaultL4HalfOpenTimeout_def
  DefaultL4ConnectionTimeout_def DefaultL4IdleTimeout_def DefaultL4PoolSize_def MaxL4PoolSize_def

definition GetDefaultSocksConfig :: SocksConfig where
  "GetDefaultSocksConfig =
     \<lparr>BindAddress = ''127.0.0.1'', Port = ''1080'', Username = [], Password = [],
      BypassDomain = Some [], ProxyTCPPort = Some [], ConnectPort = 443,
      DNS = Some [''1.1.1.1'', ''8.8.8.8''], DNSTimeout = 2 * Second, RemoteDNS = False,
      UseIPv6 = False, HTTP2 = False, L4 = False, WG = False, L4UDP = L4UDPBlock,
      NoTunnelIPv4 = False, NoTunnelIPv6 = False, BlockUDP443 = True, SNIAddress = [],
      KeepalivePeriod = DefaultKeepalivePeriod, MTU = 1280, InitialPacketSize = 1350,
      ReconnectDelay = Second, MaxReconnectAttempts = 0, ConnectionTimeout = 30 * Second,
      IdleTimeout = 5 * Minute, AlwaysReconnect = False, L4HalfOpenTimeout = DefaultL4HalfOpenTimeout,
      L4ConnectionTimeout = DefaultL4ConnectionTimeout, L4IdleTimeout = DefaultL4IdleTimeout,
      L4PoolSize = DefaultL4PoolSize\<rparr>"

definition GetDefaultLoggingConfig :: LoggingConfig where
  "GetDefaultLoggingConfig = \<lparr>Level = ''info'', Format = ''text'', SocksVerbose = False\<rparr>"

section \<open>Normalisation\<close>

definition NormalizeLoggingConfig :: "LoggingConfig \<Rightarrow> LoggingConfig \<times> string list" where
  "NormalizeLoggingConfig cfg =
     (let defaults = GetDefaultLoggingConfig;
          level0 = ToLower (TrimSpace (Level cfg));
          (level, issues1) =
            (if level0 \<in> {[], ''debug'', ''info'', ''warn'', ''error''}
             then (if level0 = [] then Level defaults else level0, [])
             else (Level defaults, [''level='' @ go_quote (Level cfg) @ '' -> '' @ go_quote (Level defaults)]));
          format0 = ToLower (TrimSpace (Format cfg));
          (format, issues2) =
            (if format0 \<in> {[], ''text'', ''json''}
             then (if format0 = [] then Format defaults else format0, [])
             else (Format defaults, [''format='' @ go_quote (Format cfg) @ '' -> '' @ go_quote (Format defaults)]))
      in (cfg\<lparr>Level := level, Format := format\<rparr>, issues1 @ issues2))"

definition valid_port :: "int \<Rightarrow> bool" where
  "valid_port port = (\<not> (port < 1 \<or> port > 65535))"

fun normalize_ports_loop :: "int set \<Rightarrow> int list \<Rightarrow> int list \<Rightarrow> (gerr, int list) result" where
  "normalize_ports_loop seen normalized [] = Inr normalized"
| "normalize_ports_loop seen normalized (port # ports) =
     (if \<not> valid_port port then
        Inl (EText (''invalid proxy_tcp_port '' @ Itoa port @ '': must be between 1 and 65535''))
      else if port \<in> seen then normalize_ports_loop seen normalized ports
      else normalize_ports_loop (insert port seen) (normalized @ [port]) ports)"

definition normalizeProxyTCPPorts :: "int list option \<Rightarrow> (gerr, int list option) result" where
  "normalizeProxyTCPPorts ports =
     (case ports of
        None \<Rightarrow> Inr (Some [])
      | Some ps \<Rightarrow>
          if ps = [] then Inr (Some [])
          else bind_res (normalize_ports_loop {} [] ps) (\<lambda>n. Inr (Some n)))"

definition normalizeL4UDP :: "string \<Rightarrow> (gerr, string) result" where
  "normalizeL4UDP v =
     (let m = ToLower (TrimSpace v) in
      if m = [] \<or> m = L4UDPBlock then Inr L4UDPBlock
      else if m = L4UDPDirect then Inr L4UDPDirect
      else if m = L4UDPTunnel then Inr L4UDPTunnel
      else Inl (EText (''invalid l4_udp '' @ go_quote v @ '': must be '' @ go_quote L4UDPBlock @ '', '' @ go_quote L4UDPDirect @
                  '' or '' @ go_quote L4UDPTunnel)))"

text \<open>
  The assignments of \<open>NormalizeSocksConfig\<close>, in its order: the ports, the nil slices, the positive
  durations, the pool size, the half-open bound and the UDP mode.
\<close>

definition positive_or :: "duration \<Rightarrow> duration \<Rightarrow> duration" where
  "positive_or d dflt = (if d \<le> 0 then dflt else d)"

definition NormalizeSocksConfig :: "SocksConfig \<Rightarrow> (gerr, SocksConfig) result" where
  "NormalizeSocksConfig cfg =
     bind_res (normalizeProxyTCPPorts (ProxyTCPPort cfg)) (\<lambda>ports.
       let n1 = cfg\<lparr>ProxyTCPPort := ports\<rparr>;
           n2 = n1\<lparr>BypassDomain := (if BypassDomain n1 = None then Some [] else BypassDomain n1)\<rparr>;
           n3 = n2\<lparr>ProxyTCPPort := (if ProxyTCPPort n2 = None then Some [] else ProxyTCPPort n2)\<rparr>;
           n4 = n3\<lparr>KeepalivePeriod := positive_or (KeepalivePeriod n3) DefaultKeepalivePeriod\<rparr>;
           n5 = n4\<lparr>L4HalfOpenTimeout := positive_or (L4HalfOpenTimeout n4) DefaultL4HalfOpenTimeout\<rparr>;
           n6 = n5\<lparr>L4ConnectionTimeout := positive_or (L4ConnectionTimeout n5) DefaultL4ConnectionTimeout\<rparr>;
           n7 = n6\<lparr>L4IdleTimeout := positive_or (L4IdleTimeout n6) DefaultL4IdleTimeout\<rparr>;
           n8 = n7\<lparr>L4PoolSize := (if L4PoolSize n7 < 1 then DefaultL4PoolSize else L4PoolSize n7)\<rparr>;
           n9 = n8\<lparr>L4PoolSize := (if L4PoolSize n8 > MaxL4PoolSize then MaxL4PoolSize else L4PoolSize n8)\<rparr>;
           n10 = n9\<lparr>L4HalfOpenTimeout :=
                     (if L4HalfOpenTimeout n9 > L4IdleTimeout n9 then L4IdleTimeout n9 else L4HalfOpenTimeout n9)\<rparr>
       in bind_res (normalizeL4UDP (L4UDP n10)) (\<lambda>m. Inr (n10\<lparr>L4UDP := m\<rparr>)))"

section \<open>Documents\<close>

definition socks_fields :: "((string \<rightharpoonup> json) \<Rightarrow> SocksConfig \<Rightarrow> (gerr, SocksConfig) result) list" where
  "socks_fields =
     [field dec_string ''bind_address'' BindAddress BindAddress_update,
      field dec_string ''port'' Port Port_update,
      field dec_string ''username'' Username Username_update,
      field dec_string ''password'' Password Password_update,
      field (dec_slice [] dec_string) ''bypass_domain'' BypassDomain BypassDomain_update,
      field (dec_slice 0 dec_int) ''proxy_tcp_port'' ProxyTCPPort ProxyTCPPort_update,
      field dec_int ''connect_port'' ConnectPort ConnectPort_update,
      field (dec_slice [] dec_string) ''dns'' DNS DNS_update,
      field Duration_UnmarshalJSON ''dns_timeout'' DNSTimeout DNSTimeout_update,
      field dec_bool ''remote_dns'' RemoteDNS RemoteDNS_update,
      field dec_bool ''use_ipv6'' UseIPv6 UseIPv6_update,
      field dec_bool ''http2'' HTTP2 HTTP2_update,
      field dec_bool ''l4'' L4 L4_update,
      field dec_bool ''wg'' WG WG_update,
      field dec_string ''l4_udp'' L4UDP L4UDP_update,
      field dec_bool ''no_tunnel_ipv4'' NoTunnelIPv4 NoTunnelIPv4_update,
      field dec_bool ''no_tunnel_ipv6'' NoTunnelIPv6 NoTunnelIPv6_update,
      field dec_bool ''block_udp_443'' BlockUDP443 BlockUDP443_update,
      field dec_string ''sni_address'' SNIAddress SNIAddress_update,
      field Duration_UnmarshalJSON ''keepalive_period'' KeepalivePeriod KeepalivePeriod_update,
      field dec_int ''mtu'' MTU MTU_update,
      field dec_uint16 ''initial_packet_size'' InitialPacketSize InitialPacketSize_update,
      field Duration_UnmarshalJSON ''reconnect_delay'' ReconnectDelay ReconnectDelay_update,
      field dec_int ''max_reconnect_attempts'' MaxReconnectAttempts MaxReconnectAttempts_update,
      field Duration_UnmarshalJSON ''connection_timeout'' ConnectionTimeout ConnectionTimeout_update,
      field Duration_UnmarshalJSON ''idle_timeout'' IdleTimeout IdleTimeout_update,
      field dec_bool ''always_reconnect'' AlwaysReconnect AlwaysReconnect_update,
      field Duration_UnmarshalJSON ''l4_half_open_timeout'' L4HalfOpenTimeout L4HalfOpenTimeout_update,
      field Duration_UnmarshalJSON ''l4_connection_timeout'' L4ConnectionTimeout L4ConnectionTimeout_update,
      field Duration_UnmarshalJSON ''l4_idle_timeout'' L4IdleTimeout L4IdleTimeout_update,
      field dec_int ''l4_pool_size'' L4PoolSize L4PoolSize_update]"

definition socks_json :: "SocksConfig \<Rightarrow> json" where
  "socks_json c = JObj
     [''bind_address'' \<mapsto> JStr (BindAddress c), ''port'' \<mapsto> JStr (Port c),
      ''username'' \<mapsto> JStr (Username c), ''password'' \<mapsto> JStr (Password c),
      ''bypass_domain'' \<mapsto> enc_slice JStr (BypassDomain c),
      ''proxy_tcp_port'' \<mapsto> enc_slice JNum (ProxyTCPPort c),
      ''connect_port'' \<mapsto> JNum (ConnectPort c), ''dns'' \<mapsto> enc_slice JStr (DNS c),
      ''dns_timeout'' \<mapsto> Duration_MarshalJSON (DNSTimeout c), ''remote_dns'' \<mapsto> JBool (RemoteDNS c),
      ''use_ipv6'' \<mapsto> JBool (UseIPv6 c), ''http2'' \<mapsto> JBool (HTTP2 c), ''l4'' \<mapsto> JBool (L4 c),
      ''wg'' \<mapsto> JBool (WG c), ''l4_udp'' \<mapsto> JStr (L4UDP c),
      ''no_tunnel_ipv4'' \<mapsto> JBool (NoTunnelIPv4 c), ''no_tunnel_ipv6'' \<mapsto> JBool (NoTunnelIPv6 c),
      ''block_udp_443'' \<mapsto> JBool (BlockUDP443 c), ''sni_address'' \<mapsto> JStr (SNIAddress c),
      ''keepalive_period'' \<mapsto> Duration_MarshalJSON (KeepalivePeriod c), ''mtu'' \<mapsto> JNum (MTU c),
      ''initial_packet_size'' \<mapsto> JNum (uint (InitialPacketSize c)),
      ''reconnect_delay'' \<mapsto> Duration_MarshalJSON (ReconnectDelay c),
      ''max_reconnect_attempts'' \<mapsto> JNum (MaxReconnectAttempts c),
      ''connection_timeout'' \<mapsto> Duration_MarshalJSON (ConnectionTimeout c),
      ''idle_timeout'' \<mapsto> Duration_MarshalJSON (IdleTimeout c),
      ''always_reconnect'' \<mapsto> JBool (AlwaysReconnect c),
      ''l4_half_open_timeout'' \<mapsto> Duration_MarshalJSON (L4HalfOpenTimeout c),
      ''l4_connection_timeout'' \<mapsto> Duration_MarshalJSON (L4ConnectionTimeout c),
      ''l4_idle_timeout'' \<mapsto> Duration_MarshalJSON (L4IdleTimeout c),
      ''l4_pool_size'' \<mapsto> JNum (L4PoolSize c)]"

definition logging_fields :: "((string \<rightharpoonup> json) \<Rightarrow> LoggingConfig \<Rightarrow> (gerr, LoggingConfig) result) list" where
  "logging_fields =
     [field dec_string ''level'' Level Level_update,
      field dec_string ''format'' Format Format_update,
      field dec_bool ''socks_verbose'' SocksVerbose SocksVerbose_update]"

definition logging_json :: "LoggingConfig \<Rightarrow> json" where
  "logging_json c = JObj
     [''level'' \<mapsto> JStr (Level c), ''format'' \<mapsto> JStr (Format c), ''socks_verbose'' \<mapsto> JBool (SocksVerbose c)]"

definition registration_fields ::
  "((string \<rightharpoonup> json) \<Rightarrow> RegistrationInfo \<Rightarrow> (gerr, RegistrationInfo) result) list" where
  "registration_fields = [field dec_string ''device_name'' DeviceName DeviceName_update]"

definition registration_json :: "RegistrationInfo \<Rightarrow> json" where
  "registration_json c = JObj [''device_name'' \<mapsto> JStr (DeviceName c)]"

definition public_fields :: "((string \<rightharpoonup> json) \<Rightarrow> PublicConfig \<Rightarrow> (gerr, PublicConfig) result) list" where
  "public_fields =
     [field (dec_struct socks_fields) ''socks'' pub_Socks pub_Socks_update,
      field (dec_struct registration_fields) ''registration'' pub_Registration pub_Registration_update,
      field (dec_struct logging_fields) ''logging'' pub_Logging pub_Logging_update]"

definition public_json :: "PublicConfig \<Rightarrow> json" where
  "public_json c = JObj
     [''socks'' \<mapsto> socks_json (pub_Socks c), ''registration'' \<mapsto> registration_json (pub_Registration c),
      ''logging'' \<mapsto> logging_json (pub_Logging c)]"

definition key_fields :: "((string \<rightharpoonup> json) \<Rightarrow> KeyConfig \<Rightarrow> (gerr, KeyConfig) result) list" where
  "key_fields =
     [field dec_string ''private_key'' key_PrivateKey key_PrivateKey_update,
      field dec_string ''endpoint_v4'' key_EndpointV4 key_EndpointV4_update,
      field dec_string ''endpoint_v6'' key_EndpointV6 key_EndpointV6_update,
      field dec_string ''endpoint_h2_v4'' key_EndpointH2V4 key_EndpointH2V4_update,
      field dec_string ''endpoint_h2_v6'' key_EndpointH2V6 key_EndpointH2V6_update,
      field dec_string ''endpoint_pub_key'' key_EndpointPubKey key_EndpointPubKey_update,
      field dec_string ''account_mode'' key_AccountMode key_AccountMode_update,
      field dec_string ''license'' key_License key_License_update,
      field dec_string ''id'' key_ID key_ID_update,
      field dec_string ''access_token'' key_AccessToken key_AccessToken_update,
      field dec_string ''ipv4'' key_IPv4 key_IPv4_update,
      field dec_string ''ipv6'' key_IPv6 key_IPv6_update]"

definition key_json :: "KeyConfig \<Rightarrow> json" where
  "key_json c = JObj
     [''private_key'' \<mapsto> JStr (key_PrivateKey c), ''endpoint_v4'' \<mapsto> JStr (key_EndpointV4 c),
      ''endpoint_v6'' \<mapsto> JStr (key_EndpointV6 c), ''endpoint_h2_v4'' \<mapsto> JStr (key_EndpointH2V4 c),
      ''endpoint_h2_v6'' \<mapsto> JStr (key_EndpointH2V6 c), ''endpoint_pub_key'' \<mapsto> JStr (key_EndpointPubKey c),
      ''account_mode'' \<mapsto> JStr (key_AccountMode c), ''license'' \<mapsto> JStr (key_License c),
      ''id'' \<mapsto> JStr (key_ID c), ''access_token'' \<mapsto> JStr (key_AccessToken c),
      ''ipv4'' \<mapsto> JStr (key_IPv4 c), ''ipv6'' \<mapsto> JStr (key_IPv6 c)]"

text \<open>\<open>legacyConfig\<close> promotes the fields of both embedded structs into one object.\<close>

definition dec_legacy :: "legacyConfig decoder" where
  "dec_legacy j l =
     bind_res (dec_struct key_fields j (leg_Key l)) (\<lambda>k.
     bind_res (dec_struct public_fields j (leg_Public l)) (\<lambda>p.
     Inr \<lparr>leg_Key = k, leg_Public = p\<rparr>))"

section \<open>Reading and writing the files\<close>

record yaml_lib =
  yaml_Unmarshal :: "content \<Rightarrow> (gerr, json) result"
  yaml_Marshal :: "json \<Rightarrow> (gerr, content) result"
  yaml_JSONToYAML :: "content \<Rightarrow> (gerr, content) result"

text \<open>
  What the program relies on of \<open>sigs.k8s.io/yaml\<close>: every JSON text is a YAML text of the same
  value, and what \<open>Marshal\<close> and \<open>JSONToYAML\<close> write reads back as the value they were given.
\<close>

definition yaml_spec :: "yaml_lib \<Rightarrow> bool" where
  "yaml_spec yl =
     ((\<forall>j. yaml_Unmarshal yl (JsonText j) = Inr j) \<and>
      (\<forall>j. \<exists>c. yaml_Marshal yl j = Inr c \<and> yaml_Unmarshal yl c = Inr j) \<and>
      (\<forall>j. \<exists>c. yaml_JSONToYAML yl (JsonText j) = Inr c \<and> yaml_Unmarshal yl c = Inr j))"

definition keyConfigPath :: "string \<Rightarrow> string" where
  "keyConfigPath configPath0 =
     (let configPath = (if TrimSpace configPath0 = [] then ''config.json'' else configPath0)
      in JoinPath [Dir configPath, ''key.json''])"

definition extractKeyConfig :: "Config \<Rightarrow> KeyConfig" where
  "extractKeyConfig cfg =
     \<lparr>key_PrivateKey = PrivateKey cfg, key_EndpointV4 = EndpointV4 cfg, key_EndpointV6 = EndpointV6 cfg,
      key_EndpointH2V4 = EndpointH2V4 cfg, key_EndpointH2V6 = EndpointH2V6 cfg,
      key_EndpointPubKey = EndpointPubKey cfg, key_AccountMode = AccountMode cfg, key_License = License cfg,
      key_ID = ID cfg, key_AccessToken = AccessToken cfg, key_IPv4 = IPv4 cfg, key_IPv6 = IPv6 cfg\<rparr>"

definition extractPublicConfig :: "Config \<Rightarrow> PublicConfig" where
  "extractPublicConfig cfg =
     \<lparr>pub_Socks = Socks cfg, pub_Registration = Registration cfg, pub_Logging = Logging cfg\<rparr>"

definition applyKeyConfig :: "Config \<Rightarrow> KeyConfig \<Rightarrow> Config" where
  "applyKeyConfig cfg key =
     cfg\<lparr>PrivateKey := key_PrivateKey key, EndpointV4 := key_EndpointV4 key, EndpointV6 := key_EndpointV6 key,
         EndpointH2V4 := key_EndpointH2V4 key, EndpointH2V6 := key_EndpointH2V6 key,
         EndpointPubKey := key_EndpointPubKey key, AccountMode := key_AccountMode key,
         License := key_License key, ID := key_ID key, AccessToken := key_AccessToken key,
         IPv4 := key_IPv4 key, IPv6 := key_IPv6 key\<rparr>"

definition hasAnyKeyField :: "KeyConfig \<Rightarrow> bool" where
  "hasAnyKeyField key =
     (TrimSpace (key_PrivateKey key) \<noteq> [] \<or> TrimSpace (key_EndpointV4 key) \<noteq> [] \<or>
      TrimSpace (key_EndpointV6 key) \<noteq> [] \<or> TrimSpace (key_EndpointPubKey key) \<noteq> [] \<or>
      TrimSpace (key_AccountMode key) \<noteq> [] \<or> TrimSpace (key_License key) \<noteq> [] \<or>
      TrimSpace (key_ID key) \<noteq> [] \<or> TrimSpace (key_AccessToken key) \<noteq> [] \<or>
      TrimSpace (key_IPv4 key) \<noteq> [] \<or> TrimSpace (key_IPv6 key) \<noteq> [])"

definition writeJSONFile :: "fsys \<Rightarrow> string \<Rightarrow> json \<Rightarrow> (gerr, fsys) result" where
  "writeJSONFile fs path v =
     map_err (\<lambda>e. EWrap (''failed to create file '' @ go_quote path @ '': '') e []) (os_WriteFile fs path (JsonText v) 438)"

definition isYAMLPath :: "string \<Rightarrow> bool" where
  "isYAMLPath path = (ToLower (Ext path) \<in> {''.yaml'', ''.yml''})"

definition decodeConfigFile :: "yaml_lib \<Rightarrow> 'a decoder \<Rightarrow> fsys \<Rightarrow> string \<Rightarrow> 'a \<Rightarrow> (gerr, 'a) result" where
  "decodeConfigFile yl dec fs path v =
     bind_res (map_err (\<lambda>e. EWrap ''failed to open config file: '' e []) (os_ReadFile fs path)) (\<lambda>data.
       map_err (\<lambda>e. EWrap ''failed to decode config file: '' e [])
         (bind_res (yaml_Unmarshal yl data) (\<lambda>j. dec j v)))"

definition writeConfigFile :: "yaml_lib \<Rightarrow> fsys \<Rightarrow> string \<Rightarrow> json \<Rightarrow> (gerr, fsys) result" where
  "writeConfigFile yl fs path v =
     (if \<not> isYAMLPath path then writeJSONFile fs path v
      else bind_res (map_err (\<lambda>e. EWrap (''failed to encode yaml to '' @ go_quote path @ '': '') e []) (yaml_Marshal yl v)) (\<lambda>data.
             map_err (\<lambda>e. EWrap (''failed to write file '' @ go_quote path @ '': '') e []) (os_WriteFile fs path data 420)))"

section \<open>Loading\<close>

definition default_path :: "string \<Rightarrow> string" where
  "default_path p = (if TrimSpace p = [] then ''config.json'' else p)"

definition config_of_public :: "PublicConfig \<Rightarrow> Config" where
  "config_of_public p =
     \<lparr>PrivateKey = [], EndpointV4 = [], EndpointV6 = [], EndpointH2V4 = [], EndpointH2V6 = [],
      EndpointPubKey = [], License = [], ID = [], AccessToken = [], AccountMode = [], IPv4 = [], IPv6 = [],
      Socks = pub_Socks p, Registration = pub_Registration p, Logging = pub_Logging p\<rparr>"

text \<open>The end of \<open>LoadConfig\<close> and \<open>LoadPublicConfig\<close>: defaults for an empty block, normalisation.\<close>

definition socks_unset :: "SocksConfig \<Rightarrow> bool" where
  "socks_unset s =
     (Port s = [] \<and> BindAddress s = [] \<and> (case DNS s of None \<Rightarrow> True | Some ds \<Rightarrow> ds = []))"

definition socks_or_default :: "SocksConfig \<Rightarrow> SocksConfig" where
  "socks_or_default s = (if socks_unset s then GetDefaultSocksConfig else s)"

definition logging_or_default :: "LoggingConfig \<Rightarrow> LoggingConfig" where
  "logging_or_default l0 =
     (let d = GetDefaultLoggingConfig;
          l1 = (if TrimSpace (Level l0) = [] then l0\<lparr>Level := Level d\<rparr> else l0)
      in if TrimSpace (Format l1) = [] then l1\<lparr>Format := Format d\<rparr> else l1)"

text \<open>
  The step of \<open>LoadConfig\<close> that reads \<open>key.json\<close> or, when there is none and the file holds key
  fields, moves them there. It returns the configuration and the files after it, and the error.
\<close>

definition load_key :: "yaml_lib \<Rightarrow> string \<Rightarrow> Config \<Rightarrow> fsys \<Rightarrow> Config \<times> fsys \<times> gerr option" where
  "load_key yl configPath cfg fs =
     (let keyPath = keyConfigPath configPath in
      case os_ReadFile fs keyPath of
        Inr (JsonText j) \<Rightarrow>
          (case dec_struct key_fields j zeroKeyConfig of
             Inl e \<Rightarrow> (cfg, fs, Some (EWrap ''failed to decode key file: '' e []))
           | Inr keyCfg \<Rightarrow> (applyKeyConfig cfg keyCfg, fs, None))
      | Inr (OtherText _) \<Rightarrow> (cfg, fs, Some (EWrap ''failed to decode key file: '' (EText ''invalid character'') []))
      | Inl err \<Rightarrow>
          if errors_Is err ENotExist then
            (let legacyKey = extractKeyConfig cfg in
             if hasAnyKeyField legacyKey then
               (case writeJSONFile fs keyPath (key_json legacyKey) of
                  Inl e \<Rightarrow> (cfg, fs, Some (EWrap ''failed to write key file during migration: '' e []))
                | Inr fs1 \<Rightarrow>
                    (case writeConfigFile yl fs1 configPath (public_json (extractPublicConfig cfg)) of
                       Inl e \<Rightarrow> (cfg, fs1, Some (EWrap ''failed to rewrite config file during migration: '' e []))
                     | Inr fs2 \<Rightarrow> (cfg, fs2, None)))
             else (cfg, fs, None))
          else (cfg, fs, Some (EWrap ''failed to open key file: '' err [])))"

text \<open>
  On a normalisation error \<open>LoadConfig\<close> has already assigned the zero \<open>SocksConfig\<close> to \<open>AppConfig\<close>;
  \<open>LoadPublicConfig\<close> assigns only on success.
\<close>

definition LoadConfig :: "yaml_lib \<Rightarrow> app \<Rightarrow> string \<Rightarrow> app \<times> gerr option" where
  "LoadConfig yl a configPath0 =
     (let configPath = default_path configPath0 in
      case decodeConfigFile yl dec_legacy (app_fs a) configPath \<lparr>leg_Key = zeroKeyConfig, leg_Public = zeroPublicConfig\<rparr> of
        Inl e \<Rightarrow> (a, Some e)
      | Inr legacy \<Rightarrow>
          (let c0 = applyKeyConfig (config_of_public (leg_Public legacy)) (leg_Key legacy);
               (c1, fs1, err) = load_key yl configPath c0 (app_fs a);
               a1 = a\<lparr>AppConfig := c1, app_fs := fs1\<rparr>
           in case err of
                Some e \<Rightarrow> (a1, Some e)
              | None \<Rightarrow>
                  (case NormalizeSocksConfig (socks_or_default (Socks c1)) of
                     Inl e \<Rightarrow> (a1\<lparr>AppConfig := c1\<lparr>Socks := zeroSocksConfig\<rparr>\<rparr>, Some e)
                   | Inr s \<Rightarrow>
                       (a1\<lparr>AppConfig := c1\<lparr>Socks := s, Logging := logging_or_default (Logging c1)\<rparr>,
                           ConfigLoaded := True\<rparr>, None))))"

definition LoadPublicConfig :: "yaml_lib \<Rightarrow> app \<Rightarrow> string \<Rightarrow> app \<times> gerr option" where
  "LoadPublicConfig yl a configPath0 =
     (let configPath = default_path configPath0 in
      case decodeConfigFile yl (dec_struct public_fields) (app_fs a) configPath zeroPublicConfig of
        Inl e \<Rightarrow> (a, Some e)
      | Inr public \<Rightarrow>
          (let c0 = config_of_public public; c1 = c0\<lparr>Socks := socks_or_default (Socks c0)\<rparr>
           in case NormalizeSocksConfig (Socks c1) of
                Inl e \<Rightarrow> (a\<lparr>AppConfig := c1\<rparr>, Some e)
              | Inr s \<Rightarrow>
                  (a\<lparr>AppConfig := c1\<lparr>Socks := s, Logging := logging_or_default (Logging c1)\<rparr>,
                     ConfigLoaded := True\<rparr>, None)))"

section \<open>Saving\<close>

definition SavePublicConfig :: "yaml_lib \<Rightarrow> app \<Rightarrow> string \<Rightarrow> app \<times> gerr option" where
  "SavePublicConfig yl a configPath0 =
     (let configPath = default_path configPath0 in
      case NormalizeSocksConfig (Socks (AppConfig a)) of
        Inl e \<Rightarrow> (a, Some e)
      | Inr s \<Rightarrow>
          (case writeConfigFile yl (app_fs a) configPath
                  (public_json (extractPublicConfig ((AppConfig a)\<lparr>Socks := s\<rparr>))) of
             Inl e \<Rightarrow> (a, Some (EWrap ''failed to write config file: '' e []))
           | Inr fs1 \<Rightarrow> (a\<lparr>app_fs := fs1\<rparr>, None)))"

definition SaveConfig :: "yaml_lib \<Rightarrow> app \<Rightarrow> string \<Rightarrow> app \<times> gerr option" where
  "SaveConfig yl a configPath0 =
     (let configPath = default_path configPath0 in
      case NormalizeSocksConfig (Socks (AppConfig a)) of
        Inl e \<Rightarrow> (a, Some e)
      | Inr s \<Rightarrow>
          (let normalized = (AppConfig a)\<lparr>Socks := s\<rparr> in
           case writeConfigFile yl (app_fs a) configPath (public_json (extractPublicConfig normalized)) of
             Inl e \<Rightarrow> (a, Some (EWrap ''failed to write config file: '' e []))
           | Inr fs1 \<Rightarrow>
               (case writeJSONFile fs1 (keyConfigPath configPath) (key_json (extractKeyConfig normalized)) of
                  Inl e \<Rightarrow> (a\<lparr>app_fs := fs1\<rparr>, Some (EWrap ''failed to write key file: '' e []))
                | Inr fs2 \<Rightarrow> (a\<lparr>app_fs := fs2\<rparr>, None))))"

section \<open>Choosing the file\<close>

definition configFileCandidates :: "string list" where
  "configFileCandidates = [''config.yaml'', ''config.yml'', ''config.json'']"

definition ResolveConfigPath :: "fsys \<Rightarrow> string \<Rightarrow> string" where
  "ResolveConfigPath fs explicit =
     (if TrimSpace explicit \<noteq> [] then explicit
      else case find (os_StatOk fs) configFileCandidates of
             Some candidate \<Rightarrow> candidate
           | None \<Rightarrow> ''config.yaml'')"

text \<open>The result is the file system afterwards with the path and whether a migration happened, or the error.\<close>

definition MigrateLegacyJSONConfigPath ::
  "yaml_lib \<Rightarrow> fsys \<Rightarrow> string \<Rightarrow> fsys \<times> (gerr, string \<times> bool) result" where
  "MigrateLegacyJSONConfigPath yl fs explicit =
     (if TrimSpace explicit \<noteq> [] then (fs, Inr (explicit, False))
      else case find (os_StatOk fs) [''config.yaml'', ''config.yml''] of
        Some candidate \<Rightarrow> (fs, Inr (candidate, False))
      | None \<Rightarrow>
          let legacyPath = ''config.json''; newPath = ''config.yaml'' in
          if \<not> os_StatOk fs legacyPath then (fs, Inr (newPath, False))
          else case os_ReadFile fs legacyPath of
            Inl e \<Rightarrow> (fs, Inl (EWrap (''failed to read legacy config '' @ go_quote legacyPath @ '': '') e []))
          | Inr jsonData \<Rightarrow>
              (case yaml_JSONToYAML yl jsonData of
                 Inl e \<Rightarrow> (fs, Inl (EWrap (''failed to convert legacy config '' @ go_quote legacyPath @ '' to yaml: '') e []))
               | Inr yamlData \<Rightarrow>
                   (case os_WriteFile fs newPath yamlData 420 of
                      Inl e \<Rightarrow> (fs, Inl (EWrap (''failed to write '' @ go_quote newPath @ '' during migration: '') e []))
                    | Inr fs1 \<Rightarrow>
                        (case os_Rename fs1 legacyPath (legacyPath @ ''.bak'') of
                           Inl e \<Rightarrow> (fs1, Inl (EWrap (''failed to back up '' @ go_quote legacyPath @ '' during migration: '') e []))
                         | Inr fs2 \<Rightarrow> (fs2, Inr (newPath, True))))))"

definition InitNewConfig ::
  "[string, string, string, string, string, string, string, string, string, string, string] \<Rightarrow> Config" where
  "InitNewConfig privateKey endpointV4 endpointV6 endpointPubKey license ident accessToken accountMode ipv4 ipv6 deviceName =
     \<lparr>PrivateKey = privateKey, EndpointV4 = endpointV4, EndpointV6 = endpointV6,
      EndpointH2V4 = DefaultEndpointH2V4, EndpointH2V6 = DefaultEndpointH2V6, EndpointPubKey = endpointPubKey,
      License = license, ID = ident, AccessToken = accessToken, AccountMode = accountMode,
      IPv4 = ipv4, IPv6 = ipv6, Socks = GetDefaultSocksConfig,
      Registration = \<lparr>DeviceName = deviceName\<rparr>, Logging = GetDefaultLoggingConfig\<rparr>"

section \<open>The WireGuard account file\<close>

definition defaultWGAccountPath :: string where "defaultWGAccountPath = ''wg-account.json''"

record WGAccount =
  wga_DeviceID :: string
  wga_AccessToken :: string
  wga_License :: string
  wga_PrivateKey :: string
  wga_DeviceName :: string
  wga_Model :: string

definition zeroWGAccount :: WGAccount where
  "zeroWGAccount =
     \<lparr>wga_DeviceID = [], wga_AccessToken = [], wga_License = [], wga_PrivateKey = [], wga_DeviceName = [], wga_Model = []\<rparr>"

definition wg_account_fields :: "((string \<rightharpoonup> json) \<Rightarrow> WGAccount \<Rightarrow> (gerr, WGAccount) result) list" where
  "wg_account_fields =
     [field dec_string ''device_id'' wga_DeviceID wga_DeviceID_update,
      field dec_string ''access_token'' wga_AccessToken wga_AccessToken_update,
      field dec_string ''license'' wga_License wga_License_update,
      field dec_string ''private_key'' wga_PrivateKey wga_PrivateKey_update,
      field dec_string ''device_name'' wga_DeviceName wga_DeviceName_update,
      field dec_string ''model'' wga_Model wga_Model_update]"

definition wg_account_json :: "WGAccount \<Rightarrow> json" where
  "wg_account_json a = JObj
     [''device_id'' \<mapsto> JStr (wga_DeviceID a), ''access_token'' \<mapsto> JStr (wga_AccessToken a),
      ''license'' \<mapsto> JStr (wga_License a), ''private_key'' \<mapsto> JStr (wga_PrivateKey a),
      ''device_name'' \<mapsto> JStr (wga_DeviceName a), ''model'' \<mapsto> JStr (wga_Model a)]"

definition normalizeWGAccountPath :: "string \<Rightarrow> string" where
  "normalizeWGAccountPath path = (if TrimSpace path = [] then defaultWGAccountPath else path)"

definition WGAccount_Validate :: "WGAccount \<Rightarrow> gerr option" where
  "WGAccount_Validate a =
     (if TrimSpace (wga_PrivateKey a) = [] then Some (EText ''missing private_key in wg account'')
      else if TrimSpace (wga_DeviceID a) = [] then Some (EText ''missing device_id in wg account'')
      else if TrimSpace (wga_AccessToken a) = [] then Some (EText ''missing access_token in wg account'')
      else None)"

text \<open>When \<open>Chmod\<close> fails the file has been written; mode \<open>0o600\<close> is 384.\<close>

definition WGAccount_Save :: "fsys \<Rightarrow> WGAccount \<Rightarrow> string \<Rightarrow> fsys \<times> gerr option" where
  "WGAccount_Save fs a path0 =
     (case WGAccount_Validate a of
        Some e \<Rightarrow> (fs, Some e)
      | None \<Rightarrow>
          (let path = normalizeWGAccountPath path0 in
           case os_WriteFile fs path (JsonText (wg_account_json a)) 384 of
             Inl e \<Rightarrow> (fs, Some (EWrap ''write wg account: '' e []))
           | Inr fs1 \<Rightarrow>
               (case os_Chmod fs1 path 384 of
                  Inl e \<Rightarrow> (fs1, Some (EWrap ''chmod wg account: '' e []))
                | Inr fs2 \<Rightarrow> (fs2, None))))"

definition LoadWGAccount :: "fsys \<Rightarrow> string \<Rightarrow> (gerr, WGAccount) result" where
  "LoadWGAccount fs path =
     bind_res (map_err (\<lambda>e. EWrap ''read wg account: '' e []) (os_ReadFile fs (normalizeWGAccountPath path))) (\<lambda>raw.
       map_err (\<lambda>e. EWrap ''decode wg account: '' e [])
         (case raw of
            JsonText j \<Rightarrow> dec_struct wg_account_fields j zeroWGAccount
          | OtherText _ \<Rightarrow> Inl (EText ''invalid character'')))"

section \<open>Lemmas: normal form\<close>

text \<open>The invariant every loaded or saved SOCKS block satisfies.\<close>

definition socks_normal :: "SocksConfig \<Rightarrow> bool" where
  "socks_normal c =
     (BypassDomain c \<noteq> None \<and>
      (case ProxyTCPPort c of None \<Rightarrow> False | Some ps \<Rightarrow> distinct ps \<and> list_all valid_port ps) \<and>
      0 < KeepalivePeriod c \<and> 0 < L4HalfOpenTimeout c \<and> 0 < L4ConnectionTimeout c \<and> 0 < L4IdleTimeout c \<and>
      1 \<le> L4PoolSize c \<and> L4PoolSize c \<le> MaxL4PoolSize \<and>
      L4HalfOpenTimeout c \<le> L4IdleTimeout c \<and>
      L4UDP c \<in> {L4UDPBlock, L4UDPDirect, L4UDPTunnel})"

definition logging_normal :: "LoggingConfig \<Rightarrow> bool" where
  "logging_normal c =
     (Level c \<in> {''debug'', ''info'', ''warn'', ''error''} \<and> Format c \<in> {''text'', ''json''})"

lemma normalize_ports_loop_ok:
  assumes "list_all valid_port ps"
  shows "normalize_ports_loop seen acc ps = Inr (acc @ keep_first (filter (\<lambda>p. p \<notin> seen) ps))"
  using assms
proof (induction ps arbitrary: seen acc)
  case Nil
  then show ?case by simp
next
  case (Cons p ps)
  have "filter (\<lambda>y. y \<noteq> p) (keep_first (filter (\<lambda>q. q \<notin> seen) ps))
      = keep_first (filter (\<lambda>q. q \<notin> insert p seen) ps)"
    by (simp add: keep_first_filter filter_filter) (meson filter_cong)
  with Cons show ?case by simp
qed

lemma normalize_ports_loop_error:
  "\<not> list_all valid_port ps \<Longrightarrow>
     normalize_ports_loop seen acc ps
       = Inl (EText (''invalid proxy_tcp_port '' @ Itoa (the (find (\<lambda>p. \<not> valid_port p) ps))
                     @ '': must be between 1 and 65535''))"
  by (induction ps arbitrary: seen acc) auto

lemma normalizeProxyTCPPorts_ok:
  assumes "list_all valid_port (case ports of None \<Rightarrow> [] | Some ps \<Rightarrow> ps)"
  shows "normalizeProxyTCPPorts ports = Inr (Some (keep_first (case ports of None \<Rightarrow> [] | Some ps \<Rightarrow> ps)))"
  using assms by (auto simp: normalizeProxyTCPPorts_def normalize_ports_loop_ok split: option.splits)

lemma normalizeProxyTCPPorts_Inr:
  "normalizeProxyTCPPorts ports = Inr r \<longleftrightarrow>
     list_all valid_port (case ports of None \<Rightarrow> [] | Some ps \<Rightarrow> ps) \<and>
     r = Some (keep_first (case ports of None \<Rightarrow> [] | Some ps \<Rightarrow> ps))"
proof (cases "list_all valid_port (case ports of None \<Rightarrow> [] | Some ps \<Rightarrow> ps)")
  case True
  then show ?thesis by (auto simp: normalizeProxyTCPPorts_ok)
next
  case False
  then obtain ps where "ports = Some ps" "\<not> list_all valid_port ps" by (auto split: option.splits)
  moreover from this have "ps \<noteq> []" by auto
  ultimately show ?thesis by (simp add: normalizeProxyTCPPorts_def normalize_ports_loop_error)
qed

lemma ToLower_TrimSpace_modes [simp]:
  "ToLower (TrimSpace ''block'') = ''block''" "ToLower (TrimSpace ''direct'') = ''direct''"
  "ToLower (TrimSpace ''tunnel'') = ''tunnel''" "ToLower (TrimSpace ''debug'') = ''debug''"
  "ToLower (TrimSpace ''info'') = ''info''" "ToLower (TrimSpace ''warn'') = ''warn''"
  "ToLower (TrimSpace ''error'') = ''error''" "ToLower (TrimSpace ''text'') = ''text''"
  "ToLower (TrimSpace ''json'') = ''json''"
  by code_simp+

lemma normalizeL4UDP_fixed:
  "m \<in> {L4UDPBlock, L4UDPDirect, L4UDPTunnel} \<Longrightarrow> normalizeL4UDP m = Inr m"
  by (auto simp: normalizeL4UDP_def config_consts)

lemma normalizeL4UDP_range:
  "normalizeL4UDP v = Inr m \<Longrightarrow> m \<in> {L4UDPBlock, L4UDPDirect, L4UDPTunnel}"
  by (auto simp: normalizeL4UDP_def Let_def split: if_splits)

text \<open>The result of \<open>NormalizeSocksConfig\<close> in one record update.\<close>

lemma NormalizeSocksConfig_eq:
  "NormalizeSocksConfig cfg =
     bind_res (normalizeProxyTCPPorts (ProxyTCPPort cfg)) (\<lambda>ports.
     bind_res (normalizeL4UDP (L4UDP cfg)) (\<lambda>m.
       let idle = positive_or (L4IdleTimeout cfg) DefaultL4IdleTimeout in
       Inr (cfg\<lparr>ProxyTCPPort := (if ports = None then Some [] else ports),
            BypassDomain := (if BypassDomain cfg = None then Some [] else BypassDomain cfg),
            KeepalivePeriod := positive_or (KeepalivePeriod cfg) DefaultKeepalivePeriod,
            L4HalfOpenTimeout := min (positive_or (L4HalfOpenTimeout cfg) DefaultL4HalfOpenTimeout) idle,
            L4ConnectionTimeout := positive_or (L4ConnectionTimeout cfg) DefaultL4ConnectionTimeout,
            L4IdleTimeout := idle,
            L4PoolSize := max 1 (min (L4PoolSize cfg) MaxL4PoolSize),
            L4UDP := m\<rparr>)))"
proof -
  have pool: "min (if x < 1 then DefaultL4PoolSize else x) MaxL4PoolSize = max 1 (min x MaxL4PoolSize)" for x
    by (simp add: MaxL4PoolSize_def DefaultL4PoolSize_def)
  have half: "(if h > i then i else h) = min h i" for h i :: int
    by simp
  show ?thesis
    by (cases cfg) (simp add: NormalizeSocksConfig_def Let_def pool half cong: if_cong)
qed

lemma NormalizeSocksConfig_normal:
  assumes "NormalizeSocksConfig cfg = Inr n"
  shows "socks_normal n"
proof -
  have pos: "0 < positive_or d DefaultKeepalivePeriod" "0 < positive_or d DefaultL4HalfOpenTimeout"
    "0 < positive_or d DefaultL4ConnectionTimeout" "0 < positive_or d DefaultL4IdleTimeout" for d
    by (simp_all add: positive_or_def config_consts)
  from assms obtain ports m where
    pm: "normalizeProxyTCPPorts (ProxyTCPPort cfg) = Inr ports" "normalizeL4UDP (L4UDP cfg) = Inr m"
    by (auto simp: NormalizeSocksConfig_eq bind_res_eq_Inr)
  moreover from pm(1) obtain ps where "ports = Some ps" "distinct ps" "list_all valid_port ps"
    by (auto simp: normalizeProxyTCPPorts_Inr list_all_iff split: option.splits)
  moreover have "m \<in> {L4UDPBlock, L4UDPDirect, L4UDPTunnel}" using pm(2) by (rule normalizeL4UDP_range)
  ultimately show ?thesis
    using assms pos unfolding NormalizeSocksConfig_eq
    by (auto simp: socks_normal_def MaxL4PoolSize_def Let_def simp del: insert_iff)
qed

lemma NormalizeSocksConfig_fixed:
  assumes "socks_normal n"
  shows "NormalizeSocksConfig n = Inr n"
proof -
  from assms obtain ps where ps: "ProxyTCPPort n = Some ps" "distinct ps" "list_all valid_port ps"
    by (auto simp: socks_normal_def split: option.splits)
  then have "normalizeProxyTCPPorts (ProxyTCPPort n) = Inr (ProxyTCPPort n)"
    by (simp add: normalizeProxyTCPPorts_ok keep_first_distinct)
  moreover have "normalizeL4UDP (L4UDP n) = Inr (L4UDP n)"
    using assms by (intro normalizeL4UDP_fixed) (simp add: socks_normal_def)
  moreover have "min (L4HalfOpenTimeout n) (L4IdleTimeout n) = L4HalfOpenTimeout n"
    "max 1 (min (L4PoolSize n) MaxL4PoolSize) = L4PoolSize n" "BypassDomain n \<noteq> None"
    "positive_or (KeepalivePeriod n) d = KeepalivePeriod n" "positive_or (L4HalfOpenTimeout n) d = L4HalfOpenTimeout n"
    "positive_or (L4ConnectionTimeout n) d = L4ConnectionTimeout n"
    "positive_or (L4IdleTimeout n) d = L4IdleTimeout n" for d
    using assms by (simp_all add: socks_normal_def positive_or_def)
  ultimately show ?thesis
    using ps by (simp add: NormalizeSocksConfig_eq)
qed

interpretation socks_norm: normaliser NormalizeSocksConfig socks_normal
  by unfold_locales (auto intro: NormalizeSocksConfig_normal NormalizeSocksConfig_fixed)

lemma logging_normal_fixed: "logging_normal c \<Longrightarrow> NormalizeLoggingConfig c = (c, [])"
proof -
  assume c: "logging_normal c"
  then have "ToLower (TrimSpace (Level c)) = Level c" "Level c \<in> {''debug'', ''info'', ''warn'', ''error''}"
    unfolding logging_normal_def by (elim conjE insertE emptyE; simp)+
  moreover from c have "ToLower (TrimSpace (Format c)) = Format c" "Format c \<in> {''text'', ''json''}"
    unfolding logging_normal_def by (elim conjE insertE emptyE; simp)+
  moreover have "Level c \<noteq> []" "Format c \<noteq> []" using calculation by auto
  ultimately show ?thesis by (simp add: NormalizeLoggingConfig_def del: insert_iff) simp
qed

interpretation logging_norm: normaliser "\<lambda>c. Inr (fst (NormalizeLoggingConfig c))" logging_normal
proof
  show "logging_normal y" if "Inr (fst (NormalizeLoggingConfig x)) = Inr y" for x y
    using that by (auto simp: NormalizeLoggingConfig_def Let_def logging_normal_def GetDefaultLoggingConfig_def
        split: if_splits)
qed (simp add: logging_normal_fixed)

lemma default_socks_normal: "socks_normal GetDefaultSocksConfig"
  by (simp add: socks_normal_def GetDefaultSocksConfig_def config_consts)

section \<open>Lemmas: documents\<close>

text \<open>The numbers a Go value of the type can hold.\<close>

definition socks_valid :: "SocksConfig \<Rightarrow> bool" where
  "socks_valid c =
     (list_all int64 [ConnectPort c, MTU c, MaxReconnectAttempts c, L4PoolSize c, DNSTimeout c, KeepalivePeriod c,
        ReconnectDelay c, ConnectionTimeout c, IdleTimeout c, L4HalfOpenTimeout c, L4ConnectionTimeout c,
        L4IdleTimeout c] \<and>
      list_all int64 (case ProxyTCPPort c of None \<Rightarrow> [] | Some ps \<Rightarrow> ps))"

definition public_valid :: "PublicConfig \<Rightarrow> bool" where
  "public_valid c = socks_valid (pub_Socks c)"

lemma Duration_roundtrip:
  "int64 d \<Longrightarrow> Duration_UnmarshalJSON (Duration_MarshalJSON d) z = Inr d"
  by (simp add: Duration_MarshalJSON_def ParseDuration_DurationString)

interpretation duration_codec: codec Duration_MarshalJSON Duration_UnmarshalJSON int64
  by unfold_locales (simp add: Duration_roundtrip)

lemma socks_doc_roundtrip:
  assumes "socks_valid c"
  shows "dec_struct socks_fields (socks_json c) z = Inr c"
proof -
  have "\<forall>x \<in> set (case ProxyTCPPort c of None \<Rightarrow> [] | Some ys \<Rightarrow> ys). int64 x"
    using assms by (simp add: socks_valid_def list_all_iff)
  note ports = int_codec.slice_enc [OF this]
  have strs: "dec_slice z dec_string (enc_slice JStr xs) d = Inr xs" for z xs d
    by (rule str_codec.slice_enc) simp
  show ?thesis
    using assms
    by (simp add: socks_valid_def socks_fields_def socks_json_def Duration_roundtrip ports strs)
qed

interpretation socks_codec: codec socks_json "dec_struct socks_fields" socks_valid
  by unfold_locales (rule socks_doc_roundtrip)

interpretation logging_codec: codec logging_json "dec_struct logging_fields" "\<lambda>_. True"
  by unfold_locales (simp add: logging_fields_def logging_json_def)

interpretation registration_codec: codec registration_json "dec_struct registration_fields" "\<lambda>_. True"
  by unfold_locales (simp add: registration_fields_def registration_json_def)

interpretation public_codec: codec public_json "dec_struct public_fields" public_valid
  by unfold_locales (simp add: public_fields_def public_json_def public_valid_def socks_codec.dec_enc
      logging_codec.dec_enc registration_codec.dec_enc)

interpretation key_codec: codec key_json "dec_struct key_fields" "\<lambda>_. True"
  by unfold_locales (simp add: key_fields_def key_json_def)

interpretation wg_account_codec: codec wg_account_json "dec_struct wg_account_fields" "\<lambda>_. True"
  by unfold_locales (simp add: wg_account_fields_def wg_account_json_def)

text \<open>A public document holds no key field: as a legacy document it has an empty identity.\<close>

lemma dec_legacy_public:
  assumes "public_valid p"
  shows "dec_legacy (public_json p) \<lparr>leg_Key = zeroKeyConfig, leg_Public = z\<rparr>
    = Inr \<lparr>leg_Key = zeroKeyConfig, leg_Public = p\<rparr>"
proof -
  have "dec_struct key_fields (public_json p) zeroKeyConfig = Inr zeroKeyConfig"
    by (simp add: key_fields_def public_json_def)
  with assms show ?thesis by (simp add: dec_legacy_def public_codec.dec_enc)
qed

section \<open>Lemmas: files\<close>

lemma apply_extract: "applyKeyConfig (config_of_public (extractPublicConfig cfg)) (extractKeyConfig cfg) = cfg"
  by (cases cfg) (simp add: applyKeyConfig_def config_of_public_def extractPublicConfig_def extractKeyConfig_def)

lemma applyKeyConfig_overwrites: "applyKeyConfig (applyKeyConfig cfg k1) k2 = applyKeyConfig cfg k2"
  by (simp add: applyKeyConfig_def)

lemma extract_apply:
  "extractKeyConfig (applyKeyConfig cfg k) = k"
  "extractPublicConfig (applyKeyConfig (config_of_public p) k) = p"
  by (simp_all add: applyKeyConfig_def config_of_public_def extractPublicConfig_def extractKeyConfig_def)

lemma default_path_idem [simp]: "default_path (default_path p) = default_path p"
  by (simp add: default_path_def)

lemma keyConfigPath_default [simp]: "keyConfigPath (default_path p) = keyConfigPath p"
  by (simp add: keyConfigPath_def default_path_def)

lemma writeJSONFile_Inr:
  "writeJSONFile fs p v = Inr fs' \<longleftrightarrow> os_WriteFile fs p (JsonText v) 438 = Inr fs'"
  by (simp add: writeJSONFile_def)

text \<open>What a successful write leaves to be read, whatever the extension made it write.\<close>

lemma writeConfigFile_reads:
  assumes "yaml_spec yl" "writeConfigFile yl fs p v = Inr fs'" "\<not> fs_unreadable fs (Clean p)"
  shows "\<exists>c. os_ReadFile fs' p = Inr c \<and> yaml_Unmarshal yl c = Inr v"
proof (cases "isYAMLPath p")
  case False
  with assms have "os_WriteFile fs p (JsonText v) 438 = Inr fs'"
    by (simp add: writeConfigFile_def writeJSONFile_Inr)
  then have "os_ReadFile fs' p = Inr (JsonText v)" using assms(3) by (rule os_ReadFile_WriteFile)
  with assms(1) show ?thesis by (auto simp: yaml_spec_def)
next
  case True
  from assms(1) obtain c where c: "yaml_Marshal yl v = Inr c" "yaml_Unmarshal yl c = Inr v"
    unfolding yaml_spec_def by blast
  with True assms(2) have "os_WriteFile fs p c 420 = Inr fs'" by (simp add: writeConfigFile_def)
  then have "os_ReadFile fs' p = Inr c" using assms(3) by (rule os_ReadFile_WriteFile)
  with c show ?thesis by blast
qed

lemma writeConfigFile_writes:
  "writeConfigFile yl fs p v = Inr fs' \<Longrightarrow> \<exists>c m. os_WriteFile fs p c m = Inr fs'"
  by (auto simp: writeConfigFile_def writeJSONFile_Inr bind_res_eq_Inr split: if_splits)

lemma decodeConfigFile_Inr:
  assumes "os_ReadFile fs p = Inr c" "yaml_Unmarshal yl c = Inr j" "dec j z = Inr v"
  shows "decodeConfigFile yl dec fs p z = Inr v"
  using assms by (simp add: decodeConfigFile_def)

text \<open>Loading a pair of files that hold a public document and a key document.\<close>

lemma LoadConfig_split_files:
  assumes doc: "os_ReadFile (app_fs a) (default_path p) = Inr c" "yaml_Unmarshal yl c = Inr (public_json pub)"
    and key: "os_ReadFile (app_fs a) (keyConfigPath p) = Inr (JsonText (key_json k))"
    and pub: "public_valid pub" "NormalizeSocksConfig (socks_or_default (pub_Socks pub)) = Inr s"
  shows "LoadConfig yl a p =
    (a\<lparr>AppConfig := (applyKeyConfig (config_of_public pub) k)\<lparr>Socks := s, Logging := logging_or_default (pub_Logging pub)\<rparr>,
       ConfigLoaded := True\<rparr>, None)"
proof -
  have dec: "decodeConfigFile yl dec_legacy (app_fs a) (default_path p)
      \<lparr>leg_Key = zeroKeyConfig, leg_Public = zeroPublicConfig\<rparr> = Inr \<lparr>leg_Key = zeroKeyConfig, leg_Public = pub\<rparr>"
    using doc dec_legacy_public [OF pub(1)] by (rule decodeConfigFile_Inr)
  let ?c0 = "applyKeyConfig (config_of_public pub) zeroKeyConfig"
  have lk: "load_key yl (default_path p) ?c0 (app_fs a) = (applyKeyConfig (config_of_public pub) k, app_fs a, None)"
    using key by (simp add: load_key_def key_codec.dec_enc applyKeyConfig_overwrites)
  have "Socks (applyKeyConfig (config_of_public pub) k) = pub_Socks pub"
    "Logging (applyKeyConfig (config_of_public pub) k) = pub_Logging pub"
    by (simp_all add: applyKeyConfig_def config_of_public_def)
  with dec lk pub(2) show ?thesis by (simp add: LoadConfig_def)
qed

lemma NormalizeSocksConfig_frame [frame]:
  assumes "NormalizeSocksConfig c = Inr s"
  shows "Port s = Port c" "BindAddress s = BindAddress c" "DNS s = DNS c"
  using assms by (auto simp: NormalizeSocksConfig_eq bind_res_eq_Inr Let_def)

lemma SaveConfig_writes:
  assumes "SaveConfig yl a p = (a', None)"
  obtains s fs1 where "NormalizeSocksConfig (Socks (AppConfig a)) = Inr s"
    "writeConfigFile yl (app_fs a) (default_path p) (public_json (extractPublicConfig ((AppConfig a)\<lparr>Socks := s\<rparr>))) = Inr fs1"
    "os_WriteFile fs1 (keyConfigPath p) (JsonText (key_json (extractKeyConfig ((AppConfig a)\<lparr>Socks := s\<rparr>)))) 438 = Inr (app_fs a')"
    "a' = a\<lparr>app_fs := app_fs a'\<rparr>"
  using assms by (auto simp: SaveConfig_def Let_def writeJSONFile_Inr split: sum.splits)

lemma load_key_migrates:
  assumes "os_ReadFile fs (keyConfigPath p) = Inl ENotExist" "hasAnyKeyField (extractKeyConfig cfg)"
    and "load_key yl (default_path p) cfg fs = (cfg', fs', None)"
  obtains fs1 where "cfg' = cfg"
    "os_WriteFile fs (keyConfigPath p) (JsonText (key_json (extractKeyConfig cfg))) 438 = Inr fs1"
    "writeConfigFile yl fs1 (default_path p) (public_json (extractPublicConfig cfg)) = Inr fs'"
  using assms by (auto simp: load_key_def Let_def writeJSONFile_Inr split: sum.splits)

text \<open>A YAML library on which the hypothesis on the library holds: it writes JSON, which is YAML.\<close>

definition json_yaml :: yaml_lib where
  "json_yaml =
     \<lparr>yaml_Unmarshal = (\<lambda>c. case c of JsonText j \<Rightarrow> Inr j | OtherText _ \<Rightarrow> Inl (EText ''yaml'')),
      yaml_Marshal = (\<lambda>j. Inr (JsonText j)),
      yaml_JSONToYAML = (\<lambda>c. Inr c)\<rparr>"

lemma json_yaml_spec: "yaml_spec json_yaml"
  by (simp add: yaml_spec_def json_yaml_def)

definition empty_fs :: fsys where
  "empty_fs = \<lparr>fs_files = Map.empty, fs_unreadable = (\<lambda>_. False), fs_unwritable = (\<lambda>_. False), fs_mode = (\<lambda>_. 0)\<rparr>"

definition sample_config :: Config where
  "sample_config = InitNewConfig ''key'' ''162.159.198.1'' ''2606:4700::1'' ''pem'' ''lic'' ''dev-1'' ''tok'' ''free''
     ''172.16.0.2'' ''2606:4700:110::2'' ''host''"

text \<open>A configuration that was saved is read back, by whatever process reads the files.\<close>

lemma SaveConfig_then_LoadConfig:
  assumes yl: "yaml_spec yl" and save: "SaveConfig yl a p = (a', None)"
    and paths: "Clean (default_path p) \<noteq> Clean (keyConfigPath p)"
    and readable: "\<not> fs_unreadable (app_fs a) (Clean (default_path p))"
      "\<not> fs_unreadable (app_fs a) (Clean (keyConfigPath p))"
    and norm: "NormalizeSocksConfig (Socks (AppConfig a)) = Inr s" "socks_valid s"
    and set: "\<not> socks_unset (Socks (AppConfig a))"
    and files: "app_fs b = app_fs a'"
  shows "LoadConfig yl b p =
    (b\<lparr>AppConfig := (AppConfig a)\<lparr>Socks := s, Logging := logging_or_default (Logging (AppConfig a))\<rparr>,
        ConfigLoaded := True\<rparr>, None)"
proof -
  let ?cfg = "(AppConfig a)\<lparr>Socks := s\<rparr>"
  from save norm(1) obtain fs1 where
    w1: "writeConfigFile yl (app_fs a) (default_path p) (public_json (extractPublicConfig ?cfg)) = Inr fs1"
    and w2: "os_WriteFile fs1 (keyConfigPath p) (JsonText (key_json (extractKeyConfig ?cfg))) 438 = Inr (app_fs a')"
    by (elim SaveConfig_writes) auto
  have unread: "fs_unreadable fs1 = fs_unreadable (app_fs a)"
    using writeConfigFile_writes [OF w1] os_WriteFile_frame(1) by blast
  obtain c where c: "os_ReadFile fs1 (default_path p) = Inr c"
    "yaml_Unmarshal yl c = Inr (public_json (extractPublicConfig ?cfg))"
    using writeConfigFile_reads [OF yl w1 readable(1)] by blast
  have doc: "os_ReadFile (app_fs b) (default_path p) = Inr c"
    using os_ReadFile_WriteFile_other [OF w2 paths] c(1) files by simp
  have key: "os_ReadFile (app_fs b) (keyConfigPath p) = Inr (JsonText (key_json (extractKeyConfig ?cfg)))"
    unfolding files by (rule os_ReadFile_WriteFile [OF w2]) (simp add: readable(2) unread)
  have "\<not> socks_unset s"
    using set NormalizeSocksConfig_frame [OF norm(1)] by (simp add: socks_unset_def)
  then have n: "NormalizeSocksConfig (socks_or_default (pub_Socks (extractPublicConfig ?cfg))) = Inr s"
    using socks_norm.norm_idem [OF norm(1)] by (simp add: socks_or_default_def extractPublicConfig_def)
  have v: "public_valid (extractPublicConfig ?cfg)"
    using norm(2) by (simp add: public_valid_def extractPublicConfig_def)
  show ?thesis
    using LoadConfig_split_files [OF doc c(2) key v n]
    by (simp add: apply_extract) (simp add: extractPublicConfig_def)
qed

section \<open>Properties\<close>

text \<open>
  \<open>NormalizeSocksConfig\<close> accepts exactly the configurations whose TCP ports are all in
  1..65535 and whose UDP mode is one of the three modes up to case and blanks; every accepted
  configuration comes out in normal form (defaults filled in, pool size in 1..3, half-open bound
  at most the idle bound, ports distinct and valid) and is a fixed point of the function.
\<close>

theorem NormalizeSocksConfig_correct:
  "(is_ok (NormalizeSocksConfig cfg) \<longleftrightarrow>
      list_all valid_port (case ProxyTCPPort cfg of None \<Rightarrow> [] | Some ps \<Rightarrow> ps) \<and>
      ToLower (TrimSpace (L4UDP cfg)) \<in> {[], L4UDPBlock, L4UDPDirect, L4UDPTunnel}) \<and>
   (NormalizeSocksConfig cfg = Inr n \<longrightarrow> socks_normal n \<and> NormalizeSocksConfig n = Inr n)"
proof -
  have "is_ok (normalizeL4UDP (L4UDP cfg)) \<longleftrightarrow>
      ToLower (TrimSpace (L4UDP cfg)) \<in> {[], L4UDPBlock, L4UDPDirect, L4UDPTunnel}"
    by (simp add: normalizeL4UDP_def Let_def)
  moreover have "is_ok (NormalizeSocksConfig cfg) \<longleftrightarrow>
      is_ok (normalizeProxyTCPPorts (ProxyTCPPort cfg)) \<and> is_ok (normalizeL4UDP (L4UDP cfg))"
    by (cases "normalizeProxyTCPPorts (ProxyTCPPort cfg)"; cases "normalizeL4UDP (L4UDP cfg)")
      (simp_all add: NormalizeSocksConfig_eq Let_def)
  moreover have "is_ok (normalizeProxyTCPPorts (ProxyTCPPort cfg)) \<longleftrightarrow>
      list_all valid_port (case ProxyTCPPort cfg of None \<Rightarrow> [] | Some ps \<Rightarrow> ps)"
    by (simp add: is_ok_iff normalizeProxyTCPPorts_Inr)
  ultimately show ?thesis
    using socks_norm.norm_normal socks_norm.norm_idem by blast
qed

theorem NormalizeSocksConfig_correct_witness:
  "socks_normal (GetDefaultSocksConfig\<lparr>L4PoolSize := 3, L4UDP := ''tunnel''\<rparr>) \<and>
   is_ok (NormalizeSocksConfig (GetDefaultSocksConfig\<lparr>L4PoolSize := 9, L4UDP := '' Tunnel''\<rparr>))"
proof -
  have m: "normalizeL4UDP '' Tunnel'' = Inr ''tunnel''" by code_simp
  have "NormalizeSocksConfig (GetDefaultSocksConfig\<lparr>L4PoolSize := 9, L4UDP := '' Tunnel''\<rparr>)
      = Inr (GetDefaultSocksConfig\<lparr>L4PoolSize := 3, L4UDP := ''tunnel''\<rparr>)"
    by (simp add: NormalizeSocksConfig_eq GetDefaultSocksConfig_def normalizeProxyTCPPorts_def m
        MaxL4PoolSize_def positive_or_def config_consts)
  with NormalizeSocksConfig_correct [of "GetDefaultSocksConfig\<lparr>L4PoolSize := 9, L4UDP := '' Tunnel''\<rparr>"
      "GetDefaultSocksConfig\<lparr>L4PoolSize := 3, L4UDP := ''tunnel''\<rparr>"]
  show ?thesis by simp
qed

text \<open>
  \<open>normalizeProxyTCPPorts\<close> keeps the first occurrence of each port in the given order, and
  on a list with an invalid port returns the error that names the first invalid one.
\<close>

theorem normalizeProxyTCPPorts_correct:
  "normalizeProxyTCPPorts (Some ps) =
     (case find (\<lambda>p. \<not> valid_port p) ps of
        None \<Rightarrow> Inr (Some (keep_first ps))
      | Some p \<Rightarrow> Inl (EText (''invalid proxy_tcp_port '' @ Itoa p @ '': must be between 1 and 65535'')))"
proof (cases "list_all valid_port ps")
  case True
  then have "find (\<lambda>p. \<not> valid_port p) ps = None" by (simp add: find_None_iff list_all_iff)
  with True show ?thesis by (simp add: normalizeProxyTCPPorts_ok)
next
  case False
  then obtain p where "find (\<lambda>p. \<not> valid_port p) ps = Some p"
    by (metis find_None_iff list_all_iff not_None_eq)
  moreover have "ps \<noteq> []" using False by auto
  ultimately show ?thesis
    using normalize_ports_loop_error [OF False] by (simp add: normalizeProxyTCPPorts_def)
qed

text \<open>
  every 64-bit duration survives the configuration file: \<open>UnmarshalJSON\<close> reads back the text
  that \<open>MarshalJSON\<close> writes.
\<close>

theorem Duration_file_roundtrip:
  assumes "- (2 ^ 63) \<le> d" "d < 2 ^ 63"
  shows "Duration_UnmarshalJSON (Duration_MarshalJSON d) z = Inr d"
  using assms by (simp add: Duration_roundtrip)

theorem Duration_file_roundtrip_witness:
  "Duration_MarshalJSON 90500000000 = JStr ''1m30.5s'' \<and>
   Duration_UnmarshalJSON (Duration_MarshalJSON 90500000000) 0 = Inr 90500000000"
proof -
  have "DurationString 90500000000 = ''1m30.5s''"
    by (simp add: DurationString_def fmt_seconds_def fmtFrac_def dec_digits.simps Let_def)
  then show ?thesis using Duration_file_roundtrip [of 90500000000 0] by (simp add: Duration_MarshalJSON_def)
qed

text \<open>
  C37: what \<open>SaveConfig\<close> writes, \<open>LoadConfig\<close> on the same path reads back: the configuration with its
  SOCKS block normalised, the identity restored from \<open>key.json\<close>, and the files unchanged. It needs
  a SOCKS block that is not the empty one (which loading replaces by the defaults) and two
  different paths.
\<close>

theorem SaveConfig_LoadConfig:
  assumes yl: "yaml_spec yl" and save: "SaveConfig yl a p = (a', None)"
    and paths: "Clean (default_path p) \<noteq> Clean (keyConfigPath p)"
    and readable: "\<not> fs_unreadable (app_fs a) (Clean (default_path p))"
      "\<not> fs_unreadable (app_fs a) (Clean (keyConfigPath p))"
    and norm: "NormalizeSocksConfig (Socks (AppConfig a)) = Inr s" "socks_valid s"
    and set: "\<not> socks_unset (Socks (AppConfig a))"
  shows "LoadConfig yl a' p =
    (a'\<lparr>AppConfig := (AppConfig a)\<lparr>Socks := s, Logging := logging_or_default (Logging (AppConfig a))\<rparr>,
        ConfigLoaded := True\<rparr>, None)"
  by (rule SaveConfig_then_LoadConfig [OF assms refl])

theorem SaveConfig_LoadConfig_witness:
  "LoadConfig json_yaml
     (fst (SaveConfig json_yaml \<lparr>AppConfig = sample_config, ConfigLoaded = False, app_fs = empty_fs\<rparr> ''config.yaml'')) ''config.yaml''
   = ((fst (SaveConfig json_yaml \<lparr>AppConfig = sample_config, ConfigLoaded = False, app_fs = empty_fs\<rparr> ''config.yaml''))
        \<lparr>AppConfig := sample_config, ConfigLoaded := True\<rparr>, None)"
proof -
  let ?a = "\<lparr>AppConfig = sample_config, ConfigLoaded = False, app_fs = empty_fs\<rparr>"
  have n: "NormalizeSocksConfig (Socks (AppConfig ?a)) = Inr GetDefaultSocksConfig"
    by (simp add: sample_config_def InitNewConfig_def NormalizeSocksConfig_fixed default_socks_normal)
  have saved: "snd (SaveConfig json_yaml ?a ''config.yaml'') = None"
    using n by (simp add: SaveConfig_def Let_def writeConfigFile_def writeJSONFile_def json_yaml_def
        os_WriteFile_def empty_fs_def)
  have log: "logging_or_default (Logging sample_config) = Logging sample_config"
    by code_simp
  have paths: "Clean (default_path ''config.yaml'') \<noteq> Clean (keyConfigPath ''config.yaml'')"
    by code_simp
  have "LoadConfig json_yaml (fst (SaveConfig json_yaml ?a ''config.yaml'')) ''config.yaml''
      = ((fst (SaveConfig json_yaml ?a ''config.yaml''))\<lparr>AppConfig := (AppConfig ?a)\<lparr>Socks := GetDefaultSocksConfig,
           Logging := logging_or_default (Logging (AppConfig ?a))\<rparr>, ConfigLoaded := True\<rparr>, None)"
    using saved paths n
    by (intro SaveConfig_LoadConfig [OF json_yaml_spec])
      (simp_all add: prod_eq_iff empty_fs_def socks_valid_def GetDefaultSocksConfig_def config_consts
        socks_unset_def sample_config_def InitNewConfig_def)
  moreover have "(sample_config\<lparr>Socks := GetDefaultSocksConfig, Logging := Logging sample_config\<rparr>) = sample_config"
    by (simp add: sample_config_def InitNewConfig_def)
  ultimately show ?thesis using log by simp
qed

text \<open>
  loading an old single-file configuration that carries identity fields, with no \<open>key.json\<close>
  beside it, moves the identity into \<open>key.json\<close> and rewrites the configuration file without it;
  loading once more gives the same configuration and leaves both files alone.
\<close>

theorem LoadConfig_migrates_keys:
  assumes yl: "yaml_spec yl"
    and paths: "Clean (default_path p) \<noteq> Clean (keyConfigPath p)"
    and readable: "\<not> fs_unreadable (app_fs a) (Clean (default_path p))"
      "\<not> fs_unreadable (app_fs a) (Clean (keyConfigPath p))"
    and doc: "decodeConfigFile yl dec_legacy (app_fs a) (default_path p)
        \<lparr>leg_Key = zeroKeyConfig, leg_Public = zeroPublicConfig\<rparr> = Inr \<lparr>leg_Key = k, leg_Public = pub\<rparr>"
    and keys: "hasAnyKeyField k" "os_ReadFile (app_fs a) (keyConfigPath p) = Inl ENotExist"
    and pub: "public_valid pub"
    and load: "LoadConfig yl a p = (a1, None)"
  shows "os_ReadFile (app_fs a1) (keyConfigPath p) = Inr (JsonText (key_json k)) \<and>
    decodeConfigFile yl dec_legacy (app_fs a1) (default_path p)
      \<lparr>leg_Key = zeroKeyConfig, leg_Public = zeroPublicConfig\<rparr> = Inr \<lparr>leg_Key = zeroKeyConfig, leg_Public = pub\<rparr> \<and>
    extractKeyConfig (AppConfig a1) = k \<and>
    LoadConfig yl a1 p = (a1, None)"
proof -
  let ?c0 = "applyKeyConfig (config_of_public pub) k"
  have ex: "extractKeyConfig ?c0 = k" "extractPublicConfig ?c0 = pub" by (simp_all add: extract_apply)
  have frame0: "Socks ?c0 = pub_Socks pub" "Logging ?c0 = pub_Logging pub"
    by (simp_all add: applyKeyConfig_def config_of_public_def)
  obtain c1 fs' err where lk: "load_key yl (default_path p) ?c0 (app_fs a) = (c1, fs', err)"
    by (cases "load_key yl (default_path p) ?c0 (app_fs a)") auto
  have none: "err = None" using load doc lk by (cases err) (auto simp: LoadConfig_def Let_def)
  obtain fs1 where c1: "c1 = ?c0" and w1: "os_WriteFile (app_fs a) (keyConfigPath p) (JsonText (key_json k)) 438 = Inr fs1"
    and w2: "writeConfigFile yl fs1 (default_path p) (public_json pub) = Inr fs'"
    using load_key_migrates [of "app_fs a" p ?c0 yl c1 fs'] keys lk none ex by auto
  have a1: "a1 = a\<lparr>AppConfig := ?c0\<lparr>Socks := s, Logging := logging_or_default (pub_Logging pub)\<rparr>, app_fs := fs',
       ConfigLoaded := True\<rparr>" if "NormalizeSocksConfig (socks_or_default (pub_Socks pub)) = Inr s" for s
    using load doc lk none c1 frame0 that by (auto simp: LoadConfig_def Let_def)
  obtain s where s: "NormalizeSocksConfig (socks_or_default (pub_Socks pub)) = Inr s"
    using load doc lk none c1 frame0 by (auto simp: LoadConfig_def Let_def split: sum.splits)
  have unread: "fs_unreadable fs1 = fs_unreadable (app_fs a)" using os_WriteFile_frame(1) [OF w1] .
  obtain c where c: "os_ReadFile fs' (default_path p) = Inr c" "yaml_Unmarshal yl c = Inr (public_json pub)"
    using writeConfigFile_reads [OF yl w2] readable(1) unread by auto
  obtain d m where "os_WriteFile fs1 (default_path p) d m = Inr fs'" using writeConfigFile_writes [OF w2] by blast
  then have "os_ReadFile fs' (keyConfigPath p) = os_ReadFile fs1 (keyConfigPath p)"
    using paths by (intro os_ReadFile_WriteFile_other) auto
  then have key: "os_ReadFile fs' (keyConfigPath p) = Inr (JsonText (key_json k))"
    using os_ReadFile_WriteFile [OF w1 readable(2)] by simp
  have fs: "app_fs a1 = fs'" "extractKeyConfig (AppConfig a1) = k"
    using a1 [OF s] ex(1) by (simp_all add: extractKeyConfig_def applyKeyConfig_def)
  have again: "LoadConfig yl a1 p = (a1\<lparr>AppConfig := ?c0\<lparr>Socks := s, Logging := logging_or_default (pub_Logging pub)\<rparr>,
      ConfigLoaded := True\<rparr>, None)"
    using c key fs(1) pub s by (intro LoadConfig_split_files) auto
  then have "LoadConfig yl a1 p = (a1, None)" using a1 [OF s] by simp
  moreover have "decodeConfigFile yl dec_legacy fs' (default_path p)
      \<lparr>leg_Key = zeroKeyConfig, leg_Public = zeroPublicConfig\<rparr> = Inr \<lparr>leg_Key = zeroKeyConfig, leg_Public = pub\<rparr>"
    using c dec_legacy_public [OF pub] by (rule decodeConfigFile_Inr)
  ultimately show ?thesis using key fs by simp
qed

theorem LoadConfig_migrates_keys_witness:
  "\<exists>a1. LoadConfig json_yaml
       \<lparr>AppConfig = sample_config, ConfigLoaded = False,
        app_fs = empty_fs\<lparr>fs_files := [''config.json'' \<mapsto> JsonText (JObj [''private_key'' \<mapsto> JStr ''k''])]\<rparr>\<rparr> ''config.json''
     = (a1, None) \<and> extractKeyConfig (AppConfig a1) = zeroKeyConfig\<lparr>key_PrivateKey := ''k''\<rparr> \<and>
     LoadConfig json_yaml a1 ''config.json'' = (a1, None)"
proof -
  let ?fs = "empty_fs\<lparr>fs_files := [''config.json'' \<mapsto> JsonText (JObj [''private_key'' \<mapsto> JStr ''k''])]\<rparr>"
  let ?a = "\<lparr>AppConfig = sample_config, ConfigLoaded = False, app_fs = ?fs\<rparr>"
  let ?k = "zeroKeyConfig\<lparr>key_PrivateKey := ''k''\<rparr>"
  have str: "Clean ''config.json'' = ''config.json''" "keyConfigPath ''config.json'' = ''key.json''"
    "Clean ''key.json'' = ''key.json''" "default_path ''config.json'' = ''config.json''"
    "TrimSpace ''k'' = ''k''" "isYAMLPath ''config.json'' = False"
    by code_simp+
  have doc: "decodeConfigFile json_yaml dec_legacy (app_fs ?a) (default_path ''config.json'')
      \<lparr>leg_Key = zeroKeyConfig, leg_Public = zeroPublicConfig\<rparr> = Inr \<lparr>leg_Key = ?k, leg_Public = zeroPublicConfig\<rparr>"
    by (simp add: str decodeConfigFile_def os_ReadFile_def empty_fs_def json_yaml_def dec_legacy_def
        key_fields_def public_fields_def)
  have rd: "os_ReadFile (app_fs ?a) (keyConfigPath ''config.json'') = Inl ENotExist"
    by (simp add: str os_ReadFile_def)
  have hk: "hasAnyKeyField ?k" by (simp add: hasAnyKeyField_def str)
  have n: "NormalizeSocksConfig (socks_or_default zeroSocksConfig) = Inr GetDefaultSocksConfig"
    by (simp add: socks_or_default_def socks_unset_def zeroSocksConfig_def NormalizeSocksConfig_fixed default_socks_normal)
  have z: "Socks (applyKeyConfig (config_of_public zeroPublicConfig) ?k) = zeroSocksConfig"
    by (simp add: applyKeyConfig_def config_of_public_def zeroPublicConfig_def)
  have "snd (LoadConfig json_yaml ?a ''config.json'') = None"
    using doc rd hk n z
    by (simp add: LoadConfig_def load_key_def extract_apply writeJSONFile_def writeConfigFile_def os_WriteFile_def
        str Let_def empty_fs_def)
  then obtain a1 where load: "LoadConfig json_yaml ?a ''config.json'' = (a1, None)"
    by (metis prod.collapse)
  have v: "public_valid zeroPublicConfig"
    by (simp add: public_valid_def zeroPublicConfig_def socks_valid_def zeroSocksConfig_def)
  show ?thesis
    using LoadConfig_migrates_keys [OF json_yaml_spec _ _ _ doc hk rd v load] load
    by (simp add: str empty_fs_def)
qed

text \<open>
  \<open>MigrateLegacyJSONConfigPath\<close> on a directory with only \<open>config.json\<close> writes a \<open>config.yaml\<close> of
  the same document, keeps the original as \<open>config.json.bak\<close>, does not touch \<open>key.json\<close>, and has
  nothing left to do when it runs again; an explicit path is returned as it is, with no file changed.
\<close>

theorem MigrateLegacyJSONConfigPath_correct:
  assumes yl: "yaml_spec yl" and blank: "TrimSpace explicit = []"
    and absent: "fs_files fs ''config.yaml'' = None" "fs_files fs ''config.yml'' = None"
    and doc: "fs_files fs ''config.json'' = Some (JsonText j)"
    and access: "\<forall>q. \<not> fs_unreadable fs q \<and> \<not> fs_unwritable fs q"
  shows "(\<exists>fs' c. MigrateLegacyJSONConfigPath yl fs explicit = (fs', Inr (''config.yaml'', True)) \<and>
      os_ReadFile fs' ''config.yaml'' = Inr c \<and> yaml_Unmarshal yl c = Inr j \<and>
      os_ReadFile fs' ''config.json.bak'' = Inr (JsonText j) \<and> \<not> os_StatOk fs' ''config.json'' \<and>
      os_ReadFile fs' ''key.json'' = os_ReadFile fs ''key.json'' \<and>
      MigrateLegacyJSONConfigPath yl fs' explicit = (fs', Inr (''config.yaml'', False))) \<and>
    (TrimSpace path \<noteq> [] \<longrightarrow> MigrateLegacyJSONConfigPath yl fs path = (fs, Inr (path, False)))"
proof -
  have str: "Clean ''config.json'' = ''config.json''" "Clean ''config.yaml'' = ''config.yaml''"
    "Clean ''config.yml'' = ''config.yml''" "Clean ''config.json.bak'' = ''config.json.bak''"
    "Clean ''key.json'' = ''key.json''"
    by code_simp+
  obtain c where c: "yaml_JSONToYAML yl (JsonText j) = Inr c" "yaml_Unmarshal yl c = Inr j"
    using yl unfolding yaml_spec_def by blast
  define fs1 where "fs1 = fs\<lparr>fs_files := (fs_files fs)(''config.yaml'' \<mapsto> c), fs_mode := (fs_mode fs)(''config.yaml'' := 420)\<rparr>"
  define fs2 where "fs2 = fs1\<lparr>fs_files := ((fs_files fs1)(''config.json'' := None))(''config.json.bak'' \<mapsto> JsonText j),
      fs_mode := (fs_mode fs1)(''config.json.bak'' := fs_mode fs1 ''config.json'')\<rparr>"
  have w: "os_WriteFile fs ''config.yaml'' c 420 = Inr fs1"
    using absent access by (simp add: os_WriteFile_def str fs1_def)
  have r: "os_Rename fs1 ''config.json'' ''config.json.bak'' = Inr fs2"
    using doc access by (simp add: os_Rename_def str fs1_def fs2_def)
  have "MigrateLegacyJSONConfigPath yl fs explicit = (fs2, Inr (''config.yaml'', True))"
    using blank absent doc access c(1) w r
    by (simp add: MigrateLegacyJSONConfigPath_def os_StatOk_def os_ReadFile_def str)
  moreover have "os_StatOk fs2 ''config.yaml''" by (simp add: os_StatOk_def str fs2_def fs1_def)
  moreover from this have "MigrateLegacyJSONConfigPath yl fs2 explicit = (fs2, Inr (''config.yaml'', False))"
    using blank by (simp add: MigrateLegacyJSONConfigPath_def)
  moreover have "os_ReadFile fs2 ''config.yaml'' = Inr c" "os_ReadFile fs2 ''config.json.bak'' = Inr (JsonText j)"
    "\<not> os_StatOk fs2 ''config.json''" "os_ReadFile fs2 ''key.json'' = os_ReadFile fs ''key.json''"
    using access by (simp_all add: os_ReadFile_def os_StatOk_def str fs2_def fs1_def split: option.splits)
  ultimately show ?thesis using c(2) by (auto simp: MigrateLegacyJSONConfigPath_def)
qed

theorem MigrateLegacyJSONConfigPath_correct_witness:
  "snd (MigrateLegacyJSONConfigPath json_yaml (empty_fs\<lparr>fs_files := [''config.json'' \<mapsto> JsonText JNull]\<rparr>) [])
     = Inr (''config.yaml'', True)"
proof -
  have "TrimSpace [] = []" by (simp add: TrimSpace_def)
  then show ?thesis
    using MigrateLegacyJSONConfigPath_correct [OF json_yaml_spec, of "[]"
        "empty_fs\<lparr>fs_files := [''config.json'' \<mapsto> JsonText JNull]\<rparr>" JNull "[]"]
    by (auto simp: empty_fs_def)
qed

text \<open>
  a WireGuard account that \<open>Save\<close> accepts has the three required fields; the file ends with
  mode 0600 even when it existed before with another one, and \<open>LoadWGAccount\<close> reads the account
  back.
\<close>

theorem WGAccount_Save_Load:
  assumes "WGAccount_Save fs a p = (fs', None)"
    and "\<not> fs_unreadable fs (Clean (normalizeWGAccountPath p))"
  shows "LoadWGAccount fs' p = Inr a \<and> fs_mode fs' (Clean (normalizeWGAccountPath p)) = 384 \<and>
    TrimSpace (wga_PrivateKey a) \<noteq> [] \<and> TrimSpace (wga_DeviceID a) \<noteq> [] \<and> TrimSpace (wga_AccessToken a) \<noteq> []"
proof -
  let ?p = "normalizeWGAccountPath p"
  from assms(1) obtain fs1 where valid: "WGAccount_Validate a = None"
    and w: "os_WriteFile fs ?p (JsonText (wg_account_json a)) 384 = Inr fs1" and ch: "os_Chmod fs1 ?p 384 = Inr fs'"
    by (auto simp: WGAccount_Save_def Let_def split: option.splits sum.splits)
  have "os_ReadFile fs1 ?p = Inr (JsonText (wg_account_json a))"
    using w assms(2) by (rule os_ReadFile_WriteFile)
  moreover have "os_ReadFile fs' ?p = os_ReadFile fs1 ?p" "fs_mode fs' (Clean ?p) = 384"
    using ch by (auto simp: os_Chmod_def os_ReadFile_def split: if_splits option.splits)
  ultimately show ?thesis
    using valid
    by (auto simp: LoadWGAccount_def wg_account_codec.dec_enc WGAccount_Validate_def split: if_splits)
qed

theorem WGAccount_Save_Load_witness:
  "LoadWGAccount (fst (WGAccount_Save empty_fs
     \<lparr>wga_DeviceID = ''d'', wga_AccessToken = ''t'', wga_License = [], wga_PrivateKey = ''k'', wga_DeviceName = [], wga_Model = []\<rparr>
     [])) [] = Inr \<lparr>wga_DeviceID = ''d'', wga_AccessToken = ''t'', wga_License = [], wga_PrivateKey = ''k'', wga_DeviceName = [], wga_Model = []\<rparr>"
proof -
  let ?a = "\<lparr>wga_DeviceID = ''d'', wga_AccessToken = ''t'', wga_License = [], wga_PrivateKey = ''k'', wga_DeviceName = [], wga_Model = []\<rparr>"
  have t: "TrimSpace ''d'' = ''d''" "TrimSpace ''t'' = ''t''" "TrimSpace ''k'' = ''k''" by code_simp+
  have "snd (WGAccount_Save empty_fs ?a []) = None"
    by (simp add: WGAccount_Save_def WGAccount_Validate_def t os_WriteFile_def os_Chmod_def empty_fs_def Let_def)
  then have "WGAccount_Save empty_fs ?a [] = (fst (WGAccount_Save empty_fs ?a []), None)"
    by (metis prod.collapse)
  then show ?thesis
    using WGAccount_Save_Load [of empty_fs ?a "[]" "fst (WGAccount_Save empty_fs ?a [])"] by (simp add: empty_fs_def)
qed

end
