(* ===== verification/Go_Netip.thy ===== *)
theory Go_Netip
  imports Go_Strings
begin

text \<open>
  IP addresses as the Go packages \<open>net/netip\<close> and \<open>net\<close> parse and print them: dotted IPv4, IPv6
  with the double-colon ellipsis, an embedded IPv4 tail and a zone, address-with-port and prefix
  notation, and the 4- and 16-byte forms of \<open>net.IP\<close>.
\<close>

section \<open>Addresses\<close>

type_synonym octet = "8 word"

text \<open>\<open>netip.Addr\<close>: the zero value, an IPv4 address (4 bytes), an IPv6 address (16 bytes) with zone.\<close>

datatype addr = NoAddr | Addr4 "octet list" | Addr6 "octet list" string

fun wf_addr :: "addr \<Rightarrow> bool" where
  "wf_addr NoAddr = True"
| "wf_addr (Addr4 b) = (length b = 4)"
| "wf_addr (Addr6 b z) = (length b = 16)"

fun Is4 :: "addr \<Rightarrow> bool" where
  "Is4 (Addr4 b) = True" | "Is4 _ = False"

fun Is6 :: "addr \<Rightarrow> bool" where
  "Is6 (Addr6 b z) = True" | "Is6 _ = False"

fun Zone :: "addr \<Rightarrow> string" where
  "Zone (Addr6 b z) = z" | "Zone _ = []"

definition v4_in_v6_prefix :: "octet list" where
  "v4_in_v6_prefix = replicate 10 0 @ [255, 255]"

fun Is4In6 :: "addr \<Rightarrow> bool" where
  "Is4In6 (Addr6 b z) = (take 12 b = v4_in_v6_prefix)" | "Is4In6 _ = False"

fun Unmap :: "addr \<Rightarrow> addr" where
  "Unmap (Addr6 b z) = (if take 12 b = v4_in_v6_prefix then Addr4 (drop 12 b) else Addr6 b z)"
| "Unmap a = a"

fun BitLen :: "addr \<Rightarrow> int" where
  "BitLen NoAddr = 0" | "BitLen (Addr4 _) = 32" | "BitLen (Addr6 _ _) = 128"

section \<open>Parsing\<close>

datatype ip_error =
    LeadingZero | OctetTooLarge | EmptyField | TooLong | TooShort | UnexpectedChar
  | EmptyZone | GroupTooLong | NoHexDigit | MisplacedIPv4 | NoRoomForIPv4 | WantColon
  | DanglingColon | MultipleEllipsis | TrailingGarbage | UselessEllipsis
  | MissingAddress | UnableToParse

text \<open>
  \<open>parseIPv4Fields\<close>: the current octet's value and digit count, the finished octets, and whether
  the previous byte is absent or a dot.
\<close>

fun v4_loop :: "nat \<Rightarrow> nat \<Rightarrow> octet list \<Rightarrow> bool \<Rightarrow> string \<Rightarrow> (ip_error, octet list) result" where
  "v4_loop val dl fs dot [] = (if length fs < 3 then Inl TooShort else Inr (fs @ [of_nat val]))"
| "v4_loop val dl fs dot (c # s) =
     (if is_digit c then
        if dl = 1 \<and> val = 0 then Inl LeadingZero
        else let v = val * 10 + digit_val c
             in if v > 255 then Inl OctetTooLarge else v4_loop v (dl + 1) fs False s
      else if c = CHR ''.'' then
        if dot \<or> s = [] then Inl EmptyField
        else if length fs = 3 then Inl TooLong
        else v4_loop 0 0 (fs @ [of_nat val]) True s
      else Inl UnexpectedChar)"

definition parseIPv4 :: "string \<Rightarrow> (ip_error, addr) result" where
  "parseIPv4 s = bind_res (v4_loop 0 0 [] True s) (\<lambda>fs. Inr (Addr4 fs))"

definition hex_val :: "char \<Rightarrow> nat option" where
  "hex_val c =
     (if is_digit c then Some (digit_val c)
      else if 97 \<le> code c \<and> code c \<le> 102 then Some (code c - 87)
      else if 65 \<le> code c \<and> code c \<le> 70 then Some (code c - 55)
      else None)"

text \<open>The inner loop of \<open>parseIPv6\<close>: one hexadecimal group, its length and the rest of the input.\<close>

fun hex_scan :: "nat \<Rightarrow> nat \<Rightarrow> string \<Rightarrow> (ip_error, nat \<times> nat \<times> string) result" where
  "hex_scan off acc [] = Inr (acc, off, [])"
| "hex_scan off acc (c # s) =
     (case hex_val c of
        None \<Rightarrow> Inr (acc, off, c # s)
      | Some d \<Rightarrow>
          let a = acc * 16 + d
          in if off > 3 then Inl GroupTooLong
             else if a > 65535 then Inl OctetTooLarge
             else hex_scan (off + 1) a s)"

lemma hex_scan_length: "hex_scan off acc s = Inr (a, n, r) \<Longrightarrow> length r \<le> length s"
  by (induction s arbitrary: off acc) (fastforce simp: Let_def split: option.splits if_splits)+

text \<open>
  One pass of the outer loop of \<open>parseIPv6\<close> over the bytes so far, the position of the ellipsis and
  the rest of the input: it breaks out of the loop (\<open>V6Stop\<close>) or goes on (\<open>V6More\<close>).
\<close>

datatype v6_next =
    V6Stop "octet list" "nat option" string
  | V6More "octet list" "nat option" string

definition v6_step :: "octet list \<Rightarrow> nat option \<Rightarrow> string \<Rightarrow> (ip_error, v6_next) result" where
  "v6_step ip ell s =
     bind_res (hex_scan 0 0 s) (\<lambda>(acc, off, rest).
       if off = 0 then Inl NoHexDigit
       else if rest \<noteq> [] \<and> hd rest = CHR ''.'' then
         if ell = None \<and> length ip \<noteq> 12 then Inl MisplacedIPv4
         else if 16 < length ip + 4 then Inl NoRoomForIPv4
         else bind_res (v4_loop 0 0 [] True s) (\<lambda>fs. Inr (V6Stop (ip @ fs) ell []))
       else
         let ip' = ip @ [of_nat (acc div 256), of_nat (acc mod 256)]
         in case rest of
              [] \<Rightarrow> Inr (V6Stop ip' ell [])
            | c # s1 \<Rightarrow>
                if c \<noteq> CHR '':'' then Inl WantColon
                else (case s1 of
                        [] \<Rightarrow> Inl DanglingColon
                      | d # s2 \<Rightarrow>
                          if d = CHR '':'' then
                            if ell \<noteq> None then Inl MultipleEllipsis
                            else if s2 = [] then Inr (V6Stop ip' (Some (length ip')) [])
                            else Inr (V6More ip' (Some (length ip')) s2)
                          else Inr (V6More ip' ell s1)))"

lemma v6_step_More:
  assumes "v6_step ip ell s = Inr (V6More ip' ell' s')"
  shows "length s' < length s \<and> length ip' = length ip + 2 \<and> (ell' = ell \<or> ell' = Some (length ip'))"
proof -
  from assms obtain acc off rest where h: "hex_scan 0 0 s = Inr (acc, off, rest)"
    by (auto simp: v6_step_def bind_res_eq_Inr)
  with hex_scan_length [OF h] assms show ?thesis
    by (auto simp: v6_step_def Let_def bind_res_eq_Inr split: if_splits list.splits)
qed

function v6_loop ::
  "octet list \<Rightarrow> nat option \<Rightarrow> string \<Rightarrow> (ip_error, octet list \<times> nat option \<times> string) result" where
  "v6_loop ip ell s =
     (if 16 \<le> length ip then Inr (ip, ell, s)
      else case v6_step ip ell s of
             Inl e \<Rightarrow> Inl e
           | Inr (V6Stop ip' ell' s') \<Rightarrow> Inr (ip', ell', s')
           | Inr (V6More ip' ell' s') \<Rightarrow> v6_loop ip' ell' s')"
  by pat_completeness auto
termination
  by (relation "measure (\<lambda>(ip, ell, s). length s)") (auto dest!: v6_step_More)

definition v6_finish :: "string \<Rightarrow> octet list \<times> nat option \<times> string \<Rightarrow> (ip_error, addr) result" where
  "v6_finish zone r =
     (case r of (ip, ell, s) \<Rightarrow>
        if s \<noteq> [] then Inl TrailingGarbage
        else if length ip < 16 then
          (case ell of
             None \<Rightarrow> Inl TooShort
           | Some e \<Rightarrow> Inr (Addr6 (take e ip @ replicate (16 - length ip) 0 @ drop e ip) zone))
        else if ell \<noteq> None then Inl UselessEllipsis
        else Inr (Addr6 ip zone))"

definition parseIPv6 :: "string \<Rightarrow> (ip_error, addr) result" where
  "parseIPv6 s0 =
     (let (s, zone, bad) =
            (case IndexByte s0 CHR ''%'' of
               None \<Rightarrow> (s0, [], False)
             | Some i \<Rightarrow> (take i s0, drop (i + 1) s0, drop (i + 1) s0 = []))
      in if bad then Inl EmptyZone
         else if HasPrefix s ''::'' then
           (let t = drop 2 s
            in if t = [] then Inr (Addr6 (replicate 16 0) zone)
               else bind_res (v6_loop [] (Some 0) t) (v6_finish zone))
         else bind_res (v6_loop [] None s) (v6_finish zone))"

fun first_sep :: "string \<Rightarrow> char option" where
  "first_sep [] = None"
| "first_sep (c # s) = (if c \<in> set ''.:%'' then Some c else first_sep s)"

definition ParseAddr :: "string \<Rightarrow> (ip_error, addr) result" where
  "ParseAddr s =
     (case first_sep s of
        None \<Rightarrow> Inl UnableToParse
      | Some c \<Rightarrow> if c = CHR ''.'' then parseIPv4 s
                   else if c = CHR '':'' then parseIPv6 s
                   else Inl MissingAddress)"

section \<open>Printing\<close>

definition hex_char :: "nat \<Rightarrow> char" where
  "hex_char d = (if d < 10 then char_of (48 + d) else char_of (87 + d))"

fun hex_digits :: "nat \<Rightarrow> string" where
  "hex_digits n = (if n < 16 then [hex_char n] else hex_digits (n div 16) @ [hex_char (n mod 16)])"

fun groups :: "octet list \<Rightarrow> nat list" where
  "groups (a # b # r) = (unat a * 256 + unat b) # groups r"
| "groups _ = []"

text \<open>The longest run of at least two zero groups, the first one among equals.\<close>

fun zero_run :: "nat \<Rightarrow> nat list \<Rightarrow> nat \<times> nat \<Rightarrow> nat \<times> nat" where
  "zero_run i [] best = best"
| "zero_run i (g # gs) best =
     (let r = length (takeWhile (\<lambda>x. x = 0) (g # gs))
      in zero_run (i + 1) gs (if 2 \<le> r \<and> snd best < r then (i, r) else best))"

definition string4 :: "octet list \<Rightarrow> string" where
  "string4 b = join_with ''.'' (map (\<lambda>x. dec_digits (unat x)) b)"

definition string6 :: "octet list \<Rightarrow> string" where
  "string6 b =
     (let gs = groups b; (st, l) = zero_run 0 gs (255, 0)
      in if l = 0 then join_with '':'' (map hex_digits gs)
         else join_with '':'' (map hex_digits (take st gs)) @ ''::''
              @ join_with '':'' (map hex_digits (drop (st + l) gs)))"

fun AddrString :: "addr \<Rightarrow> string" where
  "AddrString NoAddr = ''invalid IP''"
| "AddrString (Addr4 b) = string4 b"
| "AddrString (Addr6 b z) =
     (if take 12 b = v4_in_v6_prefix then ''::ffff:'' @ string4 (drop 12 b) else string6 b)
     @ (if z = [] then [] else CHR ''%'' # z)"

section \<open>Address with port, prefixes\<close>

type_synonym addr_port = "addr \<times> nat"

definition parse_uint_max :: "nat \<Rightarrow> string \<Rightarrow> nat option" where
  "parse_uint_max m s = (case parse_digits s of None \<Rightarrow> None | Some n \<Rightarrow> if n \<le> m then Some n else None)"

definition ParseAddrPort :: "string \<Rightarrow> addr_port option" where
  "ParseAddrPort s =
     (case LastIndexByte s CHR '':'' of
        None \<Rightarrow> None
      | Some i \<Rightarrow>
          let ip = take i s; port = drop (i + 1) s
          in if ip = [] \<or> port = [] then None
             else let v6 = (hd ip = CHR ''['')
                  in if v6 \<and> (length ip < 2 \<or> last ip \<noteq> CHR '']'') then None
                     else (case parse_uint_max 65535 port of
                             None \<Rightarrow> None
                           | Some p \<Rightarrow>
                               (case ParseAddr (if v6 then butlast (tl ip) else ip) of
                                  Inl _ \<Rightarrow> None
                                | Inr a \<Rightarrow> if v6 = Is4 a then None else Some (a, p))))"

definition AddrPortString :: "addr_port \<Rightarrow> string" where
  "AddrPortString ap =
     (case ap of (a, p) \<Rightarrow>
        if a = NoAddr then ''invalid AddrPort''
        else if Is4 a then AddrString a @ '':'' @ dec_digits p
        else ''['' @ AddrString a @ '']:'' @ dec_digits p)"

type_synonym ip_prefix = "addr \<times> int"

definition ParsePrefix :: "string \<Rightarrow> ip_prefix option" where
  "ParsePrefix s =
     (case LastIndexByte s CHR ''/'' of
        None \<Rightarrow> None
      | Some i \<Rightarrow>
          (case ParseAddr (take i s) of
             Inl _ \<Rightarrow> None
           | Inr a \<Rightarrow>
               let bits = drop (i + 1) s
               in if Is6 a \<and> Zone a \<noteq> [] then None
                  else if 1 < length bits \<and> \<not> (49 \<le> code (hd bits) \<and> code (hd bits) \<le> 57) then None
                  else (case Atoi bits of
                          None \<Rightarrow> None
                        | Some n \<Rightarrow> if n < 0 \<or> BitLen a < n then None else Some (a, n))))"

definition PrefixString :: "ip_prefix \<Rightarrow> string" where
  "PrefixString p = AddrString (fst p) @ ''/'' @ Itoa (snd p)"

section \<open>net.IP\<close>

text \<open>A \<open>net.IP\<close> is its byte slice; nil is the empty list.\<close>

type_synonym ip = "octet list"

definition ParseIP :: "string \<Rightarrow> ip option" where
  "ParseIP s =
     (case ParseAddr s of
        Inr (Addr4 b) \<Rightarrow> Some (v4_in_v6_prefix @ b)
      | Inr (Addr6 b z) \<Rightarrow> if z = [] then Some b else None
      | _ \<Rightarrow> None)"

definition To4 :: "ip \<Rightarrow> ip option" where
  "To4 b =
     (if length b = 4 then Some b
      else if length b = 16 \<and> take 12 b = v4_in_v6_prefix then Some (drop 12 b)
      else None)"

definition To16 :: "ip \<Rightarrow> ip option" where
  "To16 b =
     (if length b = 4 then Some (v4_in_v6_prefix @ b)
      else if length b = 16 then Some b
      else None)"

definition IPEqual :: "ip \<Rightarrow> ip \<Rightarrow> bool" where
  "IPEqual a b =
     (if length a = length b then a = b
      else if length a = 4 \<and> length b = 16 then take 12 b = v4_in_v6_prefix \<and> a = drop 12 b
      else if length a = 16 \<and> length b = 4 then take 12 a = v4_in_v6_prefix \<and> drop 12 a = b
      else False)"

definition IPString :: "ip \<Rightarrow> string" where
  "IPString b =
     (if b = [] then ''<nil>''
      else case To4 b of
             Some p4 \<Rightarrow> string4 p4
           | None \<Rightarrow> if length b = 16 then AddrString (Addr6 b [])
                      else ''?'' @ concat (map (\<lambda>x. [hex_char (unat x div 16), hex_char (unat x mod 16)]) b))"

declare hex_digits.simps [simp del] v6_loop.simps [simp del]

section \<open>Parsed addresses are well formed\<close>

lemma v4_loop_length: "v4_loop val dl fs dot s = Inr r \<Longrightarrow> length fs \<le> 3 \<Longrightarrow> length r = 4"
  by (induction val dl fs dot s rule: v4_loop.induct)
    (auto simp: Let_def split: if_splits)

lemma v6_step_Stop:
  assumes "v6_step ip ell s = Inr (V6Stop ip' ell' s')" "length ip \<le> 14" "even (length ip)"
  shows "length ip' \<le> 16 \<and> (ell' = ell \<and> length ip \<le> length ip' \<or> ell' = Some (length ip'))"
  using assms v4_loop_length [of 0 0 "[]" True s]
  by (auto simp: v6_step_def Let_def bind_res_eq_Inr split: if_splits list.splits)

definition ell_ok :: "octet list \<Rightarrow> nat option \<Rightarrow> bool" where
  "ell_ok ip ell = (case ell of None \<Rightarrow> True | Some e \<Rightarrow> e \<le> length ip)"

lemma v6_loop_bound:
  "v6_loop ip ell s = Inr (ip', ell', r) \<Longrightarrow> length ip \<le> 16 \<Longrightarrow> even (length ip) \<Longrightarrow> ell_ok ip ell
   \<Longrightarrow> length ip' \<le> 16 \<and> ell_ok ip' ell'"
proof (induction ip ell s rule: v6_loop.induct)
  case (1 ip ell s)
  show ?case
  proof (cases "16 \<le> length ip")
    case True
    with "1.prems" show ?thesis by (simp add: v6_loop.simps [of ip ell s])
  next
    case False
    with "1.prems"(3) have small: "length ip \<le> 14" by presburger
    from "1.prems"(1) False obtain n where n: "v6_step ip ell s = Inr n"
      by (auto simp: v6_loop.simps [of ip ell s] split: sum.splits)
    show ?thesis
    proof (cases n)
      case (V6Stop a b c)
      with "1.prems" False n have "ip' = a" "ell' = b"
        by (auto simp: v6_loop.simps [of ip ell s])
      with v6_step_Stop n V6Stop small "1.prems" show ?thesis
        by (fastforce simp: ell_ok_def split: option.splits)
    next
      case (V6More a b c)
      have "v6_loop a b c = Inr (ip', ell', r)"
        using "1.prems" False n V6More by (simp add: v6_loop.simps [of ip ell s])
      moreover have "length a = length ip + 2" "b = ell \<or> b = Some (length a)"
        using v6_step_More [of ip ell s a b c] n V6More by auto
      ultimately show ?thesis
        using "1.IH" [OF False n V6More] "1.prems" small
        by (auto simp: ell_ok_def split: option.splits)
    qed
  qed
qed

lemma parseIPv6_wf: "parseIPv6 s = Inr a \<Longrightarrow> \<exists>b z. a = Addr6 b z \<and> length b = 16"
  by (auto simp: parseIPv6_def Let_def bind_res_eq_Inr v6_finish_def ell_ok_def
      dest!: v6_loop_bound split: option.splits if_splits prod.splits)

lemma ParseAddr_cases:
  assumes "ParseAddr s = Inr a"
  shows "(\<exists>b. a = Addr4 b \<and> length b = 4) \<or> (\<exists>b z. a = Addr6 b z \<and> length b = 16)"
  using assms
  by (auto simp: ParseAddr_def parseIPv4_def bind_res_eq_Inr dest!: v4_loop_length parseIPv6_wf
      split: option.splits if_splits)

lemma ParseAddr_wf: "ParseAddr s = Inr a \<Longrightarrow> wf_addr a \<and> a \<noteq> NoAddr"
  by (auto dest!: ParseAddr_cases)

lemma length_v4_in_v6_prefix [simp]: "length v4_in_v6_prefix = 12"
  by (simp add: v4_in_v6_prefix_def)

lemma ParseIP_length: "ParseIP s = Some b \<Longrightarrow> length b = 16"
  by (auto simp: ParseIP_def dest!: ParseAddr_cases split: sum.splits addr.splits if_splits)

section \<open>Printing and parsing IPv4\<close>

lemma dec_digits_lt_10: "n < 10 \<Longrightarrow> dec_digits n = [digit_char n]"
  by (subst dec_digits.simps) simp

lemma dec_digits_ge_10: "10 \<le> n \<Longrightarrow> dec_digits n = dec_digits (n div 10) @ [digit_char (n mod 10)]"
  by (subst dec_digits.simps) simp

lemma v4_loop_octet:
  assumes "n < 256"
  shows "\<exists>dl. v4_loop 0 0 fs dot (dec_digits n @ r) = v4_loop n dl fs False r"
proof -
  have d: "\<not> 9 < n mod 10" "\<not> 9 < (n div 10) mod 10" by simp_all
  consider "n < 10" | "10 \<le> n" "n < 100" | "100 \<le> n" by linarith
  then show ?thesis
  proof cases
    case 1
    then show ?thesis using assms by (auto simp: dec_digits_lt_10 Let_def)
  next
    case 2
    then have "dec_digits n = [digit_char (n div 10), digit_char (n mod 10)]"
      by (simp add: dec_digits_ge_10 dec_digits_lt_10 [of "n div 10"])
    moreover have "n div 10 < 10" "n div 10 \<noteq> 0" "n div 10 * 10 + n mod 10 = n" using 2 by auto
    ultimately show ?thesis using assms by (auto simp: Let_def)
  next
    case 3
    then have "dec_digits n = [digit_char (n div 10 div 10), digit_char (n div 10 mod 10), digit_char (n mod 10)]"
      using assms by (simp add: dec_digits_ge_10 dec_digits_lt_10 [of "n div 10 div 10"])
    moreover have "n div 10 div 10 < 10" "n div 10 div 10 \<noteq> 0"
      "n div 10 div 10 * 10 + n div 10 mod 10 = n div 10" "n div 10 * 10 + n mod 10 = n" "n div 10 < 256"
      using 3 assms by auto
    ultimately show ?thesis using assms by (auto simp: Let_def)
  qed
qed

lemma unat_octet: "unat (x :: octet) < 256"
  using unsigned_less [of x] by simp

lemma v4_loop_dot:
  "length fs < 3 \<Longrightarrow> r \<noteq> [] \<Longrightarrow>
   v4_loop (unat x) dl fs False (CHR ''.'' # r) = v4_loop 0 0 (fs @ [x]) True r"
  by (simp add: is_digit_def)

lemma v4_loop_string4:
  "v4_loop 0 0 [] True (string4 [a, b, c, d]) = Inr [a, b, c, d]"
proof -
  have step: "v4_loop 0 0 fs dot (dec_digits (unat x) @ CHR ''.'' # r) = v4_loop 0 0 (fs @ [x]) True r"
    if "length fs < 3" "r \<noteq> []" for fs dot x r
    using v4_loop_octet [OF unat_octet, of fs dot x "CHR ''.'' # r"] v4_loop_dot [OF that] by auto
  have fin: "v4_loop 0 0 [a, b, c] True (dec_digits (unat d)) = Inr [a, b, c, d]"
    using v4_loop_octet [OF unat_octet, of "[a, b, c]" True d "[]"] by auto
  show ?thesis by (simp add: string4_def step fin)
qed

lemma first_sep_digits: "list_all is_digit s \<Longrightarrow> first_sep (s @ t) = first_sep t"
  by (induction s) (auto simp: is_digit_def)

lemma first_sep_string4: "first_sep (string4 [a, b, c, d]) = Some CHR ''.''"
  by (simp add: string4_def first_sep_digits dec_digits_all_digit)

lemma ParseAddr_string4: "ParseAddr (string4 [a, b, c, d]) = Inr (Addr4 [a, b, c, d])"
  by (simp add: ParseAddr_def first_sep_string4 parseIPv4_def v4_loop_string4)

lemma list4_cases: "length b = 4 \<longleftrightarrow> (\<exists>x y z w. b = [x, y, z, w])"
  by (auto simp: numeral_eq_Suc length_Suc_conv)

lemma ParseAddr_AddrString4: "length b = 4 \<Longrightarrow> ParseAddr (AddrString (Addr4 b)) = Inr (Addr4 b)"
  by (auto simp: list4_cases ParseAddr_string4)

lemma ParseIP_string4: "length b = 4 \<Longrightarrow> ParseIP (string4 b) = Some (v4_in_v6_prefix @ b)"
  by (auto simp: list4_cases ParseIP_def ParseAddr_string4)

section \<open>The characters of printed addresses\<close>

text \<open>What holds of the hexadecimal digits, the dot and the colon holds of every character.\<close>

definition addr_chars :: "(char \<Rightarrow> bool) \<Rightarrow> bool" where
  "addr_chars Q = ((\<forall>d < 16. Q (hex_char d)) \<and> Q CHR ''.'' \<and> Q CHR '':'')"

lemma list_all_join: "list_all Q sep \<Longrightarrow> list_all (list_all Q) ss \<Longrightarrow> list_all Q (join_with sep ss)"
  by (induction sep ss rule: join_with.induct) auto

lemma dec_digits_chars: "addr_chars Q \<Longrightarrow> list_all Q (dec_digits n)"
proof (induction n rule: dec_digits.induct)
  case (1 n)
  have "Q (digit_char d)" if "d < 10" for d
    using 1 that by (auto simp: addr_chars_def hex_char_def digit_char_def dest!: spec [of _ d])
  with 1 show ?case by (subst dec_digits.simps) auto
qed

lemma hex_digits_chars: "addr_chars Q \<Longrightarrow> list_all Q (hex_digits n)"
proof (induction n rule: hex_digits.induct)
  case (1 n)
  then show ?case by (subst hex_digits.simps) (auto simp: addr_chars_def)
qed

lemma string4_chars: "addr_chars Q \<Longrightarrow> list_all Q (string4 b)"
proof -
  assume Q: "addr_chars Q"
  then have "list_all (list_all Q) (map (\<lambda>x. dec_digits (unat x)) b)" by (simp add: list.pred_map comp_def dec_digits_chars list_all_iff [of _ b])
  with Q show ?thesis unfolding string4_def by (intro list_all_join) (simp_all add: addr_chars_def)
qed

lemma groups_chars: "addr_chars Q \<Longrightarrow> list_all Q (join_with '':'' (map hex_digits gs))"
proof -
  assume Q: "addr_chars Q"
  then have "list_all (list_all Q) (map hex_digits gs)" by (simp add: list.pred_map comp_def hex_digits_chars list_all_iff [of _ gs])
  with Q show ?thesis by (intro list_all_join) (simp_all add: addr_chars_def)
qed

lemma string6_chars: "addr_chars Q \<Longrightarrow> list_all Q (string6 b)"
  using groups_chars [of Q] by (auto simp: string6_def Let_def addr_chars_def split: prod.split)

lemma hex_char_f: "hex_char 15 = CHR ''f''"
  by code_simp

lemma AddrString6_chars: "addr_chars Q \<Longrightarrow> list_all Q (AddrString (Addr6 b []))"
  using string4_chars [of Q] string6_chars [of Q] hex_char_f by (auto simp: addr_chars_def dest!: spec [of _ 15])

definition no_brackets :: "string \<Rightarrow> bool" where
  "no_brackets s = (CHR ''['' \<notin> set s \<and> CHR '']'' \<notin> set s)"

lemma no_brackets_simps [simp]:
  "no_brackets []" "no_brackets (c # s) = (c \<noteq> CHR ''['' \<and> c \<noteq> CHR '']'' \<and> no_brackets s)"
  "no_brackets (s @ t) = (no_brackets s \<and> no_brackets t)"
  by (auto simp: no_brackets_def)

lemma no_brackets_list_all: "no_brackets s = list_all (\<lambda>c. c \<noteq> CHR ''['' \<and> c \<noteq> CHR '']'') s"
  by (induction s) auto

lemma addr_chars_bracket: "addr_chars (\<lambda>c. c \<noteq> CHR ''['' \<and> c \<noteq> CHR '']'')"
proof -
  have "code (hex_char d) \<noteq> code CHR ''[''" "code (hex_char d) \<noteq> code CHR '']''" if "d < 16" for d
    using that by (auto simp: hex_char_def)
  then have "hex_char d \<noteq> CHR ''['' \<and> hex_char d \<noteq> CHR '']''" if "d < 16" for d using that by metis
  then show ?thesis by (simp add: addr_chars_def)
qed

lemma addr_chars_space: "addr_chars (\<lambda>c. \<not> is_space c)"
proof -
  have "code (hex_char d) > 32 \<and> code (hex_char d) < 128" if "d < 16" for d using that by (auto simp: hex_char_def)
  then show ?thesis by (fastforce simp: addr_chars_def is_space_def)
qed

lemma IPString_no_brackets: "no_brackets (IPString b)"
proof -
  have "no_brackets (concat (map (\<lambda>x. [hex_char (unat x div 16), hex_char (unat x mod 16)]) b))" for b :: ip
  proof (induction b)
    case (Cons x b)
    have "unat x div 16 < 16" "unat x mod 16 < 16" using unat_octet [of x] by auto
    with Cons addr_chars_bracket show ?case by (simp add: addr_chars_def)
  qed simp
  then show ?thesis
    using string4_chars [OF addr_chars_bracket] AddrString6_chars [OF addr_chars_bracket]
    by (auto simp: IPString_def no_brackets_list_all split: option.split)
qed

end
