(* ===== verification/Route_Policy.thy ===== *)
theory Route_Policy
  imports Config Go_Netip
begin

text \<open>
  The routing decision of a SOCKS CONNECT: \<open>src/cmd/bypass_domain.go\<close> (the domain matcher and the
  resolver that follows it) and \<open>src/cmd/route_policy.go\<close> (tunnel or direct). A nil pointer is
  \<open>None\<close>; a Go map used as a set is a set.
\<close>

section \<open>Bypass domains\<close>

function trim_dots :: "string \<Rightarrow> string" where
  "trim_dots s = (if HasSuffix s ''.'' then trim_dots (TrimSuffix s ''.'') else s)"
  by pat_completeness auto
termination
  by (relation "measure length") (auto simp: HasSuffix_def TrimSuffix_def)

declare trim_dots.simps [simp del]

definition normalizeBypassDomain :: "string \<Rightarrow> string" where
  "normalizeBypassDomain domain0 =
     (let d1 = TrimSpace (ToLower domain0) in
      if d1 = [] then []
      else
        let d2 = (case SplitHostPort d1 of Inr (host, _) \<Rightarrow> host | Inl _ \<Rightarrow> d1);
            d3 = Trim d2 ''[]'';
            d4 = TrimSuffix d3 ''.'';
            d5 = trim_dots d4
        in if Contains d5 ''/'' then [] else d5)"

record bypassDomainMatcher =
  domains :: "string set"

definition newBypassDomainMatcher :: "string list \<Rightarrow> bypassDomainMatcher" where
  "newBypassDomainMatcher ds =
     fold (\<lambda>raw m. let normalized = normalizeBypassDomain raw in
                    if normalized = [] then m else m\<lparr>domains := insert normalized (domains m)\<rparr>)
       ds \<lparr>domains = {}\<rparr>"

definition Enabled :: "bypassDomainMatcher option \<Rightarrow> bool" where
  "Enabled m = (case m of None \<Rightarrow> False | Some b \<Rightarrow> domains b \<noteq> {})"

function match_loop :: "string set \<Rightarrow> string \<Rightarrow> bool" where
  "match_loop ds normalized =
     (case IndexByte normalized CHR ''.'' of
        None \<Rightarrow> False
      | Some dot \<Rightarrow>
          if dot = 0 \<or> dot \<ge> length normalized - 1 then False
          else let rest = drop (dot + 1) normalized
               in if rest \<in> ds then True else match_loop ds rest)"
  by pat_completeness auto
termination
  by (relation "measure (\<lambda>(ds, n). length n)") (auto simp: IndexByte_Some)

declare match_loop.simps [simp del]

definition Match :: "bypassDomainMatcher option \<Rightarrow> string \<Rightarrow> bool" where
  "Match m host =
     (if \<not> Enabled m then False
      else
        let normalized = normalizeBypassDomain host in
        if normalized = [] then False
        else if is_ok (ParseAddr normalized) then False
        else normalized \<in> domains (the m) \<or> match_loop (domains (the m)) normalized)"

section \<open>The resolver that follows the matcher\<close>

record 'ip bypassAwareResolver =
  bar_matcher :: "bypassDomainMatcher option"
  localResolver :: "'ip resolver option"
  tunnelResolver :: "'ip resolver option"

definition newBypassAwareResolver ::
  "bypassDomainMatcher option \<Rightarrow> 'ip resolver option \<Rightarrow> 'ip resolver option \<Rightarrow> 'ip bypassAwareResolver" where
  "newBypassAwareResolver m l t = \<lparr>bar_matcher = m, localResolver = l, tunnelResolver = t\<rparr>"

definition bypass_Resolve :: "'ip bypassAwareResolver \<Rightarrow> string \<Rightarrow> (gerr, 'ip) result" where
  "bypass_Resolve r name =
     (if bar_matcher r \<noteq> None \<and> Match (bar_matcher r) name then
        (case localResolver r of
           None \<Rightarrow> Inl (EText ''local resolver is not configured'')
         | Some l \<Rightarrow> l name)
      else case tunnelResolver r of
        Some t \<Rightarrow> t name
      | None \<Rightarrow>
          (case localResolver r of
             Some l \<Rightarrow> l name
           | None \<Rightarrow> Inl (EText ''no resolver is configured'')))"

section \<open>Route policy\<close>

record socksTarget =
  Host :: string
  TargetPort :: int

record routePolicy =
  bypassMatcher :: "bypassDomainMatcher option"
  proxyTCPPorts :: "int set"
  proxyTCPPortList :: "int list"

definition slice_elems :: "'a list option \<Rightarrow> 'a list" where
  "slice_elems xs = (case xs of None \<Rightarrow> [] | Some ys \<Rightarrow> ys)"

definition newRoutePolicy :: "string list option \<Rightarrow> int list option \<Rightarrow> (gerr, routePolicy) result" where
  "newRoutePolicy bypassDomains ports =
     bind_res (NormalizeSocksConfig (zeroSocksConfig\<lparr>BypassDomain := bypassDomains, ProxyTCPPort := ports\<rparr>))
       (\<lambda>normalized.
          Inr \<lparr>bypassMatcher = Some (newBypassDomainMatcher (slice_elems (BypassDomain normalized))),
               proxyTCPPorts = fold insert (slice_elems (ProxyTCPPort normalized)) {},
               proxyTCPPortList = slice_elems (ProxyTCPPort normalized)\<rparr>)"

definition ProxyTCPPortsEnabled :: "routePolicy option \<Rightarrow> bool" where
  "ProxyTCPPortsEnabled p = (case p of None \<Rightarrow> False | Some r \<Rightarrow> proxyTCPPorts r \<noteq> {})"

definition ShouldUseTunTCP :: "routePolicy option \<Rightarrow> string \<Rightarrow> int \<Rightarrow> bool" where
  "ShouldUseTunTCP p host port =
     (case p of
        None \<Rightarrow> True
      | Some r \<Rightarrow>
          if ProxyTCPPortsEnabled p then port \<in> proxyTCPPorts r
          else bypassMatcher r = None \<or> \<not> Match (bypassMatcher r) host)"

definition selectTCPRoute :: "routePolicy option \<Rightarrow> string \<Rightarrow> socksTarget \<Rightarrow> bool" where
  "selectTCPRoute policy network target =
     (if policy = None \<or> \<not> HasPrefix network ''tcp'' then True
      else if TrimSpace (Host target) = [] \<or> TargetPort target \<le> 0 then True
      else ShouldUseTunTCP policy (Host target) (TargetPort target))"

section \<open>Lemmas\<close>

lemma trim_dots_no_dot: "\<not> HasSuffix (trim_dots s) ''.''"
  by (induction s rule: trim_dots.induct) (subst trim_dots.simps, auto simp: trim_dots.simps)

lemma domains_newBypassDomainMatcher:
  "domains (newBypassDomainMatcher ds) = normalizeBypassDomain ` set ds - {[]}"
proof -
  have "domains (fold (\<lambda>raw m. let normalized = normalizeBypassDomain raw in
      if normalized = [] then m else m\<lparr>domains := insert normalized (domains m)\<rparr>) ds m0)
    = domains m0 \<union> (normalizeBypassDomain ` set ds - {[]})" for m0 :: bypassDomainMatcher
    by (induction ds arbitrary: m0) (auto simp: Let_def)
  then show ?thesis by (simp add: newBypassDomainMatcher_def)
qed

lemma split_byte_nonempty [simp]: "split_byte c s \<noteq> []"
  by (induction s) (auto split: list.splits)

lemma split_byte_cons_sep: "split_byte c (pre @ c # suf) = split_byte c pre @ split_byte c suf"
proof (induction pre)
  case Nil
  then show ?case by simp
next
  case (Cons x pre)
  then show ?case by (cases "split_byte c pre") auto
qed

lemma match_loop_sound: "match_loop ds n \<Longrightarrow> \<exists>pre suf. n = pre @ CHR ''.'' # suf \<and> suf \<in> ds"
proof (induction ds n rule: match_loop.induct)
  case (1 ds n)
  from "1.prems" obtain dot where dot: "IndexByte n CHR ''.'' = Some dot" "\<not> (dot = 0 \<or> dot \<ge> length n - 1)"
    by (auto simp: match_loop.simps [of ds n] split: option.splits if_splits)
  then have n: "n = take dot n @ CHR ''.'' # drop (dot + 1) n"
    using IndexByte_split(1) by simp
  show ?case
  proof (cases "drop (dot + 1) n \<in> ds")
    case True
    with n show ?thesis by blast
  next
    case False
    with "1.prems" dot have "match_loop ds (drop (dot + 1) n)"
      by (simp add: match_loop.simps [of ds n])
    with "1.IH" [OF dot refl False] obtain pre suf where
      "drop (dot + 1) n = pre @ CHR ''.'' # suf" "suf \<in> ds" by blast
    with n have "n = (take dot n @ CHR ''.'' # pre) @ CHR ''.'' # suf" by simp
    with \<open>suf \<in> ds\<close> show ?thesis by blast
  qed
qed

lemma match_loop_complete:
  assumes "[] \<notin> set (split_byte CHR ''.'' n)" "n = pre @ CHR ''.'' # suf" "suf \<in> ds"
  shows "match_loop ds n"
  using assms
proof (induction ds n arbitrary: pre rule: match_loop.induct)
  case (1 ds n)
  obtain dot where dot: "IndexByte n CHR ''.'' = Some dot"
    using "1.prems"(2) IndexByte_None [of n "CHR ''.''"] by fastforce
  define rest where "rest = drop (dot + 1) n"
  have n: "n = take dot n @ CHR ''.'' # rest" and fresh: "CHR ''.'' \<notin> set (take dot n)"
    using IndexByte_split [OF dot] by (simp_all add: rest_def)
  have labels: "split_byte CHR ''.'' n = split_byte CHR ''.'' (take dot n) @ split_byte CHR ''.'' rest"
    using n split_byte_cons_sep by metis
  have "take dot n \<noteq> []" "rest \<noteq> []" and rest_ok: "[] \<notin> set (split_byte CHR ''.'' rest)"
    using "1.prems"(1) labels by (auto simp del: take_eq_Nil)
  then have go: "\<not> (dot = 0 \<or> dot \<ge> length n - 1)"
    by (auto simp: rest_def)
  show ?case
  proof (cases "rest \<in> ds")
    case True
    with dot go show ?thesis by (simp add: match_loop.simps [of ds n] rest_def)
  next
    case False
    have eq: "pre @ CHR ''.'' # suf = take dot n @ CHR ''.'' # rest" using "1.prems"(2) n by metis
    have "take dot n \<noteq> pre" using eq False "1.prems"(3) by auto
    moreover have "\<not> (\<exists>us. pre @ CHR ''.'' # us = take dot n)" using fresh by (metis in_set_conv_decomp)
    ultimately obtain us where "rest = us @ CHR ''.'' # suf"
      using eq by (auto simp: append_eq_append_conv2 Cons_eq_append_conv append_eq_Cons_conv)
    then have "match_loop ds rest"
      using "1.IH" [OF dot go rest_def False rest_ok] "1.prems"(3) by simp
    with dot go False show ?thesis by (simp add: match_loop.simps [of ds n] rest_def)
  qed
qed

section \<open>Properties\<close>

text \<open>
  C38: the matcher built from a list of domains matches a host exactly when the list has a domain
  whose normal form is the host's normal form or a suffix of it at a label boundary. The host is
  one that is not an IP literal and has no empty label after normalisation (an empty label ends
  the search).
\<close>

theorem Match_iff_label_suffix:
  assumes "h = normalizeBypassDomain host" "h \<noteq> []" "\<not> is_ok (ParseAddr h)"
    and "[] \<notin> set (split_byte CHR ''.'' h)"
  shows "Match (Some (newBypassDomainMatcher ds)) host \<longleftrightarrow>
    (\<exists>d \<in> set ds. normalizeBypassDomain d \<noteq> [] \<and>
       (h = normalizeBypassDomain d \<or> (\<exists>pre. h = pre @ CHR ''.'' # normalizeBypassDomain d)))"
proof -
  let ?D = "normalizeBypassDomain ` set ds - {[]}"
  have "Match (Some (newBypassDomainMatcher ds)) host \<longleftrightarrow> ?D \<noteq> {} \<and> (h \<in> ?D \<or> match_loop ?D h)"
    using assms by (auto simp: Match_def Enabled_def domains_newBypassDomainMatcher Let_def)
  also have "\<dots> \<longleftrightarrow> (h \<in> ?D \<or> (\<exists>pre suf. h = pre @ CHR ''.'' # suf \<and> suf \<in> ?D))"
  proof -
    have "match_loop ?D h \<longleftrightarrow> (\<exists>pre suf. h = pre @ CHR ''.'' # suf \<and> suf \<in> ?D)"
      by (rule iffI, erule match_loop_sound, elim exE conjE, rule match_loop_complete [OF assms(4)])
    then show ?thesis by (metis empty_iff)
  qed
  also have "\<dots> \<longleftrightarrow> (\<exists>d \<in> set ds. normalizeBypassDomain d \<noteq> [] \<and>
       (h = normalizeBypassDomain d \<or> (\<exists>pre. h = pre @ CHR ''.'' # normalizeBypassDomain d)))"
    by (auto simp: image_iff)
  finally show ?thesis .
qed

theorem Match_iff_label_suffix_witness:
  "Match (Some (newBypassDomainMatcher [''Example.com.''])) ''www.example.com:443'' \<and>
   \<not> Match (Some (newBypassDomainMatcher [''Example.com.''])) ''wwwexample.com''"
proof -
  have a: "''www.example.com'' = normalizeBypassDomain ''www.example.com:443''"
    and b: "''wwwexample.com'' = normalizeBypassDomain ''wwwexample.com''"
    and d: "normalizeBypassDomain ''Example.com.'' = ''example.com''"
    by code_simp+
  have ip: "\<not> is_ok (ParseAddr ''www.example.com'')" "\<not> is_ok (ParseAddr ''wwwexample.com'')"
    by code_simp+
  have l: "[] \<notin> set (split_byte CHR ''.'' ''www.example.com'')" "[] \<notin> set (split_byte CHR ''.'' ''wwwexample.com'')"
    by code_simp+
  have "''www.example.com'' = ''www'' @ CHR ''.'' # ''example.com''" by simp
  moreover have "\<not> (\<exists>pre. ''wwwexample.com'' = pre @ CHR ''.'' # ''example.com'')"
    by (auto simp: append_eq_Cons_conv Cons_eq_append_conv)
  ultimately show ?thesis
    using Match_iff_label_suffix [OF a _ ip(1) l(1), of "[''Example.com.'']"]
      Match_iff_label_suffix [OF b _ ip(2) l(2), of "[''Example.com.'']"] d
    by (auto simp del: append.simps)
qed

text \<open>
  the route of a TCP request under a policy built from the configuration: with a port list,
  the tunnel carries exactly the listed ports and the bypass domains do not matter; with no port
  list, it carries exactly the hosts the bypass matcher does not match. Anything else than TCP, a
  blank host or a port below 1 goes through the tunnel.
\<close>

theorem selectTCPRoute_policy:
  assumes "newRoutePolicy ds ports = Inr p"
  shows "selectTCPRoute (Some p) network t \<longleftrightarrow>
    (\<not> HasPrefix network ''tcp'' \<or> TrimSpace (Host t) = [] \<or> TargetPort t \<le> 0 \<or>
     (if slice_elems ports \<noteq> [] then TargetPort t \<in> set (slice_elems ports)
      else \<not> Match (Some (newBypassDomainMatcher (slice_elems ds))) (Host t)))"
proof -
  from assms obtain n where n: "NormalizeSocksConfig (zeroSocksConfig\<lparr>BypassDomain := ds, ProxyTCPPort := ports\<rparr>) = Inr n"
    and p: "p = \<lparr>bypassMatcher = Some (newBypassDomainMatcher (slice_elems (BypassDomain n))),
               proxyTCPPorts = set (slice_elems (ProxyTCPPort n)),
               proxyTCPPortList = slice_elems (ProxyTCPPort n)\<rparr>"
    by (auto simp: newRoutePolicy_def bind_res_eq_Inr union_set_fold [symmetric])
  from n have "slice_elems (BypassDomain n) = slice_elems ds"
    "set (slice_elems (ProxyTCPPort n)) = set (slice_elems ports)"
    by (auto simp: NormalizeSocksConfig_eq bind_res_eq_Inr normalizeProxyTCPPorts_Inr Let_def slice_elems_def
        split: option.splits)
  with p show ?thesis
    by (auto simp: selectTCPRoute_def ShouldUseTunTCP_def ProxyTCPPortsEnabled_def)
qed

theorem selectTCPRoute_policy_witness:
  "\<exists>p. newRoutePolicy (Some [''lan'']) (Some [443]) = Inr p \<and>
     selectTCPRoute (Some p) ''tcp'' \<lparr>Host = ''a.lan'', TargetPort = 443\<rparr> \<and>
     \<not> selectTCPRoute (Some p) ''tcp'' \<lparr>Host = ''b.org'', TargetPort = 80\<rparr>"
proof -
  have "is_ok (newRoutePolicy (Some [''lan'']) (Some [443]))"
    by (simp add: newRoutePolicy_def NormalizeSocksConfig_eq zeroSocksConfig_def normalizeProxyTCPPorts_ok
        valid_port_def normalizeL4UDP_def TrimSpace_def Let_def)
  then obtain p where p: "newRoutePolicy (Some [''lan'']) (Some [443]) = Inr p" by (auto simp: is_ok_iff)
  have "HasPrefix ''tcp'' ''tcp''" "TrimSpace ''a.lan'' = ''a.lan''" "TrimSpace ''b.org'' = ''b.org''"
    by code_simp+
  with selectTCPRoute_policy [OF p, of "''tcp''"] p show ?thesis
    by (simp add: slice_elems_def)
qed

end
