(* ===== verification/Go_Sync.thy ===== *)
theory Go_Sync
  imports Prelude
begin

text \<open>
  The contracts of the small synchronisation idioms the program repeats, as locales: a channel of
  capacity one used as a wake-up token, a close that runs once, a counting semaphore acquired
  without blocking. Each is interpreted in the theory of every component that has one.
\<close>

section \<open>Wake-up tokens\<close>

text \<open>
  \<open>signal\<close> is the non-blocking send on a channel of capacity one, \<open>recv\<close> the receive (\<open>None\<close>: it
  blocks), \<open>drain\<close> the non-blocking receive.
\<close>

locale demand_gate =
  fixes signal :: "'s \<Rightarrow> 's" and recv :: "'s \<Rightarrow> 's option" and drain :: "'s \<Rightarrow> 's"
    and pending :: "'s \<Rightarrow> bool"
  assumes pending_signal: "pending (signal s)"
    and signal_pending: "pending s \<Longrightarrow> signal s = s"
    and recv_some: "pending s \<Longrightarrow> recv s = Some (drain s)"
    and recv_none: "\<not> pending s \<Longrightarrow> recv s = None"
    and pending_drain: "\<not> pending (drain s)"
    and drain_idle: "\<not> pending s \<Longrightarrow> drain s = s"
begin

lemma burst_coalesces: "(signal ^^ Suc n) s = signal s"
  by (induction n) (auto simp: pending_signal signal_pending)

lemma burst_wakes_once: "recv ((signal ^^ Suc n) s) = Some (drain (signal s)) \<and> recv (drain (signal s)) = None"
  using burst_coalesces recv_some [OF pending_signal] recv_none [OF pending_drain] by metis

lemma drain_forgets: "recv (drain s) = None"
  by (rule recv_none [OF pending_drain])

lemma recv_iff_pending: "recv s \<noteq> None \<longleftrightarrow> pending s"
  by (cases "pending s") (auto simp: recv_some recv_none)

end

text \<open>
  A tunnel behind such a token: \<open>is_up\<close> is the flag its dialers read, \<open>set_up\<close> is how the callbacks of
  the maintenance loop write it. A refused dial leaves a token, an established connection
  takes it away.
\<close>

locale tunnel_gate = demand_gate signal recv drain pending
  for signal :: "'s \<Rightarrow> 's" and recv :: "'s \<Rightarrow> 's option" and drain :: "'s \<Rightarrow> 's" and pending :: "'s \<Rightarrow> bool" +
  fixes is_up :: "'s \<Rightarrow> bool" and set_up :: "bool \<Rightarrow> 's \<Rightarrow> 's"
  assumes is_up_set: "is_up (set_up b s) = b"
    and is_up_signal: "is_up (signal s) = is_up s"
    and is_up_drain: "is_up (drain s) = is_up s"
    and pending_set: "pending (set_up b s) = pending s"
begin

lemma connected_serves: "is_up (drain (set_up True s)) \<and> recv (drain (set_up True s)) = None"
  by (simp add: is_up_drain is_up_set drain_forgets)

lemma refused_wakes: "\<not> is_up s \<Longrightarrow> \<exists>t. recv (signal s) = Some t \<and> \<not> is_up t \<and> recv t = None"
  by (auto simp: recv_some [OF pending_signal] is_up_drain is_up_signal drain_forgets)

lemma drop_keeps_demand: "recv (set_up False s) \<noteq> None \<longleftrightarrow> recv s \<noteq> None"
  unfolding recv_iff_pending by (rule pending_set)

end

section \<open>Closing once\<close>

text \<open>\<open>effects\<close> counts the times the wrapped resource was really released.\<close>

locale close_once =
  fixes close :: "'s \<Rightarrow> 's" and closed :: "'s \<Rightarrow> bool" and effects :: "'s \<Rightarrow> nat"
  assumes close_open: "\<not> closed s \<Longrightarrow> closed (close s) \<and> effects (close s) = Suc (effects s)"
    and close_closed: "closed s \<Longrightarrow> close s = s"
begin

lemma closed_close: "closed (close s)"
  by (cases "closed s") (auto simp: close_open close_closed)

lemma close_again: "close (close s) = close s"
  by (rule close_closed) (rule closed_close)

lemma close_many: "(close ^^ Suc n) s = close s"
  by (induction n) (auto simp: close_again)

lemma released_once: "\<not> closed s \<Longrightarrow> effects ((close ^^ Suc n) s) = Suc (effects s)"
  unfolding close_many by (simp add: close_open)

end

section \<open>Counting semaphores\<close>

text \<open>\<open>acquire\<close> gives \<open>None\<close> when the limit is reached; the holders are counted by \<open>held\<close>.\<close>

locale counting_sem =
  fixes acquire :: "'s \<Rightarrow> 's option" and release :: "'s \<Rightarrow> 's" and held :: "'s \<Rightarrow> nat" and limit :: nat
  assumes acquire_some: "acquire s = Some t \<Longrightarrow> held s < limit \<and> held t = Suc (held s)"
    and acquire_none: "acquire s = None \<Longrightarrow> limit \<le> held s"
    and held_release: "held (release s) = held s - 1"
begin

lemma acquire_bound: "acquire s = Some t \<Longrightarrow> held t \<le> limit"
  using acquire_some by fastforce

lemma acquire_release: "acquire s = Some t \<Longrightarrow> held (release t) = held s"
  using acquire_some held_release by fastforce

lemma release_frees: "held s \<le> limit \<Longrightarrow> 0 < held s \<Longrightarrow> \<exists>t. acquire (release s) = Some t"
  using acquire_none [of "release s"] held_release [of s] by (cases "acquire (release s)") auto

end

end
