(* ===== verification/Socks_Runtime.thy ===== *)
theory Socks_Runtime
  imports Go_Sync Go_Strings
begin

text \<open>
  The runtime every transport drives: \<open>src/cmd/socks_runtime.go\<close> (the tunnel flag, the demand
  channel, the tracked client connections and the dial gate) and \<open>src/cmd/tunnel_health_state.go\<close>
  (the state file of the container health check). A raw connection is a number; the runtime's
  heap of managed connections maps a number to the wrapper.
\<close>

section \<open>The state file\<close>

datatype sf_step = SMkdir | SOpen | SWrite | SSync | SClose | SRename

text \<open>\<open>sf_path\<close> is empty when the feature is off; \<open>sf_fail\<close> says which system calls fail.\<close>

record state_file =
  sf_path :: string
  sf_files :: "string \<rightharpoonup> string"
  sf_fail :: "sf_step \<Rightarrow> bool"

definition tunnelStateUp :: string where "tunnelStateUp = ''up''"
definition tunnelStateDown :: string where "tunnelStateDown = ''down''"

text \<open>\<open>os.Remove(tmpPath)\<close> runs on every return after the temporary file was opened.\<close>

definition remove_tmp :: "string \<Rightarrow> state_file \<Rightarrow> state_file" where
  "remove_tmp tmp s = s\<lparr>sf_files := (sf_files s)(tmp := None)\<rparr>"

definition writeTunnelState :: "string \<Rightarrow> state_file \<Rightarrow> state_file \<times> gerr option" where
  "writeTunnelState state0 s =
     (let state = TrimSpace (ToLower state0); path = sf_path s; tmpPath = path @ ''.tmp'';
          opened = s\<lparr>sf_files := (sf_files s)(tmpPath \<mapsto> [])\<rparr>;
          written = s\<lparr>sf_files := (sf_files s)(tmpPath \<mapsto> state @ ''\<newline>'')\<rparr>
      in if state \<noteq> tunnelStateUp \<and> state \<noteq> tunnelStateDown then (s, Some (EText (''invalid tunnel state '' @ go_quote state)))
         else if path = [] then (s, None)
         else if sf_fail s SMkdir then (s, Some (EText ''create state dir''))
         else if sf_fail s SOpen then (s, Some (EText ''create temp state file''))
         else if sf_fail s SWrite then (remove_tmp tmpPath opened, Some (EText ''write state file''))
         else if sf_fail s SSync then (remove_tmp tmpPath written, Some (EText ''sync state file''))
         else if sf_fail s SClose then (remove_tmp tmpPath written, Some (EText ''close state file''))
         else if sf_fail s SRename then (remove_tmp tmpPath written, Some (EText ''replace state file''))
         else (remove_tmp tmpPath
                 (written\<lparr>sf_files := ((sf_files written)(tmpPath := None))(path \<mapsto> state @ ''\<newline>'')\<rparr>), None))"

definition writeTunnelStateSafe :: "string \<Rightarrow> state_file \<Rightarrow> state_file" where
  "writeTunnelStateSafe state s = fst (writeTunnelState state s)"

definition publishTunnelState :: "bool \<Rightarrow> state_file \<Rightarrow> state_file" where
  "publishTunnelState up = writeTunnelStateSafe (if up then tunnelStateUp else tunnelStateDown)"

section \<open>The runtime\<close>

record managedConn =
  mc_conn :: nat
  mc_once :: bool

text \<open>
  \<open>rt_closes\<close> counts the \<open>Close\<close> calls each raw connection received and \<open>rt_close_err\<close> is what they
  return; \<open>activeConns\<close> holds the numbers of the tracked wrappers.
\<close>

record socksRuntime =
  tunnelUp :: bool
  verboseLogging :: bool
  demand :: bool
  activeConns :: "nat list"
  managed :: "managedConn list"
  rt_closes :: "nat \<Rightarrow> nat"
  rt_close_err :: "nat \<Rightarrow> gerr option"
  rt_file :: state_file

definition ErrTunnelDisconnected :: gerr where
  "ErrTunnelDisconnected = EText ''tunnel disconnected''"

definition newSocksRuntime :: "(nat \<Rightarrow> gerr option) \<Rightarrow> state_file \<Rightarrow> socksRuntime" where
  "newSocksRuntime close_err file =
     \<lparr>tunnelUp = False, verboseLogging = False, demand = False, activeConns = [], managed = [],
      rt_closes = (\<lambda>_. 0), rt_close_err = close_err, rt_file = publishTunnelState False file\<rparr>"

definition SignalDemand :: "socksRuntime \<Rightarrow> socksRuntime" where
  "SignalDemand r = r\<lparr>demand := True\<rparr>"

text \<open>\<open>None\<close>: the call is still blocked. The context is cancelled or not.\<close>

definition WaitForReconnectDemand :: "bool \<Rightarrow> socksRuntime \<Rightarrow> (socksRuntime \<times> gerr option) list" where
  "WaitForReconnectDemand ctx_done r =
     (if ctx_done then [(r, Some ECanceled)] else []) @ (if demand r then [(r\<lparr>demand := False\<rparr>, None)] else [])"

definition drainDemand :: "socksRuntime \<Rightarrow> socksRuntime" where
  "drainDemand r = (if demand r then r\<lparr>demand := False\<rparr> else r)"

definition SetTunnelUp :: "bool \<Rightarrow> socksRuntime \<Rightarrow> socksRuntime" where
  "SetTunnelUp up r =
     (let old = tunnelUp r; r1 = r\<lparr>tunnelUp := up\<rparr>
      in if old \<noteq> up then r1\<lparr>rt_file := publishTunnelState up (rt_file r1)\<rparr> else r1)"

definition SetVerboseLogging :: "bool \<Rightarrow> socksRuntime \<Rightarrow> socksRuntime" where
  "SetVerboseLogging enabled r = r\<lparr>verboseLogging := enabled\<rparr>"

definition IsTunnelUp :: "'a socksRuntime_scheme \<Rightarrow> bool" where
  "IsTunnelUp r = tunnelUp r"

definition VerboseLoggingEnabled :: "'a socksRuntime_scheme \<Rightarrow> bool" where
  "VerboseLoggingEnabled r = verboseLogging r"

text \<open>The dialer can run for a while: the runtime after it is the one the dialer returns.\<close>

definition rt_DialContext ::
  "('a socksRuntime_scheme \<Rightarrow> 'a socksRuntime_scheme \<times> (gerr, 'c) result)
     \<Rightarrow> 'a socksRuntime_scheme \<Rightarrow> 'a socksRuntime_scheme \<times> (gerr, 'c) result" where
  "rt_DialContext upstreamDial r =
     (if \<not> tunnelUp r then (r, Inl ErrTunnelDisconnected)
      else
        let (r1, res) = upstreamDial r in
        case res of
          Inl err \<Rightarrow> if \<not> tunnelUp r1 then (r1, Inl ErrTunnelDisconnected) else (r1, Inl err)
        | Inr conn \<Rightarrow> (r1, Inr conn))"

definition close_raw :: "nat \<Rightarrow> socksRuntime \<Rightarrow> socksRuntime" where
  "close_raw c r = r\<lparr>rt_closes := (rt_closes r)(c := Suc (rt_closes r c))\<rparr>"

definition DropIfDisconnected :: "nat \<Rightarrow> socksRuntime \<Rightarrow> socksRuntime \<times> bool" where
  "DropIfDisconnected conn r =
     (if tunnelUp r then (r, False)
      else (close_raw conn (SignalDemand r), True))"

definition TrackConn :: "nat \<Rightarrow> socksRuntime \<Rightarrow> socksRuntime \<times> nat" where
  "TrackConn conn r =
     (let m = length (managed r)
      in (r\<lparr>managed := managed r @ [\<lparr>mc_conn = conn, mc_once = False\<rparr>], activeConns := activeConns r @ [m]\<rparr>, m))"

definition managed_Close :: "nat \<Rightarrow> socksRuntime \<Rightarrow> socksRuntime \<times> gerr option" where
  "managed_Close m r =
     (if m < length (managed r) \<and> \<not> mc_once (managed r ! m) then
        let c = mc_conn (managed r ! m);
            r1 = r\<lparr>managed := (managed r)[m := (managed r ! m)\<lparr>mc_once := True\<rparr>]\<rparr>;
            r2 = close_raw c r1
        in (r2\<lparr>activeConns := filter (\<lambda>k. k \<noteq> m) (activeConns r2)\<rparr>, rt_close_err r c)
      else (r, None))"

text \<open>
  The half-close and the idle timeout go to the raw connection when it has the operation: \<open>cw\<close> and \<open>set_idle\<close> are
  \<open>None\<close> at a connection without it.
\<close>

definition managed_CloseWrite :: "(nat \<Rightarrow> gerr option option) \<Rightarrow> nat \<Rightarrow> socksRuntime \<Rightarrow> gerr option" where
  "managed_CloseWrite cw m r = (case cw (mc_conn (managed r ! m)) of Some err \<Rightarrow> err | None \<Rightarrow> None)"

definition managed_SetIdleTimeout :: "(nat \<Rightarrow> (duration \<Rightarrow> 'w \<Rightarrow> 'w) option) \<Rightarrow> nat \<Rightarrow> duration \<Rightarrow> socksRuntime \<Rightarrow> 'w \<Rightarrow> 'w" where
  "managed_SetIdleTimeout set_idle m d r w = (case set_idle (mc_conn (managed r ! m)) of Some f \<Rightarrow> f d w | None \<Rightarrow> w)"

definition drainActiveConnections :: "socksRuntime \<Rightarrow> socksRuntime \<times> nat" where
  "drainActiveConnections r =
     fold (\<lambda>m (r, count). (fst (managed_Close m r), Suc count)) (activeConns r) (r, 0)"

definition ResetTrackedConns :: "socksRuntime \<Rightarrow> socksRuntime" where
  "ResetTrackedConns r = fst (drainActiveConnections r)"

definition activeConnCount :: "socksRuntime \<Rightarrow> nat" where
  "activeConnCount r = fold (\<lambda>_ n. Suc n) (activeConns r) 0"

section \<open>Reachable runtimes\<close>

text \<open>
  The operations other goroutines run on the runtime, in any order. The accept loop
  (\<open>acceptConn\<close>) first drops the connection when the tunnel is down and tracks it otherwise; every
  accepted connection is a new one.
\<close>

datatype rt_op =
  OpSignal | OpDrain | OpReceive | OpUp bool | OpVerbose bool | OpAccept nat | OpClose nat | OpReset

definition accept_conn :: "nat \<Rightarrow> socksRuntime \<Rightarrow> socksRuntime" where
  "accept_conn conn r =
     (let (r1, dropped) = DropIfDisconnected conn r in if dropped then r1 else fst (TrackConn conn r1))"

fun rt_exec :: "rt_op \<Rightarrow> socksRuntime \<Rightarrow> socksRuntime" where
  "rt_exec OpSignal r = SignalDemand r"
| "rt_exec OpDrain r = drainDemand r"
| "rt_exec OpReceive r = (case WaitForReconnectDemand False r of [] \<Rightarrow> r | (r1, _) # _ \<Rightarrow> r1)"
| "rt_exec (OpUp up) r = SetTunnelUp up r"
| "rt_exec (OpVerbose b) r = SetVerboseLogging b r"
| "rt_exec (OpAccept c) r = accept_conn c r"
| "rt_exec (OpClose m) r = fst (managed_Close m r)"
| "rt_exec OpReset r = ResetTrackedConns r"

fun rt_enabled :: "rt_op \<Rightarrow> socksRuntime \<Rightarrow> bool" where
  "rt_enabled (OpAccept c) r = (rt_closes r c = 0 \<and> c \<notin> set (map mc_conn (managed r)))"
| "rt_enabled _ r = True"

inductive rt_reach :: "(nat \<Rightarrow> gerr option) \<Rightarrow> state_file \<Rightarrow> socksRuntime \<Rightarrow> bool" for ce f where
  rt_init: "rt_reach ce f (newSocksRuntime ce f)"
| rt_step: "rt_reach ce f r \<Longrightarrow> rt_enabled op r \<Longrightarrow> rt_reach ce f (rt_exec op r)"

text \<open>
  The invariant: a wrapper is tracked exactly until it is closed, and the raw connection below it
  has been closed once when the wrapper is closed and never before.
\<close>

definition conns_inv :: "socksRuntime \<Rightarrow> bool" where
  "conns_inv r =
     (distinct (map mc_conn (managed r)) \<and> distinct (activeConns r) \<and> set (activeConns r) \<subseteq> {..<length (managed r)} \<and>
      (\<forall>m < length (managed r).
         (m \<in> set (activeConns r)) = (\<not> mc_once (managed r ! m)) \<and>
         rt_closes r (mc_conn (managed r ! m)) = (if mc_once (managed r ! m) then 1 else 0)))"

definition state_text :: "bool \<Rightarrow> string" where
  "state_text up = (if up then ''up\<newline>'' else ''down\<newline>'')"

definition file_inv :: "socksRuntime \<Rightarrow> bool" where
  "file_inv r =
     (sf_path (rt_file r) \<noteq> [] \<and> (\<forall>st. \<not> sf_fail (rt_file r) st) \<longrightarrow>
        sf_files (rt_file r) (sf_path (rt_file r)) = Some (state_text (tunnelUp r)))"

section \<open>Lemmas: the state file\<close>

lemma state_strings:
  "TrimSpace (ToLower tunnelStateUp) = tunnelStateUp" "TrimSpace (ToLower tunnelStateDown) = tunnelStateDown"
  "tunnelStateUp @ ''\<newline>'' = state_text True" "tunnelStateDown @ ''\<newline>'' = state_text False"
  by code_simp+

lemma publishTunnelState_frame [frame, simp]:
  "sf_path (publishTunnelState up s) = sf_path s" "sf_fail (publishTunnelState up s) = sf_fail s"
  by (auto simp: publishTunnelState_def writeTunnelStateSafe_def writeTunnelState_def Let_def remove_tmp_def)

lemma publishTunnelState_written:
  assumes "sf_path s \<noteq> []" "\<forall>st. \<not> sf_fail s st"
  shows "sf_files (publishTunnelState up s) (sf_path s) = Some (state_text up)"
  using assms
  by (cases up) (simp_all add: publishTunnelState_def writeTunnelStateSafe_def writeTunnelState_def Let_def
      remove_tmp_def state_strings)

text \<open>Whatever fails, the file holds its old text or the new state, and no temporary file is left.\<close>

lemma writeTunnelState_atomic:
  assumes "sf_files s (sf_path s @ ''.tmp'') = None"
  shows "sf_files (fst (writeTunnelState st s)) = sf_files s \<or>
    snd (writeTunnelState st s) = None \<and>
    sf_files (fst (writeTunnelState st s)) = (sf_files s)(sf_path s \<mapsto> TrimSpace (ToLower st) @ ''\<newline>'')"
  using assms by (auto simp: writeTunnelState_def Let_def remove_tmp_def)

section \<open>Lemmas: demand\<close>

interpretation rt_gate: tunnel_gate SignalDemand
  "\<lambda>r. case WaitForReconnectDemand False r of [] \<Rightarrow> None | (r1, _) # _ \<Rightarrow> Some r1" drainDemand demand
  tunnelUp SetTunnelUp
  by unfold_locales
    (auto simp: SignalDemand_def WaitForReconnectDemand_def drainDemand_def SetTunnelUp_def Let_def)

section \<open>Lemmas: tracked connections\<close>

lemma managed_Close_inv:
  assumes "conns_inv r"
  shows "conns_inv (fst (managed_Close m r))"
proof (cases "m < length (managed r) \<and> \<not> mc_once (managed r ! m)")
  case False
  with assms show ?thesis by (auto simp: managed_Close_def)
next
  case True
  have "mc_conn (managed r ! k) \<noteq> mc_conn (managed r ! m)" if "k < length (managed r)" "k \<noteq> m" for k
    using assms True that by (auto simp: conns_inv_def distinct_conv_nth)
  moreover have "map mc_conn ((managed r)[m := (managed r ! m)\<lparr>mc_once := True\<rparr>]) = map mc_conn (managed r)"
    using True by (intro nth_equalityI) (auto simp: nth_list_update)
  ultimately show ?thesis
    using assms True
    by (auto simp: conns_inv_def managed_Close_def close_raw_def Let_def nth_list_update)
qed

lemma managed_Close_frame [frame]:
  "tunnelUp (fst (managed_Close m r)) = tunnelUp r" "rt_file (fst (managed_Close m r)) = rt_file r"
  "length (managed (fst (managed_Close m r))) = length (managed r)"
  "demand (fst (managed_Close m r)) = demand r"
  by (auto simp: managed_Close_def close_raw_def Let_def)

lemma managed_Close_active:
  assumes "conns_inv r"
  shows "activeConns (fst (managed_Close m r)) = filter (\<lambda>k. k \<noteq> m) (activeConns r)"
proof (cases "m < length (managed r) \<and> \<not> mc_once (managed r ! m)")
  case True
  then show ?thesis by (simp add: managed_Close_def close_raw_def Let_def)
next
  case False
  with assms have "m \<notin> set (activeConns r)" by (auto simp: conns_inv_def)
  then have "filter (\<lambda>k. k \<noteq> m) (activeConns r) = activeConns r" by (auto simp: filter_id_conv)
  with False show ?thesis by (auto simp: managed_Close_def)
qed

lemma drain_fold:
  assumes "conns_inv r"
  shows "conns_inv (fst (fold (\<lambda>m (r, n). (fst (managed_Close m r), Suc n)) ms (r, c))) \<and>
    activeConns (fst (fold (\<lambda>m (r, n). (fst (managed_Close m r), Suc n)) ms (r, c)))
      = filter (\<lambda>k. k \<notin> set ms) (activeConns r) \<and>
    snd (fold (\<lambda>m (r, n). (fst (managed_Close m r), Suc n)) ms (r, c)) = c + length ms \<and>
    tunnelUp (fst (fold (\<lambda>m (r, n). (fst (managed_Close m r), Suc n)) ms (r, c))) = tunnelUp r \<and>
    rt_file (fst (fold (\<lambda>m (r, n). (fst (managed_Close m r), Suc n)) ms (r, c))) = rt_file r"
  using assms
proof (induction ms arbitrary: r c)
  case Nil
  then show ?case by simp
next
  case (Cons m ms)
  show ?case
    using Cons.IH [OF managed_Close_inv [OF Cons.prems], of m "Suc c"]
    by (simp add: managed_Close_active [OF Cons.prems] managed_Close_frame filter_filter conj_commute)
qed

lemma ResetTrackedConns_facts:
  assumes "conns_inv r"
  shows "conns_inv (ResetTrackedConns r)" "activeConns (ResetTrackedConns r) = []"
    "tunnelUp (ResetTrackedConns r) = tunnelUp r" "rt_file (ResetTrackedConns r) = rt_file r"
    "snd (drainActiveConnections r) = length (activeConns r)"
  using drain_fold [OF assms, of "activeConns r" 0]
  by (simp_all add: ResetTrackedConns_def drainActiveConnections_def filter_False)

lemma accept_conn_inv:
  assumes "conns_inv r" "rt_enabled (OpAccept c) r"
  shows "conns_inv (accept_conn c r)"
proof (cases "tunnelUp r")
  case True
  then have "accept_conn c r = fst (TrackConn c r)" by (simp add: accept_conn_def DropIfDisconnected_def)
  moreover have "length (managed r) \<notin> set (activeConns r)" using assms(1) by (auto simp: conns_inv_def)
  ultimately show ?thesis
    using assms
    by (auto simp: TrackConn_def conns_inv_def Let_def nth_append less_Suc_eq)
next
  case False
  then have "accept_conn c r = close_raw c (SignalDemand r)" by (simp add: accept_conn_def DropIfDisconnected_def)
  then show ?thesis
    using assms by (auto simp: conns_inv_def close_raw_def SignalDemand_def)
qed

lemma conns_inv_frame:
  assumes "conns_inv r" "managed s = managed r" "activeConns s = activeConns r" "rt_closes s = rt_closes r"
  shows "conns_inv s"
  using assms by (simp add: conns_inv_def)

lemma rt_exec_inv:
  assumes "conns_inv r" "rt_enabled op r"
  shows "conns_inv (rt_exec op r)"
proof (cases op)
  case (OpAccept c)
  with assms show ?thesis by (simp add: accept_conn_inv)
next
  case (OpClose m)
  with assms show ?thesis by (simp add: managed_Close_inv)
next
  case OpReset
  with assms show ?thesis by (simp add: ResetTrackedConns_facts)
qed (use assms in \<open>auto intro!: conns_inv_frame [OF assms(1)]
      simp: SignalDemand_def drainDemand_def WaitForReconnectDemand_def SetTunnelUp_def SetVerboseLogging_def Let_def\<close>)

lemma rt_exec_file:
  assumes "conns_inv r" "file_inv r"
  shows "file_inv (rt_exec op r)"
proof (cases op)
  case (OpUp up)
  with assms(2) show ?thesis
    by (auto simp: file_inv_def SetTunnelUp_def Let_def publishTunnelState_written)
next
  case (OpClose m)
  with assms(2) show ?thesis by (simp add: file_inv_def managed_Close_frame)
next
  case OpReset
  with assms show ?thesis by (simp add: file_inv_def ResetTrackedConns_facts)
qed (use assms(2) in \<open>auto simp: file_inv_def SignalDemand_def drainDemand_def WaitForReconnectDemand_def
      SetVerboseLogging_def accept_conn_def DropIfDisconnected_def TrackConn_def close_raw_def Let_def\<close>)

lemma rt_reach_inv: "rt_reach ce f r \<Longrightarrow> conns_inv r \<and> file_inv r"
proof (induction rule: rt_reach.induct)
  case rt_init
  then show ?case
    by (auto simp: conns_inv_def newSocksRuntime_def file_inv_def publishTunnelState_written)
next
  case (rt_step r op)
  then show ?case by (simp add: rt_exec_inv rt_exec_file)
qed

interpretation managed_close: close_once "\<lambda>(m, r). (m, fst (managed_Close m r))"
  "\<lambda>(m, r). \<not> (m < length (managed r) \<and> \<not> mc_once (managed r ! m))"
  "\<lambda>(m, r). rt_closes r (mc_conn (managed r ! m))"
  by unfold_locales (auto simp: managed_Close_def close_raw_def Let_def)

section \<open>Overlapping transitions\<close>

text \<open>
  \<open>SetTunnelUp\<close> is two atomic steps: the swap of the flag, and the write of the file under the
  mutex \<open>tunnelStateMu\<close>, which is taken after the swap. Several goroutines run it at once:
  \<open>pending\<close> holds the states whose write is still to come.
\<close>

record overlap =
  ov_up :: bool
  ov_pending :: "bool list"
  ov_file :: bool

inductive overlap_step :: "overlap \<Rightarrow> overlap \<Rightarrow> bool" where
  swap: "overlap_step s (s\<lparr>ov_up := up, ov_pending := (if ov_up s \<noteq> up then up # ov_pending s else ov_pending s)\<rparr>)"
| publish: "up \<in> set (ov_pending s) \<Longrightarrow> overlap_step s (s\<lparr>ov_pending := remove1 up (ov_pending s), ov_file := up\<rparr>)"

inductive overlap_reach :: "overlap \<Rightarrow> bool" where
  ov_start: "overlap_reach \<lparr>ov_up = False, ov_pending = [], ov_file = False\<rparr>"
| ov_more: "overlap_reach s \<Longrightarrow> overlap_step s t \<Longrightarrow> overlap_reach t"

section \<open>Properties\<close>

text \<open>
  C1: in every reachable runtime a wrapper of an accepted connection is tracked exactly until it
  is closed, and the raw connection below it is closed exactly once, by the close that removes it.
\<close>

theorem tracked_until_closed:
  assumes "rt_reach ce f r" "m < length (managed r)"
  shows "(m \<in> set (activeConns r) \<longleftrightarrow> rt_closes r (mc_conn (managed r ! m)) = 0) \<and>
    rt_closes r (mc_conn (managed r ! m)) \<le> 1 \<and>
    rt_closes (fst (managed_Close m r)) (mc_conn (managed r ! m)) = 1 \<and>
    m \<notin> set (activeConns (fst (managed_Close m r)))"
proof -
  have inv: "conns_inv r" using rt_reach_inv [OF assms(1)] by simp
  have conn: "mc_conn (managed (fst (managed_Close m r)) ! m) = mc_conn (managed r ! m)"
    by (simp add: managed_Close_def close_raw_def Let_def)
  have "mc_once (managed (fst (managed_Close m r)) ! m)"
    using assms(2) by (simp add: managed_Close_def close_raw_def Let_def)
  then have "rt_closes (fst (managed_Close m r)) (mc_conn (managed (fst (managed_Close m r)) ! m)) = 1"
    using managed_Close_inv [OF inv, of m] assms(2) by (simp add: conns_inv_def managed_Close_frame)
  then show ?thesis
    using inv assms(2) by (auto simp: conns_inv_def conn managed_Close_active [OF inv])
qed

text \<open>A runtime with one tracked connection: the tunnel came up, connection 7 was accepted.\<close>

definition sample_rt :: socksRuntime where
  "sample_rt = rt_exec (OpAccept 7) (rt_exec (OpUp True)
     (newSocksRuntime (\<lambda>_. None) \<lparr>sf_path = ''/run/state'', sf_files = Map.empty, sf_fail = (\<lambda>_. False)\<rparr>))"

lemma sample_rt_reach:
  "rt_reach (\<lambda>_. None) \<lparr>sf_path = ''/run/state'', sf_files = Map.empty, sf_fail = (\<lambda>_. False)\<rparr> sample_rt"
  unfolding sample_rt_def
  by (intro rt_step rt_init) (simp_all add: newSocksRuntime_def SetTunnelUp_def Let_def)

lemma sample_rt_managed: "managed sample_rt = [\<lparr>mc_conn = 7, mc_once = False\<rparr>]"
  by (simp add: sample_rt_def accept_conn_def newSocksRuntime_def SetTunnelUp_def DropIfDisconnected_def
      TrackConn_def Let_def)

theorem tracked_until_closed_witness:
  "rt_closes (fst (managed_Close 0 sample_rt)) 7 = 1"
  using tracked_until_closed [OF sample_rt_reach, of 0] by (simp add: sample_rt_managed)

text \<open>
  C3: \<open>ResetTrackedConns\<close> closes every connection that is still tracked, each exactly once, reports
  how many there were, and leaves none tracked; the tunnel flag and the state file stay as they are.
\<close>

theorem ResetTrackedConns_closes_all:
  assumes "rt_reach ce f r"
  shows "activeConns (ResetTrackedConns r) = [] \<and>
    snd (drainActiveConnections r) = activeConnCount r \<and>
    (\<forall>m < length (managed (ResetTrackedConns r)).
       rt_closes (ResetTrackedConns r) (mc_conn (managed (ResetTrackedConns r) ! m)) = 1) \<and>
    tunnelUp (ResetTrackedConns r) = tunnelUp r \<and> rt_file (ResetTrackedConns r) = rt_file r"
proof -
  have inv: "conns_inv r" using rt_reach_inv [OF assms] by simp
  have "fold (\<lambda>_ n. Suc n) xs k = k + length xs" for xs :: "nat list" and k
    by (induction xs arbitrary: k) auto
  then have "activeConnCount r = length (activeConns r)" by (simp add: activeConnCount_def)
  with ResetTrackedConns_facts [OF inv] show ?thesis by (auto simp: conns_inv_def)
qed

theorem ResetTrackedConns_closes_all_witness:
  "snd (drainActiveConnections sample_rt) = 1 \<and> activeConns (ResetTrackedConns sample_rt) = []"
proof -
  have "activeConnCount sample_rt = 1"
    by (simp add: activeConnCount_def sample_rt_def accept_conn_def newSocksRuntime_def SetTunnelUp_def
        DropIfDisconnected_def TrackConn_def Let_def)
  with ResetTrackedConns_closes_all [OF sample_rt_reach] show ?thesis by simp
qed

text \<open>
  C5: while the transitions do not overlap, the state file always shows the flag that gates the
  dials: \<open>up\<close> or \<open>down\<close> with a newline, from the creation of the runtime on, if the feature is on
  and no system call fails.
\<close>

theorem state_file_mirrors_tunnel:
  assumes "rt_reach ce f r" "sf_path (rt_file r) \<noteq> []" "\<forall>st. \<not> sf_fail (rt_file r) st"
  shows "sf_files (rt_file r) (sf_path (rt_file r)) = Some (state_text (tunnelUp r))"
  using rt_reach_inv [OF assms(1)] assms(2,3) by (simp add: file_inv_def)

theorem state_file_mirrors_tunnel_witness:
  "sf_files (rt_file sample_rt) ''/run/state'' = Some ''up\<newline>''"
proof -
  have "rt_file sample_rt = publishTunnelState True (publishTunnelState False
      \<lparr>sf_path = ''/run/state'', sf_files = Map.empty, sf_fail = (\<lambda>_. False)\<rparr>)" "tunnelUp sample_rt"
    by (simp_all add: sample_rt_def accept_conn_def newSocksRuntime_def SetTunnelUp_def DropIfDisconnected_def
        TrackConn_def Let_def)
  with state_file_mirrors_tunnel [OF sample_rt_reach] show ?thesis by (simp add: state_text_def)
qed

text \<open>
  replacing the state file is atomic: whichever system call fails, the files afterwards are
  those before, or the state file holds the new state and the call succeeded; no temporary file
  stays behind.
\<close>

theorem writeTunnelState_all_or_nothing:
  assumes "sf_files s (sf_path s @ ''.tmp'') = None"
  shows "(sf_files (fst (writeTunnelState st s)) = sf_files s \<or>
      snd (writeTunnelState st s) = None \<and>
      sf_files (fst (writeTunnelState st s)) = (sf_files s)(sf_path s \<mapsto> TrimSpace (ToLower st) @ ''\<newline>'')) \<and>
    sf_files (fst (writeTunnelState st s)) (sf_path s @ ''.tmp'') = None"
proof -
  have "sf_path s @ ''.tmp'' \<noteq> sf_path s" by simp
  with assms writeTunnelState_atomic [OF assms, of st] show ?thesis by (auto simp del: append_self_conv)
qed

theorem writeTunnelState_all_or_nothing_witness:
  "sf_files (fst (writeTunnelState ''up''
     \<lparr>sf_path = ''s'', sf_files = [''s'' \<mapsto> ''down\<newline>''], sf_fail = (\<lambda>st. st = SRename)\<rparr>)) ''s.tmp'' = None"
  using writeTunnelState_all_or_nothing
    [of "\<lparr>sf_path = ''s'', sf_files = [''s'' \<mapsto> ''down\<newline>''], sf_fail = (\<lambda>st. st = SRename)\<rparr>" "''up''"] by simp

text \<open>
  any burst of \<open>SignalDemand\<close> calls while the tunnel is down lets \<open>WaitForReconnectDemand\<close>
  return once and then block again; after \<open>drainDemand\<close> it blocks until the next signal.
\<close>

theorem demand_wakes_once:
  "WaitForReconnectDemand False ((SignalDemand ^^ Suc n) r) = [(drainDemand (SignalDemand r), None)] \<and>
   WaitForReconnectDemand False (drainDemand r) = []"
proof -
  have "(SignalDemand ^^ Suc n) r = SignalDemand r" by (rule rt_gate.burst_coalesces)
  then show ?thesis by (simp add: WaitForReconnectDemand_def SignalDemand_def drainDemand_def)
qed

text \<open>
  two overlapping transitions can leave the file wrong for good: a reachable state with no
  write outstanding where the tunnel is down and the file says up, because the mutex orders the
  writes and not the swaps before them.
\<close>

theorem overlapping_transitions_leave_stale_file:
  "\<exists>s. overlap_reach s \<and> ov_pending s = [] \<and> \<not> ov_up s \<and> ov_file s"
proof -
  let ?s0 = "\<lparr>ov_up = False, ov_pending = [], ov_file = False\<rparr>"
  let ?s1 = "\<lparr>ov_up = True, ov_pending = [True], ov_file = False\<rparr>"
  let ?s2 = "\<lparr>ov_up = False, ov_pending = [False, True], ov_file = False\<rparr>"
  let ?s3 = "\<lparr>ov_up = False, ov_pending = [True], ov_file = False\<rparr>"
  let ?s4 = "\<lparr>ov_up = False, ov_pending = [], ov_file = True\<rparr>"
  have "overlap_step ?s0 ?s1" using swap [of ?s0 True] by simp
  moreover have "overlap_step ?s1 ?s2" using swap [of ?s1 False] by simp
  moreover have "overlap_step ?s2 ?s3" using publish [of False ?s2] by simp
  moreover have "overlap_step ?s3 ?s4" using publish [of True ?s3] by simp
  ultimately have "overlap_reach ?s4" using ov_start ov_more by meson
  then show ?thesis by force
qed

end
