(* ===== verification/Resolver.thy ===== *)
theory Resolver
  imports Go_Netip "HOL-Library.List_Lexorder" "HOL-Library.Char_ord"
begin

text \<open>
  Name resolution, \<open>src/api/resolver.go\<close>: the caching resolver with its eviction, the resolver that
  asks one local server and the one that asks every server in the tunnel at once. The cache is
  a map; the order in which Go ranges over a map is the parameter \<open>order\<close>, and \<open>time.Now()\<close> is an
  argument at each place it is called. \<open>singleflight\<close> runs the function of the caller that leads
  the flight and gives the others its result, so the steps on the cache are those of one caller.
\<close>

section \<open>The caching resolver\<close>

record 'ip cacheEntry =
  ce_ip :: "'ip option"
  expiresAt :: duration
  negative :: bool
  ce_err :: "gerr option"

record 'ip CachingResolver =
  cr_ttl :: duration
  cr_negativeTTL :: duration
  cr_maxEntries :: int
  cr_cache :: "string \<rightharpoonup> 'ip cacheEntry"

definition NewCachingResolver :: "duration \<Rightarrow> duration \<Rightarrow> int \<Rightarrow> 'ip CachingResolver" where
  "NewCachingResolver ttl negativeTTL maxEntries =
     \<lparr>cr_ttl = (if ttl \<le> 0 then 10 * Minute else ttl),
      cr_negativeTTL = (if negativeTTL \<le> 0 then 5 * Second else negativeTTL),
      cr_maxEntries = (if maxEntries \<le> 0 then 4096 else maxEntries),
      cr_cache = Map.empty\<rparr>"

text \<open>The two loops of \<open>evictLocked\<close>; the flag says that the function returned inside the loop.\<close>

fun evict_expired :: "duration \<Rightarrow> string list \<Rightarrow> int \<Rightarrow> (string \<rightharpoonup> 'ip cacheEntry) \<Rightarrow> (string \<rightharpoonup> 'ip cacheEntry) \<times> int \<times> bool" where
  "evict_expired now [] target c = (c, target, False)"
| "evict_expired now (k # ks) target c =
     (case c k of
        None \<Rightarrow> evict_expired now ks target c
      | Some v \<Rightarrow>
          if now > expiresAt v then
            (if target - 1 \<le> 0 then (c(k := None), target - 1, True)
             else evict_expired now ks (target - 1) (c(k := None)))
          else evict_expired now ks target c)"

fun evict_any :: "string list \<Rightarrow> int \<Rightarrow> (string \<rightharpoonup> 'ip cacheEntry) \<Rightarrow> (string \<rightharpoonup> 'ip cacheEntry)" where
  "evict_any [] target c = c"
| "evict_any (k # ks) target c =
     (if target - 1 \<le> 0 then c(k := None) else evict_any ks (target - 1) (c(k := None)))"

definition evict_target :: "int \<Rightarrow> int" where
  "evict_target maxEntries = (let target = maxEntries div 10 in if target < 1 then 1 else target)"

definition evictLocked :: "(string set \<Rightarrow> string list) \<Rightarrow> duration \<Rightarrow> 'ip CachingResolver \<Rightarrow> 'ip CachingResolver" where
  "evictLocked order now r =
     (let (c1, target, returned) =
            evict_expired now (order (dom (cr_cache r))) (evict_target (cr_maxEntries r)) (cr_cache r)
      in if returned then r\<lparr>cr_cache := c1\<rparr>
         else r\<lparr>cr_cache := evict_any (order (dom c1)) target c1\<rparr>)"

definition ClearCache :: "'ip CachingResolver \<Rightarrow> 'ip CachingResolver" where
  "ClearCache r = r\<lparr>cr_cache := Map.empty\<rparr>"

text \<open>\<open>Some\<close> is the return of the fast path.\<close>

definition cache_hit :: "duration \<Rightarrow> string \<Rightarrow> 'ip CachingResolver \<Rightarrow> (gerr, 'ip option) result option" where
  "cache_hit now name r =
     (case cr_cache r name of
        None \<Rightarrow> None
      | Some entry \<Rightarrow>
          if now < expiresAt entry then
            Some (if negative entry
                  then (case ce_err entry of Some e \<Rightarrow> Inl e | None \<Rightarrow> Inr None)
                  else Inr (ce_ip entry))
          else None)"

text \<open>The critical section after the inner resolver has answered.\<close>

definition cache_store ::
  "(string set \<Rightarrow> string list) \<Rightarrow> duration \<Rightarrow> duration \<Rightarrow> string \<Rightarrow> (gerr, 'ip) result \<Rightarrow> 'ip CachingResolver \<Rightarrow> 'ip CachingResolver" where
  "cache_store order now now_evict name answer r =
     (case answer of
        Inl resolveErr \<Rightarrow>
          r\<lparr>cr_cache := (cr_cache r)(name \<mapsto>
              \<lparr>ce_ip = None, expiresAt = now + cr_negativeTTL r, negative = True, ce_err = Some resolveErr\<rparr>)\<rparr>
      | Inr ip \<Rightarrow>
          let r1 = (if int (card (dom (cr_cache r))) \<ge> cr_maxEntries r then evictLocked order now_evict r else r)
          in r1\<lparr>cr_cache := (cr_cache r1)(name \<mapsto>
              \<lparr>ce_ip = Some ip, expiresAt = now + cr_ttl r, negative = False, ce_err = None\<rparr>)\<rparr>)"

definition caching_Resolve ::
  "(string set \<Rightarrow> string list) \<Rightarrow> duration \<Rightarrow> duration \<Rightarrow> duration \<Rightarrow> 'ip resolver \<Rightarrow> string \<Rightarrow> 'ip CachingResolver
     \<Rightarrow> 'ip CachingResolver \<times> (gerr, 'ip option) result" where
  "caching_Resolve order t0 t1 t2 inner name r =
     (case cache_hit t0 name r of
        Some v \<Rightarrow> (r, v)
      | None \<Rightarrow>
          let answer = inner name
          in (cache_store order t1 t2 name answer r, case answer of Inl e \<Rightarrow> Inl e | Inr ip \<Rightarrow> Inr (Some ip)))"

section \<open>Resolvers that ask a server\<close>

text \<open>\<open>lookup\<close> is \<open>net.Resolver.LookupIP\<close> against the configured server.\<close>

definition local_Resolve :: "(string \<Rightarrow> (gerr, 'ip list) result) \<Rightarrow> 'ip resolver" where
  "local_Resolve lookup name =
     (case lookup name of
        Inl err \<Rightarrow> Inl err
      | Inr [] \<Rightarrow> Inl ENetClosed
      | Inr (ip # _) \<Rightarrow> Inr ip)"

record TunnelDNSResolver =
  dnsAddrs :: "addr list"
  td_timeout :: duration

definition NewTunnelDNSResolver :: "addr list \<Rightarrow> duration \<Rightarrow> TunnelDNSResolver" where
  "NewTunnelDNSResolver addrs timeout = \<lparr>dnsAddrs = addrs, td_timeout = timeout\<rparr>"

definition dns_hosts :: "TunnelDNSResolver \<Rightarrow> string list" where
  "dns_hosts r = map (\<lambda>a. JoinHostPort (AddrString a) ''53'') (dnsAddrs r)"

text \<open>
  \<open>answered\<close> is the sequence of the hosts whose lookup has ended when the select runs, in the order
  they end; the first success fills the channel, and the channel is closed when all have ended.
  The select takes any ready case: the results are the ones it can return.
\<close>

definition first_success :: "(string \<Rightarrow> (gerr, 'ip list) result) \<Rightarrow> string list \<Rightarrow> 'ip option" where
  "first_success lookup answered =
     (case filter (\<lambda>h. case lookup h of Inr (ip # _) \<Rightarrow> True | _ \<Rightarrow> False) answered of
        [] \<Rightarrow> None
      | h # _ \<Rightarrow> (case lookup h of Inr (ip # _) \<Rightarrow> Some ip | _ \<Rightarrow> None))"

definition tunnel_Resolve ::
  "(string \<Rightarrow> (gerr, 'ip list) result) \<Rightarrow> string list \<Rightarrow> gerr option \<Rightarrow> TunnelDNSResolver \<Rightarrow> string \<Rightarrow> (gerr, 'ip) result list" where
  "tunnel_Resolve lookup answered ctx_err r name =
     (if dnsAddrs r = [] then [Inl (EText ''no DNS servers configured'')]
      else
        (case ctx_err of Some e \<Rightarrow> [Inl e] | None \<Rightarrow> []) @
        (case first_success lookup answered of
           Some ip \<Rightarrow> [Inr ip]
         | None \<Rightarrow> if length answered = length (dnsAddrs r)
                   then [Inl (EText (''all DNS servers failed for '' @ name))] else []))"

section \<open>Lemmas: eviction\<close>

definition map_order :: "(string set \<Rightarrow> string list) \<Rightarrow> bool" where
  "map_order order = (\<forall>S. finite S \<longrightarrow> set (order S) = S \<and> distinct (order S))"

lemma evict_expired_facts:
  assumes "evict_expired now ks target c = (c', target', ret)" "0 < target" "finite (dom c)"
  shows "c' \<subseteq>\<^sub>m c \<and> int (card (dom c')) + target = int (card (dom c)) + target' \<and>
    (ret \<longrightarrow> target' = 0) \<and> (\<not> ret \<longrightarrow> 0 < target') \<and>
    (\<forall>k v. c k = Some v \<and> c' k = None \<longrightarrow> expiresAt v < now)"
  using assms
proof (induction now ks target c arbitrary: c' target' ret rule: evict_expired.induct)
  case (1 now target c)
  then show ?case by auto
next
  case (2 now k ks target c)
  show ?case
  proof (cases "c k")
    case None
    with 2 show ?thesis by simp
  next
    case (Some v)
    show ?thesis
    proof (cases "expiresAt v < now")
      case False
      then have "evict_expired now ks target c = (c', target', ret)" using "2.prems"(1) Some by simp
      with "2.IH"(3) [OF Some False] "2.prems"(2,3) show ?thesis by blast
    next
      case exp: True
      have card: "int (card (dom (c(k := None)))) = int (card (dom c)) - 1"
        using "2.prems"(3) Some by (intro card_dom_del_int) auto
      show ?thesis
      proof (cases "target - 1 \<le> 0")
        case True
        with "2.prems"(1) Some exp have r: "c' = c(k := None)" "target' = target - 1" "ret" by simp_all
        from True "2.prems"(2) have t: "target = 1" by simp
        have le: "c' \<subseteq>\<^sub>m c" unfolding r(1) by (rule upd_None_map_le)
        have "expiresAt w < now" if "c j = Some w" "c' j = None" for j w
          using that exp Some unfolding r(1) by (cases "j = k") auto
        with le card r t show ?thesis by (simp only: r) auto
      next
        case False
        have e: "evict_expired now ks (target - 1) (c(k := None)) = (c', target', ret)"
          using "2.prems"(1) Some exp False by simp
        note ih = "2.IH"(2) [OF Some exp False e _]
        have "finite (dom (c(k := None)))" using "2.prems"(3) by simp
        with ih False have ih': "c' \<subseteq>\<^sub>m c(k := None)"
          "int (card (dom c')) + (target - 1) = int (card (dom (c(k := None)))) + target'"
          "ret \<longrightarrow> target' = 0" "\<not> ret \<longrightarrow> 0 < target'"
          "\<forall>j v. (c(k := None)) j = Some v \<and> c' j = None \<longrightarrow> expiresAt v < now"
          by simp_all
        have "c' \<subseteq>\<^sub>m c" using ih'(1) upd_None_map_le by (rule map_le_trans)
        moreover have "expiresAt w < now" if "c j = Some w" "c' j = None" for j w
          using that ih'(5) exp Some by (cases "j = k") (auto split: if_splits)
        ultimately show ?thesis using ih' card by auto
      qed
    qed
  qed
qed

lemma evict_any_facts:
  assumes "0 < target" "finite (dom c)" "distinct ks" "set ks \<subseteq> dom c"
  shows "evict_any ks target c \<subseteq>\<^sub>m c \<and>
    int (card (dom (evict_any ks target c))) = int (card (dom c)) - min target (int (length ks))"
  using assms
proof (induction ks target c rule: evict_any.induct)
  case (1 target c)
  then show ?case by simp
next
  case (2 k ks target c)
  have kd: "k \<in> dom c" using "2.prems" by simp
  have card: "int (card (dom (c(k := None)))) = int (card (dom c)) - 1"
    using "2.prems"(2) kd by (rule card_dom_del_int)
  show ?case
  proof (cases "target - 1 \<le> 0")
    case True
    with "2.prems"(1) have t: "target = 1" by simp
    then have "evict_any (k # ks) target c = c(k := None)" by simp
    with card t show ?thesis by (metis map_le_refl upd_None_map_le min.absorb1 of_nat_0_le_iff length_Cons of_nat_Suc le_add_same_cancel1)
  next
    case False
    with 2 have "evict_any ks (target - 1) (c(k := None)) \<subseteq>\<^sub>m c(k := None) \<and>
      int (card (dom (evict_any ks (target - 1) (c(k := None)))))
        = int (card (dom (c(k := None)))) - min (target - 1) (int (length ks))"
      by auto
    with False card show ?thesis by (auto simp del: dom_fun_upd intro: map_le_trans)
  qed
qed

lemma evict_target_pos [simp]: "0 < evict_target m"
  by (simp add: evict_target_def Let_def)

text \<open>What \<open>evictLocked\<close> removes: the target number of entries, or all there are.\<close>

lemma evictLocked_facts:
  assumes "map_order order" "finite (dom (cr_cache r))"
  shows "cr_cache (evictLocked order now r) \<subseteq>\<^sub>m cr_cache r"
    "int (card (dom (cr_cache (evictLocked order now r))))
       = int (card (dom (cr_cache r))) - min (evict_target (cr_maxEntries r)) (int (card (dom (cr_cache r))))"
proof -
  let ?c = "cr_cache r"
  obtain c1 target ret where e: "evict_expired now (order (dom ?c)) (evict_target (cr_maxEntries r)) ?c = (c1, target, ret)"
    by (cases "evict_expired now (order (dom ?c)) (evict_target (cr_maxEntries r)) ?c") auto
  note f = evict_expired_facts [OF e evict_target_pos assms(2)]
  have fin1: "finite (dom c1)" using f assms(2) by (meson finite_subset map_le_implies_dom_le)
  have ord: "set (order (dom c1)) = dom c1" "distinct (order (dom c1))"
    using assms(1) fin1 by (auto simp: map_order_def)
  then have len: "length (order (dom c1)) = card (dom c1)" using distinct_card by metis
  have le: "card (dom c1) \<le> card (dom ?c)" using f assms(2) by (simp add: card_mono map_le_implies_dom_le)
  have "cr_cache (evictLocked order now r) \<subseteq>\<^sub>m ?c \<and>
    int (card (dom (cr_cache (evictLocked order now r))))
       = int (card (dom ?c)) - min (evict_target (cr_maxEntries r)) (int (card (dom ?c)))"
  proof (cases ret)
    case True
    with e f show ?thesis by (auto simp: evictLocked_def)
  next
    case False
    with f have "0 < target" by simp
    with evict_any_facts [of target c1 "order (dom c1)"] fin1 ord len
    have g: "evict_any (order (dom c1)) target c1 \<subseteq>\<^sub>m c1"
      "int (card (dom (evict_any (order (dom c1)) target c1))) = int (card (dom c1)) - min target (int (card (dom c1)))"
      by auto
    have "cr_cache (evictLocked order now r) = evict_any (order (dom c1)) target c1"
      using e False by (simp add: evictLocked_def)
    with g f show ?thesis by (auto intro: map_le_trans)
  qed
  then show "cr_cache (evictLocked order now r) \<subseteq>\<^sub>m ?c"
    "int (card (dom (cr_cache (evictLocked order now r))))
       = int (card (dom ?c)) - min (evict_target (cr_maxEntries r)) (int (card (dom ?c)))"
    by auto
qed

lemma evictLocked_frame [frame, simp]:
  "cr_maxEntries (evictLocked order now r) = cr_maxEntries r" "cr_ttl (evictLocked order now r) = cr_ttl r"
  "cr_negativeTTL (evictLocked order now r) = cr_negativeTTL r"
  by (auto simp: evictLocked_def split: prod.splits)

lemma cache_store_frame [frame, simp]:
  "cr_maxEntries (cache_store order t u n a r) = cr_maxEntries r" "cr_ttl (cache_store order t u n a r) = cr_ttl r"
  "cr_negativeTTL (cache_store order t u n a r) = cr_negativeTTL r"
  by (auto simp: cache_store_def Let_def split: sum.splits)

lemma evict_expired_sub:
  "evict_expired now js t d = (d', t', rr) \<Longrightarrow> d' j = Some w \<Longrightarrow> d j = Some w"
  by (induction now js t d rule: evict_expired.induct) (auto split: option.splits if_splits)

text \<open>When the first loop runs to its end, no expired entry is left.\<close>

lemma evict_expired_complete:
  assumes "evict_expired now ks target c = (c', target', False)"
  shows "\<forall>k \<in> set ks. \<forall>v. c' k = Some v \<longrightarrow> \<not> expiresAt v < now"
  using assms
proof (induction now ks target c rule: evict_expired.induct)
  case (1 now target c)
  then show ?case by simp
next
  case (2 now k ks target c)
  have "\<not> expiresAt v < now" if c': "c' k = Some v" for v
  proof
    assume ex: "expiresAt v < now"
    have "c k = Some v" using "2.prems" c' by (rule evict_expired_sub)
    then have "evict_expired now ks (target - 1) (c(k := None)) = (c', target', False)"
      using "2.prems" ex by (simp split: if_splits)
    from evict_expired_sub [OF this c'] show False by simp
  qed
  moreover have "\<forall>j \<in> set ks. \<forall>v. c' j = Some v \<longrightarrow> \<not> expiresAt v < now"
  proof (cases "c k")
    case None
    with 2 show ?thesis by simp
  next
    case (Some v)
    show ?thesis
    proof (cases "expiresAt v < now")
      case True
      with Some "2.prems" have t: "\<not> target - 1 \<le> 0"
        and e: "evict_expired now ks (target - 1) (c(k := None)) = (c', target', False)"
        by (simp_all split: if_splits)
      show ?thesis by (rule "2.IH"(2) [OF Some True t e])
    next
      case False
      with Some "2.prems" have e: "evict_expired now ks target c = (c', target', False)" by simp
      show ?thesis by (rule "2.IH"(3) [OF Some False e])
    qed
  qed
  ultimately show ?case by simp
qed

section \<open>Reachable caches\<close>

text \<open>
  The critical sections of \<open>Resolve\<close> and \<open>ClearCache\<close> in any order, with the answers the inner
  resolver gave so far. The second argument lists them as name, answer and time.
\<close>

inductive cr_reach :: "(string set \<Rightarrow> string list) \<Rightarrow> 'ip CachingResolver \<Rightarrow> (string \<times> (gerr, 'ip) result \<times> duration) list \<Rightarrow> bool"
  for order where
  cr_new: "cr_reach order (NewCachingResolver ttl nttl mx) []"
| cr_put: "cr_reach order r h \<Longrightarrow> cr_reach order (cache_store order t u n a r) ((n, a, t) # h)"
| cr_clear: "cr_reach order r h \<Longrightarrow> cr_reach order (ClearCache r) h"

fun entry_for :: "'ip CachingResolver \<Rightarrow> (gerr, 'ip) result \<Rightarrow> duration \<Rightarrow> 'ip cacheEntry" where
  "entry_for r (Inl e) t = \<lparr>ce_ip = None, expiresAt = t + cr_negativeTTL r, negative = True, ce_err = Some e\<rparr>"
| "entry_for r (Inr ip) t = \<lparr>ce_ip = Some ip, expiresAt = t + cr_ttl r, negative = False, ce_err = None\<rparr>"

fun lift_answer :: "(gerr, 'ip) result \<Rightarrow> (gerr, 'ip option) result" where
  "lift_answer (Inl e) = Inl e"
| "lift_answer (Inr ip) = Inr (Some ip)"

fun answer_ttl :: "'ip CachingResolver \<Rightarrow> (gerr, 'ip) result \<Rightarrow> duration" where
  "answer_ttl r (Inl _) = cr_negativeTTL r"
| "answer_ttl r (Inr _) = cr_ttl r"

definition cache_honest :: "'ip CachingResolver \<Rightarrow> (string \<times> (gerr, 'ip) result \<times> duration) list \<Rightarrow> bool" where
  "cache_honest r h =
     (finite (dom (cr_cache r)) \<and>
      (\<forall>n e. cr_cache r n = Some e \<longrightarrow> (\<exists>a t. (n, a, t) \<in> set h \<and> e = entry_for r a t)))"

lemma cache_store_cases:
  assumes "map_order order" "finite (dom (cr_cache r))"
  shows "\<exists>c. c \<subseteq>\<^sub>m cr_cache r \<and> cr_cache (cache_store order t u n a r) = c(n \<mapsto> entry_for r a t)"
proof (cases a)
  case (Inl e)
  then show ?thesis by (auto simp: cache_store_def intro!: exI [of _ "cr_cache r"])
next
  case (Inr ip)
  define r1 where "r1 = (if int (card (dom (cr_cache r))) \<ge> cr_maxEntries r then evictLocked order u r else r)"
  have "cr_cache r1 \<subseteq>\<^sub>m cr_cache r" using evictLocked_facts(1) [OF assms] by (simp add: r1_def)
  with Inr show ?thesis
    by (intro exI [of _ "cr_cache r1"]) (simp add: cache_store_def r1_def [symmetric])
qed

lemma cr_reach_honest:
  assumes "cr_reach order r h" "map_order order"
  shows "cache_honest r h"
  using assms(1)
proof (induction rule: cr_reach.induct)
  case (cr_new ttl nttl mx)
  then show ?case by (simp add: cache_honest_def NewCachingResolver_def)
next
  case (cr_put r h t u n a)
  then have fin: "finite (dom (cr_cache r))" by (simp add: cache_honest_def)
  obtain c where c: "c \<subseteq>\<^sub>m cr_cache r" "cr_cache (cache_store order t u n a r) = c(n \<mapsto> entry_for r a t)"
    using cache_store_cases [OF assms(2) fin] by blast
  have "finite (dom c)" using c(1) fin by (meson finite_subset map_le_implies_dom_le)
  moreover have "entry_for (cache_store order t u n a r) b s = entry_for r b s" for b s by (cases b) simp_all
  moreover have "cr_cache r j = Some e" if "c j = Some e" for j e
    using c(1) that by (metis domI map_le_def)
  ultimately show ?case
    using cr_put.IH c(2) by (fastforce simp: cache_honest_def)
next
  case (cr_clear r h)
  then show ?case by (simp add: cache_honest_def ClearCache_def)
qed

section \<open>The interface of a resolver\<close>

text \<open>
  What a client may assume of the addresses a resolver returns: a property \<open>good\<close> of name and
  address. Caching keeps it, and so does choosing between two resolvers by the bypass matcher.
\<close>

locale name_resolver =
  fixes resolve :: "'ip resolver" and good :: "string \<Rightarrow> 'ip \<Rightarrow> bool"
  assumes resolve_good: "resolve name = Inr ip \<Longrightarrow> good name ip"
begin

lemma cached_good:
  assumes "cr_reach order r h" "map_order order"
    and "\<forall>n a t. (n, a, t) \<in> set h \<longrightarrow> a = resolve n"
    and "caching_Resolve order t0 t1 t2 resolve name r = (r', Inr (Some ip))"
  shows "good name ip"
proof (cases "cache_hit t0 name r")
  case None
  with assms(4) have "resolve name = Inr ip" by (auto simp: caching_Resolve_def Let_def split: sum.splits)
  then show ?thesis by (rule resolve_good)
next
  case (Some v)
  with assms(4) have v: "v = Inr (Some ip)" by (simp add: caching_Resolve_def)
  from Some obtain e where e: "cr_cache r name = Some e" by (auto simp: cache_hit_def split: option.splits)
  with cr_reach_honest [OF assms(1,2)] obtain a t where a: "(name, a, t) \<in> set h" "e = entry_for r a t"
    unfolding cache_honest_def by blast
  from Some v e a(2) have "a = Inr ip" by (cases a) (auto simp: cache_hit_def split: if_splits)
  with a(1) assms(3) have "resolve name = Inr ip" by metis
  then show ?thesis by (rule resolve_good)
qed

end

interpretation local_resolver: name_resolver "local_Resolve lookup" "\<lambda>name ip. \<exists>ips. lookup name = Inr (ip # ips)"
  for lookup
  by unfold_locales (auto simp: local_Resolve_def split: sum.splits list.splits)

section \<open>Properties\<close>

text \<open>
  a hit in the cache is honest: the value returned is the answer, address or error, that the
  inner resolver gave for this very name at a time whose TTL (the short one for an error) has not
  passed, whatever stores, evictions and clears happened in between.
\<close>

theorem cache_hit_honest:
  assumes "cr_reach order r h" "map_order order" "cache_hit now name r = Some v"
  shows "\<exists>a t. (name, a, t) \<in> set h \<and> v = lift_answer a \<and> now < t + answer_ttl r a"
proof -
  from assms(3) obtain e where e: "cr_cache r name = Some e" "now < expiresAt e"
    by (auto simp: cache_hit_def split: option.splits if_splits)
  with cr_reach_honest [OF assms(1,2)] obtain a t where a: "(name, a, t) \<in> set h" "e = entry_for r a t"
    unfolding cache_honest_def by blast
  moreover have "v = lift_answer a \<and> now < t + answer_ttl r a"
    using assms(3) e a(2) by (cases a) (simp_all add: cache_hit_def)
  ultimately show ?thesis by blast
qed

definition sorted_order :: "string set \<Rightarrow> string list" where
  "sorted_order S = sorted_list_of_set S"

lemma sorted_order_spec: "map_order sorted_order"
  by (simp add: map_order_def sorted_order_def)

theorem cache_hit_honest_witness:
  "\<exists>a t. (''a'', a, t) \<in> set [(''a'', Inr (9::nat), 0::duration)] \<and> Inr (Some 9) = lift_answer a"
proof -
  let ?r = "cache_store sorted_order 0 0 ''a'' (Inr (9::nat)) (NewCachingResolver 60 5 100)"
  have "cr_reach sorted_order ?r [(''a'', Inr 9, 0)]"
    by (intro cr_put cr_new)
  moreover have "cache_hit 1 ''a'' ?r = Some (Inr (Some 9))"
    by (simp add: cache_hit_def cache_store_def NewCachingResolver_def)
  ultimately have "\<exists>a t. (''a'', a, t) \<in> set [(''a'', Inr (9::nat), 0::duration)] \<and> Inr (Some 9) = lift_answer a \<and> 1 < t + answer_ttl ?r a"
    by (intro cache_hit_honest [OF _ sorted_order_spec])
  then show ?thesis by blast
qed

text \<open>
  after a lookup that asked the inner resolver, the next lookup of the name within the TTL
  gives the same result without asking it again and without changing the cache.
\<close>

theorem Resolve_then_cached:
  assumes "map_order order" "finite (dom (cr_cache r))" "cache_hit t0 name r = None"
    and "caching_Resolve order t0 t1 t2 inner name r = (r', v)" "t3 < t1 + answer_ttl r (inner name)"
  shows "v = lift_answer (inner name) \<and> caching_Resolve order t3 t4 t5 other name r' = (r', v)"
proof -
  have v: "v = lift_answer (inner name)" and r': "r' = cache_store order t1 t2 name (inner name) r"
    using assms(3,4) by (cases "inner name"; auto simp: caching_Resolve_def Let_def)+
  obtain c where "cr_cache r' = c(name \<mapsto> entry_for r (inner name) t1)"
    using cache_store_cases [OF assms(1,2)] r' by blast
  then have "cache_hit t3 name r' = Some v"
    using assms(5) v by (cases "inner name") (auto simp: cache_hit_def)
  with v show ?thesis by (simp add: caching_Resolve_def)
qed

theorem Resolve_then_cached_witness:
  "snd (caching_Resolve sorted_order 5 6 7 (\<lambda>_. Inl EDeadline) ''a''
     (fst (caching_Resolve sorted_order 0 1 2 (\<lambda>_. Inr (9::nat)) ''a'' (NewCachingResolver 60 5 100)))) = Inr (Some 9)"
proof -
  let ?p = "caching_Resolve sorted_order 0 1 2 (\<lambda>_. Inr (9::nat)) ''a'' (NewCachingResolver 60 5 100)"
  obtain r' v where p: "?p = (r', v)" by (cases ?p)
  have "snd ?p = lift_answer (Inr 9) \<and> caching_Resolve sorted_order 5 6 7 (\<lambda>_. Inl EDeadline) ''a'' (fst ?p) = (fst ?p, snd ?p)"
    using Resolve_then_cached [OF sorted_order_spec, of "NewCachingResolver 60 5 100" 0 "''a''" 1 2 "\<lambda>_. Inr (9::nat)"
        r' v 5 6 7 "\<lambda>_. Inl EDeadline"] p
    by (simp add: NewCachingResolver_def cache_hit_def)
  then show ?thesis by simp
qed

text \<open>
  successful lookups never take the cache above its limit: a store of an address into a
  cache within the limit leaves it within the limit.
\<close>

theorem positive_store_bounded:
  assumes "map_order order" "finite (dom (cr_cache r))" "0 < cr_maxEntries r"
    and "int (card (dom (cr_cache r))) \<le> cr_maxEntries r"
  shows "int (card (dom (cr_cache (cache_store order t u name (Inr ip) r)))) \<le> cr_maxEntries r"
proof -
  define r1 where "r1 = (if int (card (dom (cr_cache r))) \<ge> cr_maxEntries r then evictLocked order u r else r)"
  have "int (card (dom (cr_cache r1))) < cr_maxEntries r"
    using evictLocked_facts(2) [OF assms(1,2), of u] evict_target_pos [of "cr_maxEntries r"] assms(3,4)
    by (auto simp: r1_def)
  moreover have "finite (dom (cr_cache r1))"
    using evictLocked_facts(1) [OF assms(1,2)] assms(2)
    by (auto simp: r1_def intro: finite_subset [OF map_le_implies_dom_le])
  ultimately have "int (card (dom ((cr_cache r1)(name \<mapsto> e)))) \<le> cr_maxEntries r" for e
    by (auto simp: card_insert_if)
  then show ?thesis by (simp add: cache_store_def r1_def [symmetric])
qed

theorem positive_store_bounded_witness:
  "int (card (dom (cr_cache (cache_store sorted_order 0 0 ''b'' (Inr (2::nat))
      (NewCachingResolver 60 5 1)\<lparr>cr_cache := [''a'' \<mapsto> \<lparr>ce_ip = Some 1, expiresAt = 60, negative = False, ce_err = None\<rparr>]\<rparr>)))) \<le> 1"
  using positive_store_bounded [OF sorted_order_spec, of
      "(NewCachingResolver 60 5 1)\<lparr>cr_cache := [''a'' \<mapsto> \<lparr>ce_ip = Some (1::nat), expiresAt = 60, negative = False, ce_err = None\<rparr>]\<rparr>"
      0 0 "''b''" 2]
  by (simp add: NewCachingResolver_def)

text \<open>
  failed lookups are not counted against the limit: for every size there is a reachable
  cache with a limit of one entry that holds that many names.
\<close>

theorem negative_entries_unbounded:
  "\<exists>(r :: 'ip CachingResolver) h. cr_reach order r h \<and> cr_maxEntries r = 1 \<and> card (dom (cr_cache r)) = n"
proof -
  let ?step = "\<lambda>k. cache_store order 0 0 (replicate k CHR ''a'') (Inl ECanceled)"
  have "\<exists>(r :: 'ip CachingResolver) h. cr_reach order r h \<and> cr_maxEntries r = 1 \<and>
      dom (cr_cache r) = (\<lambda>k. replicate k CHR ''a'') ` {..<n}"
  proof (induction n)
    case 0
    show ?case
      by (intro exI [of _ "NewCachingResolver 60 5 1"] exI [of _ "[]"] conjI cr_new) (simp_all add: NewCachingResolver_def)
  next
    case (Suc n)
    then obtain r :: "'ip CachingResolver" and h where r: "cr_reach order r h" "cr_maxEntries r = 1"
      "dom (cr_cache r) = (\<lambda>k. replicate k CHR ''a'') ` {..<n}" by blast
    have "dom (cr_cache (?step n r)) = insert (replicate n CHR ''a'') (dom (cr_cache r))"
      by (simp add: cache_store_def)
    moreover have "cr_reach order (?step n r) ((replicate n CHR ''a'', Inl ECanceled, 0) # h)"
      using r(1) by (rule cr_put)
    ultimately show ?case
      using r(2,3) by (intro exI [of _ "?step n r"] exI [of _ "(replicate n CHR ''a'', Inl ECanceled, 0) # h"])
        (simp add: lessThan_Suc)
  qed
  moreover have "card ((\<lambda>k. replicate k CHR ''a'') ` {..<n}) = n"
    by (subst card_image) (auto simp: inj_on_def dest: arg_cong [where f = length])
  ultimately show ?thesis by metis
qed

text \<open>
  eviction prefers expired entries: when at least as many entries have expired as it
  removes, every entry it removes has expired.
\<close>

theorem evictLocked_prefers_expired:
  assumes "map_order order" "finite (dom (cr_cache r))"
    and enough: "evict_target (cr_maxEntries r) \<le> int (card {k. \<exists>v. cr_cache r k = Some v \<and> expiresAt v < now})"
    and gone: "cr_cache r k = Some v" "cr_cache (evictLocked order now r) k = None"
  shows "expiresAt v < now"
proof -
  let ?c = "cr_cache r" and ?t = "evict_target (cr_maxEntries r)"
  obtain c1 target ret where e: "evict_expired now (order (dom ?c)) ?t ?c = (c1, target, ret)"
    by (cases "evict_expired now (order (dom ?c)) ?t ?c") auto
  note f = evict_expired_facts [OF e evict_target_pos assms(2)]
  have "ret"
  proof (rule ccontr)
    assume nr: "\<not> ret"
    have "set (order (dom ?c)) = dom ?c" using assms(1,2) by (auto simp: map_order_def)
    then have left: "\<not> expiresAt w < now" if "c1 j = Some w" for j w
      using evict_expired_complete [of now "order (dom ?c)" ?t ?c c1 target] e nr that f
      by (metis (full_types) domI map_le_def)
    have "{k. \<exists>v. ?c k = Some v \<and> expiresAt v < now} \<subseteq> dom ?c - dom c1"
    proof
      fix x assume "x \<in> {k. \<exists>v. ?c k = Some v \<and> expiresAt v < now}"
      then obtain v where xv: "?c x = Some v" "expiresAt v < now" by blast
      have "c1 x = ?c x" if "x \<in> dom c1" using f that by (simp add: map_le_def)
      then have "x \<notin> dom c1" using left [of x v] xv by auto
      with xv(1) show "x \<in> dom ?c - dom c1" by blast
    qed
    then have "card {k. \<exists>v. ?c k = Some v \<and> expiresAt v < now} \<le> card (dom ?c - dom c1)"
      using assms(2) by (intro card_mono) auto
    also have "int (card (dom ?c - dom c1)) = int (card (dom ?c)) - int (card (dom c1))"
    proof -
      have sub: "dom c1 \<subseteq> dom ?c" using f by (simp add: map_le_implies_dom_le)
      then have "finite (dom c1)" using assms(2) by (rule finite_subset)
      with sub card_mono [OF assms(2) sub] show ?thesis by (simp add: card_Diff_subset of_nat_diff)
    qed
    also have "\<dots> < ?t" using f nr by auto
    finally show False using enough by linarith
  qed
  with e have "cr_cache (evictLocked order now r) = c1" by (simp add: evictLocked_def)
  with gone f show ?thesis by blast
qed

theorem evictLocked_prefers_expired_witness:
  "expiresAt \<lparr>ce_ip = Some (1::nat), expiresAt = 60, negative = False, ce_err = None\<rparr> < 100"
proof -
  let ?e = "\<lparr>ce_ip = Some (1::nat), expiresAt = 60, negative = False, ce_err = None\<rparr>"
  let ?r = "(NewCachingResolver 60 5 1)\<lparr>cr_cache := [''a'' \<mapsto> ?e]\<rparr>"
  have "{k. \<exists>v. cr_cache ?r k = Some v \<and> expiresAt v < 100} = {''a''}"
    by (auto split: if_splits)
  then have "evict_target (cr_maxEntries ?r) \<le> int (card {k. \<exists>v. cr_cache ?r k = Some v \<and> expiresAt v < 100})"
    by (simp add: evict_target_def NewCachingResolver_def)
  moreover have "cr_cache (evictLocked sorted_order 100 ?r) ''a'' = None"
    by (simp add: evictLocked_def sorted_order_def evict_target_def NewCachingResolver_def)
  ultimately show ?thesis
    using evictLocked_prefers_expired [OF sorted_order_spec, of ?r 100 "''a''" ?e] by simp
qed

text \<open>
  the tunnel resolver returns an address only if some configured server answered with it, in
  the order of the answers, and reports that all servers failed only when all have ended and
  none had an address.
\<close>

theorem tunnel_Resolve_sound:
  assumes "set answered \<subseteq> set (dns_hosts r)" "v \<in> set (tunnel_Resolve lookup answered ctx r name)"
  shows "(\<forall>ip. v = Inr ip \<longrightarrow> (\<exists>host \<in> set (dns_hosts r). \<exists>ips. lookup host = Inr (ip # ips))) \<and>
    (v = Inl (EText (''all DNS servers failed for '' @ name)) \<and> ctx \<noteq> Some (EText (''all DNS servers failed for '' @ name)) \<longrightarrow>
       length answered = length (dnsAddrs r) \<and> (\<forall>host \<in> set answered. \<forall>ip ips. lookup host \<noteq> Inr (ip # ips)))"
proof -
  let ?ok = "\<lambda>h. case lookup h of Inr (ip # _) \<Rightarrow> True | _ \<Rightarrow> False"
  have some: "\<exists>h \<in> set answered. \<exists>ips. lookup h = Inr (ip # ips)" if "first_success lookup answered = Some ip" for ip
  proof (cases "filter ?ok answered")
    case Nil
    with that show ?thesis by (simp add: first_success_def)
  next
    case (Cons h hs)
    then have "h \<in> set answered" by (metis Cons_eq_filterD in_set_conv_decomp)
    with that Cons show ?thesis by (auto simp: first_success_def split: sum.splits list.splits)
  qed
  have none: "\<forall>host \<in> set answered. \<forall>ip ips. lookup host \<noteq> Inr (ip # ips)" if "first_success lookup answered = None"
  proof (cases "filter ?ok answered")
    case Nil
    then show ?thesis by (auto simp: filter_empty_conv)
  next
    case (Cons h hs)
    then have "?ok h" by (metis Cons_eq_filterD)
    with that Cons show ?thesis by (auto simp: first_success_def split: sum.splits list.splits)
  qed
  from assms(2) consider "first_success lookup answered = None"
      "length answered = length (dnsAddrs r)" "v = Inl (EText (''all DNS servers failed for '' @ name))"
    | ip where "first_success lookup answered = Some ip" "v = Inr ip"
    | e where "ctx = Some e" "v = Inl e"
    | "v = Inl (EText ''no DNS servers configured'')" "dnsAddrs r = []"
    by (cases "first_success lookup answered") (auto simp: tunnel_Resolve_def split: if_splits option.splits)
  then show ?thesis
  proof cases
    case 1
    with none show ?thesis by simp
  next
    case (2 ip)
    with some assms(1) show ?thesis by fastforce
  next
    case (3 e)
    then show ?thesis by simp
  next
    case 4
    then show ?thesis using assms(1) by (simp add: dns_hosts_def)
  qed
qed

theorem tunnel_Resolve_sound_witness:
  "\<exists>host \<in> set (dns_hosts (NewTunnelDNSResolver [Addr4 [1, 1, 1, 1]] 5)). \<exists>ips. Inr [7::nat] = (Inr (7 # ips) :: (gerr, nat list) result)"
  using tunnel_Resolve_sound [of "[]" "NewTunnelDNSResolver [Addr4 [1, 1, 1, 1]] 5" "Inl ECanceled" "\<lambda>_. Inr [7::nat]" "Some ECanceled" "''a''"]
    tunnel_Resolve_sound [of "dns_hosts (NewTunnelDNSResolver [Addr4 [1, 1, 1, 1]] 5)"
      "NewTunnelDNSResolver [Addr4 [1, 1, 1, 1]] 5" "Inr 7" "\<lambda>_. Inr [7::nat]" None "''a''"]
  by (simp add: tunnel_Resolve_def first_success_def NewTunnelDNSResolver_def dns_hosts_def)

end
