(* ===== verification/Timeout_Conn.thy ===== *)
theory Timeout_Conn
  imports Prelude
begin

text \<open>
  The idle-timeout wrapper of client and upstream connections, \<open>src/models/net.go\<close>. Times are nanoseconds; \<open>rd_deadline\<close> and
  \<open>wr_deadline\<close> are the deadlines armed on the wrapped connection.
\<close>

section \<open>TimeoutConn\<close>

record TimeoutConn =
  tc_IdleTimeout :: duration
  idleOverrideNs :: int
  idleGen :: "64 word"
  lastReadDeadline :: int
  lastWriteDeadline :: int
  rd_deadline :: "int option"
  wr_deadline :: "int option"

definition idle :: "TimeoutConn \<Rightarrow> duration" where
  "idle c = (if idleOverrideNs c > 0 then idleOverrideNs c else tc_IdleTimeout c)"

definition SetIdleTimeout :: "duration \<Rightarrow> TimeoutConn \<Rightarrow> TimeoutConn" where
  "SetIdleTimeout d c =
     c\<lparr>idleOverrideNs := d, idleGen := idleGen c + 1, lastReadDeadline := 0, lastWriteDeadline := 0\<rparr>"

text \<open>
  \<open>Read\<close> and \<open>Write\<close> up to the call on the wrapped connection. Another goroutine may call
  \<open>SetIdleTimeout\<close> meanwhile: \<open>ra\<close> is what it does between the loads of the idle time and of the
  generation, \<open>rb\<close> between the generation and the arming, \<open>rc\<close> between the arming and the second load
  of the generation (the identity when nothing happens there). \<open>fail\<close> says that setting a deadline
  fails. Division by 4 truncates, as in Go; idle times are positive there.
\<close>

definition tc_Read :: "(TimeoutConn \<Rightarrow> TimeoutConn) \<Rightarrow> (TimeoutConn \<Rightarrow> TimeoutConn) \<Rightarrow> (TimeoutConn \<Rightarrow> TimeoutConn)
    \<Rightarrow> gerr option \<Rightarrow> int \<Rightarrow> TimeoutConn \<Rightarrow> TimeoutConn \<times> gerr option" where
  "tc_Read ra rb rc fail now c =
     (let i = idle c; c1 = ra c in
      if i > 0 then
        let gen = idleGen c1; last = lastReadDeadline c1; c2 = rb c1 in
        if now - last > i div 4 then
          (case fail of
             Some e \<Rightarrow> (c2, Some e)
           | None \<Rightarrow>
               let c3 = rc (c2\<lparr>rd_deadline := Some (now + i), lastReadDeadline := now\<rparr>)
               in if idleGen c3 \<noteq> gen then (c3\<lparr>rd_deadline := Some (now + idle c3)\<rparr>, None) else (c3, None))
        else (c2, None)
      else (c1, None))"

definition tc_Write :: "(TimeoutConn \<Rightarrow> TimeoutConn) \<Rightarrow> (TimeoutConn \<Rightarrow> TimeoutConn) \<Rightarrow> (TimeoutConn \<Rightarrow> TimeoutConn)
    \<Rightarrow> gerr option \<Rightarrow> int \<Rightarrow> TimeoutConn \<Rightarrow> TimeoutConn \<times> gerr option" where
  "tc_Write ra rb rc fail now c =
     (let i = idle c; c1 = ra c in
      if i > 0 then
        let gen = idleGen c1; last = lastWriteDeadline c1; c2 = rb c1 in
        if now - last > i div 4 then
          (case fail of
             Some e \<Rightarrow> (c2, Some e)
           | None \<Rightarrow>
               let c3 = rc (c2\<lparr>wr_deadline := Some (now + i), lastWriteDeadline := now\<rparr>)
               in if idleGen c3 \<noteq> gen then (c3\<lparr>wr_deadline := Some (now + idle c3)\<rparr>, None) else (c3, None))
        else (c2, None)
      else (c1, None))"

text \<open>\<open>CloseWrite\<close>: the result of the wrapped connection's half-close, nil when it has none.\<close>

definition tc_CloseWrite :: "(unit \<Rightarrow> gerr option) option \<Rightarrow> gerr option" where
  "tc_CloseWrite cw = (case cw of Some f \<Rightarrow> f () | None \<Rightarrow> None)"

section \<open>Lemmas\<close>

text \<open>
  The invariant of a wrapper used by one goroutine: a recorded mark means that the deadline was
  armed then with the idle time still in force.
\<close>

definition armed_inv :: "TimeoutConn \<Rightarrow> bool" where
  "armed_inv c =
     ((lastReadDeadline c = 0 \<or> rd_deadline c = Some (lastReadDeadline c + idle c)) \<and>
      (lastWriteDeadline c = 0 \<or> wr_deadline c = Some (lastWriteDeadline c + idle c)))"

lemma armed_SetIdleTimeout: "armed_inv (SetIdleTimeout d c)"
  by (simp add: armed_inv_def SetIdleTimeout_def)

lemma armed_Read: "armed_inv c \<Longrightarrow> armed_inv (fst (tc_Read id id id f now c))"
  by (auto simp: armed_inv_def tc_Read_def idle_def Let_def split: option.splits)

lemma armed_Write: "armed_inv c \<Longrightarrow> armed_inv (fst (tc_Write id id id f now c))"
  by (auto simp: armed_inv_def tc_Write_def idle_def Let_def split: option.splits)

section \<open>Properties\<close>

text \<open>
  an active connection is never cut and an idle one is bounded: when nothing races, every
  \<open>Read\<close> that starts with the invariant leaves a deadline at most one idle time away and at least
  three quarters of one (less a nanosecond of rounding), and keeps the invariant.
\<close>

theorem tc_Read_deadline_window:
  assumes "armed_inv c" "0 < idle c" "idle c div 4 < now" "lastReadDeadline c \<le> now"
  shows "\<exists>t. rd_deadline (fst (tc_Read id id id None now c)) = Some t \<and>
    t \<le> now + idle c \<and> now + (idle c - idle c div 4) \<le> t \<and>
    armed_inv (fst (tc_Read id id id None now c))"
proof -
  have inv: "armed_inv (fst (tc_Read id id id None now c))" using assms(1) by (rule armed_Read)
  show ?thesis
  proof (cases "now - lastReadDeadline c > idle c div 4")
    case True
    then show ?thesis
      using assms(2) inv by (auto simp: tc_Read_def Let_def)
  next
    case False
    with assms have "rd_deadline c = Some (lastReadDeadline c + idle c)" by (auto simp: armed_inv_def)
    with False assms inv show ?thesis by (auto simp: tc_Read_def Let_def)
  qed
qed

definition fresh_conn :: "duration \<Rightarrow> TimeoutConn" where
  "fresh_conn d =
     \<lparr>tc_IdleTimeout = d, idleOverrideNs = 0, idleGen = 0, lastReadDeadline = 0, lastWriteDeadline = 0,
      rd_deadline = None, wr_deadline = None\<rparr>"

theorem tc_Read_deadline_window_witness:
  "\<exists>t. rd_deadline (fst (tc_Read id id id None 1000 (fresh_conn 400))) = Some t \<and> t \<le> 1400 \<and> 1300 \<le> t"
  using tc_Read_deadline_window [of "fresh_conn 400" 1000]
  by (auto simp: fresh_conn_def armed_inv_def idle_def)

text \<open>
  a \<open>SetIdleTimeout\<close> that lands after \<open>Read\<close> has loaded the generation, before or after the
  arming, wins: the deadline in force when \<open>Read\<close> goes to the wrapped connection is computed from
  the new idle time.
\<close>

theorem tc_Read_late_change_wins:
  assumes "0 < idle c" "idle c div 4 < now - lastReadDeadline c" "0 < d"
  shows "rd_deadline (fst (tc_Read id (SetIdleTimeout d) id None now c)) = Some (now + d) \<and>
    rd_deadline (fst (tc_Read id id (SetIdleTimeout d) None now c)) = Some (now + d)"
  using assms by (simp add: tc_Read_def SetIdleTimeout_def idle_def Let_def)

theorem tc_Read_late_change_wins_witness:
  "rd_deadline (fst (tc_Read id (SetIdleTimeout 30) id None 1000 (fresh_conn 400))) = Some 1030"
  using tc_Read_late_change_wins [of "fresh_conn 400" 1000 30] by (simp add: fresh_conn_def idle_def)

text \<open>
  a change that lands between the load of the idle time and the load of the generation is
  lost for this \<open>Read\<close>: it waits with the old deadline although the new idle time is shorter.
\<close>

theorem tc_Read_early_change_lost:
  "\<exists>c d now. 0 < d \<and> d < idle c \<and> armed_inv c \<and>
     idle (fst (tc_Read (SetIdleTimeout d) id id None now c)) = d \<and>
     rd_deadline (fst (tc_Read (SetIdleTimeout d) id id None now c)) = Some (now + idle c)"
  by (rule exI [of _ "fresh_conn 400"], rule exI [of _ 30], rule exI [of _ 1000])
    (simp add: tc_Read_def SetIdleTimeout_def idle_def fresh_conn_def armed_inv_def Let_def)

end
