(* ===== verification/Tunnel_Log.thy ===== *)
theory Tunnel_Log
  imports Go_Strings
begin

text \<open>
  Classification of tunnel errors for the logs, \<open>src/api/tunnel_log.go\<close>. The text of a QUIC error,
  which \<open>quic-go\<close> defines, is the parameter \<open>qt\<close>.
\<close>

section \<open>Error texts\<close>

fun err_text :: "(gerr \<Rightarrow> string) \<Rightarrow> gerr \<Rightarrow> string" where
  "err_text qt ECanceled = ''context canceled''"
| "err_text qt EDeadline = ''context deadline exceeded''"
| "err_text qt ENetClosed = ''use of closed network connection''"
| "err_text qt ENotExist = ''file does not exist''"
| "err_text qt (EText s) = s"
| "err_text qt (EWrap p e q) = p @ err_text qt e @ q"
| "err_text qt (EJoin es) = join_with [CHR 0x0A] (map (err_text qt) es)"
| "err_text qt (ETransport n c r) = qt (ETransport n c r)"
| "err_text qt (EApplication c r) = qt (EApplication c r)"

section \<open>Disconnect reasons\<close>

text \<open>
  An \<open>ETransport name ec remote\<close> carries the name \<open>ErrorCode.String()\<close> gives; the receiver is
  never nil after the type assertion.
\<close>

definition transportErrorReason :: "string \<Rightarrow> nat \<Rightarrow> string" where
  "transportErrorReason name ec = (if name \<noteq> [] then name else ''transport_'' @ Itoa (int ec))"

fun tunnelQUICDisconnectReason :: "gerr \<Rightarrow> (string \<times> bool) option"
and quic_reason_list :: "gerr list \<Rightarrow> (string \<times> bool) option" where
  "tunnelQUICDisconnectReason (ETransport name ec remote) = Some (transportErrorReason name ec, remote)"
| "tunnelQUICDisconnectReason (EApplication ec remote) = Some (''application_'' @ Itoa (int ec), remote)"
| "tunnelQUICDisconnectReason (EJoin es) = quic_reason_list es"
| "tunnelQUICDisconnectReason (EWrap p e q) = tunnelQUICDisconnectReason e"
| "tunnelQUICDisconnectReason ECanceled = None"
| "tunnelQUICDisconnectReason EDeadline = None"
| "tunnelQUICDisconnectReason ENetClosed = None"
| "tunnelQUICDisconnectReason ENotExist = None"
| "tunnelQUICDisconnectReason (EText s) = None"
| "quic_reason_list [] = None"
| "quic_reason_list (e # es) =
     (case tunnelQUICDisconnectReason e of Some r \<Rightarrow> Some r | None \<Rightarrow> quic_reason_list es)"

definition stripTunnelErrorPrefix :: "string \<Rightarrow> string" where
  "stripTunnelErrorPrefix msg =
     TrimSpace (fold (\<lambda>prefix m. TrimPrefix m prefix)
       [''error reading from IP connection: '', ''error writing to IP connection: '',
        ''failed to read from TUN device: '', ''failed to write to TUN device: '']
       (TrimSpace msg))"

definition TunnelDisconnectReason :: "(gerr \<Rightarrow> string) \<Rightarrow> gerr option \<Rightarrow> string \<times> bool" where
  "TunnelDisconnectReason qt err =
     (case err of
        None \<Rightarrow> (''unknown'', False)
      | Some e \<Rightarrow>
          (case tunnelQUICDisconnectReason e of
             Some r \<Rightarrow> r
           | None \<Rightarrow>
               let msg = stripTunnelErrorPrefix (err_text qt e) in
               if msg = [] then (''unknown'', False)
               else if errors_Is e ENetClosed \<or> Contains msg ''use of closed network connection''
               then (''connection_closed'', False)
               else (msg, False)))"

section \<open>Lemmas\<close>

text \<open>The QUIC errors of an error tree, in the order of the search.\<close>

fun quic_leaves :: "gerr \<Rightarrow> gerr list"
and quic_leaves_list :: "gerr list \<Rightarrow> gerr list" where
  "quic_leaves (ETransport n c r) = [ETransport n c r]"
| "quic_leaves (EApplication c r) = [EApplication c r]"
| "quic_leaves (EJoin es) = quic_leaves_list es"
| "quic_leaves (EWrap p e q) = quic_leaves e"
| "quic_leaves ECanceled = []"
| "quic_leaves EDeadline = []"
| "quic_leaves ENetClosed = []"
| "quic_leaves ENotExist = []"
| "quic_leaves (EText s) = []"
| "quic_leaves_list [] = []"
| "quic_leaves_list (e # es) = quic_leaves e @ quic_leaves_list es"

fun leaf_reason :: "gerr \<Rightarrow> string \<times> bool" where
  "leaf_reason (ETransport n c r) = (transportErrorReason n c, r)"
| "leaf_reason (EApplication c r) = (''application_'' @ Itoa (int c), r)"
| "leaf_reason _ = ([], False)"

lemma quic_reason_first_leaf:
  "tunnelQUICDisconnectReason e = (case quic_leaves e of [] \<Rightarrow> None | l # _ \<Rightarrow> Some (leaf_reason l))"
  "quic_reason_list es = (case quic_leaves_list es of [] \<Rightarrow> None | l # _ \<Rightarrow> Some (leaf_reason l))"
proof (induction e and es rule: tunnelQUICDisconnectReason_quic_reason_list.induct)
  case (11 e es)
  then show ?case by (cases "quic_leaves e") (auto split: option.splits)
qed auto

section \<open>Properties\<close>

text \<open>
  the reason logged for a disconnect is that of the first QUIC close error anywhere in the
  error tree (through wraps and joins, left to right), with the peer flag of that error.
\<close>

theorem TunnelDisconnectReason_first_quic_error:
  assumes "quic_leaves e = l # ls"
  shows "TunnelDisconnectReason qt (Some e) = leaf_reason l"
  using assms quic_reason_first_leaf(1) [of e] by (simp add: TunnelDisconnectReason_def)

theorem TunnelDisconnectReason_first_quic_error_witness:
  "TunnelDisconnectReason (\<lambda>_. []) (Some (EJoin [ENetClosed, EWrap ''x: '' (ETransport ''NO_ERROR'' 0 True) []]))
     = (''NO_ERROR'', True)"
  using TunnelDisconnectReason_first_quic_error
    [of "EJoin [ENetClosed, EWrap ''x: '' (ETransport ''NO_ERROR'' 0 True) []]" "ETransport ''NO_ERROR'' 0 True" "[]" "\<lambda>_. []"]
  by (simp add: transportErrorReason_def)

end
