(* ===== verification/L4_Proxy.thy ===== *)
theory L4_Proxy
  imports Go_Sync Go_Netip Tunnel_Log
begin

text \<open>
  The L4 transport, \<open>src/api/l4proxy.go\<close>: one cached QUIC connection per proxy, rebuilt on demand, and
  one HTTP/3 CONNECT stream per proxied TCP connection. The calls into \<open>quic-go\<close>, the operating
  system and the clock are the parameter \<open>env\<close>, indexed by a running call number; the world
  \<open>l4w\<close> holds the proxy with the sockets, QUIC connections and streams it has open.
\<close>

section \<open>Data\<close>

record UDPAddr =
  ua_IP :: ip
  ua_Port :: int

record L4ProxyConfig =
  l4c_TLSConfig :: bool
  l4c_Endpoint :: "UDPAddr option"
  l4c_ConnectTimeout :: duration
  l4c_Label :: string

text \<open>
  A connection number stands for the UDP socket, the QUIC connection over it and the HTTP/3
  client connection, which the code stores and clears together. TLS and QUIC settings are only
  passed on; whether a TLS configuration is present is a flag.
\<close>

record L4Proxy =
  px_tls :: bool
  px_endpoint :: "UDPAddr option"
  px_connectTimeout :: duration
  px_streamOpenTimeout :: duration
  px_label :: string
  px_closed :: bool
  px_clientConn :: "nat option"
  px_cachedLocal :: "nat option"
  px_inFlight :: int
  px_reconnects :: "64 word"
  px_firstFailNanos :: int
  px_establishedNanos :: int

record l4stream =
  st_conn :: nat
  st_sendClosed :: bool
  st_recvCancelled :: bool
  st_deadline :: "int option"

record l4TCPConn =
  lc_stream :: "nat option"
  lc_local :: "nat option"
  lc_remote :: string
  lc_once :: bool

record l4w =
  w_px :: L4Proxy
  w_next :: nat
  w_udp :: "nat set"
  w_quic :: "nat set"
  w_streams :: "l4stream list"
  w_conns :: "l4TCPConn list"
  w_tick :: nat

record l4_env =
  env_listen :: "nat \<Rightarrow> gerr option"
  env_dial :: "nat \<Rightarrow> gerr option"
  env_open :: "nat \<Rightarrow> nat \<Rightarrow> gerr option"
  env_req :: "string \<Rightarrow> gerr option"
  env_send :: "nat \<Rightarrow> gerr option"
  env_resp :: "nat \<Rightarrow> (gerr, int) result"
  env_now :: "nat \<Rightarrow> int"
  env_sem :: "nat \<Rightarrow> gerr option"
  env_ctxErr :: "nat \<Rightarrow> gerr option"
  env_ctxDeadline :: "int option"

datatype l4_error = L4Err gerr | L4Closed | L4Status string int

definition defaultL4ConnectTimeout :: duration where "defaultL4ConnectTimeout = 15 * Second"
definition defaultL4StreamOpenTimeout :: duration where "defaultL4StreamOpenTimeout = 5 * Second"

section \<open>The proxy\<close>

definition NewL4Proxy :: "L4ProxyConfig \<Rightarrow> (gerr, L4Proxy) result" where
  "NewL4Proxy cfg =
     (if \<not> l4c_TLSConfig cfg then Inl (EText ''missing TLS config'')
      else if l4c_Endpoint cfg = None then Inl (EText ''missing HTTP/3 UDP endpoint'')
      else
        let connect = (if l4c_ConnectTimeout cfg \<le> 0 then defaultL4ConnectTimeout else l4c_ConnectTimeout cfg);
            open1 = (if defaultL4StreamOpenTimeout > connect then connect else defaultL4StreamOpenTimeout);
            open2 = (if open1 < Second then Second else open1)
        in Inr \<lparr>px_tls = True, px_endpoint = l4c_Endpoint cfg, px_connectTimeout = connect,
                px_streamOpenTimeout = open2, px_label = l4c_Label cfg, px_closed = False, px_clientConn = None,
                px_cachedLocal = None, px_inFlight = 0, px_reconnects = 0, px_firstFailNanos = 0,
                px_establishedNanos = 0\<rparr>)"

definition listenUDPForEndpoint :: "UDPAddr \<Rightarrow> ip" where
  "listenUDPForEndpoint endpoint = (if To4 (ua_IP endpoint) = None then replicate 16 0 else replicate 4 0)"

definition upd_px :: "(L4Proxy \<Rightarrow> L4Proxy) \<Rightarrow> l4w \<Rightarrow> l4w" where
  "upd_px f w = w\<lparr>w_px := f (w_px w)\<rparr>"

definition tick :: "l4w \<Rightarrow> l4w" where
  "tick w = w\<lparr>w_tick := Suc (w_tick w)\<rparr>"

definition closeL4HTTP3 :: "nat option \<Rightarrow> nat option \<Rightarrow> l4w \<Rightarrow> l4w" where
  "closeL4HTTP3 udpConn quicConn w =
     (let w1 = (case quicConn of Some k \<Rightarrow> w\<lparr>w_quic := w_quic w - {k}\<rparr> | None \<Rightarrow> w)
      in case udpConn of Some k \<Rightarrow> w1\<lparr>w_udp := w_udp w1 - {k}\<rparr> | None \<Rightarrow> w1)"

definition l4_Close :: "l4w \<Rightarrow> l4w" where
  "l4_Close w =
     (let cc = px_clientConn (w_px w);
          w1 = upd_px (\<lambda>p. p\<lparr>px_closed := True, px_clientConn := None, px_cachedLocal := None\<rparr>) w
      in closeL4HTTP3 cc cc w1)"

text \<open>
  \<open>o1\<close> and \<open>o2\<close> are what other goroutines do to the proxy while this one waits for the dial
  semaphore and while it is inside \<open>quic.Dial\<close>.
\<close>

definition dialConn :: "(l4w \<Rightarrow> l4w) \<Rightarrow> (l4w \<Rightarrow> l4w) \<Rightarrow> l4_env \<Rightarrow> l4w \<Rightarrow> l4w \<times> (l4_error, nat) result" where
  "dialConn o1 o2 env w =
     (if px_closed (w_px w) then (w, Inl L4Closed)
      else case px_clientConn (w_px w) of
        Some cc \<Rightarrow> (w, Inr cc)
      | None \<Rightarrow>
          (case env_sem env (w_tick w) of
             Some e \<Rightarrow> (tick w, Inl (L4Err e))
           | None \<Rightarrow>
               let w1 = o1 (tick w) in
               if px_closed (w_px w1) then (w1, Inl L4Closed)
               else case px_clientConn (w_px w1) of
                 Some cc \<Rightarrow> (w1, Inr cc)
               | None \<Rightarrow>
                   (case env_listen env (w_tick w1) of
                      Some e \<Rightarrow> (tick w1, Inl (L4Err e))
                    | None \<Rightarrow>
                        let k = w_next w1;
                            w2 = tick (w1\<lparr>w_next := Suc k, w_udp := insert k (w_udp w1)\<rparr>) in
                        case env_dial env (w_tick w2) of
                          Some e \<Rightarrow> ((tick w2)\<lparr>w_udp := w_udp w2 - {k}\<rparr>, Inl (L4Err e))
                        | None \<Rightarrow>
                            let w3 = tick (o2 (w2\<lparr>w_quic := insert k (w_quic w2)\<rparr>)) in
                            if px_closed (w_px w3) then (closeL4HTTP3 (Some k) (Some k) w3, Inl L4Closed)
                            else
                              (upd_px (\<lambda>p. p\<lparr>px_clientConn := Some k, px_cachedLocal := Some k,
                                             px_establishedNanos := env_now env (w_tick w3)\<rparr>) w3, Inr k))))"

definition l4_Connect :: "(l4w \<Rightarrow> l4w) \<Rightarrow> (l4w \<Rightarrow> l4w) \<Rightarrow> l4_env \<Rightarrow> l4w \<Rightarrow> l4w \<times> l4_error option" where
  "l4_Connect o1 o2 env w =
     (case dialConn o1 o2 env w of (w1, Inl e) \<Rightarrow> (w1, Some e) | (w1, Inr _) \<Rightarrow> (w1, None))"

definition closeConn :: "nat option \<Rightarrow> l4w \<Rightarrow> l4w" where
  "closeConn stale w =
     (let cc = px_clientConn (w_px w) in
      if cc = None \<or> (stale \<noteq> None \<and> cc \<noteq> stale) then w
      else
        closeL4HTTP3 cc cc
          (upd_px (\<lambda>p. p\<lparr>px_clientConn := None, px_cachedLocal := None, px_establishedNanos := 0,
                         px_firstFailNanos := 0, px_reconnects := px_reconnects p + 1\<rparr>) w))"

text \<open>The cause is the one the QUIC connection's context gives; \<open>None\<close> for a nil connection.\<close>

definition quicConnCloseCause :: "(gerr \<Rightarrow> string) \<Rightarrow> gerr option option \<Rightarrow> string" where
  "quicConnCloseCause qt conn =
     (case conn of
        None \<Rightarrow> ''unknown''
      | Some None \<Rightarrow> ''alive_at_quic_layer''
      | Some (Some c) \<Rightarrow>
          if errors_Is c ECanceled then ''alive_at_quic_layer''
          else (case tunnelQUICDisconnectReason c of
                  Some (reason, remote) \<Rightarrow> if remote then reason @ '' (peer)'' else reason @ '' (local)''
                | None \<Rightarrow> err_text qt c))"

definition ctx_canceled :: "l4_env \<Rightarrow> l4w \<Rightarrow> bool" where
  "ctx_canceled env w = (case env_ctxErr env (w_tick w) of Some e \<Rightarrow> errors_Is e ECanceled | None \<Rightarrow> False)"

definition noteConnFailure :: "l4_env \<Rightarrow> nat \<Rightarrow> l4w \<Rightarrow> l4w" where
  "noteConnFailure env clientConn w =
     (if ctx_canceled env w then w
      else if px_clientConn (w_px w) \<noteq> Some clientConn then w
      else
        let first = px_firstFailNanos (w_px w); now = env_now env (w_tick w) in
        if first = 0 then upd_px (\<lambda>p. p\<lparr>px_firstFailNanos := now\<rparr>) (tick w)
        else if now - first \<ge> 2 * px_connectTimeout (w_px w) then closeConn (Some clientConn) (tick w)
        else tick w)"

definition logArgs :: "L4Proxy \<Rightarrow> string list \<Rightarrow> string list" where
  "logArgs p args = (if px_label p = [] then args else [''shard'', px_label p] @ args)"

definition l4_Stats :: "l4w \<Rightarrow> int \<times> 64 word" where
  "l4_Stats w = (px_inFlight (w_px w), px_reconnects (w_px w))"

definition openStream :: "l4_env \<Rightarrow> nat \<Rightarrow> l4w \<Rightarrow> l4w \<times> (gerr, nat) result" where
  "openStream env clientConn w =
     (case env_open env clientConn (w_tick w) of
        Some e \<Rightarrow> (tick w, Inl e)
      | None \<Rightarrow>
          (tick (w\<lparr>w_streams := w_streams w @
                    [\<lparr>st_conn = clientConn, st_sendClosed = False, st_recvCancelled = False, st_deadline = None\<rparr>]\<rparr>),
           Inr (length (w_streams w))))"

definition openStreamWithRetry ::
  "(l4w \<Rightarrow> l4w) \<Rightarrow> (l4w \<Rightarrow> l4w) \<Rightarrow> l4_env \<Rightarrow> l4w \<Rightarrow> l4w \<times> (l4_error, nat \<times> nat) result" where
  "openStreamWithRetry o1 o2 env w =
     (case dialConn o1 o2 env w of
        (w1, Inl e) \<Rightarrow> (w1, Inl e)
      | (w1, Inr cc) \<Rightarrow>
          (case openStream env cc w1 of
             (w2, Inr s) \<Rightarrow> (w2, Inr (cc, s))
           | (w2, Inl e) \<Rightarrow>
               if ctx_canceled env w2 then (w2, Inl (L4Err e))
               else
                 (case dialConn o1 o2 env (closeConn (Some cc) w2) of
                    (w3, Inl e3) \<Rightarrow> (w3, Inl e3)
                  | (w3, Inr cc') \<Rightarrow>
                      (case openStream env cc' w3 of
                         (w4, Inr s) \<Rightarrow> (w4, Inr (cc', s))
                       | (w4, Inl e4) \<Rightarrow>
                           (if ctx_canceled env w4 then w4 else closeConn (Some cc') w4, Inl (L4Err e4))))))"

definition upd_stream :: "nat \<Rightarrow> (l4stream \<Rightarrow> l4stream) \<Rightarrow> l4w \<Rightarrow> l4w" where
  "upd_stream s f w = (if s < length (w_streams w) then w\<lparr>w_streams := (w_streams w)[s := f (w_streams w ! s)]\<rparr> else w)"

definition closeL4Stream :: "nat \<Rightarrow> l4w \<Rightarrow> l4w" where
  "closeL4Stream s w =
     upd_stream s (\<lambda>st. st\<lparr>st_recvCancelled := True\<rparr>) (upd_stream s (\<lambda>st. st\<lparr>st_sendClosed := True\<rparr>) w)"

text \<open>The CONNECT exchange on the open stream, after its deadline is set.\<close>

definition connect_exchange :: "l4_env \<Rightarrow> string \<Rightarrow> nat \<Rightarrow> nat \<Rightarrow> l4w \<Rightarrow> l4w \<times> (l4_error, nat) result" where
  "connect_exchange env target clientConn s w =
     (case env_req env target of
        Some e \<Rightarrow> (closeL4Stream s w, Inl (L4Err e))
      | None \<Rightarrow>
          (case env_send env (w_tick w) of
             Some e \<Rightarrow> (noteConnFailure env clientConn (closeL4Stream s (tick w)), Inl (L4Err e))
           | None \<Rightarrow>
               (case env_resp env (w_tick w) of
                  Inl e \<Rightarrow> (noteConnFailure env clientConn (closeL4Stream s (tick w)), Inl (L4Err e))
                | Inr status \<Rightarrow>
                    let w1 = upd_stream s (\<lambda>st. st\<lparr>st_deadline := None\<rparr>)
                               (upd_px (\<lambda>p. p\<lparr>px_firstFailNanos := 0\<rparr>) (tick w)) in
                    if status < 200 \<or> status > 299
                    then (closeL4Stream s w1, Inl (L4Status target status))
                    else
                      ((upd_px (\<lambda>p. p\<lparr>px_inFlight := px_inFlight p + 1\<rparr>) w1)
                         \<lparr>w_conns := w_conns w1 @
                            [\<lparr>lc_stream = Some s, lc_local = px_cachedLocal (w_px w1), lc_remote = target, lc_once = False\<rparr>]\<rparr>,
                       Inr (length (w_conns w1))))))"

definition handshake_deadline :: "l4_env \<Rightarrow> l4w \<Rightarrow> int" where
  "handshake_deadline env w =
     (case env_ctxDeadline env of
        Some d \<Rightarrow> d
      | None \<Rightarrow> env_now env (w_tick w) + px_connectTimeout (w_px w))"

definition l4_DialContext ::
  "(l4w \<Rightarrow> l4w) \<Rightarrow> (l4w \<Rightarrow> l4w) \<Rightarrow> l4_env \<Rightarrow> string \<Rightarrow> l4w \<Rightarrow> l4w \<times> (l4_error, nat) result" where
  "l4_DialContext o1 o2 env target w =
     (if \<not> px_tls (w_px w) then (w, Inl (L4Err (EText ''missing TLS config'')))
      else if px_endpoint (w_px w) = None then (w, Inl (L4Err (EText ''missing HTTP/3 UDP endpoint'')))
      else case openStreamWithRetry o1 o2 env w of
        (w1, Inl e) \<Rightarrow> (w1, Inl e)
      | (w1, Inr (clientConn, s)) \<Rightarrow>
          connect_exchange env target clientConn s
            (tick (upd_stream s (\<lambda>st. st\<lparr>st_deadline := Some (handshake_deadline env w1)\<rparr>) w1)))"

section \<open>The stream as a connection\<close>

definition lc_CloseWrite :: "nat option \<Rightarrow> l4w \<Rightarrow> l4w" where
  "lc_CloseWrite s w = (case s of None \<Rightarrow> w | Some k \<Rightarrow> upd_stream k (\<lambda>st. st\<lparr>st_sendClosed := True\<rparr>) w)"

definition lc_CloseRead :: "nat option \<Rightarrow> l4w \<Rightarrow> l4w" where
  "lc_CloseRead s w = (case s of None \<Rightarrow> w | Some k \<Rightarrow> upd_stream k (\<lambda>st. st\<lparr>st_recvCancelled := True\<rparr>) w)"

definition lc_Close :: "nat \<Rightarrow> l4w \<Rightarrow> l4w" where
  "lc_Close c w =
     (if c < length (w_conns w) \<and> \<not> lc_once (w_conns w ! c) then
        let s = lc_stream (w_conns w ! c);
            w1 = w\<lparr>w_conns := (w_conns w)[c := (w_conns w ! c)\<lparr>lc_once := True\<rparr>]\<rparr>
        in upd_px (\<lambda>p. p\<lparr>px_inFlight := px_inFlight p - 1\<rparr>) (lc_CloseRead s (lc_CloseWrite s w1))
      else w)"

text \<open>\<open>Read\<close> and \<open>Write\<close>: \<open>net.ErrClosed\<close> without a stream, the stream's result otherwise.\<close>

definition lc_Read :: "l4TCPConn \<Rightarrow> (nat \<Rightarrow> (gerr, 'b) result) \<Rightarrow> (gerr, 'b) result" where
  "lc_Read c read = (case lc_stream c of None \<Rightarrow> Inl ENetClosed | Some s \<Rightarrow> read s)"

definition lc_Write :: "l4TCPConn \<Rightarrow> (nat \<Rightarrow> (gerr, 'b) result) \<Rightarrow> (gerr, 'b) result" where
  "lc_Write c write = (case lc_stream c of None \<Rightarrow> Inl ENetClosed | Some s \<Rightarrow> write s)"

definition lc_SetDeadline :: "l4TCPConn \<Rightarrow> int option \<Rightarrow> l4w \<Rightarrow> l4w" where
  "lc_SetDeadline c t w = (case lc_stream c of None \<Rightarrow> w | Some s \<Rightarrow> upd_stream s (\<lambda>st. st\<lparr>st_deadline := t\<rparr>) w)"

definition errString :: "(gerr \<Rightarrow> string) \<Rightarrow> gerr option \<Rightarrow> string" where
  "errString txt err = (case err of None \<Rightarrow> [] | Some e \<Rightarrow> txt e)"

definition px_localAddr :: "L4Proxy \<Rightarrow> nat option" where
  "px_localAddr p = px_cachedLocal p"

definition lc_LocalAddr :: "(nat \<Rightarrow> string) \<Rightarrow> l4TCPConn \<Rightarrow> string" where
  "lc_LocalAddr addr_of c = (case lc_local c of None \<Rightarrow> ''l4'' | Some k \<Rightarrow> addr_of k)"

section \<open>Invariant\<close>

text \<open>
  Between calls the only socket and QUIC connection open are those of the cached connection, and a
  closed proxy has none.
\<close>

definition conn_inv :: "l4w \<Rightarrow> bool" where
  "conn_inv w =
     (w_udp w = set_option (px_clientConn (w_px w)) \<and> w_quic w = set_option (px_clientConn (w_px w)) \<and>
      (px_closed (w_px w) \<longrightarrow> px_clientConn (w_px w) = None) \<and>
      (\<forall>k \<in> set_option (px_clientConn (w_px w)). k < w_next w))"

text \<open>
  The gauge counts the open connections, every connection owns a stream of its own, and a stream
  that no open connection owns (and is not among the excepted ones, which a dial still holds) has
  both directions released.
\<close>

definition released :: "l4stream \<Rightarrow> bool" where
  "released st = (st_sendClosed st \<and> st_recvCancelled st)"

definition stream_inv :: "nat set \<Rightarrow> l4w \<Rightarrow> bool" where
  "stream_inv X w =
     (px_inFlight (w_px w) = int (length (filter (\<lambda>c. \<not> lc_once c) (w_conns w))) \<and>
      distinct (map lc_stream (w_conns w)) \<and>
      (\<forall>c \<in> set (w_conns w). \<exists>s < length (w_streams w). lc_stream c = Some s \<and> s \<notin> X) \<and>
      (\<forall>s < length (w_streams w). s \<in> X \<or> released (w_streams w ! s) \<or>
         (\<exists>c \<in> set (w_conns w). lc_stream c = Some s \<and> \<not> lc_once c)))"

definition l4_inv :: "l4w \<Rightarrow> bool" where
  "l4_inv w = (conn_inv w \<and> stream_inv {} w)"

lemma stream_inv_frame:
  assumes "stream_inv X w" "w_streams w' = w_streams w" "w_conns w' = w_conns w"
    "px_inFlight (w_px w') = px_inFlight (w_px w)"
  shows "stream_inv X w'"
  using assms by (simp add: stream_inv_def)

lemma tick_frame [simp, frame]:
  "w_px (tick w) = w_px w" "w_next (tick w) = w_next w" "w_udp (tick w) = w_udp w" "w_quic (tick w) = w_quic w"
  "w_streams (tick w) = w_streams w" "w_conns (tick w) = w_conns w" "conn_inv (tick w) = conn_inv w"
  "stream_inv X (tick w) = stream_inv X w"
  by (simp_all add: tick_def conn_inv_def stream_inv_def)

lemma upd_px_frame [simp, frame]:
  "w_px (upd_px f w) = f (w_px w)" "w_next (upd_px f w) = w_next w" "w_udp (upd_px f w) = w_udp w"
  "w_quic (upd_px f w) = w_quic w" "w_streams (upd_px f w) = w_streams w" "w_conns (upd_px f w) = w_conns w"
  "w_tick (upd_px f w) = w_tick w"
  by (simp_all add: upd_px_def)

lemma closeL4HTTP3_frame [simp, frame]:
  "w_px (closeL4HTTP3 u q w) = w_px w" "w_next (closeL4HTTP3 u q w) = w_next w"
  "w_streams (closeL4HTTP3 u q w) = w_streams w" "w_conns (closeL4HTTP3 u q w) = w_conns w"
  "w_udp (closeL4HTTP3 u q w) = w_udp w - set_option u" "w_quic (closeL4HTTP3 u q w) = w_quic w - set_option q"
  by (auto simp: closeL4HTTP3_def Let_def split: option.splits)

lemma closeConn_frame [frame]:
  "w_streams (closeConn s w) = w_streams w" "w_conns (closeConn s w) = w_conns w"
  "px_inFlight (w_px (closeConn s w)) = px_inFlight (w_px w)" "px_closed (w_px (closeConn s w)) = px_closed (w_px w)"
  "px_tls (w_px (closeConn s w)) = px_tls (w_px w)" "px_endpoint (w_px (closeConn s w)) = px_endpoint (w_px w)"
  by (simp_all add: closeConn_def Let_def)

lemma closeConn_inv: "conn_inv w \<Longrightarrow> conn_inv (closeConn s w)"
  by (auto simp: conn_inv_def closeConn_def Let_def)

lemma l4_Close_inv: "l4_inv w \<Longrightarrow> l4_inv (l4_Close w)"
  by (auto simp: l4_inv_def conn_inv_def l4_Close_def Let_def intro: stream_inv_frame)

lemma dialConn_inv:
  assumes "conn_inv w" "dialConn id id env w = (w', r)"
  shows "conn_inv w' \<and> (\<forall>cc. r = Inr cc \<longrightarrow> px_clientConn (w_px w') = Some cc) \<and>
    w_streams w' = w_streams w \<and> w_conns w' = w_conns w \<and> px_inFlight (w_px w') = px_inFlight (w_px w) \<and>
    px_closed (w_px w') = px_closed (w_px w) \<and> px_tls (w_px w') = px_tls (w_px w) \<and>
    px_endpoint (w_px w') = px_endpoint (w_px w)"
proof (cases "px_closed (w_px w) \<or> px_clientConn (w_px w) \<noteq> None")
  case True
  with assms show ?thesis by (cases "px_closed (w_px w)"; cases "px_clientConn (w_px w)") (auto simp: dialConn_def)
next
  case False
  then have none: "px_clientConn (w_px w) = None" "\<not> px_closed (w_px w)" by auto
  with assms(1) have e: "w_udp w = {}" "w_quic w = {}" by (auto simp: conn_inv_def)
  from assms none show ?thesis
    by (auto simp: dialConn_def Let_def conn_inv_def e split: option.splits)
qed

lemma noteConnFailure_frame [frame]:
  "w_streams (noteConnFailure env k w) = w_streams w" "w_conns (noteConnFailure env k w) = w_conns w"
  "px_inFlight (w_px (noteConnFailure env k w)) = px_inFlight (w_px w)"
  by (auto simp: noteConnFailure_def Let_def closeConn_frame)

lemma noteConnFailure_inv: "conn_inv w \<Longrightarrow> conn_inv (noteConnFailure env k w)"
  by (auto simp: noteConnFailure_def Let_def intro!: closeConn_inv) (auto simp: conn_inv_def)

lemma upd_stream_frame [simp, frame]:
  "w_px (upd_stream s f w) = w_px w" "w_conns (upd_stream s f w) = w_conns w" "w_udp (upd_stream s f w) = w_udp w"
  "w_quic (upd_stream s f w) = w_quic w" "w_next (upd_stream s f w) = w_next w" "w_tick (upd_stream s f w) = w_tick w"
  "length (w_streams (upd_stream s f w)) = length (w_streams w)" "conn_inv (upd_stream s f w) = conn_inv w"
  by (simp_all add: upd_stream_def conn_inv_def)

lemma closeL4Stream_frame [simp, frame]:
  "w_px (closeL4Stream s w) = w_px w" "w_conns (closeL4Stream s w) = w_conns w" "conn_inv (closeL4Stream s w) = conn_inv w"
  "length (w_streams (closeL4Stream s w)) = length (w_streams w)" "w_tick (closeL4Stream s w) = w_tick w"
  by (simp_all add: closeL4Stream_def)

lemma nth_upd_stream:
  "t < length (w_streams w) \<Longrightarrow>
     w_streams (upd_stream s f w) ! t = (if t = s then f (w_streams w ! s) else w_streams w ! t)"
  by (auto simp: upd_stream_def nth_list_update)

text \<open>An update of a stream that keeps its released directions keeps the invariant.\<close>

lemma stream_inv_upd:
  assumes "stream_inv X w" "\<And>st. released st \<Longrightarrow> released (f st)"
  shows "stream_inv X (upd_stream s f w)"
  using assms by (fastforce simp: stream_inv_def nth_upd_stream)

lemma stream_inv_release:
  assumes "stream_inv (insert s X) w" "s < length (w_streams w)"
  shows "stream_inv X (closeL4Stream s w)"
proof -
  have "released (w_streams (closeL4Stream s w) ! s)"
    using assms(2) by (simp add: closeL4Stream_def nth_upd_stream released_def)
  moreover have "w_streams (closeL4Stream s w) ! t = w_streams w ! t" if "t \<noteq> s" "t < length (w_streams w)" for t
    using that by (simp add: closeL4Stream_def nth_upd_stream)
  ultimately show ?thesis
    using assms unfolding stream_inv_def by (auto simp del: closeL4Stream_frame(4) simp add: closeL4Stream_frame(4)) metis
qed

lemma openStream_inv:
  assumes "openStream env cc w = (w', r)" "stream_inv X w" "X \<subseteq> {..<length (w_streams w)}"
  shows "conn_inv w' = conn_inv w \<and> w_px w' = w_px w \<and>
    (case r of Inl _ \<Rightarrow> stream_inv X w' \<and> w_streams w' = w_streams w
     | Inr s \<Rightarrow> s = length (w_streams w) \<and> s < length (w_streams w') \<and> stream_inv (insert s X) w')"
proof (cases "env_open env cc (w_tick w)")
  case (Some e)
  with assms show ?thesis by (auto simp: openStream_def intro: stream_inv_frame)
next
  case None
  let ?st = "\<lparr>st_conn = cc, st_sendClosed = False, st_recvCancelled = False, st_deadline = None\<rparr>"
  have w': "w' = tick (w\<lparr>w_streams := w_streams w @ [?st]\<rparr>)" "r = Inr (length (w_streams w))"
    using assms(1) None by (auto simp: openStream_def)
  have "stream_inv (insert (length (w_streams w)) X) w'"
    using assms(2) unfolding stream_inv_def w' by (fastforce simp: nth_append less_Suc_eq)
  then show ?thesis using w' by (simp add: conn_inv_def)
qed

lemma openStreamWithRetry_inv:
  assumes "openStreamWithRetry id id env w = (w', r)" "conn_inv w" "stream_inv {} w"
  shows "conn_inv w' \<and>
    (case r of Inl _ \<Rightarrow> stream_inv {} w' | Inr (cc, s) \<Rightarrow> s < length (w_streams w') \<and> stream_inv {s} w')"
proof -
  obtain w1 r1 where d1: "dialConn id id env w = (w1, r1)" by (cases "dialConn id id env w")
  note f1 = dialConn_inv [OF assms(2) d1]
  have s1: "stream_inv {} w1" using f1 assms(3) by (auto intro: stream_inv_frame)
  show ?thesis
  proof (cases r1)
    case (Inl e)
    with assms(1) d1 f1 s1 show ?thesis by (auto simp: openStreamWithRetry_def)
  next
    case (Inr cc)
    obtain w2 r2 where o2: "openStream env cc w1 = (w2, r2)" by (cases "openStream env cc w1")
    note f2 = openStream_inv [OF o2 s1 empty_subsetI]
    show ?thesis
    proof (cases r2)
      case (Inr s)
      with assms(1) d1 \<open>r1 = Inr cc\<close> o2 f1 f2 show ?thesis by (auto simp: openStreamWithRetry_def)
    next
      case (Inl e)
      let ?wc = "closeConn (Some cc) w2"
      have wc: "conn_inv ?wc" "stream_inv {} ?wc"
        using f1 f2 Inl by (auto intro: closeConn_inv stream_inv_frame simp: closeConn_frame)
      obtain w3 r3 where d3: "dialConn id id env ?wc = (w3, r3)" by (cases "dialConn id id env ?wc")
      note f3 = dialConn_inv [OF wc(1) d3]
      have s3: "stream_inv {} w3" using f3 wc(2) by (auto intro: stream_inv_frame)
      show ?thesis
      proof (cases r3)
        case (Inl e3)
        with assms(1) d1 \<open>r1 = Inr cc\<close> o2 \<open>r2 = Inl e\<close> d3 f1 f2 f3 s3 show ?thesis
          by (auto simp: openStreamWithRetry_def split: if_splits)
      next
        case (Inr cc')
        obtain w4 r4 where o4: "openStream env cc' w3 = (w4, r4)" by (cases "openStream env cc' w3")
        note f4 = openStream_inv [OF o4 s3 empty_subsetI]
        have "conn_inv (closeConn (Some cc') w4)" "r4 = Inl e4 \<Longrightarrow> stream_inv {} (closeConn (Some cc') w4)" for e4
          using f3 f4 by (auto intro: closeConn_inv stream_inv_frame simp: closeConn_frame)
        with assms(1) d1 \<open>r1 = Inr cc\<close> o2 \<open>r2 = Inl e\<close> d3 \<open>r3 = Inr cc'\<close> o4 f1 f2 f3 f4 show ?thesis
          by (auto simp: openStreamWithRetry_def split: if_splits sum.splits)
      qed
    qed
  qed
qed

lemma stream_inv_add_conn:
  assumes "stream_inv {s} w" "s < length (w_streams w)" "lc_stream c = Some s" "\<not> lc_once c"
  shows "stream_inv {} ((upd_px (\<lambda>p. p\<lparr>px_inFlight := px_inFlight p + 1\<rparr>) w)\<lparr>w_conns := w_conns w @ [c]\<rparr>)"
proof -
  have "Some s \<notin> lc_stream ` set (w_conns w)" using assms(1) by (fastforce simp: stream_inv_def)
  with assms show ?thesis by (auto simp: stream_inv_def)
qed

lemma stream_inv_conn_frame:
  assumes "stream_inv X w"
  shows "stream_inv X (noteConnFailure env k w)" "stream_inv X (upd_px (\<lambda>p. p\<lparr>px_firstFailNanos := v\<rparr>) w)"
  using assms by (auto intro: stream_inv_frame simp: noteConnFailure_frame)

lemma connect_exchange_inv:
  assumes i: "conn_inv w" "s < length (w_streams w)" "stream_inv {s} w"
  shows "l4_inv (fst (connect_exchange env target cc s w))"
proof -
  define w1 where "w1 = upd_stream s (\<lambda>st. st\<lparr>st_deadline := None\<rparr>) (upd_px (\<lambda>p. p\<lparr>px_firstFailNanos := 0\<rparr>) (tick w))"
  have i1: "conn_inv w1" "s < length (w_streams w1)" "stream_inv {s} w1"
    using i by (auto simp: w1_def released_def intro!: stream_inv_upd stream_inv_conn_frame) (auto simp: conn_inv_def)
  have rel: "l4_inv (closeL4Stream s w)" "l4_inv (closeL4Stream s w1)"
    "conn_inv (closeL4Stream s (tick w))" "stream_inv {} (closeL4Stream s (tick w))"
    using i i1 by (auto simp: l4_inv_def intro!: stream_inv_release)
  then have fail: "l4_inv (noteConnFailure env cc (closeL4Stream s (tick w)))"
    by (auto simp: l4_inv_def intro!: noteConnFailure_inv stream_inv_conn_frame)
  let ?c = "\<lparr>lc_stream = Some s, lc_local = px_cachedLocal (w_px w1), lc_remote = target, lc_once = False\<rparr>"
  have "l4_inv ((upd_px (\<lambda>p. p\<lparr>px_inFlight := px_inFlight p + 1\<rparr>) w1)\<lparr>w_conns := w_conns w1 @ [?c]\<rparr>)"
    using i1 stream_inv_add_conn [of s w1 ?c] by (simp add: l4_inv_def conn_inv_def)
  with rel fail show ?thesis
    unfolding connect_exchange_def w1_def [symmetric] Let_def
    by (auto split: option.split sum.split)
qed

lemma l4_DialContext_inv:
  assumes "l4_DialContext id id env target w = (w', r)" "l4_inv w"
  shows "l4_inv w'"
proof (cases "px_tls (w_px w) \<and> px_endpoint (w_px w) \<noteq> None")
  case False
  with assms show ?thesis by (auto simp: l4_DialContext_def split: if_splits)
next
  case True
  have inv: "conn_inv w" "stream_inv {} w" using assms(2) by (simp_all add: l4_inv_def)
  obtain w1 r1 where o: "openStreamWithRetry id id env w = (w1, r1)" by (cases "openStreamWithRetry id id env w")
  note f = openStreamWithRetry_inv [OF o inv]
  show ?thesis
  proof (cases r1)
    case (Inl e)
    with assms(1) True o f show ?thesis by (auto simp: l4_DialContext_def l4_inv_def)
  next
    case (Inr cs)
    then obtain cc s where cs: "r1 = Inr (cc, s)" by (cases cs) auto
    let ?w2 = "tick (upd_stream s (\<lambda>st. st\<lparr>st_deadline := Some (handshake_deadline env w1)\<rparr>) w1)"
    from f cs have "conn_inv ?w2" "s < length (w_streams ?w2)" "stream_inv {s} ?w2"
      by (auto simp: released_def intro!: stream_inv_upd)
    then have "l4_inv (fst (connect_exchange env target cc s ?w2))" by (rule connect_exchange_inv)
    with assms(1) True o cs show ?thesis by (auto simp: l4_DialContext_def)
  qed
qed

lemma lc_Close_inv:
  assumes "l4_inv w"
  shows "l4_inv (lc_Close c w)"
proof (cases "c < length (w_conns w) \<and> \<not> lc_once (w_conns w ! c)")
  case False
  with assms show ?thesis by (auto simp: lc_Close_def)
next
  case True
  let ?cn = "w_conns w ! c"
  let ?conns = "(w_conns w)[c := ?cn\<lparr>lc_once := True\<rparr>]"
  have inv: "conn_inv w" "stream_inv {} w" using assms by (simp_all add: l4_inv_def)
  have cin: "?cn \<in> set (w_conns w)" using True by simp
  then obtain s where s: "lc_stream ?cn = Some s" "s < length (w_streams w)"
    using inv(2) by (auto simp: stream_inv_def)
  let ?wc = "closeL4Stream s (w\<lparr>w_conns := ?conns\<rparr>)"
  have w': "lc_Close c w = upd_px (\<lambda>p. p\<lparr>px_inFlight := px_inFlight p - 1\<rparr>) ?wc"
    using True s by (simp add: lc_Close_def lc_CloseWrite_def lc_CloseRead_def closeL4Stream_def Let_def)
  have same: "map lc_stream ?conns = map lc_stream (w_conns w)"
    using True by (intro nth_equalityI) (auto simp: nth_list_update)
  have count: "Suc (length (filter (\<lambda>c. \<not> lc_once c) ?conns)) = length (filter (\<lambda>c. \<not> lc_once c) (w_conns w))"
    using True by (intro length_filter_update) auto
  have owner: "d \<in> set ?conns" if "d \<in> set (w_conns w)" "lc_stream d \<noteq> Some s" for d
    using that s(1) True by (auto simp: in_set_conv_nth nth_list_update)
  have streams: "w_streams ?wc ! t = (if t = s then w_streams ?wc ! s else w_streams w ! t)" if "t < length (w_streams w)" for t
    using that by (simp add: closeL4Stream_def nth_upd_stream)
  have rel: "released (w_streams ?wc ! s)"
    using s(2) by (simp add: closeL4Stream_def nth_upd_stream released_def)
  have "\<exists>t < length (w_streams w). lc_stream d = Some t" if "d \<in> set ?conns" for d
  proof -
    have "lc_stream d \<in> lc_stream ` set (w_conns w)" using that same by (metis image_eqI list.set_map)
    then show ?thesis using inv(2) by (auto simp: stream_inv_def)
  qed
  moreover have "released (w_streams ?wc ! t) \<or> (\<exists>d \<in> set ?conns. lc_stream d = Some t \<and> \<not> lc_once d)"
    if "t < length (w_streams w)" for t
    using that rel streams [OF that] inv(2) owner by (cases "t = s") (auto simp: stream_inv_def)
  moreover have "px_inFlight (w_px w) - 1 = int (length (filter (\<lambda>c. \<not> lc_once c) ?conns))"
    using inv(2) count by (simp add: stream_inv_def)
  moreover have "distinct (map lc_stream ?conns)" using inv(2) same by (simp add: stream_inv_def)
  ultimately have "stream_inv {} (lc_Close c w)" unfolding w' by (simp add: stream_inv_def)
  moreover have "conn_inv (lc_Close c w)" using inv(1) unfolding w' by (simp add: conn_inv_def closeL4Stream_def upd_stream_def)
  ultimately show ?thesis by (simp add: l4_inv_def)
qed

section \<open>Reachable proxies\<close>

definition new_world :: "L4Proxy \<Rightarrow> l4w" where
  "new_world p = \<lparr>w_px = p, w_next = 0, w_udp = {}, w_quic = {}, w_streams = [], w_conns = [], w_tick = 0\<rparr>"

inductive l4_reach :: "l4w \<Rightarrow> bool" where
  l4_new: "NewL4Proxy cfg = Inr p \<Longrightarrow> l4_reach (new_world p)"
| l4_connect: "l4_reach w \<Longrightarrow> l4_reach (fst (l4_Connect id id env w))"
| l4_dial: "l4_reach w \<Longrightarrow> l4_reach (fst (l4_DialContext id id env target w))"
| l4_conn_close: "l4_reach w \<Longrightarrow> l4_reach (lc_Close c w)"
| l4_close: "l4_reach w \<Longrightarrow> l4_reach (l4_Close w)"

lemma l4_Connect_inv:
  assumes "l4_inv w"
  shows "l4_inv (fst (l4_Connect id id env w))"
proof -
  obtain w1 r1 where d: "dialConn id id env w = (w1, r1)" by (cases "dialConn id id env w")
  have "l4_inv w1"
    using assms dialConn_inv [OF _ d] by (auto simp: l4_inv_def intro: stream_inv_frame)
  with d show ?thesis by (cases r1) (simp_all add: l4_Connect_def)
qed

lemma l4_reach_inv: "l4_reach w \<Longrightarrow> l4_inv w"
proof (induction rule: l4_reach.induct)
  case (l4_new cfg p)
  then show ?case
    by (auto simp: NewL4Proxy_def new_world_def l4_inv_def conn_inv_def stream_inv_def Let_def split: if_splits)
next
  case (l4_dial w env target)
  then show ?case using l4_DialContext_inv by (metis prod.collapse)
qed (auto intro: l4_Connect_inv lc_Close_inv l4_Close_inv)

interpretation l4conn: close_once "\<lambda>(c, w). (c, lc_Close c w)"
  "\<lambda>(c, w). \<not> (c < length (w_conns w) \<and> \<not> lc_once (w_conns w ! c))"
  "\<lambda>(c, w). length (filter lc_once (w_conns w))"
proof
  fix s :: "nat \<times> l4w"
  obtain c w where s: "s = (c, w)" by (cases s)
  have conns: "w_conns (lc_Close c w) = (w_conns w)[c := (w_conns w ! c)\<lparr>lc_once := True\<rparr>]"
    if "c < length (w_conns w)" "\<not> lc_once (w_conns w ! c)"
    using that by (simp add: lc_Close_def lc_CloseWrite_def lc_CloseRead_def Let_def split: option.splits)
  have count: "length (filter lc_once ((w_conns w)[c := (w_conns w ! c)\<lparr>lc_once := True\<rparr>]))
      = Suc (length (filter lc_once (w_conns w)))" if "c < length (w_conns w)" "\<not> lc_once (w_conns w ! c)"
    using that length_filter_update [of c "(w_conns w)[c := (w_conns w ! c)\<lparr>lc_once := True\<rparr>]" lc_once "w_conns w ! c"]
    by simp
  show "(case (case s of (c, w) \<Rightarrow> (c, lc_Close c w)) of
          (c, w) \<Rightarrow> \<not> (c < length (w_conns w) \<and> \<not> lc_once (w_conns w ! c))) \<and>
        (case (case s of (c, w) \<Rightarrow> (c, lc_Close c w)) of (c, w) \<Rightarrow> length (filter lc_once (w_conns w)))
          = Suc (case s of (c, w) \<Rightarrow> length (filter lc_once (w_conns w)))"
    if "\<not> (case s of (c, w) \<Rightarrow> \<not> (c < length (w_conns w) \<and> \<not> lc_once (w_conns w ! c)))"
    using that conns count by (simp add: s)
  show "(case s of (c, w) \<Rightarrow> (c, lc_Close c w)) = s"
    if "case s of (c, w) \<Rightarrow> \<not> (c < length (w_conns w) \<and> \<not> lc_once (w_conns w ! c))"
    using that by (auto simp: s lc_Close_def)
qed

section \<open>Properties\<close>


text \<open>An endpoint, a proxy for it and an environment in which every call succeeds with status 200.\<close>

definition sample_cfg :: L4ProxyConfig where
  "sample_cfg =
     \<lparr>l4c_TLSConfig = True, l4c_Endpoint = Some \<lparr>ua_IP = [162, 159, 198, 2], ua_Port = 443\<rparr>,
      l4c_ConnectTimeout = 30 * Second, l4c_Label = []\<rparr>"

definition sample_px :: L4Proxy where
  "sample_px =
     \<lparr>px_tls = True, px_endpoint = Some \<lparr>ua_IP = [162, 159, 198, 2], ua_Port = 443\<rparr>, px_connectTimeout = 30 * Second,
      px_streamOpenTimeout = 5 * Second, px_label = [], px_closed = False, px_clientConn = None, px_cachedLocal = None,
      px_inFlight = 0, px_reconnects = 0, px_firstFailNanos = 0, px_establishedNanos = 0\<rparr>"

lemma sample_px: "NewL4Proxy sample_cfg = Inr sample_px"
  by (simp add: sample_px_def NewL4Proxy_def sample_cfg_def defaultL4StreamOpenTimeout_def Let_def)

lemma sample_px_fields:
  "px_tls sample_px" "px_endpoint sample_px \<noteq> None" "px_clientConn sample_px = None" "\<not> px_closed sample_px"
  "px_connectTimeout sample_px = 30 * Second" "px_firstFailNanos sample_px = 0" "px_inFlight sample_px = 0"
  by (simp_all add: sample_px_def NewL4Proxy_def sample_cfg_def Let_def)

definition ok_env :: l4_env where
  "ok_env =
     \<lparr>env_listen = (\<lambda>_. None), env_dial = (\<lambda>_. None), env_open = (\<lambda>_ _. None), env_req = (\<lambda>_. None),
      env_send = (\<lambda>_. None), env_resp = (\<lambda>_. Inr 200), env_now = (\<lambda>n. int n), env_sem = (\<lambda>_. None),
      env_ctxErr = (\<lambda>_. None), env_ctxDeadline = None\<rparr>"


text \<open>
  C7: a dial that loses the race with \<open>Close\<close> leaves nothing behind: when the proxy is closed while
  \<open>quic.Dial\<close> runs, the new connection is closed at once, is not cached, and the caller gets the
  closed error.
\<close>

theorem dialConn_close_race:
  assumes "conn_inv w" "dialConn id l4_Close env w = (w', r)" "px_clientConn (w_px w) = None"
    and "env_sem env (w_tick w) = None"
    and "\<forall>n. env_listen env n = None \<and> env_dial env n = None"
  shows "r = Inl L4Closed \<and> px_clientConn (w_px w') = None \<and> w_udp w' = {} \<and> w_quic w' = {}"
  using assms
  by (auto simp: dialConn_def l4_Close_def Let_def conn_inv_def split: if_splits)

theorem dialConn_close_race_witness:
  "snd (dialConn id l4_Close ok_env (new_world sample_px)) = Inl L4Closed"
proof -
  have "conn_inv (new_world sample_px)" using l4_reach_inv [OF l4_new [OF sample_px]] by (simp add: l4_inv_def)
  from dialConn_close_race [OF this, of ok_env "fst (dialConn id l4_Close ok_env (new_world sample_px))"
      "snd (dialConn id l4_Close ok_env (new_world sample_px))"]
  show ?thesis by (simp add: ok_env_def new_world_def sample_px_fields)
qed

text \<open>
  C13: a stale cached connection heals inside one dial: if opening a stream on the cached
  connection fails, the caller has not given up, a new connection can be dialled and answers the
  request with a 2xx, then \<open>DialContext\<close> succeeds on the new connection and counts one rebuild.
\<close>

theorem l4_DialContext_heals:
  assumes inv: "conn_inv w" and cached: "px_clientConn (w_px w) = Some cc"
    and px: "px_tls (w_px w)" "px_endpoint (w_px w) \<noteq> None"
    and stale: "\<forall>n. env_open env cc n \<noteq> None"
    and fresh: "\<forall>k n. k \<noteq> cc \<longrightarrow> env_open env k n = None"
    and env: "\<forall>n. env_ctxErr env n = None \<and> env_sem env n = None \<and> env_listen env n = None \<and> env_dial env n = None \<and>
       env_send env n = None \<and> env_resp env n = Inr status" "env_req env target = None"
    and status: "200 \<le> status" "status \<le> 299"
  shows "\<exists>w' c. l4_DialContext id id env target w = (w', Inr c) \<and> px_clientConn (w_px w') = Some (w_next w) \<and>
    w_next w \<noteq> cc \<and> px_reconnects (w_px w') = px_reconnects (w_px w) + 1 \<and> px_firstFailNanos (w_px w') = 0"
proof -
  have nc: "\<not> px_closed (w_px w)" "cc < w_next w" using inv cached by (auto simp: conn_inv_def)
  obtain e where e: "env_open env cc (w_tick w) = Some e" using stale by blast
  have new: "env_open env (w_next w) n = None" for n using fresh nc(2) by simp
  have "\<exists>w1 s. openStreamWithRetry id id env w = (w1, Inr (w_next w, s)) \<and> px_clientConn (w_px w1) = Some (w_next w) \<and>
      px_reconnects (w_px w1) = px_reconnects (w_px w) + 1"
    using cached nc e new env(1)
    by (simp add: openStreamWithRetry_def dialConn_def openStream_def ctx_canceled_def closeConn_def Let_def)
  then show ?thesis
    using px env status nc(2) by (auto simp: l4_DialContext_def connect_exchange_def Let_def)
qed

theorem l4_DialContext_heals_witness:
  "\<exists>w' c. l4_DialContext id id (ok_env\<lparr>env_open := \<lambda>k n. if k = 0 then Some ENetClosed else None\<rparr>) ''1.1.1.1:443''
     (fst (l4_Connect id id ok_env (new_world sample_px))) = (w', Inr c)"
proof -
  let ?w = "fst (l4_Connect id id ok_env (new_world sample_px))"
  have "l4_reach ?w" by (intro l4_connect l4_new [OF sample_px])
  then have "conn_inv ?w" using l4_reach_inv by (simp add: l4_inv_def)
  moreover have "px_clientConn (w_px ?w) = Some 0" "px_tls (w_px ?w)" "px_endpoint (w_px ?w) \<noteq> None"
    using sample_px_fields
    by (simp_all add: l4_Connect_def dialConn_def ok_env_def new_world_def tick_def Let_def)
  ultimately show ?thesis
    using l4_DialContext_heals [of ?w 0 "ok_env\<lparr>env_open := \<lambda>k n. if k = 0 then Some ENetClosed else None\<rparr>" 200 "''1.1.1.1:443''"]
    by (auto simp: ok_env_def)
qed

text \<open>
  the wedge detector tears the cached connection down exactly when CONNECT failures on it have
  gone unanswered for at least twice the connect timeout: the first failure only starts the run,
  a cancelled caller and a failure on a connection already replaced change nothing.
\<close>

theorem noteConnFailure_trip:
  assumes "px_clientConn (w_px w) = Some k" "\<not> ctx_canceled env w"
  shows "px_clientConn (w_px (noteConnFailure env k w)) =
     (if px_firstFailNanos (w_px w) \<noteq> 0 \<and>
         2 * px_connectTimeout (w_px w) \<le> env_now env (w_tick w) - px_firstFailNanos (w_px w)
      then None else Some k) \<and>
    (px_firstFailNanos (w_px w) = 0 \<longrightarrow>
       px_firstFailNanos (w_px (noteConnFailure env k w)) = env_now env (w_tick w)) \<and>
    (j \<noteq> k \<longrightarrow> noteConnFailure env j w = w)"
  using assms by (auto simp: noteConnFailure_def closeConn_def Let_def)

theorem noteConnFailure_trip_witness:
  "px_clientConn (w_px (noteConnFailure (ok_env\<lparr>env_now := \<lambda>_. 70 * Second\<rparr>) 0
     (new_world (sample_px\<lparr>px_clientConn := Some 0, px_firstFailNanos := 10 * Second\<rparr>)))) = None"
  using noteConnFailure_trip [of "new_world (sample_px\<lparr>px_clientConn := Some 0, px_firstFailNanos := 10 * Second\<rparr>)" 0
      "ok_env\<lparr>env_now := \<lambda>_. 70 * Second\<rparr>" 1]
  by (simp add: new_world_def ctx_canceled_def ok_env_def sample_px_fields)

text \<open>
  a target that Cloudflare rejects costs only its own stream: on a cached, working connection a
  non-2xx answer keeps the connection, ends any run of unanswered failures, counts no rebuild, and
  releases the stream of the dial.
\<close>

theorem l4_DialContext_rejected:
  assumes "conn_inv w" "px_clientConn (w_px w) = Some cc" "px_tls (w_px w)" "px_endpoint (w_px w) \<noteq> None"
    and "env_req env target = None"
    and env: "\<forall>n. env_open env cc n = None \<and> env_send env n = None \<and> env_resp env n = Inr status"
    and "status < 200 \<or> status > 299"
  shows "\<exists>w'. l4_DialContext id id env target w = (w', Inl (L4Status target status)) \<and>
    px_clientConn (w_px w') = Some cc \<and> px_reconnects (w_px w') = px_reconnects (w_px w) \<and>
    px_firstFailNanos (w_px w') = 0 \<and> px_inFlight (w_px w') = px_inFlight (w_px w) \<and>
    released (w_streams w' ! length (w_streams w)) \<and> w_conns w' = w_conns w"
proof -
  have nc: "\<not> px_closed (w_px w)" using assms(1,2) by (auto simp: conn_inv_def)
  let ?st = "\<lparr>st_conn = cc, st_sendClosed = False, st_recvCancelled = False, st_deadline = None\<rparr>"
  define w1 where "w1 = tick (w\<lparr>w_streams := w_streams w @ [?st]\<rparr>)"
  have o: "openStreamWithRetry id id env w = (w1, Inr (cc, length (w_streams w)))"
    using assms(2) nc env by (simp add: openStreamWithRetry_def dialConn_def openStream_def w1_def)
  have w1: "w_px w1 = w_px w" "w_conns w1 = w_conns w" "length (w_streams w1) = Suc (length (w_streams w))"
    by (simp_all add: w1_def)
  show ?thesis
    using assms(2,3,4,5,7) env o w1
    by (auto simp: l4_DialContext_def connect_exchange_def Let_def closeL4Stream_def nth_upd_stream released_def)
qed

theorem l4_DialContext_rejected_witness:
  "\<exists>w'. l4_DialContext id id (ok_env\<lparr>env_resp := \<lambda>_. Inr 502\<rparr>) ''1.1.1.1:25''
     (fst (l4_Connect id id ok_env (new_world sample_px))) = (w', Inl (L4Status ''1.1.1.1:25'' 502)) \<and>
     px_clientConn (w_px w') = Some 0"
proof -
  let ?w = "fst (l4_Connect id id ok_env (new_world sample_px))"
  have "l4_reach ?w" by (intro l4_connect l4_new [OF sample_px])
  then have "conn_inv ?w" using l4_reach_inv by (simp add: l4_inv_def)
  moreover have "px_clientConn (w_px ?w) = Some 0" "px_tls (w_px ?w)" "px_endpoint (w_px ?w) \<noteq> None"
    using sample_px_fields
    by (simp_all add: l4_Connect_def dialConn_def ok_env_def new_world_def tick_def Let_def)
  ultimately show ?thesis
    using l4_DialContext_rejected [of ?w 0 "ok_env\<lparr>env_resp := \<lambda>_. Inr 502\<rparr>" "''1.1.1.1:25''" 502]
    by (auto simp: ok_env_def)
qed

end
