(* ===== verification/L4_Pool.thy ===== *)
theory L4_Pool
  imports L4_Proxy
begin

text \<open>
  The pool of L4 proxies, \<open>src/api/l4pool.go\<close>: one to three independent proxies ("shards"); a flow
  uses the shard its client's address hashes to. A shard is the world of its proxy.
\<close>

unbundle bit_operations_syntax

section \<open>Data and hashing\<close>

definition maxL4PoolShards :: int where "maxL4PoolShards = 3"

text \<open>The value a context carries under \<open>clientIPKey\<close>.\<close>

type_synonym client_ctx = "ip option"

definition WithClientIP :: "client_ctx \<Rightarrow> ip option \<Rightarrow> client_ctx" where
  "WithClientIP ctx ip = (case ip of None \<Rightarrow> ctx | Some a \<Rightarrow> Some a)"

definition clientIPFromContext :: "client_ctx option \<Rightarrow> ip option" where
  "clientIPFromContext ctx = (case ctx of None \<Rightarrow> None | Some v \<Rightarrow> v)"

text \<open>\<open>hash/fnv.New32a\<close>.\<close>

definition fnv32a :: "octet list \<Rightarrow> 32 word" where
  "fnv32a bs = fold (\<lambda>b h. (h XOR ucast b) * 16777619) bs 2166136261"

record L4Pool =
  shards :: "l4w list"

section \<open>Building the pool\<close>

fun itoa_loop :: "nat \<Rightarrow> string \<Rightarrow> string" where
  "itoa_loop n buf = (if n > 0 then itoa_loop (n div 10) (digit_char (n mod 10) # buf) else buf)"

declare itoa_loop.simps [simp del]

text \<open>The loop does not run for a negative number, and the buffer is large enough for an \<open>int\<close>.\<close>

definition itoa :: "int \<Rightarrow> string" where
  "itoa n = (if n = 0 then ''0'' else if n < 0 then [] else itoa_loop (nat n) [])"

definition shardLabel :: "int \<Rightarrow> int \<Rightarrow> string" where
  "shardLabel i sz = itoa (i + 1) @ ''/'' @ itoa sz"

definition clamp_size :: "int \<Rightarrow> int" where
  "clamp_size size0 =
     (let size1 = (if size0 < 1 then 1 else size0) in if size1 > maxL4PoolShards then maxL4PoolShards else size1)"

fun build_shards :: "L4ProxyConfig \<Rightarrow> int \<Rightarrow> int list \<Rightarrow> l4w list \<Rightarrow> (gerr, l4w list) result" where
  "build_shards cfg sz [] built = Inr built"
| "build_shards cfg sz (i # is) built =
     (let shardCfg = (if sz > 1 then cfg\<lparr>l4c_Label := shardLabel i sz\<rparr> else cfg) in
      case NewL4Proxy shardCfg of
        Inl err \<Rightarrow> Inl err
      | Inr p \<Rightarrow> build_shards cfg sz is (built @ [new_world p]))"

definition NewL4Pool :: "L4ProxyConfig \<Rightarrow> int \<Rightarrow> (gerr, L4Pool) result" where
  "NewL4Pool cfg size0 =
     (let sz = clamp_size size0
      in bind_res (build_shards cfg sz (map int [0..<nat sz]) []) (\<lambda>ss. Inr \<lparr>shards = ss\<rparr>))"

section \<open>Using the pool\<close>

definition shardFor :: "L4Pool \<Rightarrow> ip option \<Rightarrow> nat" where
  "shardFor p ip =
     (case ip of
        None \<Rightarrow> 0
      | Some a \<Rightarrow>
          if length (shards p) = 1 then 0
          else unat (fnv32a (case To16 a of Some b \<Rightarrow> b | None \<Rightarrow> [])) mod length (shards p))"

definition pool_DialContext ::
  "l4_env \<Rightarrow> client_ctx option \<Rightarrow> string \<Rightarrow> L4Pool \<Rightarrow> L4Pool \<times> (l4_error, nat) result" where
  "pool_DialContext env ctx target p =
     (let i = shardFor p (clientIPFromContext ctx);
          (w, r) = l4_DialContext id id env target (shards p ! i)
      in (p\<lparr>shards := (shards p)[i := w]\<rparr>, r))"

definition pool_Connect :: "l4_env \<Rightarrow> L4Pool \<Rightarrow> L4Pool \<times> l4_error option" where
  "pool_Connect env p =
     (let (w, r) = l4_Connect id id env (shards p ! 0) in (p\<lparr>shards := (shards p)[0 := w]\<rparr>, r))"

definition pool_Close :: "L4Pool \<Rightarrow> L4Pool" where
  "pool_Close p = p\<lparr>shards := map l4_Close (shards p)\<rparr>"

definition pool_Stats :: "L4Pool \<Rightarrow> int \<times> 64 word" where
  "pool_Stats p =
     fold (\<lambda>s (inFlight, reconnects). let (f, r) = l4_Stats s in (inFlight + f, reconnects + r)) (shards p) (0, 0)"

definition pool_Size :: "L4Pool \<Rightarrow> nat" where
  "pool_Size p = length (shards p)"

section \<open>Lemmas\<close>

lemma itoa_loop_digits: "0 < n \<Longrightarrow> itoa_loop n buf = dec_digits n @ buf"
proof (induction n buf rule: itoa_loop.induct)
  case (1 n buf)
  show ?case
  proof (cases "n < 10")
    case True
    with 1 show ?thesis
      by (subst itoa_loop.simps) (simp add: itoa_loop.simps [of 0] dec_digits_lt_10)
  next
    case False
    with 1 have "itoa_loop (n div 10) (digit_char (n mod 10) # buf) = dec_digits (n div 10) @ digit_char (n mod 10) # buf"
      by simp
    with False 1 show ?thesis by (subst itoa_loop.simps) (simp add: dec_digits_ge_10)
  qed
qed

lemma itoa_Itoa: "0 \<le> n \<Longrightarrow> itoa n = Itoa n"
  by (auto simp: itoa_def Itoa_def itoa_loop_digits dec_digits_lt_10)

lemma build_shards_length:
  "build_shards cfg sz is built = Inr ss \<Longrightarrow> length ss = length built + length is"
  by (induction cfg sz "is" built rule: build_shards.induct) (auto simp: Let_def split: sum.splits)

lemma clamp_size_range: "1 \<le> clamp_size n \<and> clamp_size n \<le> 3"
  by (simp add: clamp_size_def maxL4PoolShards_def Let_def)

lemma NewL4Pool_size: "NewL4Pool cfg n = Inr p \<Longrightarrow> length (shards p) = nat (clamp_size n)"
  by (auto simp: NewL4Pool_def Let_def bind_res_eq_Inr dest: build_shards_length)

lemma To16_To4: "length a = 4 \<Longrightarrow> To16 a = To16 (v4_in_v6_prefix @ a)"
  by (simp add: To16_def)

lemma shardFor_range: "shards p \<noteq> [] \<Longrightarrow> shardFor p ip < length (shards p)"
  by (auto simp: shardFor_def split: option.splits)

lemma pool_Stats_sums:
  "pool_Stats p = (sum_list (map (fst \<circ> l4_Stats) (shards p)), sum_list (map (snd \<circ> l4_Stats) (shards p)))"
proof -
  have "fold (\<lambda>s (f, r). let (f', r') = l4_Stats s in (f + f', r + r')) ss (a, b)
      = (a + sum_list (map (fst \<circ> l4_Stats) ss), b + sum_list (map (snd \<circ> l4_Stats) ss))" for ss a b
    by (induction ss arbitrary: a b) (auto simp: Let_def split: prod.splits)
  then show ?thesis by (simp add: pool_Stats_def)
qed

section \<open>Properties\<close>

text \<open>
  sharding is stable and isolates: the shard of a client exists, depends on nothing but the
  address and the number of shards (an IPv4 address and its IPv6-mapped form agree), and a dial
  changes no other shard and never the number of shards, so the next dial of the client uses
  the same shard.
\<close>

theorem pool_sharding_stable:
  assumes "NewL4Pool cfg n = Inr p0" "length (shards p) = length (shards p0)"
    and "pool_DialContext env (Some ip) target p = (p', r)"
  shows "shardFor p ip < length (shards p) \<and> shardFor p' ip = shardFor p0 ip \<and>
    (\<forall>i < length (shards p). i \<noteq> shardFor p ip \<longrightarrow> shards p' ! i = shards p ! i) \<and>
    (\<forall>a. length a = 4 \<longrightarrow> shardFor p (Some a) = shardFor p (Some (v4_in_v6_prefix @ a)))"
proof -
  have ne: "shards p \<noteq> []"
    using NewL4Pool_size [OF assms(1)] assms(2) clamp_size_range [of n] by auto
  have p': "length (shards p') = length (shards p)"
    "\<forall>i < length (shards p). i \<noteq> shardFor p ip \<longrightarrow> shards p' ! i = shards p ! i"
    using assms(3) by (auto simp: pool_DialContext_def clientIPFromContext_def Let_def split: prod.splits)
  have same: "shardFor q ip = shardFor p0 ip" if "length (shards q) = length (shards p0)" for q
    using that by (cases ip) (simp_all add: shardFor_def)
  show ?thesis
    using shardFor_range [OF ne] p' same [of p'] assms(2) To16_To4
    by (auto simp: shardFor_def split: option.splits)
qed

theorem pool_sharding_stable_witness:
  "\<exists>p. NewL4Pool sample_cfg 2 = Inr p \<and> length (shards p) = 2 \<and>
     shardFor (fst (pool_DialContext ok_env (Some (Some [10, 0, 0, 1])) ''1.1.1.1:443'' p)) (Some [10, 0, 0, 1])
       = shardFor p (Some [10, 0, 0, 1])"
proof -
  have two: "[0..<2] = [0, 1 :: nat]" by (simp add: upt_rec)
  have "is_ok (NewL4Pool sample_cfg 2)"
    by (simp add: NewL4Pool_def clamp_size_def maxL4PoolShards_def two NewL4Proxy_def sample_cfg_def Let_def)
  then obtain p where p: "NewL4Pool sample_cfg 2 = Inr p" by (auto simp: is_ok_iff)
  have len: "length (shards p) = 2" using NewL4Pool_size [OF p] by (simp add: clamp_size_def maxL4PoolShards_def)
  obtain p' r where d: "pool_DialContext ok_env (Some (Some [10, 0, 0, 1])) ''1.1.1.1:443'' p = (p', r)"
    by (cases "pool_DialContext ok_env (Some (Some [10, 0, 0, 1])) ''1.1.1.1:443'' p")
  show ?thesis using pool_sharding_stable [OF p refl d] p len d by auto
qed

text \<open>
  the pool has between one and three shards whatever size is asked for, and a pool of one
  routes every client to the single proxy, which is built from the unchanged configuration.
\<close>

theorem NewL4Pool_bounded:
  assumes "NewL4Pool cfg n = Inr p"
  shows "1 \<le> pool_Size p \<and> pool_Size p \<le> 3 \<and>
    (n \<le> 1 \<longrightarrow> (\<exists>x. NewL4Proxy cfg = Inr x \<and> shards p = [new_world x]) \<and> shardFor p ip = 0)"
proof -
  have len: "length (shards p) = nat (clamp_size n)" using assms by (rule NewL4Pool_size)
  have "\<exists>x. NewL4Proxy cfg = Inr x \<and> shards p = [new_world x]" if "n \<le> 1"
  proof -
    have "clamp_size n = 1" using that by (simp add: clamp_size_def maxL4PoolShards_def)
    with assms show ?thesis by (auto simp: NewL4Pool_def Let_def bind_res_eq_Inr split: sum.splits)
  qed
  then show ?thesis
    using len clamp_size_range [of n] by (auto simp: pool_Size_def shardFor_def split: option.splits)
qed

theorem NewL4Pool_bounded_witness:
  "\<exists>p. NewL4Pool sample_cfg (- 4) = Inr p \<and> pool_Size p = 1"
proof -
  have "clamp_size (- 4) = 1" by (simp add: clamp_size_def maxL4PoolShards_def)
  then have "NewL4Pool sample_cfg (- 4) = Inr \<lparr>shards = [new_world sample_px]\<rparr>"
    by (simp add: NewL4Pool_def sample_px)
  then show ?thesis
    using NewL4Pool_bounded [of sample_cfg "- 4" "\<lparr>shards = [new_world sample_px]\<rparr>"] by (auto simp: pool_Size_def)
qed

text \<open>
  the conversion written for the shard labels agrees with \<open>strconv.Itoa\<close> on every number that
  is not negative.
\<close>

theorem itoa_is_Itoa:
  assumes "0 \<le> n"
  shows "itoa n = Itoa n"
  using assms by (rule itoa_Itoa)

theorem itoa_is_Itoa_witness: "itoa 3 = Itoa 3"
  using itoa_is_Itoa [of 3] by simp

end
