(* ===== verification/Forwarding.thy ===== *)
theory Forwarding
  imports Go_Sync Tunnel_Log
begin

text \<open>
  The forwarding supervisor, \<open>src/api/forwarding_supervisor.go\<close>, and the buffer pool and device
  adapter of \<open>src/api/tunnel.go\<close>: one pump from the TUN device for the whole process, sessions that
  are swapped underneath it on each reconnect, an injector for ICMP replies. A session is named by
  its position in the list of all sessions; a packet is its bytes, here any type.
\<close>

section \<open>Buffer pool and device adapter\<close>

record NetBuffer =
  nb_capacity :: nat
  nb_pool :: "nat list"

text \<open>The pool holds the capacities of the free buffers; an empty pool makes a new buffer.\<close>

definition NewNetBuffer :: "int \<Rightarrow> NetBuffer option" where
  "NewNetBuffer capacity = (if capacity \<le> 0 then None else Some \<lparr>nb_capacity = nat capacity, nb_pool = []\<rparr>)"

definition GetBuf :: "NetBuffer \<Rightarrow> NetBuffer \<times> nat" where
  "GetBuf n = (case nb_pool n of [] \<Rightarrow> (n, nb_capacity n) | b # bs \<Rightarrow> (n\<lparr>nb_pool := bs\<rparr>, b))"

definition PutBuf :: "nat \<Rightarrow> NetBuffer \<Rightarrow> NetBuffer" where
  "PutBuf b n = (if b \<noteq> nb_capacity n then n else n\<lparr>nb_pool := b # nb_pool n\<rparr>)"

text \<open>\<open>dev_read\<close> is \<open>Read\<close> of the device on one buffer: the number of packets and the sizes.\<close>

definition ReadPacket :: "(gerr, 'p list) result \<Rightarrow> (gerr, 'p option) result" where
  "ReadPacket dev_read =
     (case dev_read of Inl e \<Rightarrow> Inl e | Inr [] \<Rightarrow> Inr None | Inr (p # _) \<Rightarrow> Inr (Some p))"

section \<open>Sessions and supervisor\<close>

record forwardSession =
  se_id :: "64 word"
  se_conn :: nat
  se_cancelled :: bool
  se_errCh :: "gerr option"
  se_closeOnce :: bool
  se_errOnce :: bool
  se_connCloses :: nat

record 'p supervisor =
  sv_cancelled :: bool
  sv_active :: "nat option"
  sv_sessions :: "forwardSession list"
  sv_icmp :: "'p list"
  sv_sessionID :: "64 word"
  sv_device :: "'p list"
  sv_sent :: "(nat \<times> 'p) list"

definition icmp_cap :: nat where "icmp_cap = 32"
definition fallbackBufferSize :: int where "fallbackBufferSize = 1500"

definition newForwardingSupervisor :: "'p supervisor" where
  "newForwardingSupervisor =
     \<lparr>sv_cancelled = False, sv_active = None, sv_sessions = [], sv_icmp = [], sv_sessionID = 0,
      sv_device = [], sv_sent = []\<rparr>"

definition upd_session :: "nat \<Rightarrow> (forwardSession \<Rightarrow> forwardSession) \<Rightarrow> 'p supervisor \<Rightarrow> 'p supervisor" where
  "upd_session i f s =
     (if i < length (sv_sessions s) then s\<lparr>sv_sessions := (sv_sessions s)[i := f (sv_sessions s ! i)]\<rparr> else s)"

definition session_closed :: "forwardSession \<Rightarrow> forwardSession" where
  "session_closed se =
     (if se_closeOnce se then se
      else se\<lparr>se_closeOnce := True, se_connCloses := Suc (se_connCloses se), se_cancelled := True\<rparr>)"

definition close_session :: "nat \<Rightarrow> 'p supervisor \<Rightarrow> 'p supervisor" where
  "close_session i s = upd_session i session_closed s"

text \<open>The session's context ends with the supervisor's.\<close>

definition session_done :: "'p supervisor \<Rightarrow> nat \<Rightarrow> bool" where
  "session_done s i = (sv_cancelled s \<or> se_cancelled (sv_sessions s ! i))"

definition sup_Close :: "'p supervisor \<Rightarrow> 'p supervisor" where
  "sup_Close s =
     (let s1 = s\<lparr>sv_cancelled := True, sv_active := None\<rparr>
      in case sv_active s of Some i \<Rightarrow> close_session i s1 | None \<Rightarrow> s1)"

definition attach :: "nat option \<Rightarrow> 'p supervisor \<Rightarrow> 'p supervisor \<times> (gerr, nat) result" where
  "attach conn s =
     (case conn of
        None \<Rightarrow> (s, Inl (EText ''ip connection is nil''))
      | Some c \<Rightarrow>
          let i = length (sv_sessions s); ident = sv_sessionID s + 1;
              se = \<lparr>se_id = ident, se_conn = c, se_cancelled = False, se_errCh = None, se_closeOnce = False,
                    se_errOnce = False, se_connCloses = 0\<rparr>;
              s1 = s\<lparr>sv_sessions := sv_sessions s @ [se], sv_sessionID := ident, sv_active := Some i\<rparr>
          in ((case sv_active s of Some prev \<Rightarrow> close_session prev s1 | None \<Rightarrow> s1), Inr i))"

definition Detach :: "nat \<Rightarrow> 'p supervisor \<Rightarrow> 'p supervisor" where
  "Detach i s = (if sv_active s = Some i then s\<lparr>sv_active := None\<rparr> else s)"

definition isActiveSession :: "nat \<Rightarrow> 'p supervisor \<Rightarrow> bool" where
  "isActiveSession i s = (sv_active s = Some i)"

definition session_reported :: "gerr \<Rightarrow> forwardSession \<Rightarrow> forwardSession" where
  "session_reported err se =
     (if se_errOnce se then se
      else session_closed
             (se\<lparr>se_errOnce := True, se_errCh := (case se_errCh se of None \<Rightarrow> Some err | Some e \<Rightarrow> Some e)\<rparr>))"

definition reportSessionError :: "nat \<Rightarrow> gerr \<Rightarrow> 'p supervisor \<Rightarrow> 'p supervisor" where
  "reportSessionError i err s = upd_session i (session_reported err) s"

section \<open>The pumps\<close>

text \<open>
  One batch of \<open>runDeviceToIP\<close>: \<open>wr k p\<close> is the result of writing the \<open>k\<close>-th packet on the session's
  connection (an ICMP reply, possibly none), \<open>interf k\<close> what other goroutines do before it.
\<close>

fun write_batch :: "(nat \<Rightarrow> 'p supervisor \<Rightarrow> 'p supervisor) \<Rightarrow> (nat \<Rightarrow> 'p \<Rightarrow> (gerr, 'p option) result) \<Rightarrow> nat
    \<Rightarrow> nat \<Rightarrow> 'p list \<Rightarrow> 'p supervisor \<Rightarrow> 'p supervisor" where
  "write_batch interf wr i k [] s = s"
| "write_batch interf wr i k (p # ps) s =
     (let s0 = interf k s in
      case wr k p of
        Inl err \<Rightarrow>
          if isActiveSession i s0
          then reportSessionError i (EWrap ''error writing to IP connection: '' err []) s0 else s0
      | Inr icmp \<Rightarrow>
          let s1 = s0\<lparr>sv_sent := sv_sent s0 @ [(i, p)]\<rparr>;
              s2 = (case icmp of
                      None \<Rightarrow> s1
                    | Some q \<Rightarrow> if length (sv_icmp s1) < icmp_cap then s1\<lparr>sv_icmp := sv_icmp s1 @ [q]\<rparr> else s1)
          in write_batch interf wr i (Suc k) ps s2)"

text \<open>
  An iteration of the loop; the flag says whether the loop goes on. \<open>blk\<close> is what the other goroutines
  do while the read of the device blocks.
\<close>

definition device_to_ip :: "(gerr \<Rightarrow> string) \<Rightarrow> ('p supervisor \<Rightarrow> 'p supervisor) \<Rightarrow> (gerr, 'p list) result
    \<Rightarrow> (nat \<Rightarrow> 'p supervisor \<Rightarrow> 'p supervisor) \<Rightarrow> (nat \<Rightarrow> 'p \<Rightarrow> (gerr, 'p option) result)
    \<Rightarrow> 'p supervisor \<Rightarrow> 'p supervisor \<times> bool" where
  "device_to_ip qt blk read interf wr s0 =
     (if sv_cancelled s0 then (s0, False)
      else
        let s = blk s0 in
        case read of
          Inl err \<Rightarrow>
            if sv_cancelled s then (s, False)
            else ((case sv_active s of
                     Some i \<Rightarrow> reportSessionError i (EText (''failed to read from TUN device: '' @ err_text qt err)) s
                   | None \<Rightarrow> s), True)
        | Inr pkts \<Rightarrow>
            (case sv_active s of
               None \<Rightarrow> (s, True)
             | Some i \<Rightarrow>
                 if session_done s i then (s, True)
                 else (write_batch interf wr i 0 pkts s, True)))"

text \<open>\<open>dev_err\<close>: a failing write to the device is logged and dropped.\<close>

definition icmp_injector :: "gerr option \<Rightarrow> 'p supervisor \<Rightarrow> 'p supervisor \<times> bool" where
  "icmp_injector dev_err s =
     (if sv_cancelled s then (s, False)
      else case sv_icmp s of
        [] \<Rightarrow> (s, True)
      | p # ps \<Rightarrow>
          (case dev_err of
             None \<Rightarrow> (s\<lparr>sv_icmp := ps, sv_device := sv_device s @ [p]\<rparr>, True)
           | Some _ \<Rightarrow> (s\<lparr>sv_icmp := ps\<rparr>, True)))"

definition ip_to_device :: "(gerr \<Rightarrow> string) \<Rightarrow> nat \<Rightarrow> ('p supervisor \<Rightarrow> 'p supervisor) \<Rightarrow> (gerr, 'p) result
    \<Rightarrow> gerr option \<Rightarrow> 'p supervisor \<Rightarrow> 'p supervisor \<times> bool" where
  "ip_to_device qt i blk read dev_err s0 =
     (if session_done s0 i then (s0, False)
      else
        let s = blk s0 in
        case read of
        Inl err \<Rightarrow>
          if session_done s i then (s, False)
          else if isActiveSession i s
          then (reportSessionError i (EWrap ''error reading from IP connection: '' err []) s, False)
          else (s, False)
      | Inr p \<Rightarrow>
          (case dev_err of
             Some err \<Rightarrow> (reportSessionError i (EText (''failed to write to TUN device: '' @ err_text qt err)) s, False)
           | None \<Rightarrow> (s\<lparr>sv_device := sv_device s @ [p]\<rparr>, True)))"

text \<open>
  \<open>handleForwarding\<close>: it attaches the connection, waits for the session's error or the end of the
  context, and its deferred function detaches and closes the session. \<open>during\<close> is what happens
  between the two; the result lists what the select can return (nothing: it still waits).
\<close>

definition end_forwarding :: "nat \<Rightarrow> 'p supervisor \<Rightarrow> 'p supervisor" where
  "end_forwarding i s = close_session i (Detach i s)"

definition handleForwarding :: "('p supervisor \<Rightarrow> 'p supervisor) \<Rightarrow> gerr option \<Rightarrow> nat option \<Rightarrow> 'p supervisor
    \<Rightarrow> 'p supervisor \<times> gerr list" where
  "handleForwarding during ctx_err conn s =
     (case attach conn s of
        (s1, Inl err) \<Rightarrow> (s1, [err])
      | (s1, Inr i) \<Rightarrow>
          let s2 = during s1;
              ready = (case se_errCh (sv_sessions s2 ! i) of Some e \<Rightarrow> [e] | None \<Rightarrow> []) @
                      (case ctx_err of Some e \<Rightarrow> [e] | None \<Rightarrow> [])
          in if ready = [] then (s2, []) else (end_forwarding i s2, ready))"

section \<open>Reachable supervisors\<close>

text \<open>
  The steps are those of any of the goroutines: a read that blocks may see any reachable supervisor
  when it returns, and each packet of a batch is written in whatever state it finds.
\<close>

inductive sv_reach :: "'p supervisor \<Rightarrow> bool" where
  sv_new: "sv_reach newForwardingSupervisor"
| sv_attach: "sv_reach s \<Longrightarrow> \<not> sv_cancelled s \<Longrightarrow> sv_reach (fst (attach conn s))"
| sv_end: "sv_reach s \<Longrightarrow> sv_reach (end_forwarding i s)"
| sv_pump: "sv_reach s \<Longrightarrow> sv_reach (blk s) \<Longrightarrow> sv_reach (fst (device_to_ip qt blk read (\<lambda>_ t. t) wr s))"
| sv_write: "sv_reach s \<Longrightarrow> sv_reach (write_batch (\<lambda>_ t. t) wr i k [p] s)"
| sv_inject: "sv_reach s \<Longrightarrow> sv_reach (fst (icmp_injector err s))"
| sv_receive: "sv_reach s \<Longrightarrow> sv_reach (blk s) \<Longrightarrow> sv_reach (fst (ip_to_device qt i blk rd err s))"
| sv_close: "sv_reach s \<Longrightarrow> sv_reach (sup_Close s)"

text \<open>
  Every session but the active one is closed, its connection exactly once; an error in a session's
  channel means the session is closed; the ICMP queue is bounded.
\<close>

definition session_ok :: "forwardSession \<Rightarrow> bool" where
  "session_ok se =
     (se_connCloses se = (if se_closeOnce se then 1 else 0) \<and> se_cancelled se = se_closeOnce se \<and>
      (se_errOnce se \<longrightarrow> se_closeOnce se) \<and> (se_errCh se \<noteq> None \<longrightarrow> se_errOnce se))"

definition sv_inv :: "'p supervisor \<Rightarrow> bool" where
  "sv_inv s =
     (list_all session_ok (sv_sessions s) \<and>
      (\<forall>i < length (sv_sessions s). sv_active s \<noteq> Some i \<longrightarrow> se_closeOnce (sv_sessions s ! i)) \<and>
      (\<forall>i. sv_active s = Some i \<longrightarrow> i < length (sv_sessions s)) \<and>
      length (sv_icmp s) \<le> icmp_cap)"

lemma session_ok_closed: "session_ok se \<Longrightarrow> session_ok (session_closed se) \<and> se_closeOnce (session_closed se)"
  by (auto simp: session_ok_def session_closed_def)

lemma session_ok_reported: "session_ok se \<Longrightarrow> session_ok (session_reported e se) \<and> se_closeOnce (session_reported e se)"
  by (auto simp: session_ok_def session_reported_def session_closed_def split: option.splits)

lemma upd_session_frame [simp, frame]:
  "sv_active (upd_session i f s) = sv_active s" "sv_icmp (upd_session i f s) = sv_icmp s"
  "length (sv_sessions (upd_session i f s)) = length (sv_sessions s)" "sv_cancelled (upd_session i f s) = sv_cancelled s"
  "sv_device (upd_session i f s) = sv_device s" "sv_sent (upd_session i f s) = sv_sent s"
  by (auto simp: upd_session_def)

lemma nth_upd_session:
  "j < length (sv_sessions s) \<Longrightarrow>
     sv_sessions (upd_session i f s) ! j = (if j = i then f (sv_sessions s ! i) else sv_sessions s ! j)"
  by (auto simp: upd_session_def nth_list_update)

lemma upd_session_inv:
  assumes "sv_inv s" "\<And>se. session_ok se \<Longrightarrow> session_ok (f se) \<and> (se_closeOnce se \<longrightarrow> se_closeOnce (f se))"
  shows "sv_inv (upd_session i f s)"
  using assms by (auto simp: sv_inv_def nth_upd_session list_all_length)

lemma close_session_inv: "sv_inv s \<Longrightarrow> sv_inv (close_session i s)"
  by (simp add: close_session_def upd_session_inv session_ok_closed)

lemma report_inv: "sv_inv s \<Longrightarrow> sv_inv (reportSessionError i e s)"
  by (simp add: reportSessionError_def upd_session_inv session_ok_reported)

lemma attach_inv: "sv_inv s \<Longrightarrow> sv_inv (fst (attach conn s))"
proof (cases conn)
  case (Some c)
  assume inv: "sv_inv s"
  let ?se = "\<lparr>se_id = sv_sessionID s + 1, se_conn = c, se_cancelled = False, se_errCh = None, se_closeOnce = False,
                    se_errOnce = False, se_connCloses = 0\<rparr>"
  let ?s1 = "s\<lparr>sv_sessions := sv_sessions s @ [?se], sv_sessionID := sv_sessionID s + 1,
               sv_active := Some (length (sv_sessions s))\<rparr>"
  have ok: "list_all session_ok (sv_sessions ?s1)" using inv by (simp add: sv_inv_def session_ok_def)
  show ?thesis
  proof (cases "sv_active s")
    case None
    with inv Some ok show ?thesis by (auto simp: attach_def Let_def sv_inv_def nth_append less_Suc_eq)
  next
    case (Some prev)
    then have prev: "prev < length (sv_sessions s)" using inv by (simp add: sv_inv_def)
    have "fst (attach conn s) = close_session prev ?s1" using \<open>conn = Some c\<close> Some by (simp add: attach_def Let_def)
    moreover have "sv_inv (close_session prev ?s1)"
      using inv ok prev Some session_ok_closed
      by (auto simp: sv_inv_def close_session_def nth_upd_session nth_append list_all_length less_Suc_eq)
    ultimately show ?thesis by simp
  qed
qed (simp add: attach_def)

lemma end_forwarding_inv: "sv_inv s \<Longrightarrow> sv_inv (end_forwarding i s)"
proof -
  assume inv: "sv_inv s"
  show ?thesis
  proof (cases "sv_active s = Some i")
    case False
    with inv show ?thesis by (simp add: end_forwarding_def Detach_def close_session_inv)
  next
    case True
    then have "i < length (sv_sessions s)" using inv by (simp add: sv_inv_def)
    with inv True session_ok_closed show ?thesis
      by (auto simp: end_forwarding_def Detach_def sv_inv_def close_session_def nth_upd_session list_all_length)
  qed
qed

lemma sup_Close_inv: "sv_inv s \<Longrightarrow> sv_inv (sup_Close s)"
  using session_ok_closed
  by (auto simp: sup_Close_def sv_inv_def close_session_def nth_upd_session list_all_length Let_def split: option.splits)

lemma sv_inv_frame:
  assumes "sv_inv s" "sv_sessions t = sv_sessions s" "sv_active t = sv_active s" "length (sv_icmp t) \<le> icmp_cap"
  shows "sv_inv t"
  using assms by (simp add: sv_inv_def)

lemma write_batch_inv: "sv_inv s \<Longrightarrow> sv_inv (write_batch (\<lambda>_ t. t) wr i k ps s)"
proof (induction ps arbitrary: k s)
  case Nil
  then show ?case by simp
next
  case (Cons p ps)
  show ?case
  proof (cases "wr k p")
    case (Inl err)
    with Cons show ?thesis by (simp add: report_inv)
  next
    case (Inr icmp)
    have "sv_inv (s\<lparr>sv_sent := x\<rparr>)" "length (sv_icmp s) < icmp_cap \<Longrightarrow> sv_inv (s\<lparr>sv_sent := x, sv_icmp := sv_icmp s @ [q]\<rparr>)" for x q
      using Cons.prems by (auto simp: sv_inv_def)
    with Inr show ?thesis by (auto simp: Let_def split: option.split intro!: Cons.IH)
  qed
qed

lemma device_to_ip_inv: "sv_inv s \<Longrightarrow> sv_inv (blk s) \<Longrightarrow> sv_inv (fst (device_to_ip qt blk read (\<lambda>_ t. t) wr s))"
  by (auto simp: device_to_ip_def report_inv write_batch_inv Let_def split: sum.splits option.splits)

lemma sv_reach_inv: "sv_reach s \<Longrightarrow> sv_inv s"
proof (induction rule: sv_reach.induct)
  case sv_new
  then show ?case by (simp add: newForwardingSupervisor_def sv_inv_def)
next
  case (sv_inject s)
  then show ?case by (auto simp: icmp_injector_def sv_inv_def split: list.splits option.splits)
next
  case (sv_receive s blk qt i rd err)
  then show ?case
    by (auto simp: ip_to_device_def report_inv Let_def split: sum.splits option.splits intro: sv_inv_frame)
      (auto simp: sv_inv_def)
qed (simp_all add: attach_inv end_forwarding_inv device_to_ip_inv sup_Close_inv write_batch_inv del: write_batch.simps)

interpretation session_close: close_once session_closed se_closeOnce se_connCloses
  by unfold_locales (auto simp: session_closed_def)

section \<open>Properties\<close>


definition two_sessions :: "nat supervisor" where
  "two_sessions = fst (attach (Some 8) (fst (attach (Some 7) newForwardingSupervisor)))"

lemma two_sessions_reach: "sv_reach two_sessions"
  unfolding two_sessions_def
  by (intro sv_attach sv_new) (simp_all add: newForwardingSupervisor_def attach_def Let_def)

lemma two_sessions_facts:
  "length (sv_sessions two_sessions) = 2" "sv_active two_sessions = Some 1" "\<not> sv_cancelled two_sessions"
  by (simp_all add: two_sessions_def newForwardingSupervisor_def attach_def close_session_def Let_def)


text \<open>
  the first error of a session is the one its owner sees, and it closes the session: reporting
  any number of further errors changes nothing.
\<close>

theorem first_session_error_wins:
  assumes "sv_reach s" "i < length (sv_sessions s)" "\<not> se_errOnce (sv_sessions s ! i)"
  shows "se_errCh (sv_sessions (fold (reportSessionError i) (e # es) s) ! i) = Some e \<and>
    se_connCloses (sv_sessions (fold (reportSessionError i) (e # es) s) ! i) = 1 \<and>
    fold (reportSessionError i) (e # es) s = reportSessionError i e s"
proof -
  have ok: "session_ok (sv_sessions s ! i)"
    using sv_reach_inv [OF assms(1)] assms(2) by (simp add: sv_inv_def list_all_length)
  have again: "reportSessionError i e' t = t" if "i < length (sv_sessions t)" "se_errOnce (sv_sessions t ! i)" for e' and t :: "'a supervisor"
    using that by (simp add: reportSessionError_def upd_session_def session_reported_def)
  have once: "se_errOnce (session_reported e se)" for se
    by (simp add: session_reported_def session_closed_def)
  have "fold (reportSessionError i) es (reportSessionError i e s) = reportSessionError i e s"
  proof (induction es)
    case (Cons e' es)
    then show ?case using again assms(2) once by (simp add: reportSessionError_def nth_upd_session)
  qed simp
  then show ?thesis
    using assms ok
    by (auto simp: reportSessionError_def nth_upd_session session_reported_def session_closed_def session_ok_def
        split: option.splits)
qed

theorem first_session_error_wins_witness:
  "se_errCh (sv_sessions (fold (reportSessionError 1) [ECanceled, ENetClosed] two_sessions) ! 1) = Some ECanceled"
proof -
  have "\<not> se_errOnce (sv_sessions two_sessions ! 1)"
    by (simp add: two_sessions_def newForwardingSupervisor_def attach_def close_session_def upd_session_def Let_def)
  moreover have "1 < length (sv_sessions two_sessions)" by (simp add: two_sessions_facts)
  ultimately show ?thesis
    using first_session_error_wins [OF two_sessions_reach, of 1 ECanceled "[ENetClosed]"] by blast
qed

text \<open>
  a write error on a session that has been superseded in the meantime is not reported: a batch
  that ends with a failing write leaves every session as the other goroutines left it when the
  session is no longer the active one, and the packets before the failing one were sent in order.
\<close>

theorem superseded_write_error_ignored:
  assumes "\<forall>k < length ps. wr k (ps ! k) = Inr None" "wr (length ps) q = Inl err"
    and "\<forall>k < length ps. interf k = id" "\<not> isActiveSession i (interf (length ps) (s\<lparr>sv_sent := sv_sent s @ map (Pair i) ps\<rparr>))"
  shows "write_batch interf wr i 0 (ps @ q # rest) s = interf (length ps) (s\<lparr>sv_sent := sv_sent s @ map (Pair i) ps\<rparr>)"
proof -
  have "write_batch interf wr i k (us @ q # rest) t
      = interf (k + length us) (t\<lparr>sv_sent := sv_sent t @ map (Pair i) us\<rparr>)"
    if "\<forall>j < length us. wr (k + j) (us ! j) = Inr None" "wr (k + length us) q = Inl err"
      "\<forall>j < length us. interf (k + j) = id"
      "\<not> isActiveSession i (interf (k + length us) (t\<lparr>sv_sent := sv_sent t @ map (Pair i) us\<rparr>))" for us k t
    using that
  proof (induction us arbitrary: k t)
    case Nil
    then show ?case by (simp add: Let_def)
  next
    case (Cons u us)
    have 0: "interf k = id" "wr k u = Inr None" using Cons.prems(1,3) by (auto simp: id_def dest: spec [of _ 0])
    have s: "wr (Suc k + j) (us ! j) = Inr None" "interf (Suc k + j) = id" if "j < length us" for j
      using Cons.prems(1,3) that by (auto simp: id_def dest: spec [of _ "Suc j"])
    show ?case
      using 0 s Cons.prems(2,4) Cons.IH [of "Suc k" "t\<lparr>sv_sent := sv_sent t @ [(i, u)]\<rparr>"]
      by (simp add: Let_def)
  qed
  from this [of ps 0 s] assms show ?thesis by simp
qed

theorem superseded_write_error_ignored_witness:
  "write_batch (\<lambda>k. if k = 1 then fst \<circ> attach (Some 9) else id) (\<lambda>k p. if k = 1 then Inl ENetClosed else Inr None) 1 0 [5, 6]
     two_sessions = fst (attach (Some 9) (two_sessions\<lparr>sv_sent := [(1, 5)]\<rparr>))"
proof -
  have "sv_sent two_sessions = []"
    by (simp add: two_sessions_def newForwardingSupervisor_def attach_def close_session_def Let_def)
  moreover have "\<not> isActiveSession 1 (fst (attach (Some 9) (two_sessions\<lparr>sv_sent := [(1, 5)]\<rparr>)))"
    using two_sessions_facts by (simp add: isActiveSession_def attach_def close_session_def Let_def)
  ultimately show ?thesis
    using superseded_write_error_ignored [of "[5]" "\<lambda>k p. if k = 1 then Inl ENetClosed else Inr None" 6 ENetClosed
        "\<lambda>k. if k = 1 then fst \<circ> attach (Some 9) else id" 1 two_sessions "[]"]
    by simp
qed

end
