(* ===== verification/Tunnel.thy ===== *)
theory Tunnel
  imports Complex_Main Tunnel_Log
begin

text \<open>
  Keeping the tunnel up, \<open>src/api/tunnel.go\<close>: the reconnect backoff, one connection from dial to
  disconnect, and the maintenance loop as a step relation. What the outside does to one attempt
  (the dial, the response, how the session ends) is a value of \<open>attempt_env\<close>; the calls the program
  makes are recorded as events. \<open>float64\<close> products are exact rationals here: the delays of the
  program are far below \<open>2 ^ 53\<close> nanoseconds, where they differ by rounding only.
\<close>

section \<open>Backoff\<close>

record ExponentialBackoff =
  InitialDelay :: duration
  MaxDelay :: duration
  Factor :: rat

definition go_trunc :: "rat \<Rightarrow> int" where
  "go_trunc x = (if x < 0 then - \<lfloor>- x\<rfloor> else \<lfloor>x\<rfloor>)"

fun backoff_loop :: "nat \<Rightarrow> rat \<Rightarrow> rat \<Rightarrow> int \<Rightarrow> int" where
  "backoff_loop 0 mx f delay = delay"
| "backoff_loop (Suc n) mx f delay =
     (if of_int delay < mx then backoff_loop n mx f (go_trunc (of_int delay * f)) else delay)"

text \<open>\<open>rnd\<close> is the value of \<open>rand.Float64()\<close>, in \<open>[0, 1)\<close>.\<close>

definition base_delay :: "ExponentialBackoff \<Rightarrow> int \<Rightarrow> duration" where
  "base_delay b attempt =
     (let delay = backoff_loop (nat attempt) (of_int (MaxDelay b) / Factor b) (Factor b) (InitialDelay b)
      in if delay > MaxDelay b then MaxDelay b else delay)"

definition NextDelay :: "ExponentialBackoff \<Rightarrow> rat \<Rightarrow> int \<Rightarrow> duration" where
  "NextDelay b rnd attempt =
     (if attempt \<le> 0 then InitialDelay b
      else
        let delay = base_delay b attempt; jitter = go_trunc (of_int delay * (1 / 10))
        in delay - jitter + go_trunc (of_int (jitter * 2) * rnd))"

section \<open>One connection\<close>

datatype endpoint = TCPEndpoint string | UDPEndpoint string

record ConnectionConfig =
  cc_Endpoint :: "endpoint option"
  cc_UseHTTP2 :: bool
  cc_MaxReconnectAttempts :: int
  cc_ReconnectStrategy :: ExponentialBackoff
  cc_OnConnected :: bool
  cc_OnDisconnected :: bool
  cc_AlwaysReconnect :: bool
  cc_WaitForReconnectDemand :: bool

record TunnelReconnectLog =
  HasConnectedOnce :: bool
  ConnectedAt :: int
  Trigger :: string

datatype session_end = FwdEnded "gerr option" | CtxDone gerr

text \<open>
  \<open>ae_cause\<close>: the transport has no close cause (\<open>None\<close>), or its close cause, which may be nil.
\<close>

record attempt_env =
  ae_connect :: "(gerr, int \<times> string) result"
  ae_end :: session_end
  ae_cause :: "gerr option option"
  ae_now :: int

datatype tn_event =
    EvDial | EvReleased | EvOnConnected | EvOnDisconnected "gerr option" | EvDemand | EvDelay duration

definition enrichWithTunnelCloseCause :: "(gerr \<Rightarrow> string) \<Rightarrow> gerr option option \<Rightarrow> gerr option \<Rightarrow> gerr option" where
  "enrichWithTunnelCloseCause qt causer err =
     (case err of
        None \<Rightarrow> None
      | Some e \<Rightarrow>
          (case causer of
             None \<Rightarrow> Some e
           | Some None \<Rightarrow> Some e
           | Some (Some cause) \<Rightarrow>
               if errors_Is cause ECanceled then Some e
               else Some (EWrap [] cause ('' (forwarding: '' @ err_text qt e @ '')''))))"

definition tunnelTransportLabel :: "bool \<Rightarrow> string" where
  "tunnelTransportLabel useHTTP2 = (if useHTTP2 then ''http2'' else ''http3'')"

fun endpoint_string :: "endpoint \<Rightarrow> string" where
  "endpoint_string (TCPEndpoint s) = s"
| "endpoint_string (UDPEndpoint s) = s"

definition selectedTunnelEndpoint :: "ConnectionConfig \<Rightarrow> string" where
  "selectedTunnelEndpoint cfg = (case cc_Endpoint cfg of None \<Rightarrow> [] | Some e \<Rightarrow> endpoint_string e)"

definition endpoint_error :: "ConnectionConfig \<Rightarrow> gerr option" where
  "endpoint_error cfg =
     (case cc_Endpoint cfg of
        None \<Rightarrow> Some (EText ''no endpoint configured for tunnel connection'')
      | Some (TCPEndpoint _) \<Rightarrow> if cc_UseHTTP2 cfg then None else Some (EText ''HTTP/3 mode requires a UDP endpoint, got *net.TCPAddr'')
      | Some (UDPEndpoint _) \<Rightarrow> if cc_UseHTTP2 cfg then Some (EText ''HTTP/2 mode requires a TCP endpoint, got *net.UDPAddr'') else None)"

text \<open>
  The result is the reconnect log, the next attempt number, the error and the events. The deferred
  functions run last to first: the connection is released before \<open>OnDisconnected\<close> is called.
\<close>

definition handleConnectionWithForwarding ::
  "(gerr \<Rightarrow> string) \<Rightarrow> ConnectionConfig \<Rightarrow> attempt_env \<Rightarrow> TunnelReconnectLog option \<Rightarrow> int
     \<Rightarrow> TunnelReconnectLog option \<times> int \<times> gerr option \<times> tn_event list" where
  "handleConnectionWithForwarding qt cfg ae lg attempt =
     (case endpoint_error cfg of
        Some e \<Rightarrow> (lg, attempt + 1, Some e, [])
      | None \<Rightarrow>
          (case ae_connect ae of
             Inl e \<Rightarrow> (lg, attempt + 1, Some e, [EvDial])
           | Inr (status, text) \<Rightarrow>
               if status \<noteq> 200 then (lg, attempt + 1, Some (EText (''tunnel connection failed: '' @ text)), [EvDial, EvReleased])
               else
                 let lg' = map_option (\<lambda>l. l\<lparr>HasConnectedOnce := True, ConnectedAt := ae_now ae\<rparr>) lg;
                     err = (case ae_end ae of
                              FwdEnded e \<Rightarrow> enrichWithTunnelCloseCause qt (ae_cause ae) e
                            | CtxDone e \<Rightarrow> Some e)
                 in (lg', 0, err,
                     EvDial # (if cc_OnConnected cfg then [EvOnConnected] else []) @ [EvReleased] @
                     (if cc_OnDisconnected cfg then [EvOnDisconnected err] else []))))"

section \<open>The maintenance loop\<close>

datatype mt_phase = MtLoop | MtDemand | MtPaused | MtBackoff duration | MtStopped

record mt =
  mt_phase :: mt_phase
  mt_attempt :: int
  mt_log :: "TunnelReconnectLog option"
  mt_events :: "tn_event list"

definition mt_start :: "TunnelReconnectLog option \<Rightarrow> mt" where
  "mt_start lg = \<lparr>mt_phase = MtLoop, mt_attempt = 0, mt_log = lg, mt_events = []\<rparr>"

text \<open>The branches after an attempt that returned an error, with the context still alive.\<close>

definition after_error :: "ConnectionConfig \<Rightarrow> rat \<Rightarrow> mt \<Rightarrow> mt" where
  "after_error cfg rnd m =
     (if mt_attempt m = 0 \<and> \<not> cc_AlwaysReconnect cfg \<and> cc_WaitForReconnectDemand cfg then
        m\<lparr>mt_log := map_option (\<lambda>l. l\<lparr>Trigger := ''demand''\<rparr>) (mt_log m), mt_phase := MtDemand\<rparr>
      else if cc_MaxReconnectAttempts cfg > 0 \<and> mt_attempt m \<ge> cc_MaxReconnectAttempts cfg then
        m\<lparr>mt_phase := MtPaused\<rparr>
      else
        let d = NextDelay (cc_ReconnectStrategy cfg) rnd (mt_attempt m)
        in m\<lparr>mt_log := map_option (\<lambda>l. l\<lparr>Trigger := ''backoff''\<rparr>) (mt_log m), mt_phase := MtBackoff d,
             mt_events := mt_events m @ [EvDelay d]\<rparr>)"

definition attempt_step ::
  "(gerr \<Rightarrow> string) \<Rightarrow> ConnectionConfig \<Rightarrow> attempt_env \<Rightarrow> bool \<Rightarrow> rat \<Rightarrow> mt \<Rightarrow> mt" where
  "attempt_step qt cfg ae ctx_done rnd m =
     (let (lg, attempt, err, evs) = handleConnectionWithForwarding qt cfg ae (mt_log m) (mt_attempt m);
          m1 = m\<lparr>mt_log := lg, mt_attempt := attempt, mt_events := mt_events m @ evs\<rparr>
      in if ctx_done then m1\<lparr>mt_phase := MtStopped\<rparr>
         else case err of
           Some _ \<Rightarrow> after_error cfg rnd m1
         | None \<Rightarrow> m1)"

text \<open>
  An attempt that ended with the context cannot be followed by a live context.
\<close>

definition ctx_ended :: "attempt_env \<Rightarrow> bool" where
  "ctx_ended ae = (case ae_end ae of CtxDone _ \<Rightarrow> True | FwdEnded _ \<Rightarrow> False)"

inductive mt_step :: "(gerr \<Rightarrow> string) \<Rightarrow> ConnectionConfig \<Rightarrow> mt \<Rightarrow> mt \<Rightarrow> bool" for qt cfg where
  mt_shutdown: "mt_phase m \<noteq> MtStopped \<Longrightarrow> mt_step qt cfg m (m\<lparr>mt_phase := MtStopped\<rparr>)"
| mt_try: "mt_phase m = MtLoop \<Longrightarrow> (ctx_ended ae \<Longrightarrow> ctx_done) \<Longrightarrow> 0 \<le> rnd \<Longrightarrow> rnd < 1
    \<Longrightarrow> mt_step qt cfg m (attempt_step qt cfg ae ctx_done rnd m)"
| mt_wake: "mt_phase m = MtDemand
    \<Longrightarrow> mt_step qt cfg m (m\<lparr>mt_phase := MtLoop, mt_events := mt_events m @ [EvDemand]\<rparr>)"
| mt_timer: "mt_phase m = MtBackoff d \<Longrightarrow> mt_step qt cfg m (m\<lparr>mt_phase := MtLoop\<rparr>)"

inductive mt_reach :: "(gerr \<Rightarrow> string) \<Rightarrow> ConnectionConfig \<Rightarrow> mt \<Rightarrow> bool" for qt cfg where
  mt_init: "mt_reach qt cfg (mt_start lg)"
| mt_next: "mt_reach qt cfg m \<Longrightarrow> mt_step qt cfg m m' \<Longrightarrow> mt_reach qt cfg m'"

inductive_cases mt_step_cases: "mt_step qt cfg m m'"

section \<open>Lemmas: backoff\<close>

lemma go_trunc_nonneg: "0 \<le> x \<Longrightarrow> go_trunc x = \<lfloor>x\<rfloor>"
  by (simp add: go_trunc_def)

lemma go_trunc_grow: "0 \<le> d \<Longrightarrow> 1 \<le> f \<Longrightarrow> d \<le> go_trunc (of_int d * f)"
proof -
  assume d: "0 \<le> d" and f: "1 \<le> f"
  then have "of_int d \<le> of_int d * f" by (simp add: mult_le_cancel_left1)
  then have "d \<le> \<lfloor>of_int d * f\<rfloor>" by (simp add: le_floor_iff)
  with d f show ?thesis by (simp add: go_trunc_nonneg)
qed

lemma backoff_loop_ge: "0 \<le> d \<Longrightarrow> 1 \<le> f \<Longrightarrow> d \<le> backoff_loop n mx f d"
proof (induction n arbitrary: d)
  case 0
  then show ?case by simp
next
  case (Suc n)
  have "d \<le> go_trunc (of_int d * f)" using Suc.prems by (rule go_trunc_grow)
  with Suc show ?case by (auto intro: order_trans)
qed

lemma base_delay_bounds:
  assumes "0 \<le> InitialDelay b" "InitialDelay b \<le> MaxDelay b" "1 \<le> Factor b"
  shows "InitialDelay b \<le> base_delay b n \<and> base_delay b n \<le> MaxDelay b"
  using assms backoff_loop_ge [OF assms(1,3)] by (auto simp: base_delay_def Let_def)

section \<open>Lemmas: events\<close>

text \<open>
  \<open>paired b evs\<close>: starting connected or not, the callbacks alternate and end not connected.
\<close>

fun paired :: "bool \<Rightarrow> tn_event list \<Rightarrow> bool" where
  "paired up [] = (\<not> up)"
| "paired up (EvOnConnected # es) = (\<not> up \<and> paired True es)"
| "paired up (EvOnDisconnected _ # es) = (up \<and> paired False es)"
| "paired up (EvDial # es) = (\<not> up \<and> paired up es)"
| "paired up (_ # es) = paired up es"

lemma paired_append: "paired up xs \<Longrightarrow> paired up (xs @ ys) = paired False ys"
  by (induction up xs rule: paired.induct) auto

text \<open>
  \<open>asleep evs\<close>: an established connection was lost with an error and no demand came since;
  \<open>lazy_ok\<close>: no dial happens while asleep.
\<close>

fun lazy_ok :: "bool \<Rightarrow> tn_event list \<Rightarrow> bool" where
  "lazy_ok sl [] = True"
| "lazy_ok sl (EvOnDisconnected (Some _) # es) = lazy_ok True es"
| "lazy_ok sl (EvDemand # es) = lazy_ok False es"
| "lazy_ok sl (EvDial # es) = (\<not> sl \<and> lazy_ok sl es)"
| "lazy_ok sl (_ # es) = lazy_ok sl es"

fun asleep :: "bool \<Rightarrow> tn_event list \<Rightarrow> bool" where
  "asleep sl [] = sl"
| "asleep sl (EvOnDisconnected (Some _) # es) = asleep True es"
| "asleep sl (EvDemand # es) = asleep False es"
| "asleep sl (_ # es) = asleep sl es"

lemma lazy_ok_append: "lazy_ok sl (xs @ ys) = (lazy_ok sl xs \<and> lazy_ok (asleep sl xs) ys)"
  by (induction sl xs rule: lazy_ok.induct) auto

lemma asleep_append: "asleep sl (xs @ ys) = asleep (asleep sl xs) ys"
  by (induction sl xs rule: asleep.induct) auto

text \<open>The dials since the last established connection.\<close>

fun dials_since :: "nat \<Rightarrow> tn_event list \<Rightarrow> nat" where
  "dials_since n [] = n"
| "dials_since n (EvOnConnected # es) = dials_since 0 es"
| "dials_since n (EvDial # es) = dials_since (Suc n) es"
| "dials_since n (_ # es) = dials_since n es"

lemma dials_since_append: "dials_since n (xs @ ys) = dials_since (dials_since n xs) ys"
  by (induction n xs rule: dials_since.induct) auto

section \<open>Lemmas: one attempt\<close>

lemma handle_cases:
  assumes "handleConnectionWithForwarding qt cfg ae lg n = (lg', n', err, evs)"
  obtains (failed) "n' = n + 1" "err \<noteq> None" "evs \<in> {[], [EvDial], [EvDial, EvReleased]}"
  | (lost) "n' = 0" "evs = EvDial # (if cc_OnConnected cfg then [EvOnConnected] else []) @ [EvReleased] @
      (if cc_OnDisconnected cfg then [EvOnDisconnected err] else [])"
proof (cases "endpoint_error cfg")
  case None
  with assms show ?thesis
    by (auto simp: handleConnectionWithForwarding_def Let_def split: sum.splits if_splits prod.splits
        intro: failed lost)
next
  case (Some e)
  show ?thesis by (rule failed) (use assms in \<open>simp_all add: handleConnectionWithForwarding_def Some\<close>, force)
qed

lemma after_error_frame [frame]:
  "mt_attempt (after_error cfg r m) = mt_attempt m"
  "\<exists>d. mt_events (after_error cfg r m) = mt_events m \<or> mt_events (after_error cfg r m) = mt_events m @ [EvDelay d]"
  by (auto simp: after_error_def Let_def)

text \<open>What one attempt does to the loop state: the events of the attempt, then at most a delay.\<close>

lemma attempt_step_facts:
  assumes "handleConnectionWithForwarding qt cfg ae (mt_log m) (mt_attempt m) = (lg, n, err, evs)"
  shows "mt_attempt (attempt_step qt cfg ae cd r m) = n"
    "\<exists>ds. mt_events (attempt_step qt cfg ae cd r m) = mt_events m @ evs @ ds \<and> set ds \<subseteq> range EvDelay"
proof -
  show "mt_attempt (attempt_step qt cfg ae cd r m) = n"
    using assms by (auto simp: attempt_step_def after_error_frame Let_def split: option.splits)
  let ?m1 = "m\<lparr>mt_log := lg, mt_attempt := n, mt_events := mt_events m @ evs\<rparr>"
  from after_error_frame(2) [of cfg r ?m1]
  show "\<exists>ds. mt_events (attempt_step qt cfg ae cd r m) = mt_events m @ evs @ ds \<and> set ds \<subseteq> range EvDelay"
    using assms by (auto simp: attempt_step_def Let_def split: option.splits)
qed

lemma delays_neutral:
  assumes "set ds \<subseteq> range EvDelay"
  shows "paired up ds = (\<not> up)" "lazy_ok sl ds" "asleep sl ds = sl" "dials_since n ds = n"
proof -
  have "paired up ds = (\<not> up) \<and> lazy_ok sl ds \<and> asleep sl ds = sl \<and> dials_since n ds = n"
    using assms by (induction ds arbitrary: n sl up) auto
  then show "paired up ds = (\<not> up)" "lazy_ok sl ds" "asleep sl ds = sl" "dials_since n ds = n" by auto
qed

lemma mt_step_events:
  assumes "mt_step qt cfg m m'"
  obtains (same) "mt_events m' = mt_events m" "mt_attempt m' = mt_attempt m"
    "mt_phase m' = MtStopped \<or> (\<exists>d. mt_phase m = MtBackoff d \<and> mt_phase m' = MtLoop)"
  | (woken) "mt_events m' = mt_events m @ [EvDemand]" "mt_attempt m' = mt_attempt m" "mt_phase m = MtDemand" "mt_phase m' = MtLoop"
  | (tried) ae cd r lg n err evs ds where "m' = attempt_step qt cfg ae cd r m" "mt_phase m = MtLoop"
      "handleConnectionWithForwarding qt cfg ae (mt_log m) (mt_attempt m) = (lg, n, err, evs)"
      "mt_attempt m' = n" "mt_events m' = mt_events m @ evs @ ds" "set ds \<subseteq> range EvDelay"
  using assms
proof (cases rule: mt_step.cases)
  case mt_shutdown
  show ?thesis by (rule same) (simp_all add: mt_shutdown)
next
  case (mt_try ae cd r)
  obtain lg n err evs where h: "handleConnectionWithForwarding qt cfg ae (mt_log m) (mt_attempt m) = (lg, n, err, evs)"
    by (cases "handleConnectionWithForwarding qt cfg ae (mt_log m) (mt_attempt m)") auto
  from attempt_step_facts(2) [OF h, of cd r] obtain ds
    where "mt_events m' = mt_events m @ evs @ ds" "set ds \<subseteq> range EvDelay" by (auto simp: mt_try(1))
  with mt_try h show ?thesis by (intro tried) (simp_all add: attempt_step_facts(1))
next
  case mt_wake
  show ?thesis by (rule woken) (simp_all add: mt_wake)
next
  case (mt_timer d)
  show ?thesis by (rule same) (simp_all add: mt_timer)
qed

section \<open>Properties\<close>

text \<open>
  C24: the connection callbacks alternate: in every run of the maintenance loop each \<open>OnConnected\<close>
  is followed by exactly one \<open>OnDisconnected\<close> before the next dial, none comes without the other,
  and when the loop is between attempts nothing is left connected.
\<close>

theorem maintain_callbacks_paired:
  assumes "mt_reach qt cfg m" "cc_OnConnected cfg" "cc_OnDisconnected cfg"
  shows "paired False (mt_events m)"
  using assms(1)
proof (induction rule: mt_reach.induct)
  case (mt_init lg)
  then show ?case by (simp add: mt_start_def)
next
  case (mt_next m m')
  from mt_next.hyps(2) show ?case
  proof (cases rule: mt_step_events)
    case same
    with mt_next.IH show ?thesis by simp
  next
    case woken
    with mt_next.IH show ?thesis by (simp add: paired_append)
  next
    case (tried ae cd r lg n err evs ds)
    have "paired False evs"
      using tried(3) by (cases rule: handle_cases) (auto simp: assms(2,3))
    with tried mt_next.IH delays_neutral(1) [OF tried(6)] show ?thesis by (simp add: paired_append)
  qed
qed

text \<open>A configuration for an HTTP/3 tunnel, and an attempt that is established and then lost.\<close>

definition sample_conn :: ConnectionConfig where
  "sample_conn =
     \<lparr>cc_Endpoint = Some (UDPEndpoint ''162.159.198.1:443''), cc_UseHTTP2 = False, cc_MaxReconnectAttempts = 3,
      cc_ReconnectStrategy = \<lparr>InitialDelay = Second, MaxDelay = 5 * Minute, Factor = 2\<rparr>, cc_OnConnected = True,
      cc_OnDisconnected = True, cc_AlwaysReconnect = False, cc_WaitForReconnectDemand = True\<rparr>"

definition lost_attempt :: attempt_env where
  "lost_attempt = \<lparr>ae_connect = Inr (200, ''200 OK''), ae_end = FwdEnded (Some ENetClosed), ae_cause = None, ae_now = 5\<rparr>"

lemma sample_attempt:
  "attempt_step qt sample_conn lost_attempt False 0 (mt_start None) =
     \<lparr>mt_phase = MtDemand, mt_attempt = 0, mt_log = None,
      mt_events = [EvDial, EvOnConnected, EvReleased, EvOnDisconnected (Some ENetClosed)]\<rparr>"
  by (simp add: attempt_step_def handleConnectionWithForwarding_def endpoint_error_def sample_conn_def lost_attempt_def
      mt_start_def after_error_def enrichWithTunnelCloseCause_def Let_def)

lemma sample_run: "mt_reach qt sample_conn (attempt_step qt sample_conn lost_attempt False 0 (mt_start None))"
  by (rule mt_next [OF mt_init [of qt sample_conn None]], rule mt_try) (simp_all add: mt_start_def ctx_ended_def lost_attempt_def)

theorem maintain_callbacks_paired_witness:
  "paired False [EvDial, EvOnConnected, EvReleased, EvOnDisconnected (Some ENetClosed)]"
  using maintain_callbacks_paired [OF sample_run] by (simp add: sample_attempt sample_conn_def)

text \<open>
  C34: with a limit on reconnect attempts the loop makes at most that many dials without
  establishing a connection; when the limit is reached it is paused or stopped, and a paused loop
  does nothing but stop.
\<close>

theorem maintain_attempts_bounded:
  assumes "mt_reach qt cfg m" "cc_OnConnected cfg" "0 < cc_MaxReconnectAttempts cfg"
  shows "int (dials_since 0 (mt_events m)) \<le> cc_MaxReconnectAttempts cfg \<and>
    (cc_MaxReconnectAttempts cfg \<le> mt_attempt m \<longrightarrow> mt_phase m \<in> {MtPaused, MtStopped}) \<and>
    (mt_phase m = MtPaused \<and> mt_step qt cfg m m' \<longrightarrow> m' = m\<lparr>mt_phase := MtStopped\<rparr>)"
proof -
  let ?M = "cc_MaxReconnectAttempts cfg"
  have "int (dials_since 0 (mt_events m)) \<le> mt_attempt m \<and> mt_attempt m \<le> ?M \<and>
      (?M \<le> mt_attempt m \<longrightarrow> mt_phase m \<in> {MtPaused, MtStopped})"
    using assms(1)
  proof (induction rule: mt_reach.induct)
    case (mt_init lg)
    then show ?case using assms(3) by (simp add: mt_start_def)
  next
    case (mt_next m m')
    from mt_next.hyps(2) show ?case
    proof (cases rule: mt_step_events)
      case same
      with mt_next.IH show ?thesis by auto
    next
      case woken
      with mt_next.IH show ?thesis by (auto simp: dials_since_append)
    next
      case (tried ae cd r lg n err evs ds)
      have lt: "mt_attempt m < ?M" using mt_next.IH tried(2) by force
      have d: "int (dials_since (dials_since 0 (mt_events m)) evs) \<le> n" "n \<le> ?M"
        using tried(3) lt mt_next.IH assms(2,3) by (cases rule: handle_cases; auto)+
      have "mt_phase m' \<in> {MtPaused, MtStopped}" if "?M \<le> n"
        using tried(3) that assms(3) unfolding tried(1)
        by (cases rule: handle_cases) (auto simp: attempt_step_def after_error_def Let_def tried(3))
      with d tried delays_neutral(4) [OF tried(6)] show ?thesis by (simp add: dials_since_append)
    qed
  qed
  moreover have "mt_phase m = MtPaused \<and> mt_step qt cfg m m' \<longrightarrow> m' = m\<lparr>mt_phase := MtStopped\<rparr>"
    by (auto elim: mt_step_cases)
  ultimately show ?thesis by auto
qed

theorem maintain_attempts_bounded_witness:
  "int (dials_since 0 (mt_events (mt_start None))) \<le> 3 \<and> dials_since 0 [EvDial, EvOnConnected, EvReleased, EvOnDisconnected (Some ENetClosed)] = 0"
  using maintain_attempts_bounded [OF mt_init [of "\<lambda>_. []" sample_conn None]] by (simp add: sample_conn_def)

text \<open>
  C31: lazy reconnect: when the tunnel is configured to reconnect on demand, no dial follows the
  loss of an established connection until there was demand for the tunnel.
\<close>

theorem maintain_lazy_reconnect:
  assumes "mt_reach qt cfg m" "\<not> cc_AlwaysReconnect cfg" "cc_WaitForReconnectDemand cfg"
  shows "lazy_ok False (mt_events m) \<and> (asleep False (mt_events m) \<longrightarrow> mt_phase m \<in> {MtDemand, MtStopped})"
  using assms(1)
proof (induction rule: mt_reach.induct)
  case (mt_init lg)
  then show ?case by (simp add: mt_start_def)
next
  case (mt_next m m')
  from mt_next.hyps(2) show ?case
  proof (cases rule: mt_step_events)
    case same
    with mt_next.IH show ?thesis by auto
  next
    case woken
    with mt_next.IH show ?thesis by (simp add: lazy_ok_append asleep_append)
  next
    case (tried ae cd r lg n err evs ds)
    have awake: "\<not> asleep False (mt_events m)" using mt_next.IH tried(2) by auto
    have evs: "lazy_ok False evs" "asleep False evs \<longrightarrow> err \<noteq> None \<and> n = 0"
      using tried(3) by (cases rule: handle_cases; cases err; auto)+
    have "mt_phase m' \<in> {MtDemand, MtStopped}" if "err \<noteq> None" "n = 0"
      using that assms(2,3) unfolding tried(1) by (auto simp: attempt_step_def after_error_def Let_def tried(3))
    with evs awake tried mt_next.IH delays_neutral(2,3) [OF tried(6)] show ?thesis
      by (auto simp: lazy_ok_append asleep_append)
  qed
qed

theorem maintain_lazy_reconnect_witness:
  "lazy_ok False [EvDial, EvOnConnected, EvReleased, EvOnDisconnected (Some ENetClosed)]"
  using maintain_lazy_reconnect [OF sample_run] by (simp add: sample_attempt sample_conn_def)

text \<open>
  the delay before an attempt: the first is the initial delay; every later one lies within ten
  percent of a base delay between the initial and the maximal delay.
\<close>

theorem NextDelay_bounds:
  assumes "0 \<le> InitialDelay b" "InitialDelay b \<le> MaxDelay b" "1 \<le> Factor b" "0 \<le> rnd" "rnd < 1"
  shows "NextDelay b rnd 0 = InitialDelay b \<and>
    (\<exists>d. InitialDelay b \<le> d \<and> d \<le> MaxDelay b \<and>
       9 * d \<le> 10 * NextDelay b rnd (int (Suc n)) \<and> 10 * NextDelay b rnd (int (Suc n)) \<le> 11 * d)"
proof -
  define d where "d = base_delay b (int (Suc n))"
  have d: "InitialDelay b \<le> d" "d \<le> MaxDelay b" "0 \<le> d"
    using base_delay_bounds [OF assms(1-3), of "int (Suc n)"] assms(1) by (auto simp: d_def)
  define j where "j = go_trunc (of_int d * (1 / 10))"
  have "j = \<lfloor>of_int d * (1 / 10 :: rat)\<rfloor>" using d(3) by (simp add: j_def go_trunc_nonneg)
  then have "of_int j \<le> of_int d * (1 / 10 :: rat)" by (simp only: of_int_floor_le)
  then have "of_int (10 * j) \<le> (of_int d :: rat)" by simp
  then have j: "10 * j \<le> d" by (simp only: of_int_le_iff)
  have j0: "0 \<le> j" using d(3) by (simp add: j_def go_trunc_nonneg)
  define k where "k = go_trunc (of_int (j * 2) * rnd)"
  have kf: "k = \<lfloor>of_int (j * 2) * rnd\<rfloor>" using j0 assms(4) by (simp add: k_def go_trunc_nonneg)
  then have k0: "0 \<le> k" using j0 assms(4) by simp
  have "of_int (j * 2) * rnd \<le> of_int (j * 2)" using j0 assms(5) by (simp add: mult_left_le)
  then have k: "k \<le> 2 * j" using kf by (metis floor_mono floor_of_int mult.commute)
  have "NextDelay b rnd (int (Suc n)) = d - j + k"
    unfolding NextDelay_def Let_def d_def [symmetric] j_def [symmetric] k_def [symmetric] by simp
  then show ?thesis
    using d j j0 k k0 by (auto simp: NextDelay_def simp del: of_nat_Suc intro!: exI [of _ d])
qed

theorem NextDelay_bounds_witness:
  "NextDelay \<lparr>InitialDelay = Second, MaxDelay = 5 * Minute, Factor = 2\<rparr> 0 0 = Second"
  using NextDelay_bounds [of "\<lparr>InitialDelay = Second, MaxDelay = 5 * Minute, Factor = 2\<rparr>" 0 0] by simp

text \<open>
  when a lost HTTP/3 connection has a QUIC close cause, the disconnect reason reported is that
  of the cause, not the masked forwarding error.
\<close>

theorem enriched_disconnect_reason:
  assumes "quic_leaves cause = l # ls" "\<not> errors_Is cause ECanceled"
  shows "TunnelDisconnectReason qt (enrichWithTunnelCloseCause qt (Some (Some cause)) (Some e)) = leaf_reason l"
  using assms quic_reason_first_leaf(1) [of cause]
  by (simp add: enrichWithTunnelCloseCause_def TunnelDisconnectReason_def)

theorem enriched_disconnect_reason_witness:
  "TunnelDisconnectReason (\<lambda>_. []) (enrichWithTunnelCloseCause (\<lambda>_. []) (Some (Some (EApplication 256 True))) (Some ENetClosed))
     = leaf_reason (EApplication 256 True)"
  using enriched_disconnect_reason [of "EApplication 256 True" "EApplication 256 True" "[]" "\<lambda>_. []" ENetClosed] by simp

end
