(* ===== verification/Ip_Text.thy ===== *)
theory Ip_Text
  imports Go_Netip
begin

text \<open>
  The texts of IP addresses, as \<open>net/netip\<close> prints and parses them: every valid address is read back
  from its text, the compressed texts of IPv6, the embedded IPv4 ones and the zones included; and the
  characters a text that parses is made of.
\<close>

section \<open>Groups of hexadecimal digits\<close>

lemma hex_digits_lt: "n < 16 \<Longrightarrow> hex_digits n = [hex_char n]"
  by (subst hex_digits.simps) simp

lemma hex_digits_ge: "16 \<le> n \<Longrightarrow> hex_digits n = hex_digits (n div 16) @ [hex_char (n mod 16)]"
  by (subst hex_digits.simps) simp

lemma hex_val_hex_char: "d < 16 \<Longrightarrow> hex_val (hex_char d) = Some d"
  by (auto simp: hex_val_def hex_char_def is_digit_def digit_val_def)

text \<open>What may follow a group: nothing, or a character that is no digit.\<close>

definition group_end :: "string \<Rightarrow> bool" where
  "group_end r = (r = [] \<or> hex_val (hd r) = None)"

lemma hex_scan_end: "group_end r \<Longrightarrow> hex_scan off acc r = Inr (acc, off, r)"
  by (cases r) (auto simp: group_end_def)

lemma hex_scan_prefix:
  "n < 16 ^ Suc k \<Longrightarrow> k < 4 \<Longrightarrow>
   hex_scan 0 0 (hex_digits n @ r) = hex_scan (length (hex_digits n)) n r \<and> 1 \<le> length (hex_digits n) \<and> length (hex_digits n) \<le> Suc k"
proof (induction k arbitrary: n r)
  case 0
  then show ?case by (simp add: hex_digits_lt hex_val_hex_char)
next
  case (Suc k)
  show ?case
  proof (cases "n < 16")
    case True
    then show ?thesis by (simp add: hex_digits_lt hex_val_hex_char)
  next
    case False
    have "n div 16 < 16 ^ Suc k" using Suc.prems by (simp add: less_mult_imp_div_less)
    from Suc.IH [OF this, of "hex_char (n mod 16) # r"] Suc.prems(2)
    have ih: "hex_scan 0 0 (hex_digits (n div 16) @ hex_char (n mod 16) # r) = hex_scan (length (hex_digits (n div 16))) (n div 16) (hex_char (n mod 16) # r)"
      "1 \<le> length (hex_digits (n div 16))" "length (hex_digits (n div 16)) \<le> Suc k" by simp_all
    have "(16 :: nat) ^ Suc (Suc k) \<le> 16 ^ 4" using Suc.prems(2) by (intro power_increasing) auto
    then have "n < 65536" using Suc.prems(1) by simp
    then have "n div 16 * 16 + n mod 16 = n" "\<not> n > 65535" by simp_all
    with ih False Suc.prems(2) show ?thesis by (simp add: hex_digits_ge hex_val_hex_char)
  qed
qed

lemma hex_scan_group:
  assumes "n < 65536" "group_end r"
  shows "hex_scan 0 0 (hex_digits n @ r) = Inr (n, length (hex_digits n), r)" "hex_digits n \<noteq> []"
  using hex_scan_prefix [of n 3 r] assms hex_scan_end [OF assms(2)] by auto

lemma hd_hex_digits: "\<exists>d < 16. hd (hex_digits n) = hex_char d"
proof (induction n rule: hex_digits.induct)
  case (1 n)
  show ?case
  proof (cases "n < 16")
    case False
    then have "hex_digits (n div 16) \<noteq> []" by (subst hex_digits.simps) simp
    with 1 False show ?thesis by (simp add: hex_digits_ge)
  qed (auto simp: hex_digits_lt)
qed

lemma hex_digits_Nil [simp]: "hex_digits n \<noteq> []"
  by (subst hex_digits.simps) simp

lemma hex_char_punct: "d < 16 \<Longrightarrow> hex_char d \<notin> {CHR '':'', CHR ''.'', CHR ''%''}"
  using hex_val_hex_char [of d] by (auto simp: hex_val_def is_digit_def)

lemma hex_val_punct [simp]: "hex_val CHR '':'' = None" "hex_val CHR ''.'' = None"
  by (simp_all add: hex_val_def is_digit_def)

lemma group_end_simps [simp]: "group_end []" "group_end (CHR '':'' # r)" "group_end (CHR ''.'' # r)"
  by (simp_all add: group_end_def)

section \<open>The groups of an address\<close>

lemma group_lt: "unat (a :: octet) * 256 + unat (b :: octet) < 65536"
  using unat_octet [of a] unat_octet [of b] by simp

lemma octet_div_mod [simp]: "unat (b :: octet) div 256 = 0" "unat (b :: octet) mod 256 = unat b"
  using unat_octet [of b] by simp_all

lemma length_groups: "length (groups b) = length b div 2"
  by (induction b rule: groups.induct) auto

lemma take_groups: "take n (groups b) = groups (take (2 * n) b)"
  by (induction b arbitrary: n rule: groups.induct) (auto simp: take_Cons' numeral_2_eq_2)

lemma drop_groups: "drop n (groups b) = groups (drop (2 * n) b)"
  by (induction b arbitrary: n rule: groups.induct) (auto simp: drop_Cons' numeral_2_eq_2)

lemma groups_zero: "even (length b) \<Longrightarrow> groups b = replicate l 0 \<Longrightarrow> b = replicate (2 * l) 0"
proof (induction b arbitrary: l rule: groups.induct)
  case (1 x y r)
  then show ?case by (cases l) (auto simp: unat_eq_zero)
qed auto

lemma groups_Nil: "even (length b) \<Longrightarrow> groups b = [] \<longleftrightarrow> b = []"
  by (induction b rule: groups.induct) auto

text \<open>The text of some groups, without an ellipsis.\<close>

definition group_text :: "octet list \<Rightarrow> string" where
  "group_text b = join_with '':'' (map hex_digits (groups b))"

lemma group_text_simps:
  "group_text [x, y] = hex_digits (unat x * 256 + unat y)"
  "group_text (x # y # z # u # r) = hex_digits (unat x * 256 + unat y) @ CHR '':'' # group_text (z # u # r)"
  by (simp_all add: group_text_def)

lemma group_text_hd:
  assumes "even (length b)" "b \<noteq> []"
  shows "group_text b \<noteq> [] \<and> (\<exists>d < 16. hd (group_text b) = hex_char d)"
proof -
  from assms obtain x y r where b: "b = x # y # r" by (cases b rule: groups.cases) auto
  show ?thesis using hd_hex_digits by (cases "groups r") (auto simp: b group_text_def)
qed

lemma group_text_not_colon: "even (length b) \<Longrightarrow> b \<noteq> [] \<Longrightarrow> hd (group_text b) \<noteq> CHR '':''"
  using group_text_hd [of b] hex_char_punct by (metis insert_iff)

section \<open>Parsing IPv6\<close>

lemma v6_step_last:
  "v6_step ip ell (hex_digits (unat x * 256 + unat y)) = Inr (V6Stop (ip @ [x, y]) ell [])"
  using hex_scan_group [OF group_lt, of "[]" x y] by (simp add: v6_step_def)

lemma v6_step_next:
  assumes "r \<noteq> []" "hd r \<noteq> CHR '':''"
  shows "v6_step ip ell (hex_digits (unat x * 256 + unat y) @ CHR '':'' # r) = Inr (V6More (ip @ [x, y]) ell r)"
  using assms hex_scan_group [OF group_lt, of "CHR '':'' # r" x y] by (cases r) (simp_all add: v6_step_def)

lemma v6_step_ellipsis:
  "v6_step ip None (hex_digits (unat x * 256 + unat y) @ CHR '':'' # CHR '':'' # r) =
     Inr (if r = [] then V6Stop (ip @ [x, y]) (Some (length ip + 2)) [] else V6More (ip @ [x, y]) (Some (length ip + 2)) r)"
  using hex_scan_group [OF group_lt, of "CHR '':'' # CHR '':'' # r" x y] by (simp add: v6_step_def)

lemma v6_loop_groups:
  "even (length b) \<Longrightarrow> b \<noteq> [] \<Longrightarrow> length ip + length b \<le> 16 \<Longrightarrow> v6_loop ip ell (group_text b) = Inr (ip @ b, ell, [])"
proof (induction b arbitrary: ip rule: groups.induct)
  case (1 x y r)
  show ?case
  proof (cases r rule: groups.cases)
    case (1 z u s)
    with "1.prems" have r: "group_text r \<noteq> []" "hd (group_text r) \<noteq> CHR '':''"
      using group_text_hd group_text_not_colon by auto
    have "v6_loop ip ell (group_text (x # y # r)) = v6_loop (ip @ [x, y]) ell (group_text r)"
      using "1.prems" v6_step_next [OF r] by (simp add: v6_loop.simps [of ip] 1 group_text_simps(2))
    also have "\<dots> = Inr (ip @ x # y # r, ell, [])" using "1.IH" [of "ip @ [x, y]"] "1.prems" 1 by simp
    finally show ?thesis .
  qed (use "1.prems" in \<open>auto simp: v6_loop.simps [of ip] group_text_simps(1) v6_step_last\<close>)
qed auto

lemma v6_loop_ellipsis:
  "even (length b) \<Longrightarrow> b \<noteq> [] \<Longrightarrow> length ip + length b < 16 \<Longrightarrow>
   v6_loop ip None (group_text b @ CHR '':'' # CHR '':'' # t) =
     (if t = [] then Inr (ip @ b, Some (length ip + length b), []) else v6_loop (ip @ b) (Some (length ip + length b)) t)"
proof (induction b arbitrary: ip rule: groups.induct)
  case (1 x y r)
  show ?case
  proof (cases r rule: groups.cases)
    case (1 z u s)
    let ?t = "group_text r @ CHR '':'' # CHR '':'' # t"
    from 1 "1.prems" have r: "?t \<noteq> []" "hd ?t \<noteq> CHR '':''"
      using group_text_hd [of r] group_text_not_colon [of r] by auto
    have "v6_loop ip None (group_text (x # y # r) @ CHR '':'' # CHR '':'' # t) = v6_loop (ip @ [x, y]) None ?t"
      using "1.prems" v6_step_next [OF r] by (simp add: v6_loop.simps [of ip] 1 group_text_simps(2))
    with "1.IH" [of "ip @ [x, y]"] "1.prems" 1 show ?thesis by simp
  qed (use "1.prems" in \<open>auto simp: v6_loop.simps [of ip] group_text_simps(1) v6_step_ellipsis\<close>)
qed auto

section \<open>The ellipsis\<close>

text \<open>A run of zero groups inside \<open>gs\<close>, or none.\<close>

definition run_in :: "nat list \<Rightarrow> nat \<times> nat \<Rightarrow> bool" where
  "run_in gs b = (snd b = 0 \<or> 2 \<le> snd b \<and> fst b + snd b \<le> length gs \<and> take (snd b) (drop (fst b) gs) = replicate (snd b) 0)"

lemma takeWhile_zero: "take (length (takeWhile (\<lambda>x. x = 0) xs)) xs = replicate (length (takeWhile (\<lambda>x. x = 0) xs)) (0 :: nat)"
  by (induction xs) auto

lemma zero_run_in: "drop i gs = hs \<Longrightarrow> run_in gs best \<Longrightarrow> run_in gs (zero_run i hs best)"
proof (induction hs arbitrary: i best)
  case (Cons g hs)
  let ?r = "length (takeWhile (\<lambda>x. x = 0) (g # hs))"
  have "i + length (g # hs) = length gs" using Cons.prems(1) by (metis drop_eq_Nil le_add_diff_inverse length_drop linorder_linear list.distinct(1))
  moreover have "?r \<le> length (g # hs)" by (rule length_takeWhile_le)
  ultimately have "run_in gs (i, ?r)" if "2 \<le> ?r"
    using that takeWhile_zero [of "g # hs"] Cons.prems(1) by (auto simp: run_in_def)
  moreover have "drop (i + 1) gs = hs" using Cons.prems(1) by (metis Suc_eq_plus1 drop_Suc list.sel(3) tl_drop)
  ultimately have "run_in gs (zero_run (i + 1) hs (if 2 \<le> ?r \<and> snd best < ?r then (i, ?r) else best))"
    using Cons.prems(2) by (intro Cons.IH) (simp_all split: if_split)
  then show ?case unfolding zero_run.simps Let_def .
qed simp

text \<open>The text of an address with an ellipsis: what is before it, the zeros, what is after it.\<close>

lemma string6_cases:
  assumes "length b = 16"
  obtains (plain) "string6 b = group_text b"
  | (short) pre n post where "b = pre @ replicate n 0 @ post" "even (length pre)" "even (length post)" "4 \<le> n"
      "string6 b = group_text pre @ CHR '':'' # CHR '':'' # group_text post"
proof -
  obtain st l where r: "zero_run 0 (groups b) (255, 0) = (st, l)" by fastforce
  have "run_in (groups b) (st, l)" using zero_run_in [of 0 "groups b" "groups b" "(255, 0)"] r by (simp add: run_in_def)
  then consider "l = 0" | "2 \<le> l" "st + l \<le> 8" "take l (drop st (groups b)) = replicate l 0"
    using assms by (auto simp: run_in_def length_groups)
  then show ?thesis
  proof cases
    case 1
    then show ?thesis using r plain by (simp add: string6_def group_text_def Let_def)
  next
    case 2
    let ?pre = "take (2 * st) b" and ?mid = "take (2 * l) (drop (2 * st) b)" and ?post = "drop (2 * (st + l)) b"
    have "groups ?mid = replicate l 0" using 2(3) by (simp add: drop_groups take_groups)
    then have mid: "?mid = replicate (2 * l) 0" using 2(2) assms by (intro groups_zero) auto
    have "b = ?pre @ ?mid @ ?post" by (simp add: algebra_simps flip: drop_drop)
    moreover have "string6 b = group_text ?pre @ CHR '':'' # CHR '':'' # group_text ?post"
      using r 2(1) by (simp add: string6_def group_text_def take_groups drop_groups Let_def)
    ultimately show ?thesis using short [of ?pre "2 * l" ?post] 2(1,2) assms mid by simp
  qed
qed

section \<open>Round trips\<close>

text \<open>\<open>parseIPv6\<close> after the zone is split off.\<close>

definition parse_body :: "string \<Rightarrow> string \<Rightarrow> (ip_error, addr) result" where
  "parse_body zone s =
     (if HasPrefix s ''::'' then
        (if drop 2 s = [] then Inr (Addr6 (replicate 16 0) zone) else bind_res (v6_loop [] (Some 0) (drop 2 s)) (v6_finish zone))
      else bind_res (v6_loop [] None s) (v6_finish zone))"

lemma parseIPv6_body: "CHR ''%'' \<notin> set s \<Longrightarrow> parseIPv6 (s @ (if z = [] then [] else CHR ''%'' # z)) = parse_body z s"
  by (auto simp: parseIPv6_def parse_body_def IndexByte_append IndexByte_None [THEN iffD2] Let_def)

lemma parse_body_short:
  assumes "even (length pre)" "even (length post)" "4 \<le> n" "length (pre @ replicate n 0 @ post) = 16"
  shows "parse_body z (group_text pre @ CHR '':'' # CHR '':'' # group_text post) = Inr (Addr6 (pre @ replicate n 0 @ post) z)"
proof -
  have n: "n = 16 - length pre - length post" "length pre + length post < 16" using assms(3,4) by auto
  have fin: "v6_finish z (pre @ post, Some (length pre), []) = Inr (Addr6 (pre @ replicate n 0 @ post) z)"
    using n by (simp add: v6_finish_def)
  have post: "post = [] \<or> group_text post \<noteq> []" using group_text_hd [OF assms(2)] by auto
  have empty: "group_text [] = []" by (simp add: group_text_def)
  show ?thesis
  proof (cases "pre = []")
    case True
    show ?thesis
    proof (cases "post = []")
      case True
      then show ?thesis using \<open>pre = []\<close> n empty by (simp add: parse_body_def HasPrefix_def)
    next
      case False
      with post have "v6_loop [] (Some 0) (group_text post) = Inr (post, Some 0, [])" "group_text post \<noteq> []"
        using v6_loop_groups [OF assms(2) False, of "[]"] n by simp_all
      then show ?thesis using True fin empty by (simp add: parse_body_def HasPrefix_def)
    qed
  next
    case False
    have "hd (group_text pre) \<noteq> CHR '':''" "group_text pre \<noteq> []"
      using group_text_hd [OF assms(1) False] group_text_not_colon [OF assms(1) False] by auto
    then have "\<not> HasPrefix (group_text pre @ CHR '':'' # CHR '':'' # group_text post) ''::''"
      by (cases "group_text pre") (auto simp: HasPrefix_def)
    moreover have "v6_loop [] None (group_text pre @ CHR '':'' # CHR '':'' # group_text post) = Inr (pre @ post, Some (length pre), [])"
      using v6_loop_ellipsis [OF assms(1) False, of "[]" "group_text post"] v6_loop_groups [OF assms(2), of pre] n post empty
      by (cases "post = []") auto
    ultimately show ?thesis using fin by (simp add: parse_body_def)
  qed
qed

lemma parse_body_string6:
  assumes "length b = 16"
  shows "parse_body z (string6 b) = Inr (Addr6 b z)"
  using assms
proof (cases rule: string6_cases)
  case plain
  have b: "even (length b)" "b \<noteq> []" using assms by auto
  have "\<not> HasPrefix (group_text b) ''::''"
    using group_text_hd [OF b] group_text_not_colon [OF b] by (cases "group_text b") (auto simp: HasPrefix_def)
  with plain assms v6_loop_groups [OF b, of "[]" None] show ?thesis by (simp add: parse_body_def v6_finish_def)
next
  case (short pre n post)
  then show ?thesis using parse_body_short [of pre post n z] assms by simp
qed

lemma hex_scan_dec:
  assumes "n < 256"
  shows "\<exists>a off. hex_scan 0 0 (dec_digits n @ CHR ''.'' # r) = Inr (a, off, CHR ''.'' # r) \<and> off \<noteq> 0"
proof -
  have d: "hex_val (digit_char d) = Some d" if "d < 10" for d using that by (simp add: hex_val_def)
  consider "n < 10" | "10 \<le> n" "n < 100" | "100 \<le> n" by linarith
  then show ?thesis
  proof cases
    case 1
    then show ?thesis by (simp add: dec_digits_lt_10 d Let_def)
  next
    case 2
    then show ?thesis by (simp add: dec_digits_ge_10 dec_digits_lt_10 [of "n div 10"] d Let_def)
  next
    case 3
    then have "dec_digits n = [digit_char (n div 10 div 10), digit_char (n div 10 mod 10), digit_char (n mod 10)]"
      using assms by (simp add: dec_digits_ge_10 dec_digits_lt_10 [of "n div 10 div 10"])
    moreover have "n div 10 div 10 < 10" using assms by simp
    ultimately show ?thesis using assms by (simp add: d Let_def)
  qed
qed

lemma parse_body_mapped: "parse_body z (''::ffff:'' @ string4 [a, b, c, d]) = Inr (Addr6 (v4_in_v6_prefix @ [a, b, c, d]) z)"
proof -
  let ?s = "string4 [a, b, c, d]"
  have ff: "hex_digits (unat (255 :: octet) * 256 + unat (255 :: octet)) = ''ffff''" by (simp add: hex_digits_ge hex_digits_lt hex_char_f)
  define r where "r = join_with ''.'' (map (\<lambda>x. dec_digits (unat x)) [b, c, d])"
  have r: "?s = dec_digits (unat a) @ CHR ''.'' # r" by (simp add: string4_def r_def)
  obtain a' off where sc: "hex_scan 0 0 ?s = Inr (a', off, CHR ''.'' # r)" "off \<noteq> 0"
    using hex_scan_dec [OF unat_octet, of a r] unfolding r by blast
  then have stop: "v6_step [255, 255] (Some 0) ?s = Inr (V6Stop [255, 255, a, b, c, d] (Some 0) [])"
    by (simp add: v6_step_def v4_loop_string4)
  have "dec_digits (unat a) \<noteq> []" "list_all is_digit (dec_digits (unat a))" by (simp_all add: dec_digits_all_digit)
  then have "?s \<noteq> []" "hd ?s \<noteq> CHR '':''"
    unfolding r by (cases "dec_digits (unat a)"; auto simp: is_digit_def)+
  from v6_step_next [OF this, of "[]" "Some 0" 255 255] stop
  have "v6_loop [] (Some 0) (''ffff:'' @ ?s) = Inr ([255, 255, a, b, c, d], Some 0, [])"
    unfolding ff by (simp add: v6_loop.simps [of "[]"] v6_loop.simps [of "[255, 255]"])
  moreover have "v6_finish z ([255, 255, a, b, c, d], Some 0, []) = Inr (Addr6 (v4_in_v6_prefix @ [a, b, c, d]) z)"
    by (simp add: v6_finish_def v4_in_v6_prefix_def)
  ultimately show ?thesis by (simp add: parse_body_def HasPrefix_def)
qed

lemma addr_chars_percent: "addr_chars (\<lambda>c. c \<noteq> CHR ''%'')"
  using hex_char_punct unfolding addr_chars_def by force

lemma AddrString6_no_percent: "CHR ''%'' \<notin> set (AddrString (Addr6 b []))"
  using AddrString6_chars [OF addr_chars_percent, of b] by (auto simp: list_all_iff simp del: AddrString.simps)

lemma hex_digits_hex: "c \<in> set (hex_digits n) \<Longrightarrow> \<exists>d < 16. c = hex_char d"
proof (induction n rule: hex_digits.induct)
  case (1 n)
  then show ?case by (cases "n < 16") (auto simp: hex_digits_lt hex_digits_ge intro: exI [of _ "n mod 16"])
qed

lemma first_sep_skip: "\<forall>c \<in> set s. c \<notin> {CHR '':'', CHR ''.'', CHR ''%''} \<Longrightarrow> first_sep (s @ t) = first_sep t"
  by (induction s) auto

lemma first_sep_hex: "first_sep (hex_digits n @ t) = first_sep t"
  by (rule first_sep_skip) (metis hex_digits_hex hex_char_punct)

lemma first_sep_group: "even (length b) \<Longrightarrow> b \<noteq> [] \<Longrightarrow> first_sep (group_text b @ CHR '':'' # t) = Some CHR '':''"
  by (cases b rule: groups.cases; cases "drop 2 b" rule: groups.cases) (auto simp: group_text_simps first_sep_hex)

lemma first_sep_string6:
  assumes "length b = 16"
  shows "first_sep (string6 b @ t) = Some CHR '':''"
  using assms
proof (cases rule: string6_cases)
  case plain
  obtain x y z u r where "b = x # y # z # u # r" using assms by (auto simp: numeral_eq_Suc length_Suc_conv)
  with plain show ?thesis by (simp add: group_text_simps first_sep_hex)
next
  case (short pre n post)
  then show ?thesis using first_sep_group [of pre "CHR '':'' # group_text post @ t"] by (cases "pre = []") (auto simp: group_text_def)
qed

text \<open>
  Every valid address is read back from its text.
\<close>

theorem ParseAddr_AddrString:
  assumes "wf_addr a" "a \<noteq> NoAddr"
  shows "ParseAddr (AddrString a) = Inr a"
proof (cases a)
  case (Addr4 b)
  then show ?thesis using ParseAddr_AddrString4 assms by simp
next
  case (Addr6 b z)
  let ?s = "AddrString (Addr6 b [])"
  have b: "length b = 16" using assms Addr6 by simp
  have at: "AddrString a = ?s @ (if z = [] then [] else CHR ''%'' # z)" by (simp add: Addr6)
  have body: "first_sep (?s @ t) = Some CHR '':'' \<and> parse_body z ?s = Inr a" for t
  proof (cases "take 12 b = v4_in_v6_prefix")
    case True
    obtain p q r s where "drop 12 b = [p, q, r, s]" using b list4_cases [of "drop 12 b"] by auto
    moreover have "b = v4_in_v6_prefix @ drop 12 b" using True by (metis append_take_drop_id)
    ultimately show ?thesis using True parse_body_mapped [of z p q r s] Addr6 by simp
  next
    case False
    then show ?thesis using first_sep_string6 [OF b] parse_body_string6 [OF b] Addr6 by simp
  qed
  then show ?thesis
    unfolding at by (simp add: ParseAddr_def parseIPv6_body [OF AddrString6_no_percent] del: AddrString.simps)
qed (use assms in simp)

text \<open>The address a \<open>net.IP\<close> of four or sixteen bytes stands for.\<close>

definition ip_addr :: "ip \<Rightarrow> addr" where
  "ip_addr b = (case To4 b of Some q \<Rightarrow> Addr4 q | None \<Rightarrow> Addr6 b [])"

lemma ParseAddr_IPString:
  assumes "length b = 4 \<or> length b = 16"
  shows "ParseAddr (IPString b) = Inr (ip_addr b)"
proof -
  have ne: "b \<noteq> []" using assms by auto
  show ?thesis
  proof (cases "To4 b")
    case (Some q)
    then have "length q = 4" using assms by (auto simp: To4_def split: if_splits)
    then show ?thesis using Some ne ParseAddr_AddrString4 [of q] by (simp add: IPString_def ip_addr_def)
  next
    case None
    then have "length b = 16" using assms by (auto simp: To4_def split: if_splits)
    then show ?thesis using None ne ParseAddr_AddrString [of "Addr6 b []"] by (simp add: IPString_def ip_addr_def del: AddrString.simps)
  qed
qed

section \<open>The characters of a text that parses\<close>

definition addr_char :: "char \<Rightarrow> bool" where
  "addr_char c = (hex_val c \<noteq> None \<or> c = CHR '':'' \<or> c = CHR ''.'')"

lemma v4_loop_chars: "v4_loop val dl fs dot s = Inr r \<Longrightarrow> list_all addr_char s"
  by (induction val dl fs dot s rule: v4_loop.induct) (auto simp: Let_def addr_char_def hex_val_def split: if_splits)

lemma hex_scan_chars: "hex_scan off acc s = Inr (a, n, r) \<Longrightarrow> \<exists>p. s = p @ r \<and> list_all addr_char p"
proof (induction s arbitrary: off acc)
  case (Cons c s)
  show ?case
  proof (cases "hex_val c")
    case None
    with Cons.prems show ?thesis by auto
  next
    case (Some d)
    with Cons obtain p where "s = p @ r" "list_all addr_char p" by (fastforce simp: Let_def split: if_splits)
    moreover have "addr_char c" using Some by (simp add: addr_char_def)
    ultimately show ?thesis by (intro exI [of _ "c # p"]) simp
  qed
qed auto

lemma v6_step_chars:
  assumes "v6_step ip ell s = Inr n"
  shows "\<exists>p. s = p @ (case n of V6Stop _ _ r \<Rightarrow> r | V6More _ _ r \<Rightarrow> r) \<and> list_all addr_char p"
proof -
  from assms obtain acc off rest where h: "hex_scan 0 0 s = Inr (acc, off, rest)"
    by (auto simp: v6_step_def bind_res_eq_Inr)
  from hex_scan_chars [OF h] obtain p where p: "s = p @ rest" "list_all addr_char p" by blast
  have colon: "addr_char CHR '':''" by (simp add: addr_char_def)
  show ?thesis
  proof (cases "rest \<noteq> [] \<and> hd rest = CHR ''.''")
    case True
    with assms h show ?thesis
      by (auto simp: v6_step_def bind_res_eq_Inr split: if_splits dest!: v4_loop_chars)
  next
    case False
    with assms h p colon show ?thesis
      by (auto simp: v6_step_def Let_def split: if_splits list.splits
          intro: exI [of _ p] exI [of _ "p @ '':''"] exI [of _ "p @ ''::''"])
  qed
qed

lemma v6_loop_chars: "v6_loop ip ell s = Inr (ip', ell', r) \<Longrightarrow> \<exists>p. s = p @ r \<and> list_all addr_char p"
proof (induction ip ell s rule: v6_loop.induct)
  case (1 ip ell s)
  show ?case
  proof (cases "16 \<le> length ip")
    case True
    with "1.prems" show ?thesis by (simp add: v6_loop.simps [of ip])
  next
    case False
    with "1.prems" obtain n where n: "v6_step ip ell s = Inr n"
      by (auto simp: v6_loop.simps [of ip] split: sum.splits)
    from v6_step_chars [OF n] obtain p where
      p: "s = p @ (case n of V6Stop _ _ r \<Rightarrow> r | V6More _ _ r \<Rightarrow> r)" "list_all addr_char p" by blast
    show ?thesis
    proof (cases n)
      case (V6Stop a b c)
      with p "1.prems" n False show ?thesis by (auto simp: v6_loop.simps [of ip])
    next
      case (V6More a b c)
      with "1.prems" n False have "v6_loop a b c = Inr (ip', ell', r)" by (simp add: v6_loop.simps [of ip])
      from "1.IH" [OF False n V6More this] obtain q where "c = q @ r" "list_all addr_char q" by blast
      with p V6More show ?thesis by (intro exI [of _ "p @ q"]) simp
    qed
  qed
qed

lemma v6_finish_rest: "v6_finish z r = Inr a \<Longrightarrow> snd (snd r) = [] \<and> Zone a = z"
  by (auto simp: v6_finish_def split: prod.splits if_splits option.splits)

lemma parse_body_chars:
  assumes "parse_body z s = Inr a"
  shows "list_all addr_char s" "Zone a = z"
proof -
  have c: "addr_char CHR '':''" by (simp add: addr_char_def)
  have loop: "list_all addr_char t \<and> Zone a = z" if "bind_res (v6_loop ip ell t) (v6_finish z) = Inr a" for ip ell t
    using that v6_loop_chars [of ip ell t] by (fastforce simp: bind_res_eq_Inr dest: v6_finish_rest)
  have "list_all addr_char s \<and> Zone a = z"
  proof (cases "HasPrefix s ''::''")
    case True
    then have s: "s = CHR '':'' # CHR '':'' # drop 2 s" unfolding HasPrefix_def
      by (metis append_Cons append_Nil append_take_drop_id list.size(3,4) One_nat_def Suc_1 add.right_neutral add_Suc_right)
    have "list_all addr_char (drop 2 s) \<and> Zone a = z"
      using assms True loop by (cases "drop 2 s = []") (auto simp: parse_body_def)
    with c show ?thesis by (subst s) simp
  qed (use assms loop in \<open>simp add: parse_body_def\<close>)
  then show "list_all addr_char s" "Zone a = z" by auto
qed

lemma ParseAddr_chars:
  assumes "ParseAddr s = Inr a" "Zone a = []"
  shows "list_all addr_char s"
proof (cases "first_sep s = Some CHR ''.''")
  case True
  with assms show ?thesis by (auto simp: ParseAddr_def parseIPv4_def bind_res_eq_Inr dest: v4_loop_chars)
next
  case False
  with assms have p: "parseIPv6 s = Inr a" by (auto simp: ParseAddr_def split: option.splits if_splits)
  show ?thesis
  proof (cases "IndexByte s CHR ''%''")
    case None
    then show ?thesis using parseIPv6_body [of s "[]"] p parse_body_chars(1) [of "[]" s a] by (auto simp: IndexByte_None)
  next
    case (Some i)
    then have "drop (i + 1) s \<noteq> []" "parse_body (drop (i + 1) s) (take i s) = Inr a"
      using p by (auto simp: parseIPv6_def parse_body_def Let_def split: if_splits)
    with assms(2) parse_body_chars(2) [of "drop (i + 1) s" "take i s" a] show ?thesis by simp
  qed
qed

lemma addr_char_no_brackets: "list_all addr_char s \<Longrightarrow> no_brackets s"
  by (induction s) (auto simp: addr_char_def hex_val_def is_digit_def)

lemma ParseIP_ParseAddr: "ParseIP s = Some b \<Longrightarrow> \<exists>a. ParseAddr s = Inr a \<and> Zone a = [] \<and> wf_addr a \<and> a \<noteq> NoAddr"
  by (auto simp: ParseIP_def dest: ParseAddr_wf split: sum.splits addr.splits if_splits)

lemma ParseIP_no_brackets: "ParseIP s = Some b \<Longrightarrow> no_brackets s"
  by (auto dest!: ParseIP_ParseAddr ParseAddr_chars addr_char_no_brackets)

end
