(* ===== verification/Socks_Adapter.thy ===== *)
theory Socks_Adapter
  imports Route_Policy Go_Sync Ip_Text
begin

text \<open>
  The SOCKS5 request handling of \<open>src/cmd/socks_adapter.go\<close>, its TCP side: the adapter, the target
  of a request, the resolution of the dial address, CONNECT with its reply and the relay of both
  directions. The protocol package (negotiation, parsing of requests and addresses) is an argument;
  what the handler does to the two connections is recorded as a list of actions.
\<close>

section \<open>Protocol data\<close>

datatype rep = RepSuccess | RepServerFailure | RepHostUnreachable | RepCommandNotSupported
datatype atyp = ATYPIPv4 | ATYPDomain | ATYPIPv6
datatype cmd = CmdConnect | CmdUDP | CmdOther
datatype auth_method = MethodNone | MethodUsernamePassword

record request =
  rq_Cmd :: cmd
  rq_Atyp :: atyp
  rq_DstAddr :: "octet list"
  rq_DstPort :: "octet list"

type_synonym bound_addr = "atyp \<times> octet list \<times> octet list"

text \<open>The addresses of a connection: a TCP or UDP address with its (possibly nil) IP, or any other.\<close>

datatype conn_addr = NetTCP "ip option" | NetUDP "ip option" | NetOther string

section \<open>The adapter\<close>

record txthinkingAdapter =
  ad_Method :: auth_method
  ad_UserName :: string
  ad_Password :: string
  ad_SupportedCommands :: "cmd list"
  ad_verbose :: bool
  ad_idleTimeout :: duration
  ad_halfOpenIdle :: duration

definition newTxthinkingAdapter :: "[string, string, duration, duration, bool, bool] \<Rightarrow> txthinkingAdapter" where
  "newTxthinkingAdapter username password idleTimeout halfOpenIdle verbose tcpOnly =
     \<lparr>ad_Method = (if username \<noteq> [] \<and> password \<noteq> [] then MethodUsernamePassword else MethodNone),
      ad_UserName = username, ad_Password = password,
      ad_SupportedCommands = (if tcpOnly then [CmdConnect] else [CmdConnect, CmdUDP]), ad_verbose = verbose,
      ad_idleTimeout = idleTimeout, ad_halfOpenIdle = halfOpenIdle\<rparr>"

definition go_string :: "octet list \<Rightarrow> string" where
  "go_string bs = map (char_of \<circ> unat) bs"

text \<open>\<open>None\<close>: the slice \<open>DstAddr[1:]\<close> or the two bytes of the port are out of range, a panic.\<close>

definition targetFromRequest :: "request \<Rightarrow> socksTarget option" where
  "targetFromRequest req =
     (case rq_DstPort req of
        hi # lo # _ \<Rightarrow>
          if rq_Atyp req = ATYPDomain then
            (case rq_DstAddr req of
               [] \<Rightarrow> None
             | _ # name \<Rightarrow> Some \<lparr>Host = go_string name, TargetPort = int (unat hi) * 256 + int (unat lo)\<rparr>)
          else Some \<lparr>Host = IPString (rq_DstAddr req), TargetPort = int (unat hi) * 256 + int (unat lo)\<rparr>
      | _ \<Rightarrow> None)"

definition resolveDialAddr :: "ip resolver \<Rightarrow> socksTarget \<Rightarrow> (gerr, string) result" where
  "resolveDialAddr resolve target =
     (if ParseIP (Host target) = None then
        (case resolve (Host target) of
           Inl e \<Rightarrow> Inl e
         | Inr a \<Rightarrow> Inr (JoinHostPort (IPString a) (Itoa (TargetPort target))))
      else Inr (JoinHostPort (Host target) (Itoa (TargetPort target))))"

definition localIP :: "conn_addr option \<Rightarrow> ip option" where
  "localIP conn =
     (case conn of
        None \<Rightarrow> None
      | Some (NetTCP a) \<Rightarrow> a
      | Some (NetUDP a) \<Rightarrow> a
      | Some (NetOther s) \<Rightarrow> (case SplitHostPort s of Inr (host, _) \<Rightarrow> ParseIP host | Inl _ \<Rightarrow> None))"

text \<open>The outer option is a nil connection, the inner one a nil remote address.\<close>

definition clientIP :: "conn_addr option option \<Rightarrow> ip option" where
  "clientIP conn = (case conn of None \<Rightarrow> None | Some remote \<Rightarrow> localIP remote)"

section \<open>CONNECT\<close>

datatype side = Client | Upstream

datatype act =
    Reply rep bound_addr
  | Dial string socksTarget "ip option"
  | HalfClose side
  | Shorten side duration
  | Shut side

definition zero_bound :: bound_addr where
  "zero_bound = (ATYPIPv4, [0, 0, 0, 0], [0, 0])"

definition replyError :: "request option \<Rightarrow> rep \<Rightarrow> act" where
  "replyError req rep =
     (case req of
        Some r \<Rightarrow>
          if rq_Atyp r = ATYPIPv6 then Reply rep (ATYPIPv6, replicate 16 0, [0, 0]) else Reply rep zero_bound
      | None \<Rightarrow> Reply rep zero_bound)"

text \<open>\<open>ParseAddress\<close> is that of the protocol package; \<open>local\<close> the text of the local address, if any.\<close>

definition boundAddress :: "(string \<Rightarrow> bound_addr option) \<Rightarrow> string option \<Rightarrow> bound_addr" where
  "boundAddress ParseAddress local =
     (case local of
        Some s \<Rightarrow> (case ParseAddress s of Some b \<Rightarrow> b | None \<Rightarrow> zero_bound)
      | None \<Rightarrow> zero_bound)"

definition replyConnectSuccess :: "(string \<Rightarrow> bound_addr option) \<Rightarrow> string option \<Rightarrow> act" where
  "replyConnectSuccess ParseAddress local = Reply RepSuccess (boundAddress ParseAddress local)"

text \<open>
  What the world does to one CONNECT: the dial (the local address of the upstream), the write of
  the success reply, which direction ends first and how both end, which side can half-close.
\<close>

record connect_env =
  ce_remote :: "conn_addr option option"
  ce_dial :: "string \<Rightarrow> socksTarget \<Rightarrow> (gerr, string option) result"
  ce_ParseAddress :: "string \<Rightarrow> bound_addr option"
  ce_reply_err :: "gerr option"
  ce_first :: "side \<times> gerr option"
  ce_second :: "gerr option"
  ce_CloseWrite :: "side \<Rightarrow> bool"

fun other_side :: "side \<Rightarrow> side" where
  "other_side Client = Upstream"
| "other_side Upstream = Client"

text \<open>The end of a copy towards \<open>dst\<close>: the write half of \<open>dst\<close> is closed where it has one.\<close>

definition copyHalf :: "connect_env \<Rightarrow> side \<Rightarrow> act list" where
  "copyHalf ce dst = (if ce_CloseWrite ce dst then [HalfClose dst] else [])"

definition shortenRelayIdle :: "side \<Rightarrow> duration \<Rightarrow> act" where
  "shortenRelayIdle s d = Shorten s d"

definition relayTCP :: "txthinkingAdapter \<Rightarrow> connect_env \<Rightarrow> act list \<times> gerr option" where
  "relayTCP a ce =
     (let (dst, err1) = ce_first ce; half1 = copyHalf ce dst; half2 = copyHalf ce (other_side dst)
      in case err1 of
           Some e \<Rightarrow> (half1 @ [Shut Client, Shut Upstream] @ half2, Some e)
         | None \<Rightarrow>
             (half1 @
              (if ad_halfOpenIdle a > 0
               then [shortenRelayIdle Client (ad_halfOpenIdle a), shortenRelayIdle Upstream (ad_halfOpenIdle a)] else []) @
              half2 @ [Shut Client, Shut Upstream], ce_second ce))"

definition handleConnect ::
  "txthinkingAdapter \<Rightarrow> ip resolver \<Rightarrow> connect_env \<Rightarrow> request \<Rightarrow> (act list \<times> gerr option) option" where
  "handleConnect a resolve ce req =
     (case targetFromRequest req of
        None \<Rightarrow> None
      | Some target \<Rightarrow>
          (case resolveDialAddr resolve target of
             Inl e \<Rightarrow> Some ([replyError (Some req) RepHostUnreachable], Some e)
           | Inr dialAddr \<Rightarrow>
               let d = Dial dialAddr target (clientIP (ce_remote ce)) in
               (case ce_dial ce dialAddr target of
                  Inl e \<Rightarrow> Some ([d, replyError (Some req) RepHostUnreachable], Some e)
                | Inr local \<Rightarrow>
                    let r = replyConnectSuccess (ce_ParseAddress ce) local in
                    (case ce_reply_err ce of
                       Some e \<Rightarrow> Some ([d, r, Shut Upstream], Some e)
                     | None \<Rightarrow>
                         let (acts, err) = relayTCP a ce in Some (d # r # acts @ [Shut Upstream], err)))))"

text \<open>\<open>associate\<close> is the handler of UDP ASSOCIATE, modelled with the associations; the error is the protocol package's.\<close>

definition ServeConn ::
  "gerr \<Rightarrow> gerr option \<Rightarrow> (gerr, request) result \<Rightarrow> (request \<Rightarrow> (act list \<times> gerr option) option)
     \<Rightarrow> (request \<Rightarrow> (act list \<times> gerr option) option) \<Rightarrow> (act list \<times> gerr option) option" where
  "ServeConn ErrUnsupportCmd negotiate getRequest connect associate =
     (case negotiate of
        Some e \<Rightarrow> Some ([], Some e)
      | None \<Rightarrow>
          (case getRequest of
             Inl e \<Rightarrow> Some ([], Some e)
           | Inr req \<Rightarrow>
               (case rq_Cmd req of
                  CmdConnect \<Rightarrow> connect req
                | CmdUDP \<Rightarrow> associate req
                | CmdOther \<Rightarrow>
                    Some ([replyError (Some req) RepCommandNotSupported], Some ErrUnsupportCmd))))"

section \<open>Lemmas\<close>

fun is_reply :: "act \<Rightarrow> bool" where
  "is_reply (Reply _ _) = True"
| "is_reply _ = False"

fun is_dial :: "act \<Rightarrow> bool" where
  "is_dial (Dial _ _ _) = True"
| "is_dial _ = False"

lemma replyError_reply [simp]: "is_reply (replyError r p)" "\<not> is_dial (replyError r p)"
  by (auto simp: replyError_def split: option.split)

lemma relayTCP_no_reply: "filter is_reply (fst (relayTCP a ce)) = []" "filter is_dial (fst (relayTCP a ce)) = []"
  by (auto simp: relayTCP_def copyHalf_def shortenRelayIdle_def Let_def split: prod.splits option.splits)

lemma relayTCP_closes: "{Shut Client, Shut Upstream} \<subseteq> set (fst (relayTCP a ce))"
  by (auto simp: relayTCP_def Let_def split: prod.splits option.splits)

lemma targetFromRequest_port: "targetFromRequest req = Some t \<Longrightarrow> 0 \<le> TargetPort t \<and> TargetPort t < 65536"
proof -
  assume t: "targetFromRequest req = Some t"
  then obtain hi lo where p: "TargetPort t = int (unat (hi :: octet)) * 256 + int (unat (lo :: octet))"
    by (auto simp: targetFromRequest_def split: list.splits if_splits)
  show ?thesis using unat_octet [of hi] unat_octet [of lo] unfolding p by linarith
qed

text \<open>The dial address is a host and the port, and the host is the literal or what the resolver gave.\<close>

lemma resolveDialAddr_host:
  assumes "resolveDialAddr resolve t = Inr addr" "0 \<le> TargetPort t" "TargetPort t < 65536"
  obtains h p where "SplitHostPort addr = Inr (h, p)" "Atoi p = Some (TargetPort t)"
    "case ParseIP (Host t) of Some _ \<Rightarrow> h = Host t | None \<Rightarrow> \<exists>a. resolve (Host t) = Inr a \<and> h = IPString a"
proof -
  have at: "Atoi (Itoa (TargetPort t)) = Some (TargetPort t)" using assms(2,3) by (intro Atoi_Itoa) auto
  have sp: "SplitHostPort (JoinHostPort h (Itoa (TargetPort t))) = Inr (h, Itoa (TargetPort t))" if "no_brackets h" for h
    using that by (intro SplitHostPort_JoinHostPort_Itoa) (auto simp: no_brackets_def)
  show ?thesis
  proof (cases "ParseIP (Host t)")
    case None
    then obtain a where "resolve (Host t) = Inr a" "addr = JoinHostPort (IPString a) (Itoa (TargetPort t))"
      using assms(1) by (auto simp: resolveDialAddr_def split: sum.splits)
    with that [of "IPString a"] None at sp [OF IPString_no_brackets] show ?thesis by auto
  next
    case (Some b)
    with assms(1) that [of "Host t"] at sp [OF ParseIP_no_brackets] show ?thesis by (auto simp: resolveDialAddr_def)
  qed
qed

lemma handleConnect_Dial:
  assumes "handleConnect a resolve ce req = Some (acts, err)" "Dial addr t c \<in> set acts"
  shows "targetFromRequest req = Some t" "resolveDialAddr resolve t = Inr addr"
proof -
  have nd: "replyError r p \<noteq> Dial x y z" for r p x y z by (auto simp: replyError_def split: option.split)
  obtain ra re where relay: "relayTCP a ce = (ra, re)" by (cases "relayTCP a ce")
  then have "Dial x y z \<notin> set ra" for x y z using relayTCP_no_reply(2) [of a ce] by (auto simp: filter_empty_conv)
  then show "targetFromRequest req = Some t" "resolveDialAddr resolve t = Inr addr"
    using assms relay
    by (auto simp: handleConnect_def replyConnectSuccess_def nd nd [symmetric] Let_def split: sum.splits option.splits)
qed

section \<open>Properties\<close>

text \<open>
  C35: a CONNECT is answered exactly once: the handler writes one reply, it says success exactly when
  the address was resolved and the dial succeeded, and a dialled upstream is always closed in the end.
\<close>

theorem handleConnect_answers_once:
  assumes "handleConnect a resolve ce req = Some (acts, err)" "targetFromRequest req = Some t"
  shows "length (filter is_reply acts) = 1 \<and>
    ((\<exists>b. Reply RepSuccess b \<in> set acts) \<longleftrightarrow>
       (\<exists>addr l. resolveDialAddr resolve t = Inr addr \<and> ce_dial ce addr t = Inr l)) \<and>
    ((\<exists>b. Reply RepSuccess b \<in> set acts) \<longrightarrow> last acts = Shut Upstream) \<and>
    (\<forall>addr t' c. Dial addr t' c \<in> set acts \<longrightarrow>
       t' = t \<and> resolveDialAddr resolve t = Inr addr \<and> c = clientIP (ce_remote ce))"
proof -
  have ne: "replyError r RepHostUnreachable \<noteq> Reply RepSuccess b" for r b
    by (auto simp: replyError_def zero_bound_def split: option.split)
  have nd: "replyError r p \<noteq> Dial x y z" for r p x y z
    by (auto simp: replyError_def split: option.split)
  obtain ra re where relay: "relayTCP a ce = (ra, re)" by (cases "relayTCP a ce")
  have quiet: "filter is_reply ra = []" "filter is_dial ra = []"
    using relayTCP_no_reply [of a ce] relay by simp_all
  then have "\<forall>b. Reply RepSuccess b \<notin> set ra" "\<forall>x y z. Dial x y z \<notin> set ra"
    by (auto simp: filter_empty_conv)
  moreover have tri: "\<exists>x y z. (x, y, z) = b" for b :: bound_addr by (metis prod_cases3)
  ultimately show ?thesis
    using assms quiet relay
    by (auto simp: tri handleConnect_def replyConnectSuccess_def ne ne [symmetric] nd nd [symmetric] Let_def
        split: sum.splits option.splits)
qed

text \<open>A request for port 443 of a name, resolved to 192.0.2.1, and a relay that the client ends.\<close>

definition sample_req :: request where
  "sample_req = \<lparr>rq_Cmd = CmdConnect, rq_Atyp = ATYPDomain, rq_DstAddr = [1, 97], rq_DstPort = [1, 187]\<rparr>"

definition sample_ce :: connect_env where
  "sample_ce =
     \<lparr>ce_remote = None, ce_dial = (\<lambda>_ _. Inr None), ce_ParseAddress = (\<lambda>_. None), ce_reply_err = None,
      ce_first = (Upstream, None), ce_second = None, ce_CloseWrite = (\<lambda>_. True)\<rparr>"

definition sample_resolve :: "ip resolver" where "sample_resolve _ = Inr [192, 0, 2, 1]"

lemma sample_target: "targetFromRequest sample_req = Some \<lparr>Host = ''a'', TargetPort = 443\<rparr>"
  by code_simp

lemma sample_addr: "resolveDialAddr sample_resolve \<lparr>Host = ''a'', TargetPort = 443\<rparr> = Inr ''192.0.2.1:443''"
  by code_simp

theorem handleConnect_answers_once_witness:
  "\<exists>acts. handleConnect (newTxthinkingAdapter [] [] 0 30 False True) sample_resolve sample_ce sample_req = Some (acts, None) \<and>
     length (filter is_reply acts) = 1 \<and> last acts = Shut Upstream"
proof -
  obtain acts where h: "handleConnect (newTxthinkingAdapter [] [] 0 30 False True) sample_resolve sample_ce sample_req = Some (acts, None)"
    by (simp add: handleConnect_def sample_target sample_addr relayTCP_def newTxthinkingAdapter_def sample_ce_def Let_def)
  from handleConnect_answers_once [OF h sample_target] h show ?thesis
    by (auto simp: sample_addr sample_ce_def)
qed

text \<open>
  what is dialled is what was asked for: the dial address splits into a host and the decimal port
  of the request; the host is the requested one when it is an address literal, and otherwise the
  address the resolver gave for it.
\<close>

theorem resolveDialAddr_splits:
  assumes "resolveDialAddr resolve t = Inr addr" "0 \<le> TargetPort t" "TargetPort t < 65536"
  shows "\<exists>h p. SplitHostPort addr = Inr (h, p) \<and> Atoi p = Some (TargetPort t) \<and>
    (case ParseIP (Host t) of
       Some _ \<Rightarrow> h = Host t
     | None \<Rightarrow> \<exists>a. resolve (Host t) = Inr a \<and> h = IPString a)"
  using resolveDialAddr_host [OF assms] by blast

theorem resolveDialAddr_splits_witness:
  "\<exists>h p. SplitHostPort ''192.0.2.1:443'' = Inr (h, p) \<and> Atoi p = Some 443"
proof -
  have none: "ParseIP ''a'' = None" by code_simp
  from resolveDialAddr_splits [OF sample_addr] show ?thesis by (auto simp: none)
qed

end
