(* ===== verification/Udp_Association.thy ===== *)
theory Udp_Association
  imports Socks_Adapter
begin

text \<open>
  UDP ASSOCIATE, \<open>src/cmd/socks_adapter.go\<close>: associations with one upstream connection per
  destination, a semaphore over all of them, the source filter, the idle reaper and a teardown that
  races with the forwarding of datagrams. The world holds every association and every upstream
  connection ever made, named by their positions; the steps of the goroutines are a labelled
  relation, and the handlers are shown to be made of these steps. \<open>as_dialing\<close> marks an association
  whose read loop has taken a slot and not yet installed or dropped the connection. A connection
  taken out of the map is closed by the goroutine that took it out: the two are one step.
\<close>

section \<open>State\<close>

record countedConn =
  uc_owner :: nat
  uc_dst :: string
  uc_once :: bool
  uc_closes :: nat

record udpAssociation =
  as_expectedIP :: "ip option"
  as_clientAddr :: "(ip \<times> nat) option"
  as_lastActivity :: int
  as_upstreams :: "(string \<times> nat) list"
  as_closed :: bool
  as_teardowns :: nat
  as_dialing :: bool

text \<open>\<open>uw_sent\<close> and \<open>uw_replies\<close> log the writes: association, destination, upstream and data; association, address and data.\<close>

record 'd uw =
  uw_sem :: nat
  uw_assocs :: "udpAssociation list"
  uw_conns :: "countedConn list"
  uw_sent :: "(nat \<times> string \<times> nat \<times> 'd) list"
  uw_replies :: "(nat \<times> (ip \<times> nat) \<times> 'd) list"

definition maxConcurrentUDPUpstreams :: nat where "maxConcurrentUDPUpstreams = 1024"

definition uw_start :: "'d uw" where
  "uw_start = \<lparr>uw_sem = 0, uw_assocs = [], uw_conns = [], uw_sent = [], uw_replies = []\<rparr>"

definition upd_assoc :: "nat \<Rightarrow> (udpAssociation \<Rightarrow> udpAssociation) \<Rightarrow> 'd uw \<Rightarrow> 'd uw" where
  "upd_assoc a f w =
     (if a < length (uw_assocs w) then w\<lparr>uw_assocs := (uw_assocs w)[a := f (uw_assocs w ! a)]\<rparr> else w)"

section \<open>Operations\<close>

definition acquireUDPSlot :: "'d uw \<Rightarrow> 'd uw option" where
  "acquireUDPSlot w = (if uw_sem w < maxConcurrentUDPUpstreams then Some (w\<lparr>uw_sem := Suc (uw_sem w)\<rparr>) else None)"

definition releaseUDPSlot :: "'d uw \<Rightarrow> 'd uw" where
  "releaseUDPSlot w = (if 0 < uw_sem w then w\<lparr>uw_sem := uw_sem w - 1\<rparr> else w)"

definition counted_Close :: "nat \<Rightarrow> 'd uw \<Rightarrow> 'd uw" where
  "counted_Close c w =
     (if c < length (uw_conns w) then
        let u = uw_conns w ! c;
            w1 = w\<lparr>uw_conns := (uw_conns w)[c := u\<lparr>uc_closes := Suc (uc_closes u), uc_once := True\<rparr>]\<rparr>
        in if uc_once u then w1 else releaseUDPSlot w1
      else w)"

definition touch :: "int \<Rightarrow> nat \<Rightarrow> 'd uw \<Rightarrow> 'd uw" where
  "touch now a w = upd_assoc a (\<lambda>s. s\<lparr>as_lastActivity := now\<rparr>) w"

definition allowSource :: "udpAssociation \<Rightarrow> (ip \<times> nat) option \<Rightarrow> bool" where
  "allowSource s addr =
     (case as_expectedIP s of
        None \<Rightarrow> True
      | Some e \<Rightarrow> (case addr of None \<Rightarrow> True | Some (i, _) \<Rightarrow> IPEqual e i))"

definition removeUpstream :: "nat \<Rightarrow> string \<Rightarrow> nat \<Rightarrow> 'd uw \<Rightarrow> 'd uw" where
  "removeUpstream a dst up w =
     counted_Close up
       (upd_assoc a (\<lambda>s. if map_of (as_upstreams s) dst = Some up
                         then s\<lparr>as_upstreams := filter (\<lambda>(k, _). k \<noteq> dst) (as_upstreams s)\<rparr> else s) w)"

definition assoc_close :: "nat \<Rightarrow> 'd uw \<Rightarrow> 'd uw" where
  "assoc_close a w =
     (if a < length (uw_assocs w) \<and> \<not> as_closed (uw_assocs w ! a) then
        fold counted_Close (map snd (as_upstreams (uw_assocs w ! a)))
          (upd_assoc a (\<lambda>s. s\<lparr>as_closed := True, as_upstreams := [], as_teardowns := Suc (as_teardowns s)\<rparr>) w)
      else w)"

text \<open>A tick of the idle reaper at \<open>now\<close>; the flag says whether it goes on.\<close>

definition reaper_interval :: "duration \<Rightarrow> duration" where
  "reaper_interval idleTimeout = max (idleTimeout div 2) Second"

definition reaper_tick :: "duration \<Rightarrow> int \<Rightarrow> nat \<Rightarrow> 'd uw \<Rightarrow> 'd uw \<times> bool" where
  "reaper_tick idleTimeout now a w =
     (if as_closed (uw_assocs w ! a) then (w, False)
      else if now - as_lastActivity (uw_assocs w ! a) > idleTimeout then (assoc_close a w, False)
      else (w, True))"

fun idleReaper :: "duration \<Rightarrow> int list \<Rightarrow> nat \<Rightarrow> 'd uw \<Rightarrow> 'd uw" where
  "idleReaper idleTimeout [] a w = w"
| "idleReaper idleTimeout (now # ticks) a w =
     (case reaper_tick idleTimeout now a w of (w', go) \<Rightarrow> if go then idleReaper idleTimeout ticks a w' else w')"

section \<open>Forwarding\<close>

text \<open>
  The sections of \<open>forwardFromClient\<close> between which other goroutines run: the source address is
  stored, a slot is taken, the dialled connection is installed (or dropped when the association was
  closed, or another connection to the destination exists).
\<close>

definition store_client :: "nat \<Rightarrow> ip \<times> nat \<Rightarrow> 'd uw \<Rightarrow> 'd uw" where
  "store_client a addr w = upd_assoc a (\<lambda>s. s\<lparr>as_clientAddr := Some addr\<rparr>) w"

definition set_dialing :: "bool \<Rightarrow> nat \<Rightarrow> 'd uw \<Rightarrow> 'd uw" where
  "set_dialing b a w = upd_assoc a (\<lambda>s. s\<lparr>as_dialing := b\<rparr>) w"

definition send_to :: "nat \<Rightarrow> string \<Rightarrow> nat \<Rightarrow> 'd \<Rightarrow> 'd uw \<Rightarrow> 'd uw" where
  "send_to a dst up x w = w\<lparr>uw_sent := uw_sent w @ [(a, dst, up, x)]\<rparr>"

definition dial_failed :: "nat \<Rightarrow> 'd uw \<Rightarrow> 'd uw" where
  "dial_failed a w = releaseUDPSlot (set_dialing False a w)"

datatype installed = Dropped | Existing nat | Fresh nat

definition install :: "nat \<Rightarrow> string \<Rightarrow> 'd uw \<Rightarrow> 'd uw \<times> installed" where
  "install a dst w =
     (let up = length (uw_conns w);
          w1 = (set_dialing False a w)
                 \<lparr>uw_conns := uw_conns w @ [\<lparr>uc_owner = a, uc_dst = dst, uc_once = False, uc_closes = 0\<rparr>]\<rparr>;
          s = uw_assocs w ! a
      in if as_closed s then (counted_Close up w1, Dropped)
         else case map_of (as_upstreams s) dst of
           Some e \<Rightarrow> (counted_Close up w1, Existing e)
         | None \<Rightarrow> (upd_assoc a (\<lambda>s. s\<lparr>as_upstreams := (dst, up) # as_upstreams s\<rparr>) w1, Fresh up))"

text \<open>
  \<open>dial\<close> says whether the dial succeeds, \<open>wr\<close> whether the first write on a fresh connection does;
  \<open>itf k\<close> is what the other goroutines do at the \<open>k\<close>-th point.
\<close>

definition forwardFromClient ::
  "ip resolver \<Rightarrow> (string \<Rightarrow> socksTarget \<Rightarrow> bool) \<Rightarrow> bool \<Rightarrow> (nat \<Rightarrow> 'd uw \<Rightarrow> 'd uw) \<Rightarrow> nat \<Rightarrow> ip \<times> nat
     \<Rightarrow> string \<Rightarrow> 'd \<Rightarrow> 'd uw \<Rightarrow> 'd uw" where
  "forwardFromClient resolve dial wr itf a addr dst x w0 =
     (let w = itf 0 (store_client a addr w0); s = uw_assocs w ! a in
      if as_closed s then w
      else case map_of (as_upstreams s) dst of
        Some up \<Rightarrow> send_to a dst up x w
      | None \<Rightarrow>
          (case SplitHostPort dst of
             Inl _ \<Rightarrow> w
           | Inr (host, portStr) \<Rightarrow>
               (case Atoi portStr of
                  None \<Rightarrow> w
                | Some dstPort \<Rightarrow>
                    let target = \<lparr>Host = host, TargetPort = dstPort\<rparr> in
                    (case resolveDialAddr resolve target of
                       Inl _ \<Rightarrow> w
                     | Inr dialAddr \<Rightarrow>
                         let w1 = itf 1 w in
                         (case acquireUDPSlot w1 of
                            None \<Rightarrow> w1
                          | Some w2 \<Rightarrow>
                              let w3 = itf 2 (set_dialing True a w2) in
                              if \<not> dial dialAddr target then dial_failed a w3
                              else case install a dst w3 of
                                (w4, Dropped) \<Rightarrow> w4
                              | (w4, Existing e) \<Rightarrow> send_to a dst e x w4
                              | (w4, Fresh up) \<Rightarrow>
                                  let w5 = itf 3 w4
                                  in if wr then send_to a dst up x w5 else removeUpstream a dst up w5)))))"

text \<open>
  One datagram of the read loop of \<open>handleAssociate\<close>; \<open>dgram\<close> is the parsed datagram: the fragment
  number, the destination and the data.
\<close>

definition handle_datagram ::
  "ip resolver \<Rightarrow> (string \<Rightarrow> socksTarget \<Rightarrow> bool) \<Rightarrow> bool \<Rightarrow> (nat \<Rightarrow> 'd uw \<Rightarrow> 'd uw) \<Rightarrow> int \<Rightarrow> nat \<Rightarrow> ip \<times> nat
     \<Rightarrow> (nat \<times> string \<times> 'd) option \<Rightarrow> 'd uw \<Rightarrow> 'd uw" where
  "handle_datagram resolve dial wr itf now a addr dgram w =
     (if \<not> allowSource (uw_assocs w ! a) (Some addr) then w
      else case dgram of
        None \<Rightarrow> w
      | Some (frag, dst, x) \<Rightarrow>
          if frag \<noteq> 0 then w else forwardFromClient resolve dial wr itf a addr dst x (touch now a w))"

text \<open>
  One read of \<open>relayFromUpstream\<close>: \<open>None\<close> is a read error, after which the deferred removal runs;
  \<open>wr\<close> is the result of the write to the client.
\<close>

definition relay_read :: "int \<Rightarrow> nat \<Rightarrow> string \<Rightarrow> nat \<Rightarrow> 'd option \<Rightarrow> bool \<Rightarrow> 'd uw \<Rightarrow> 'd uw \<times> bool" where
  "relay_read now a dst up rd wr w =
     (case rd of
        None \<Rightarrow> (removeUpstream a dst up w, False)
      | Some x \<Rightarrow>
          (case as_clientAddr (uw_assocs w ! a) of
             None \<Rightarrow> (w, True)
           | Some addr \<Rightarrow>
               let w1 = touch now a w
               in if wr then (w1\<lparr>uw_replies := uw_replies w1 @ [(a, addr, x)]\<rparr>, True)
                  else (removeUpstream a dst up w1, False)))"

definition new_association :: "ip option \<Rightarrow> int \<Rightarrow> 'd uw \<Rightarrow> 'd uw" where
  "new_association expected now w =
     w\<lparr>uw_assocs := uw_assocs w @
        [\<lparr>as_expectedIP = expected, as_clientAddr = None, as_lastActivity = now, as_upstreams = [], as_closed = False,
          as_teardowns = 0, as_dialing = False\<rparr>]\<rparr>"

text \<open>
  The opening of \<open>handleAssociate\<close>, up to its read loop: \<open>listen\<close> is the relay socket (its local address)
  bound to the local IP of the control connection, \<open>ParseAddress\<close> that of the protocol package with its
  error, \<open>reply_err\<close> the write of the reply. The flag says whether the read loop starts.
\<close>

definition handleAssociate ::
  "(ip option \<Rightarrow> (gerr, string) result) \<Rightarrow> (string \<Rightarrow> (gerr, bound_addr) result) \<Rightarrow> gerr option \<Rightarrow> conn_addr \<Rightarrow> conn_addr option
     \<Rightarrow> int \<Rightarrow> request \<Rightarrow> 'd uw \<Rightarrow> act list \<times> gerr option \<times> 'd uw \<times> bool" where
  "handleAssociate listen ParseAddress reply_err local remote now req w =
     (case listen (localIP (Some local)) of
        Inl e \<Rightarrow> ([replyError (Some req) RepServerFailure], Some e, w, False)
      | Inr relay \<Rightarrow>
          (case ParseAddress relay of
             Inl e \<Rightarrow> ([replyError (Some req) RepServerFailure], Some e, w, False)
           | Inr b \<Rightarrow>
               (case reply_err of
                  Some e \<Rightarrow> ([Reply RepSuccess b], Some e, w, False)
                | None \<Rightarrow> ([Reply RepSuccess b], None, new_association (clientIP (Some remote)) now w, True))))"

text \<open>The reads of the control connection: \<open>drainControlConn\<close> returns at the first error that is no timeout.\<close>

datatype ctl_read = CtlData | CtlTimeout | CtlError

fun drainControlConn :: "ctl_read list \<Rightarrow> bool" where
  "drainControlConn [] = False"
| "drainControlConn (CtlError # _) = True"
| "drainControlConn (_ # rs) = drainControlConn rs"

section \<open>Steps\<close>

datatype actor = Reader nat | Others

inductive u_step :: "actor \<Rightarrow> 'd uw \<Rightarrow> 'd uw \<Rightarrow> bool" where
  u_new: "u_step Others w (new_association e now w)"
| u_touch: "u_step x w (touch now a w)"
| u_client: "a < length (uw_assocs w) \<Longrightarrow> allowSource (uw_assocs w ! a) (Some addr) \<Longrightarrow> u_step (Reader a) w (store_client a addr w)"
| u_reserve: "a < length (uw_assocs w) \<Longrightarrow> \<not> as_dialing (uw_assocs w ! a) \<Longrightarrow> acquireUDPSlot w = Some w'
    \<Longrightarrow> u_step (Reader a) w (set_dialing True a w')"
| u_failed: "a < length (uw_assocs w) \<Longrightarrow> as_dialing (uw_assocs w ! a) \<Longrightarrow> u_step (Reader a) w (dial_failed a w)"
| u_install: "a < length (uw_assocs w) \<Longrightarrow> as_dialing (uw_assocs w ! a) \<Longrightarrow> u_step (Reader a) w (fst (install a dst w))"
| u_send: "c < length (uw_conns w) \<Longrightarrow> uc_owner (uw_conns w ! c) = a \<Longrightarrow> uc_dst (uw_conns w ! c) = dst
    \<Longrightarrow> u_step (Reader a) w (send_to a dst c x w)"
| u_remove: "c < length (uw_conns w) \<Longrightarrow> uc_owner (uw_conns w ! c) = a \<Longrightarrow> uc_dst (uw_conns w ! c) = dst
    \<Longrightarrow> u_step y w (removeUpstream a dst c w)"
| u_reply: "c < length (uw_conns w) \<Longrightarrow> uc_owner (uw_conns w ! c) = a \<Longrightarrow> uc_dst (uw_conns w ! c) = dst
    \<Longrightarrow> a < length (uw_assocs w) \<Longrightarrow> u_step Others w (fst (relay_read now a dst c rd wr w))"
| u_close: "u_step x w (assoc_close a w)"
| u_reap: "a < length (uw_assocs w) \<Longrightarrow> u_step Others w (fst (reaper_tick idle now a w))"

definition u_any :: "'d uw \<Rightarrow> 'd uw \<Rightarrow> bool" where "u_any w w' = (\<exists>x. u_step x w w')"
definition u_others :: "nat \<Rightarrow> 'd uw \<Rightarrow> 'd uw \<Rightarrow> bool" where "u_others a w w' = (\<exists>x. x \<noteq> Reader a \<and> u_step x w w')"
definition u_reach :: "'d uw \<Rightarrow> bool" where "u_reach w = u_any\<^sup>*\<^sup>* uw_start w"

section \<open>Invariant\<close>

definition is_open :: "countedConn \<Rightarrow> bool" where "is_open c = (\<not> uc_once c)"

definition slot_inv :: "'d uw \<Rightarrow> bool" where
  "slot_inv w =
     (uw_sem w = length (filter as_dialing (uw_assocs w)) + length (filter is_open (uw_conns w)) \<and>
      uw_sem w \<le> maxConcurrentUDPUpstreams)"

text \<open>
  Every open connection but those of \<open>X\<close> is registered in the association that owns it; those of \<open>X\<close>
  are registered nowhere: a goroutine holds them and is about to close or register them.
\<close>

definition assoc_ok :: "nat set \<Rightarrow> countedConn list \<Rightarrow> nat \<Rightarrow> udpAssociation \<Rightarrow> bool" where
  "assoc_ok X cs a s =
     (distinct (map fst (as_upstreams s)) \<and> (as_closed s \<longrightarrow> as_upstreams s = []) \<and>
      as_teardowns s = (if as_closed s then 1 else 0) \<and>
      (\<forall>(dst, c) \<in> set (as_upstreams s).
         c < length cs \<and> c \<notin> X \<and> is_open (cs ! c) \<and> uc_owner (cs ! c) = a \<and> uc_dst (cs ! c) = dst) \<and>
      (\<forall>addr. as_clientAddr s = Some addr \<longrightarrow> allowSource s (Some addr)))"

definition conn_ok :: "nat set \<Rightarrow> udpAssociation list \<Rightarrow> nat \<Rightarrow> countedConn \<Rightarrow> bool" where
  "conn_ok X as c u =
     (uc_owner u < length as \<and> (is_open u \<and> c \<notin> X \<longrightarrow> (uc_dst u, c) \<in> set (as_upstreams (as ! uc_owner u))))"

definition reg_inv :: "nat set \<Rightarrow> 'd uw \<Rightarrow> bool" where
  "reg_inv X w =
     ((\<forall>a < length (uw_assocs w). assoc_ok X (uw_conns w) a (uw_assocs w ! a)) \<and>
      (\<forall>c < length (uw_conns w). conn_ok X (uw_assocs w) c (uw_conns w ! c)))"

text \<open>What was sent went to an upstream of the association for that destination, what was answered to an allowed address.\<close>

definition log_inv :: "'d uw \<Rightarrow> bool" where
  "log_inv w =
     ((\<forall>(a, dst, c, x) \<in> set (uw_sent w). c < length (uw_conns w) \<and> uc_owner (uw_conns w ! c) = a \<and> uc_dst (uw_conns w ! c) = dst) \<and>
      (\<forall>(a, addr, x) \<in> set (uw_replies w). a < length (uw_assocs w) \<and> allowSource (uw_assocs w ! a) (Some addr)))"

definition udp_inv :: "'d uw \<Rightarrow> bool" where
  "udp_inv w = (slot_inv w \<and> reg_inv {} w \<and> log_inv w)"

section \<open>Lemmas: updates\<close>

lemma upd_assoc_frame [simp, frame]:
  "uw_sem (upd_assoc a f w) = uw_sem w" "uw_conns (upd_assoc a f w) = uw_conns w" "uw_sent (upd_assoc a f w) = uw_sent w"
  "uw_replies (upd_assoc a f w) = uw_replies w" "length (uw_assocs (upd_assoc a f w)) = length (uw_assocs w)"
  by (auto simp: upd_assoc_def)

lemma nth_upd_assoc:
  "b < length (uw_assocs w) \<Longrightarrow> uw_assocs (upd_assoc a f w) ! b = (if b = a then f (uw_assocs w ! a) else uw_assocs w ! b)"
  by (auto simp: upd_assoc_def nth_list_update)

lemma release_frame [simp, frame]:
  "uw_conns (releaseUDPSlot w) = uw_conns w" "uw_assocs (releaseUDPSlot w) = uw_assocs w"
  "uw_sent (releaseUDPSlot w) = uw_sent w" "uw_replies (releaseUDPSlot w) = uw_replies w" "uw_sem (releaseUDPSlot w) = uw_sem w - 1"
  by (auto simp: releaseUDPSlot_def)

lemma counted_Close_frame [simp, frame]:
  "uw_assocs (counted_Close c w) = uw_assocs w" "uw_sent (counted_Close c w) = uw_sent w"
  "uw_replies (counted_Close c w) = uw_replies w" "length (uw_conns (counted_Close c w)) = length (uw_conns w)"
  by (auto simp: counted_Close_def Let_def)

lemma nth_counted_Close:
  "i < length (uw_conns w) \<Longrightarrow> uw_conns (counted_Close c w) ! i =
     (if i = c then (uw_conns w ! i)\<lparr>uc_closes := Suc (uc_closes (uw_conns w ! i)), uc_once := True\<rparr> else uw_conns w ! i)"
  by (auto simp: counted_Close_def Let_def nth_list_update)

lemma acquire_Some: "acquireUDPSlot w = Some w' \<longleftrightarrow> uw_sem w < maxConcurrentUDPUpstreams \<and> w' = w\<lparr>uw_sem := Suc (uw_sem w)\<rparr>"
  by (auto simp: acquireUDPSlot_def)

interpretation udp_slots: counting_sem acquireUDPSlot releaseUDPSlot uw_sem maxConcurrentUDPUpstreams
  by unfold_locales (auto simp: acquireUDPSlot_def split: if_splits)

section \<open>Lemmas: slots\<close>

lemma length_filter_cong_map: "map P xs = map P ys \<Longrightarrow> length (filter P xs) = length (filter P ys)"
proof (induction xs arbitrary: ys)
  case (Cons x xs)
  then show ?case by (cases ys) auto
qed simp

lemma dialing_upd_same:
  assumes "\<And>s. as_dialing (f s) = as_dialing s"
  shows "length (filter as_dialing (uw_assocs (upd_assoc a f w))) = length (filter as_dialing (uw_assocs w))"
  by (rule length_filter_cong_map) (auto simp: upd_assoc_def map_update assms list_update_same_conv)

lemma dialing_set:
  assumes "a < length (uw_assocs w)" "as_dialing (uw_assocs w ! a) \<noteq> b"
  shows "int (length (filter as_dialing (uw_assocs (set_dialing b a w)))) =
    int (length (filter as_dialing (uw_assocs w))) + (if b then 1 else - 1)"
proof -
  let ?xs = "uw_assocs w" and ?y = "(uw_assocs w ! a)\<lparr>as_dialing := b\<rparr>"
  have "uw_assocs (set_dialing b a w) = ?xs[a := ?y]" using assms(1) by (simp add: set_dialing_def upd_assoc_def)
  moreover have "Suc (length (filter as_dialing (?xs[a := ?y]))) = length (filter as_dialing ?xs)" if "\<not> b"
    using assms that by (intro length_filter_update) auto
  moreover have "Suc (length (filter as_dialing ((?xs[a := ?y])[a := ?xs ! a]))) = length (filter as_dialing (?xs[a := ?y]))" if b
    using assms that by (intro length_filter_update) auto
  ultimately show ?thesis by (cases b) auto
qed

lemma slot_counted_Close: "slot_inv w \<Longrightarrow> slot_inv (counted_Close c w)"
proof (cases "c < length (uw_conns w)")
  case True
  assume inv: "slot_inv w"
  let ?u = "uw_conns w ! c"
  let ?cs = "(uw_conns w)[c := ?u\<lparr>uc_closes := Suc (uc_closes ?u), uc_once := True\<rparr>]"
  show ?thesis
  proof (cases "uc_once ?u")
    case once: True
    have "length (filter is_open ?cs) = length (filter is_open (uw_conns w))"
      by (rule length_filter_cong_map) (auto simp: map_update is_open_def once list_update_same_conv True)
    with inv True once show ?thesis by (simp add: slot_inv_def counted_Close_def Let_def)
  next
    case once: False
    have "Suc (length (filter is_open ?cs)) = length (filter is_open (uw_conns w))"
      using True once by (intro length_filter_update) (auto simp: is_open_def)
    with inv True once show ?thesis by (auto simp: slot_inv_def counted_Close_def Let_def)
  qed
qed (simp add: counted_Close_def)

lemma slot_fold_Close: "slot_inv w \<Longrightarrow> slot_inv (fold counted_Close cs w)"
  by (induction cs arbitrary: w) (auto simp: slot_counted_Close)

lemma slot_upd: "slot_inv w \<Longrightarrow> (\<And>s. as_dialing (f s) = as_dialing s) \<Longrightarrow> slot_inv (upd_assoc a f w)"
  by (simp add: slot_inv_def dialing_upd_same)

section \<open>Lemmas: registration\<close>

lemma reg_counted_Close: "reg_inv (insert c X) w \<Longrightarrow> reg_inv X (counted_Close c w)"
  by (fastforce simp: reg_inv_def assoc_ok_def conn_ok_def nth_counted_Close is_open_def)

lemma reg_fold_Close: "reg_inv (set cs \<union> X) w \<Longrightarrow> reg_inv X (fold counted_Close cs w)"
proof (induction cs arbitrary: w)
  case (Cons c cs)
  then show ?case using reg_counted_Close [of c "set cs \<union> X" w] by simp
qed simp

lemma reg_upd:
  assumes "reg_inv X w" "\<And>s. assoc_ok X (uw_conns w) a s \<Longrightarrow> assoc_ok X (uw_conns w) a (f s) \<and> as_upstreams (f s) = as_upstreams s"
  shows "reg_inv X (upd_assoc a f w)"
  using assms by (auto simp: reg_inv_def conn_ok_def nth_upd_assoc)

text \<open>Taking the connections \<open>Y\<close> out of the map of an association leaves them unregistered.\<close>

lemma reg_take_out:
  assumes "reg_inv {} w" "a < length (uw_assocs w)" "assoc_ok Y (uw_conns w) a (f (uw_assocs w ! a))"
    and "set (as_upstreams (uw_assocs w ! a)) \<subseteq> set (as_upstreams (f (uw_assocs w ! a))) \<union> {(d, c). c \<in> Y}"
    and "\<And>c. c \<in> Y \<Longrightarrow> c < length (uw_conns w) \<Longrightarrow> uc_owner (uw_conns w ! c) = a"
  shows "reg_inv Y (upd_assoc a f w)"
proof -
  have "assoc_ok Y (uw_conns w) b (uw_assocs w ! b)" if "b < length (uw_assocs w)" "b \<noteq> a" for b
    using that assms(1,5) by (fastforce simp: reg_inv_def assoc_ok_def)
  moreover have "conn_ok Y (uw_assocs (upd_assoc a f w)) c (uw_conns w ! c)" if "c < length (uw_conns w)" for c
    using that assms(1,4) by (auto simp: reg_inv_def conn_ok_def nth_upd_assoc)
  ultimately show ?thesis using assms(2,3) by (auto simp: reg_inv_def nth_upd_assoc)
qed

section \<open>Lemmas: growth and logs\<close>

definition u_grows :: "'d uw \<Rightarrow> 'd uw \<Rightarrow> bool" where
  "u_grows w w' =
     (length (uw_assocs w) \<le> length (uw_assocs w') \<and> length (uw_conns w) \<le> length (uw_conns w') \<and>
      (\<forall>a < length (uw_assocs w). as_expectedIP (uw_assocs w' ! a) = as_expectedIP (uw_assocs w ! a)) \<and>
      (\<forall>c < length (uw_conns w). uc_owner (uw_conns w' ! c) = uc_owner (uw_conns w ! c) \<and>
         uc_dst (uw_conns w' ! c) = uc_dst (uw_conns w ! c)))"

lemma u_grows_refl [simp]: "u_grows w w"
  by (simp add: u_grows_def)

lemma u_grows_trans: "u_grows w w' \<Longrightarrow> u_grows w' w'' \<Longrightarrow> u_grows w w''"
  by (force simp: u_grows_def)

lemma u_grows_upd: "(\<And>s. as_expectedIP (f s) = as_expectedIP s) \<Longrightarrow> u_grows w (upd_assoc a f w)"
  by (simp add: u_grows_def nth_upd_assoc)

lemma u_grows_Close: "u_grows w (counted_Close c w)"
  by (simp add: u_grows_def nth_counted_Close)

lemma u_grows_fold: "u_grows w (fold counted_Close cs w)"
  by (induction cs arbitrary: w) (auto intro: u_grows_trans u_grows_Close)

lemma fold_Close_frame [simp, frame]:
  "uw_assocs (fold counted_Close cs w) = uw_assocs w" "uw_sent (fold counted_Close cs w) = uw_sent w"
  "uw_replies (fold counted_Close cs w) = uw_replies w" "length (uw_conns (fold counted_Close cs w)) = length (uw_conns w)"
  by (induction cs arbitrary: w) auto

lemma log_grow:
  assumes "log_inv w" "u_grows w w'" "uw_sent w' = uw_sent w" "uw_replies w' = uw_replies w"
  shows "log_inv w'"
  using assms by (fastforce simp: log_inv_def u_grows_def allowSource_def)

section \<open>Lemmas: every step keeps the invariant\<close>

lemma inv_upd:
  assumes "udp_inv w" "\<And>s. as_dialing (f s) = as_dialing s \<and> as_expectedIP (f s) = as_expectedIP s"
    and "\<And>s. assoc_ok {} (uw_conns w) a s \<Longrightarrow> assoc_ok {} (uw_conns w) a (f s) \<and> as_upstreams (f s) = as_upstreams s"
  shows "udp_inv (upd_assoc a f w)"
  using assms slot_upd [of w f a] reg_upd [of "{}" w a f] log_grow [of w "upd_assoc a f w"] u_grows_upd [of f w a]
  by (simp add: udp_inv_def)

lemma touch_inv: "udp_inv w \<Longrightarrow> udp_inv (touch now a w)"
  unfolding touch_def by (rule inv_upd) (auto simp: assoc_ok_def allowSource_def)

lemma store_client_inv:
  assumes "udp_inv w" "allowSource (uw_assocs w ! a) (Some addr)"
  shows "udp_inv (store_client a addr w)"
proof -
  have "reg_inv {} (store_client a addr w)"
    using assms by (auto simp: udp_inv_def reg_inv_def store_client_def nth_upd_assoc assoc_ok_def conn_ok_def allowSource_def)
  then show ?thesis
    using assms slot_upd [of w "\<lambda>s. s\<lparr>as_clientAddr := Some addr\<rparr>" a] log_grow [of w "store_client a addr w"]
      u_grows_upd [of "\<lambda>s. s\<lparr>as_clientAddr := Some addr\<rparr>" w a]
    by (simp add: udp_inv_def store_client_def)
qed

lemma new_association_inv: "udp_inv w \<Longrightarrow> udp_inv (new_association e now w)"
  by (fastforce simp: udp_inv_def slot_inv_def reg_inv_def log_inv_def assoc_ok_def conn_ok_def new_association_def
      nth_append less_Suc_eq)

lemma set_dialing_reg: "reg_inv X w \<Longrightarrow> reg_inv X (set_dialing b a w)"
  unfolding set_dialing_def by (rule reg_upd) (auto simp: assoc_ok_def allowSource_def)

lemma set_dialing_grows: "u_grows w (set_dialing b a w)"
  by (simp add: set_dialing_def u_grows_upd)

lemma set_dialing_frame [simp, frame]:
  "uw_sem (set_dialing b a w) = uw_sem w" "uw_conns (set_dialing b a w) = uw_conns w" "uw_sent (set_dialing b a w) = uw_sent w"
  "uw_replies (set_dialing b a w) = uw_replies w" "length (uw_assocs (set_dialing b a w)) = length (uw_assocs w)"
  by (simp_all add: set_dialing_def)

lemma sem_frame: "reg_inv X (w\<lparr>uw_sem := n\<rparr>) = reg_inv X w" "log_inv (w\<lparr>uw_sem := n\<rparr>) = log_inv w"
  "u_grows (w\<lparr>uw_sem := n\<rparr>) w' = u_grows w w'"
  by (simp_all add: reg_inv_def log_inv_def u_grows_def)

lemma reserve_inv:
  assumes "udp_inv w" "a < length (uw_assocs w)" "\<not> as_dialing (uw_assocs w ! a)" "acquireUDPSlot w = Some w'"
  shows "udp_inv (set_dialing True a w')"
proof -
  have w': "w' = w\<lparr>uw_sem := Suc (uw_sem w)\<rparr>" "uw_sem w < maxConcurrentUDPUpstreams" using assms(4) by (auto simp: acquire_Some)
  have "slot_inv (set_dialing True a w')"
    using dialing_set [of a w' True] assms(1-3) w' by (simp add: udp_inv_def slot_inv_def)
  moreover have "log_inv (set_dialing True a w')"
    using assms(1) by (intro log_grow [OF _ set_dialing_grows]) (simp_all add: w' sem_frame udp_inv_def)
  moreover have "reg_inv {} (set_dialing True a w')"
    using assms(1) by (intro set_dialing_reg) (simp add: w' sem_frame udp_inv_def)
  ultimately show ?thesis by (simp add: udp_inv_def)
qed

lemma dial_failed_inv:
  assumes "udp_inv w" "a < length (uw_assocs w)" "as_dialing (uw_assocs w ! a)"
  shows "udp_inv (dial_failed a w)"
proof -
  have "slot_inv (dial_failed a w)"
    using dialing_set [of a w False] assms by (auto simp: udp_inv_def slot_inv_def dial_failed_def)
  moreover have "reg_inv {} (dial_failed a w)" "log_inv (dial_failed a w)"
    using assms(1) set_dialing_reg [of "{}" w False a] log_grow [OF _ set_dialing_grows [of w False a]]
    by (simp_all add: dial_failed_def releaseUDPSlot_def sem_frame udp_inv_def)
  ultimately show ?thesis by (simp add: udp_inv_def)
qed

lemma reg_owner: "reg_inv X w \<Longrightarrow> c < length (uw_conns w) \<Longrightarrow> uc_owner (uw_conns w ! c) < length (uw_assocs w)"
  by (simp add: reg_inv_def conn_ok_def)

lemma reg_assoc: "reg_inv X w \<Longrightarrow> a < length (uw_assocs w) \<Longrightarrow> assoc_ok X (uw_conns w) a (uw_assocs w ! a)"
  by (simp add: reg_inv_def)

lemma removeUpstream_inv:
  assumes "udp_inv w" "c < length (uw_conns w)" "uc_owner (uw_conns w ! c) = a" "uc_dst (uw_conns w ! c) = dst"
  shows "udp_inv (removeUpstream a dst c w)"
proof -
  let ?s = "uw_assocs w ! a"
  let ?f = "\<lambda>s. if map_of (as_upstreams s) dst = Some c
                  then s\<lparr>as_upstreams := filter (\<lambda>(k, _). k \<noteq> dst) (as_upstreams s)\<rparr> else s"
  have reg: "reg_inv {} w" "slot_inv w" "log_inv w" using assms(1) by (auto simp: udp_inv_def)
  have a: "a < length (uw_assocs w)" using reg_owner [OF reg(1) assms(2)] assms(3) by simp
  have ok: "assoc_ok {} (uw_conns w) a ?s" by (rule reg_assoc [OF reg(1) a])
  then have dist: "distinct (map fst (as_upstreams ?s))" by (simp add: assoc_ok_def)
  have "assoc_ok {c} (uw_conns w) a (?f ?s)"
    using ok dist assms(4) map_of_is_SomeI [OF dist, of dst c]
    by (auto simp: assoc_ok_def allowSource_def distinct_map_filter split: if_splits)
  moreover have "set (as_upstreams ?s) \<subseteq> set (as_upstreams (?f ?s)) \<union> {(d, c'). c' \<in> {c}}"
    using map_of_is_SomeI [OF dist, of dst] by auto
  ultimately have "reg_inv {c} (upd_assoc a ?f w)"
    using reg(1) a assms(3) by (intro reg_take_out) auto
  then have "reg_inv {} (removeUpstream a dst c w)" by (simp add: removeUpstream_def reg_counted_Close)
  moreover have "slot_inv (removeUpstream a dst c w)"
    unfolding removeUpstream_def by (rule slot_counted_Close, rule slot_upd [OF reg(2)]) simp
  moreover have "log_inv (removeUpstream a dst c w)"
    unfolding removeUpstream_def
    by (rule log_grow [OF reg(3) u_grows_trans [OF u_grows_upd u_grows_Close]]) auto
  ultimately show ?thesis by (simp add: udp_inv_def)
qed

lemma assoc_close_inv:
  assumes "udp_inv w"
  shows "udp_inv (assoc_close a w)"
proof (cases "a < length (uw_assocs w) \<and> \<not> as_closed (uw_assocs w ! a)")
  case True
  let ?s = "uw_assocs w ! a" and ?f = "\<lambda>s. s\<lparr>as_closed := True, as_upstreams := [], as_teardowns := Suc (as_teardowns s)\<rparr>"
  let ?cs = "map snd (as_upstreams ?s)"
  have reg: "reg_inv {} w" "slot_inv w" "log_inv w" using assms by (auto simp: udp_inv_def)
  have ok: "assoc_ok {} (uw_conns w) a ?s" using reg_assoc [OF reg(1)] True by simp
  have "reg_inv (set ?cs) (upd_assoc a ?f w)"
    using reg(1) True ok by (intro reg_take_out) (auto simp: assoc_ok_def allowSource_def intro: rev_image_eqI)
  then have "reg_inv {} (assoc_close a w)" using True by (simp add: assoc_close_def reg_fold_Close)
  moreover have "slot_inv (assoc_close a w)"
    using True slot_fold_Close [OF slot_upd [OF reg(2), of ?f a]] by (simp add: assoc_close_def)
  moreover have "log_inv (assoc_close a w)"
    using log_grow [OF reg(3) u_grows_trans [OF u_grows_upd [of ?f w a] u_grows_fold [of _ ?cs]]] True
    by (simp add: assoc_close_def)
  ultimately show ?thesis by (simp add: udp_inv_def)
qed (use assms in \<open>auto simp: assoc_close_def\<close>)

lemma reg_append:
  assumes "reg_inv {} w" "uc_owner u < length (uw_assocs w)" "cs = uw_conns w"
  shows "reg_inv {length cs} (w\<lparr>uw_conns := cs @ [u]\<rparr>)"
proof -
  have "assoc_ok {length cs} (cs @ [u]) b s" if "assoc_ok {} cs b s" for b s
    using that by (auto simp: assoc_ok_def nth_append)
  with assms show ?thesis by (auto simp: reg_inv_def conn_ok_def nth_append less_Suc_eq)
qed

text \<open>The world of \<open>install\<close> before the connection is registered or dropped.\<close>

definition dialled :: "nat \<Rightarrow> string \<Rightarrow> 'd uw \<Rightarrow> 'd uw" where
  "dialled a dst w =
     (set_dialing False a w)\<lparr>uw_conns := uw_conns w @ [\<lparr>uc_owner = a, uc_dst = dst, uc_once = False, uc_closes = 0\<rparr>]\<rparr>"

lemma dialled_grows: "u_grows w (dialled a dst w)"
  using set_dialing_grows [of w False a] by (simp add: u_grows_def dialled_def nth_append)

lemma dialled_inv:
  assumes "udp_inv w" "a < length (uw_assocs w)" "as_dialing (uw_assocs w ! a)"
  shows "slot_inv (dialled a dst w)" "reg_inv {length (uw_conns w)} (dialled a dst w)" "log_inv (dialled a dst w)"
    "u_grows w (dialled a dst w)"
proof -
  show "slot_inv (dialled a dst w)"
    using assms dialing_set [of a w False] by (simp add: udp_inv_def slot_inv_def dialled_def is_open_def)
  have "reg_inv {} (set_dialing False a w)" using assms by (simp add: udp_inv_def set_dialing_reg)
  then show "reg_inv {length (uw_conns w)} (dialled a dst w)"
    using assms(2) unfolding dialled_def by (intro reg_append) (simp_all add: set_dialing_def)
  show grow: "u_grows w (dialled a dst w)" by (rule dialled_grows)
  show "log_inv (dialled a dst w)"
    using assms(1) by (intro log_grow [OF _ grow]) (simp_all add: udp_inv_def dialled_def)
qed

lemma install_def': "install a dst w =
     (let up = length (uw_conns w); s = uw_assocs w ! a in
      if as_closed s then (counted_Close up (dialled a dst w), Dropped)
      else case map_of (as_upstreams s) dst of
        Some e \<Rightarrow> (counted_Close up (dialled a dst w), Existing e)
      | None \<Rightarrow> (upd_assoc a (\<lambda>s. s\<lparr>as_upstreams := (dst, up) # as_upstreams s\<rparr>) (dialled a dst w), Fresh up))"
  unfolding install_def dialled_def Let_def by (rule refl)

lemma install_inv:
  assumes "udp_inv w" "a < length (uw_assocs w)" "as_dialing (uw_assocs w ! a)"
  shows "udp_inv (fst (install a dst w))"
proof -
  let ?up = "length (uw_conns w)" and ?d = "dialled a dst w"
  let ?f = "\<lambda>s. s\<lparr>as_upstreams := (dst, ?up) # as_upstreams s\<rparr>"
  note d = dialled_inv [OF assms, of dst]
  have drop: "udp_inv (counted_Close ?up ?d)"
    unfolding udp_inv_def
    using slot_counted_Close [OF d(1)] reg_counted_Close [OF d(2)] log_grow [OF d(3) u_grows_Close [of ?d ?up]] by simp
  have keep: "udp_inv (upd_assoc a ?f ?d)" if "\<not> as_closed (uw_assocs w ! a)" "map_of (as_upstreams (uw_assocs w ! a)) dst = None"
  proof -
    have s: "uw_assocs ?d ! a = (uw_assocs w ! a)\<lparr>as_dialing := False\<rparr>" "uw_conns ?d ! ?up = \<lparr>uc_owner = a, uc_dst = dst, uc_once = False, uc_closes = 0\<rparr>"
      "length (uw_conns ?d) = Suc ?up" "length (uw_assocs ?d) = length (uw_assocs w)"
      using assms(2) by (simp_all add: dialled_def set_dialing_def nth_upd_assoc)
    have "assoc_ok {} (uw_conns ?d) a (?f (uw_assocs ?d ! a))"
      using reg_assoc [OF d(2), of a] assms(2) that s
      by (auto simp: assoc_ok_def allowSource_def is_open_def map_of_eq_None_iff)
    then have "reg_inv {} (upd_assoc a ?f ?d)"
      using d(2) assms(2) s by (auto simp: reg_inv_def nth_upd_assoc conn_ok_def assoc_ok_def)
    then show ?thesis
      using d slot_upd [OF d(1), of ?f a] log_grow [OF d(3) u_grows_upd [of ?f ?d a]] by (simp add: udp_inv_def)
  qed
  from drop keep show ?thesis by (auto simp: install_def' Let_def split: option.split)
qed

lemma send_inv:
  assumes "udp_inv w" "c < length (uw_conns w)" "uc_owner (uw_conns w ! c) = a" "uc_dst (uw_conns w ! c) = dst"
  shows "udp_inv (send_to a dst c x w)"
  using assms by (auto simp: udp_inv_def slot_inv_def reg_inv_def log_inv_def send_to_def)

lemma relay_read_inv:
  assumes "udp_inv w" "c < length (uw_conns w)" "uc_owner (uw_conns w ! c) = a" "uc_dst (uw_conns w ! c) = dst"
  shows "udp_inv (fst (relay_read now a dst c rd wr w))"
proof -
  have t: "udp_inv (touch now a w)" "uw_conns (touch now a w) = uw_conns w" by (simp_all add: touch_inv [OF assms(1)]) (simp add: touch_def)
  have a: "a < length (uw_assocs w)" using assms reg_owner by (fastforce simp: udp_inv_def)
  have "udp_inv (removeUpstream a dst c v)" if "v = w \<or> v = touch now a w" for v
    using that assms t by (auto intro: removeUpstream_inv)
  moreover have "udp_inv ((touch now a w)\<lparr>uw_replies := uw_replies (touch now a w) @ [(a, addr, x)]\<rparr>)"
    if "as_clientAddr (uw_assocs w ! a) = Some addr" for addr x
  proof -
    have "allowSource (uw_assocs w ! a) (Some addr)"
      using that reg_assoc [OF _ a] assms(1) by (auto simp: udp_inv_def assoc_ok_def)
    then have "allowSource (uw_assocs (touch now a w) ! a) (Some addr)" "a < length (uw_assocs (touch now a w))"
      using a by (simp_all add: touch_def nth_upd_assoc allowSource_def)
    with t(1) show ?thesis by (auto simp: udp_inv_def slot_inv_def reg_inv_def log_inv_def)
  qed
  ultimately show ?thesis using assms(1) by (auto simp: relay_read_def Let_def split: option.split)
qed

lemma u_step_inv: "u_step x w w' \<Longrightarrow> udp_inv w \<Longrightarrow> udp_inv w'"
proof (induction rule: u_step.induct)
  case (u_reap a w idle now)
  then show ?case by (simp add: reaper_tick_def assoc_close_inv)
qed (auto simp: new_association_inv touch_inv store_client_inv intro: reserve_inv dial_failed_inv install_inv send_inv
    removeUpstream_inv relay_read_inv assoc_close_inv)

lemma u_reach_inv: "u_reach w \<Longrightarrow> udp_inv w"
proof -
  have "udp_inv (uw_start :: 'a uw)"
    by (simp add: udp_inv_def slot_inv_def reg_inv_def log_inv_def uw_start_def)
  moreover have "u_any\<^sup>*\<^sup>* v w \<Longrightarrow> udp_inv v \<Longrightarrow> udp_inv w" for v w :: "'a uw"
    by (induction rule: rtranclp_induct) (auto simp: u_any_def intro: u_step_inv)
  ultimately show "u_reach w \<Longrightarrow> udp_inv w" by (auto simp: u_reach_def)
qed

section \<open>Lemmas: the handlers are made of steps\<close>

lemma removeUpstream_grows: "u_grows w (removeUpstream a dst c w)"
  unfolding removeUpstream_def by (rule u_grows_trans [OF u_grows_upd u_grows_Close]) simp

lemma assoc_close_grows: "u_grows w (assoc_close a w)"
  unfolding assoc_close_def by (auto intro: u_grows_trans [OF u_grows_upd u_grows_fold])

lemma touch_grows: "u_grows w (touch now a w)"
  by (simp add: touch_def u_grows_upd)

lemma relay_read_grows: "u_grows w (fst (relay_read now a dst c rd wr w))"
proof -
  have "u_grows w ((touch now a w)\<lparr>uw_replies := r\<rparr>)" for r
    using touch_grows [of w now a] by (simp add: u_grows_def)
  then show ?thesis
    using removeUpstream_grows [of w] u_grows_trans [OF touch_grows removeUpstream_grows]
    by (auto simp: relay_read_def Let_def split: option.split)
qed

lemma install_grows: "u_grows w (fst (install a dst w))"
  by (auto simp: install_def' Let_def split: option.split intro: u_grows_trans [OF dialled_grows u_grows_Close]
      intro!: u_grows_trans [OF dialled_grows u_grows_upd])

lemma u_step_grows: "u_step x w w' \<Longrightarrow> u_grows w w'"
proof (induction rule: u_step.induct)
  case (u_reserve a w w')
  then show ?case using set_dialing_grows [of w' True a] by (auto simp: acquire_Some sem_frame)
next
  case (u_failed a w)
  then show ?case using set_dialing_grows [of w False a] by (simp add: dial_failed_def u_grows_def)
next
  case (u_new w e now)
  then show ?case by (simp add: u_grows_def new_association_def nth_append)
next
  case (u_send c w a dst x)
  then show ?case by (simp add: u_grows_def send_to_def)
qed (auto simp: touch_grows store_client_def u_grows_upd install_grows removeUpstream_grows relay_read_grows assoc_close_grows
    reaper_tick_def)

text \<open>No one but the read loop of an association changes its dialing flag.\<close>

lemma dialing_upd:
  "b < length (uw_assocs w) \<Longrightarrow> (\<And>s. as_dialing (f s) = as_dialing s) \<Longrightarrow>
     as_dialing (uw_assocs (upd_assoc a f w) ! b) = as_dialing (uw_assocs w ! b)"
  by (simp add: nth_upd_assoc)

lemma dialing_frames:
  assumes "b < length (uw_assocs w)"
  shows "as_dialing (uw_assocs (touch now a w) ! b) = as_dialing (uw_assocs w ! b)"
    "as_dialing (uw_assocs (store_client a addr w) ! b) = as_dialing (uw_assocs w ! b)"
    "as_dialing (uw_assocs (removeUpstream a dst c w) ! b) = as_dialing (uw_assocs w ! b)"
    "as_dialing (uw_assocs (assoc_close a w) ! b) = as_dialing (uw_assocs w ! b)"
    "as_dialing (uw_assocs (fst (relay_read now a dst c rd wr w)) ! b) = as_dialing (uw_assocs w ! b)"
    "a \<noteq> b \<Longrightarrow> as_dialing (uw_assocs (set_dialing v a w) ! b) = as_dialing (uw_assocs w ! b)"
    "a \<noteq> b \<Longrightarrow> as_dialing (uw_assocs (fst (install a dst w)) ! b) = as_dialing (uw_assocs w ! b)"
  using assms
  by (auto simp: touch_def store_client_def removeUpstream_def assoc_close_def relay_read_def set_dialing_def install_def
      nth_upd_assoc Let_def split: option.split)

lemma u_step_dialing:
  "u_step x w w' \<Longrightarrow> x \<noteq> Reader a \<Longrightarrow> a < length (uw_assocs w) \<Longrightarrow>
     as_dialing (uw_assocs w' ! a) = as_dialing (uw_assocs w ! a)"
proof (induction rule: u_step.induct)
  case (u_reserve b w w')
  then show ?case by (auto simp: acquire_Some dialing_frames)
qed (auto simp: dialing_frames new_association_def nth_append dial_failed_def send_to_def reaper_tick_def)

lemma u_others_keep:
  assumes "(u_others a)\<^sup>*\<^sup>* w w'" "a < length (uw_assocs w)"
  shows "u_any\<^sup>*\<^sup>* w w' \<and> u_grows w w' \<and> as_dialing (uw_assocs w' ! a) = as_dialing (uw_assocs w ! a)"
  using assms(1)
proof (induction rule: rtranclp_induct)
  case (step v v')
  then obtain x where x: "x \<noteq> Reader a" "u_step x v v'" by (auto simp: u_others_def)
  have "a < length (uw_assocs v)" using step.IH assms(2) by (auto simp: u_grows_def)
  then have "as_dialing (uw_assocs v' ! a) = as_dialing (uw_assocs v ! a)" by (rule u_step_dialing [OF x(2,1)])
  moreover have "u_any v v'" using x by (auto simp: u_any_def)
  ultimately show ?case
    using step.IH u_step_grows [OF x(2)] u_grows_trans by (auto intro: rtranclp.rtrancl_into_rtrancl)
qed simp

lemma u_any_step: "u_step x w w' \<Longrightarrow> u_any\<^sup>*\<^sup>* w w'"
  by (rule r_into_rtranclp) (auto simp: u_any_def)

lemma install_result:
  assumes "udp_inv w" "a < length (uw_assocs w)" "install a dst w = (w', r)"
  shows "(r = Existing e \<longrightarrow> e < length (uw_conns w') \<and> uc_owner (uw_conns w' ! e) = a \<and> uc_dst (uw_conns w' ! e) = dst) \<and>
    (r = Fresh u \<longrightarrow> u < length (uw_conns w') \<and> uc_owner (uw_conns w' ! u) = a \<and> uc_dst (uw_conns w' ! u) = dst)"
proof -
  have ok: "assoc_ok {} (uw_conns w) a (uw_assocs w ! a)" using assms(1,2) by (simp add: udp_inv_def reg_assoc)
  have grow: "u_grows w w'" using install_grows [of w a dst] assms(3) by simp
  have "e < length (uw_conns w) \<and> uc_owner (uw_conns w ! e) = a \<and> uc_dst (uw_conns w ! e) = dst" if "r = Existing e"
    using that assms(3) ok
    by (auto simp: install_def' Let_def assoc_ok_def split: if_splits option.splits dest!: map_of_SomeD)
  then have "r = Existing e \<longrightarrow> e < length (uw_conns w') \<and> uc_owner (uw_conns w' ! e) = a \<and> uc_dst (uw_conns w' ! e) = dst"
    using grow by (fastforce simp: u_grows_def)
  moreover have "r = Fresh u \<longrightarrow> u < length (uw_conns w') \<and> uc_owner (uw_conns w' ! u) = a \<and> uc_dst (uw_conns w' ! u) = dst"
    using assms(3) by (auto simp: install_def' dialled_def Let_def split: if_splits option.splits)
  ultimately show ?thesis by blast
qed

lemma mapped_conn:
  assumes "udp_inv w" "a < length (uw_assocs w)" "map_of (as_upstreams (uw_assocs w ! a)) dst = Some c"
  shows "c < length (uw_conns w) \<and> uc_owner (uw_conns w ! c) = a \<and> uc_dst (uw_conns w ! c) = dst"
  using assms reg_assoc [of "{}" w a] by (auto simp: udp_inv_def assoc_ok_def dest!: map_of_SomeD)

lemma u_steps_inv: "u_any\<^sup>*\<^sup>* w w' \<Longrightarrow> udp_inv w \<Longrightarrow> udp_inv w'"
  by (induction rule: rtranclp_induct) (auto simp: u_any_def intro: u_step_inv)

text \<open>From the dial on: what \<open>forwardFromClient\<close> does after it has taken a slot.\<close>

definition after_slot ::
  "bool \<Rightarrow> bool \<Rightarrow> ('d uw \<Rightarrow> 'd uw) \<Rightarrow> nat \<Rightarrow> string \<Rightarrow> 'd \<Rightarrow> 'd uw \<Rightarrow> 'd uw" where
  "after_slot ok wr itf a dst x w3 =
     (if \<not> ok then dial_failed a w3
      else case install a dst w3 of
        (w4, Dropped) \<Rightarrow> w4
      | (w4, Existing e) \<Rightarrow> send_to a dst e x w4
      | (w4, Fresh up) \<Rightarrow> let w5 = itf w4 in if wr then send_to a dst up x w5 else removeUpstream a dst up w5)"

lemma after_slot_steps:
  assumes "udp_inv w" "a < length (uw_assocs w)" "as_dialing (uw_assocs w ! a)" "\<And>v. (u_others a)\<^sup>*\<^sup>* v (itf v)"
  shows "u_any\<^sup>*\<^sup>* w (after_slot ok wr itf a dst x w)"
proof -
  obtain w4 r where i: "install a dst w = (w4, r)" by (cases "install a dst w")
  have st: "u_step (Reader a) w w4" using u_install [OF assms(2,3), of dst] i by simp
  have len: "a < length (uw_assocs w4)" using u_step_grows [OF st] assms(2) by (auto simp: u_grows_def)
  note res = install_result [OF assms(1,2) i]
  have failed: "u_any\<^sup>*\<^sup>* w (dial_failed a w)" by (rule u_any_step [OF u_failed [OF assms(2,3)]])
  have 4: "u_any\<^sup>*\<^sup>* w w4" by (rule u_any_step [OF st])
  have exist: "u_any\<^sup>*\<^sup>* w (send_to a dst e x w4)" if "r = Existing e" for e
    using 4 res that by (intro rtranclp_trans [OF 4 u_any_step [OF u_send]]) auto
  have fresh: "u_any\<^sup>*\<^sup>* w (send_to a dst u x (itf w4)) \<and> u_any\<^sup>*\<^sup>* w (removeUpstream a dst u (itf w4))" if "r = Fresh u" for u
  proof -
    note keep = u_others_keep [OF assms(4) len]
    have u: "u < length (uw_conns (itf w4))" "uc_owner (uw_conns (itf w4) ! u) = a" "uc_dst (uw_conns (itf w4) ! u) = dst"
      using res [where u = u] that keep by (auto simp: u_grows_def)
    have 5: "u_any\<^sup>*\<^sup>* w (itf w4)" using 4 keep by (meson rtranclp_trans)
    from rtranclp_trans [OF 5 u_any_step [OF u_send [OF u]]] rtranclp_trans [OF 5 u_any_step [OF u_remove [OF u]]]
    show ?thesis by blast
  qed
  from failed 4 exist fresh i show ?thesis
    by (auto simp: after_slot_def Let_def split: installed.split)
qed

lemma forward_after_slot:
  "forwardFromClient resolve dial wr itf a addr dst x w0 =
     (let w = itf 0 (store_client a addr w0); s = uw_assocs w ! a in
      if as_closed s then w
      else case map_of (as_upstreams s) dst of
        Some up \<Rightarrow> send_to a dst up x w
      | None \<Rightarrow>
          (case SplitHostPort dst of
             Inl _ \<Rightarrow> w
           | Inr (host, portStr) \<Rightarrow>
               (case Atoi portStr of
                  None \<Rightarrow> w
                | Some dstPort \<Rightarrow>
                    (case resolveDialAddr resolve \<lparr>Host = host, TargetPort = dstPort\<rparr> of
                       Inl _ \<Rightarrow> w
                     | Inr dialAddr \<Rightarrow>
                         (case acquireUDPSlot (itf 1 w) of
                            None \<Rightarrow> itf 1 w
                          | Some w2 \<Rightarrow>
                              after_slot (dial dialAddr \<lparr>Host = host, TargetPort = dstPort\<rparr>) wr (itf 3) a dst x
                                (itf 2 (set_dialing True a w2)))))))"
  unfolding forwardFromClient_def after_slot_def Let_def by (rule refl)

lemma forward_steps:
  assumes "udp_inv w0" "a < length (uw_assocs w0)" "\<not> as_dialing (uw_assocs w0 ! a)"
    and "allowSource (uw_assocs w0 ! a) (Some addr)" and itf: "\<And>k v. (u_others a)\<^sup>*\<^sup>* v (itf k v)"
  shows "u_any\<^sup>*\<^sup>* w0 (forwardFromClient resolve dial wr itf a addr dst x w0)"
proof -
  let ?w = "itf 0 (store_client a addr w0)"
  have 0: "u_any\<^sup>*\<^sup>* w0 (store_client a addr w0)" "a < length (uw_assocs (store_client a addr w0))"
    using u_any_step [OF u_client [OF assms(2,4)]] assms(2) by (simp_all add: store_client_def)
  note k0 = u_others_keep [OF itf [of "store_client a addr w0" 0] 0(2)]
  have w: "u_any\<^sup>*\<^sup>* w0 ?w" "a < length (uw_assocs ?w)" "\<not> as_dialing (uw_assocs ?w ! a)"
    using rtranclp_trans [OF 0(1)] k0 0(2) assms(2,3) by (auto simp: u_grows_def dialing_frames)
  note k1 = u_others_keep [OF itf [of ?w 1] w(2)]
  have w1: "u_any\<^sup>*\<^sup>* w0 (itf 1 ?w)" "a < length (uw_assocs (itf 1 ?w))" "\<not> as_dialing (uw_assocs (itf 1 ?w) ! a)"
    using rtranclp_trans [OF w(1)] k1 w by (auto simp: u_grows_def)
  have slot: "u_any\<^sup>*\<^sup>* w0 (after_slot ok wr (itf 3) a dst x (itf 2 (set_dialing True a w2)))"
    if acq: "acquireUDPSlot (itf 1 ?w) = Some w2" for ok w2
  proof -
    let ?v = "set_dialing True a w2"
    have v: "u_any\<^sup>*\<^sup>* w0 ?v" by (rule rtranclp_trans [OF w1(1) u_any_step [OF u_reserve [OF w1(2,3) acq]]])
    have len: "a < length (uw_assocs ?v)" "as_dialing (uw_assocs ?v ! a)"
      using acq w1(2) by (auto simp: acquire_Some set_dialing_def nth_upd_assoc)
    note k2 = u_others_keep [OF itf [of ?v 2] len(1)]
    have v2: "u_any\<^sup>*\<^sup>* w0 (itf 2 ?v)" "a < length (uw_assocs (itf 2 ?v))" "as_dialing (uw_assocs (itf 2 ?v) ! a)"
      using rtranclp_trans [OF v] k2 len by (auto simp: u_grows_def)
    from rtranclp_trans [OF v2(1) after_slot_steps [OF u_steps_inv [OF v2(1) assms(1)] v2(2,3) itf]] show ?thesis .
  qed
  have sent: "u_any\<^sup>*\<^sup>* w0 (send_to a dst c x ?w)" if "map_of (as_upstreams (uw_assocs ?w ! a)) dst = Some c" for c
    using mapped_conn [OF u_steps_inv [OF w(1) assms(1)] w(2) that]
    by (intro rtranclp_trans [OF w(1) u_any_step [OF u_send]]) auto
  from w(1) w1(1) slot sent show ?thesis
    by (auto simp: forward_after_slot Let_def split: option.split sum.split prod.split)
qed

section \<open>Lemmas: reaper\<close>

lemma idleReaper_quiet:
  assumes "a < length (uw_assocs w)" "\<not> as_closed (uw_assocs w ! a)"
  shows "\<forall>t \<in> set ticks. t - as_lastActivity (uw_assocs w ! a) \<le> idle \<Longrightarrow> idleReaper idle ticks a w = w"
  using assms by (induction ticks) (auto simp: reaper_tick_def)

lemma idleReaper_late:
  assumes "\<not> as_closed (uw_assocs w ! a)" "t - as_lastActivity (uw_assocs w ! a) > idle"
    "\<forall>t' \<in> set ticks. t' - as_lastActivity (uw_assocs w ! a) \<le> idle"
  shows "idleReaper idle (ticks @ [t]) a w = assoc_close a w"
  using assms(3) by (induction ticks) (auto simp: reaper_tick_def assms(1,2))

lemma assoc_close_closed: "a < length (uw_assocs w) \<Longrightarrow> as_closed (uw_assocs (assoc_close a w) ! a)"
  by (simp add: assoc_close_def nth_upd_assoc)

section \<open>Properties\<close>

text \<open>
  C2: the slots of the upstream semaphore are exact: in every reachable state the number of taken
  slots is the number of dials in progress plus the number of open upstream connections and at most
  1024; every open connection is registered under its destination in an association that is not
  closed, and an association is torn down at most once.
\<close>

theorem udp_slots_exact:
  assumes "u_reach w"
  shows "uw_sem w = length (filter as_dialing (uw_assocs w)) + length (filter is_open (uw_conns w)) \<and> uw_sem w \<le> 1024 \<and>
    (\<forall>c < length (uw_conns w). is_open (uw_conns w ! c) \<longrightarrow>
       (let s = uw_assocs w ! uc_owner (uw_conns w ! c)
        in \<not> as_closed s \<and> map_of (as_upstreams s) (uc_dst (uw_conns w ! c)) = Some c)) \<and>
    (\<forall>s \<in> set (uw_assocs w). as_teardowns s = (if as_closed s then 1 else 0))"
proof -
  have inv: "slot_inv w" "reg_inv {} w" using u_reach_inv [OF assms] by (auto simp: udp_inv_def)
  have "\<not> as_closed s \<and> map_of (as_upstreams s) (uc_dst (uw_conns w ! c)) = Some c"
    if "c < length (uw_conns w)" "is_open (uw_conns w ! c)" "s = uw_assocs w ! uc_owner (uw_conns w ! c)" for c s
  proof -
    have "assoc_ok {} (uw_conns w) (uc_owner (uw_conns w ! c)) s" "(uc_dst (uw_conns w ! c), c) \<in> set (as_upstreams s)"
      using that inv(2) by (auto simp: reg_inv_def conn_ok_def)
    then show ?thesis by (auto simp: assoc_ok_def)
  qed
  moreover have "as_teardowns s = (if as_closed s then 1 else 0)" if "s \<in> set (uw_assocs w)" for s
    using that reg_assoc [OF inv(2)] by (auto simp: in_set_conv_nth assoc_ok_def)
  ultimately show ?thesis
    using inv(1) unfolding slot_inv_def maxConcurrentUDPUpstreams_def Let_def by blast
qed

text \<open>One association, with one upstream to 192.0.2.9:53.\<close>

definition one_assoc :: "nat uw" where "one_assoc = new_association (Some [192, 0, 2, 1]) 0 uw_start"

definition no_interf :: "nat \<Rightarrow> nat uw \<Rightarrow> nat uw" where "no_interf k v = v"

definition one_flow :: "nat uw" where
  "one_flow = forwardFromClient (\<lambda>_. Inl ECanceled) (\<lambda>_ _. True) True no_interf 0 ([192, 0, 2, 1], 4000) ''192.0.2.9:53'' 7 one_assoc"

lemma one_assoc_reach: "u_reach one_assoc"
  unfolding u_reach_def one_assoc_def by (rule u_any_step [OF u_new])

lemma one_assoc_facts:
  "length (uw_assocs one_assoc) = 1" "allowSource (uw_assocs one_assoc ! 0) (Some ([192, 0, 2, 1], 4000))"
  "\<not> as_dialing (uw_assocs one_assoc ! 0)" "\<not> as_closed (uw_assocs one_assoc ! 0)" "as_lastActivity (uw_assocs one_assoc ! 0) = 0"
  by (simp_all add: one_assoc_def new_association_def uw_start_def allowSource_def IPEqual_def)

lemma sample_flow:
  "SplitHostPort ''192.0.2.9:53'' = Inr (''192.0.2.9'', ''53'')"
  "resolveDialAddr (\<lambda>_. Inl ECanceled) \<lparr>Host = ''192.0.2.9'', TargetPort = 53\<rparr> = Inr ''192.0.2.9:53''"
  by code_simp+

lemma sample_port: "Atoi ''53'' = Some 53"
proof -
  have "Itoa 53 = ''53''" by code_simp
  with Atoi_Itoa [of 53] show ?thesis by simp
qed

lemmas sample_unfold = sample_flow sample_port forwardFromClient_def one_assoc_def new_association_def uw_start_def store_client_def
  upd_assoc_def no_interf_def acquireUDPSlot_def maxConcurrentUDPUpstreams_def set_dialing_def install_def send_to_def
  assoc_close_def counted_Close_def releaseUDPSlot_def Let_def

lemma one_flow_reach: "u_reach one_flow"
proof -
  have "u_any\<^sup>*\<^sup>* one_assoc one_flow"
    unfolding one_flow_def
    by (rule forward_steps) (simp_all add: u_reach_inv [OF one_assoc_reach] one_assoc_facts no_interf_def)
  then show ?thesis using one_assoc_reach by (auto simp: u_reach_def intro: rtranclp_trans)
qed

lemma one_flow_facts:
  "uw_sem one_flow = 1" "uw_sent one_flow = [(0, ''192.0.2.9:53'', 0, 7)]" "map as_closed (uw_assocs one_flow) = [False]"
  by (simp_all add: one_flow_def sample_unfold)

theorem udp_slots_exact_witness:
  "uw_sem one_flow = 1 \<and> length (filter as_dialing (uw_assocs one_flow)) + length (filter is_open (uw_conns one_flow)) = 1"
  using udp_slots_exact [OF one_flow_reach] by (simp add: one_flow_facts)

text \<open>
  C4: forwarding a datagram never leaves an upstream behind a closed association: whatever the other
  goroutines do while the handler resolves, dials and writes, in particular a teardown of the
  association at any of these points, when the handler returns and the association is closed none of
  its connections is open and it holds no slot for a dial.
\<close>

theorem forward_close_race:
  assumes "u_reach w" "a < length (uw_assocs w)" "\<not> as_dialing (uw_assocs w ! a)" "allowSource (uw_assocs w ! a) (Some addr)"
    and "\<And>k v. (u_others a)\<^sup>*\<^sup>* v (itf k v)" and "w' = forwardFromClient resolve dial wr itf a addr dst x w"
  shows "u_reach w' \<and> (as_closed (uw_assocs w' ! a) \<longrightarrow>
    (\<forall>c < length (uw_conns w'). uc_owner (uw_conns w' ! c) = a \<longrightarrow> \<not> is_open (uw_conns w' ! c)))"
proof -
  have "u_any\<^sup>*\<^sup>* w w'"
    unfolding assms(6) by (rule forward_steps [OF u_reach_inv [OF assms(1)] assms(2-5)])
  then have r: "u_reach w'" using assms(1) by (auto simp: u_reach_def intro: rtranclp_trans)
  then have "reg_inv {} w'" using u_reach_inv by (auto simp: udp_inv_def)
  then have "\<not> is_open (uw_conns w' ! c)" if "as_closed (uw_assocs w' ! a)" "c < length (uw_conns w')" "uc_owner (uw_conns w' ! c) = a" for c
    using that reg_assoc [of "{}" w' a] reg_owner [of "{}" w' c] unfolding reg_inv_def conn_ok_def assoc_ok_def by auto
  with r show ?thesis by blast
qed

text \<open>A teardown while the dial is in progress.\<close>

definition close_at_dial :: "nat \<Rightarrow> nat uw \<Rightarrow> nat uw" where
  "close_at_dial k v = (if k = 2 then assoc_close 0 v else v)"

lemma close_at_dial_steps: "(u_others 0)\<^sup>*\<^sup>* v (close_at_dial k v)"
proof -
  have "u_others 0 v (assoc_close 0 v)" using u_close [of Others v 0] by (auto simp: u_others_def)
  then show ?thesis by (auto simp: close_at_dial_def)
qed

definition raced :: "nat uw" where
  "raced = forwardFromClient (\<lambda>_. Inl ECanceled) (\<lambda>_ _. True) True close_at_dial 0 ([192, 0, 2, 1], 4000) ''192.0.2.9:53'' 7 one_assoc"

lemma raced_facts: "map as_closed (uw_assocs raced) = [True]" "uw_sem raced = 0" "map uc_closes (uw_conns raced) = [1]"
  "map uc_owner (uw_conns raced) = [0]"
  by (simp_all add: raced_def close_at_dial_def sample_unfold)

theorem forward_close_race_witness: "u_reach raced \<and> \<not> is_open (uw_conns raced ! 0) \<and> uw_sem raced = 0"
proof -
  have len: "length (uw_assocs raced) = 1" "length (uw_conns raced) = 1"
    using raced_facts by (metis length_map One_nat_def length_Cons list.size(3))+
  then have "as_closed (uw_assocs raced ! 0)" "uc_owner (uw_conns raced ! 0) = 0"
    using raced_facts by (cases "uw_assocs raced"; cases "uw_conns raced"; simp)+
  with forward_close_race [OF one_assoc_reach _ one_assoc_facts(3) one_assoc_facts(2) close_at_dial_steps raced_def]
  show ?thesis using len by (simp add: one_assoc_facts raced_facts)
qed



text \<open>
  the idle reaper: an association without traffic is left alone by every tick up to its idle
  timeout and is closed by a tick that comes at most one interval after it.
\<close>

theorem idleReaper_bound:
  assumes "a < length (uw_assocs w)" "\<not> as_closed (uw_assocs w ! a)" "L = as_lastActivity (uw_assocs w ! a)"
    and "0 < idle" "t0 \<le> L + idle" "ticks = (\<lambda>n. map (\<lambda>j. t0 + int j * reaper_interval idle) [1..<Suc n])"
  shows "\<exists>k. L + idle < t0 + int (Suc k) * reaper_interval idle \<and>
    t0 + int (Suc k) * reaper_interval idle \<le> L + idle + reaper_interval idle \<and>
    as_closed (uw_assocs (idleReaper idle (ticks (Suc k)) a w) ! a) \<and> (\<forall>j \<le> k. idleReaper idle (ticks j) a w = w)"
proof -
  let ?i = "reaper_interval idle" and ?k = "nat ((L + idle - t0) div reaper_interval idle)"
  have i: "0 < ?i" by (simp add: reaper_interval_def)
  have q: "0 \<le> (L + idle - t0) div ?i" using assms(5) i by (simp add: pos_imp_zdiv_nonneg_iff)
  have k: "int ?k * ?i = L + idle - t0 - (L + idle - t0) mod ?i" using q by (simp add: minus_mod_eq_div_mult)
  have lo: "int ?k * ?i \<le> L + idle - t0" unfolding k using pos_mod_sign [OF i] by (simp only: diff_le_eq le_add_same_cancel1)
  have "int (Suc ?k) * ?i = int ?k * ?i + ?i" by (simp add: distrib_right)
  then have hi: "L + idle - t0 < int (Suc ?k) * ?i" unfolding k using pos_mod_bound [OF i, of "L + idle - t0"] by linarith
  have mono: "int j * ?i \<le> int ?k * ?i" if "j \<le> ?k" for j
    using that i by (intro mult_right_mono) (simp_all only: of_nat_le_iff less_imp_le)
  have early: "t - L \<le> idle" if "j \<le> ?k" "t \<in> set (ticks j)" for j t
  proof -
    from that(2) obtain m where m: "t = t0 + int m * ?i" "m \<le> j" unfolding assms(6) by (fastforce simp del: of_nat_Suc)
    then have "int m * ?i \<le> int ?k * ?i" using that(1) by (intro mono) simp
    with m(1) lo show ?thesis by linarith
  qed
  have quiet: "\<forall>j \<le> ?k. idleReaper idle (ticks j) a w = w"
    using early assms(3) by (intro allI impI idleReaper_quiet [OF assms(1,2)]) blast
  have split: "ticks (Suc ?k) = ticks ?k @ [t0 + int (Suc ?k) * ?i]" by (simp add: assms(6))
  have "idleReaper idle (ticks (Suc ?k)) a w = assoc_close a w"
    unfolding split using early [of ?k] hi assms(3) by (intro idleReaper_late [OF assms(2)]) auto
  then have "as_closed (uw_assocs (idleReaper idle (ticks (Suc ?k)) a w) ! a)" using assoc_close_closed [OF assms(1)] by simp
  moreover have "t0 + int (Suc ?k) * ?i \<le> L + idle + ?i" using lo by (simp add: distrib_right)
  ultimately show ?thesis using quiet hi by (intro exI [of _ ?k]) auto
qed

theorem idleReaper_bound_witness:
  "\<exists>k. 60 * Second < int (Suc k) * (30 * Second) \<and> int (Suc k) * (30 * Second) \<le> 90 * Second"
  using idleReaper_bound [OF _ one_assoc_facts(4) refl, of "60 * Second" 0]
  by (auto simp: one_assoc_facts reaper_interval_def)

end
