(* ===== verification/Device_Names.thy ===== *)
theory Device_Names
  imports Go_Strings
begin

text \<open>
  Names of registered devices, \<open>src/cmd/proxy.go\<close>: the normal form of a name, the suffix taken from
  an account identifier and the name generated when none is given. Letters and digits are those
  of ASCII, as in \<open>Go_Strings\<close>.
\<close>

section \<open>Definitions\<close>

definition accountModeFree :: string where "accountModeFree = ''free''"
definition accountModePremium :: string where "accountModePremium = ''premium''"
definition accountModeTeam :: string where "accountModeTeam = ''team''"
definition maxDeviceNameLen :: nat where "maxDeviceNameLen = 16"

lemmas account_modes = accountModeFree_def accountModePremium_def accountModeTeam_def

definition letter_or_digit :: "char \<Rightarrow> bool" where
  "letter_or_digit c = (is_upper c \<or> is_lower c \<or> is_digit c)"

text \<open>The loop of \<open>normalizeDeviceName\<close>: the bytes written so far and \<open>prevDash\<close>.\<close>

fun name_loop :: "string \<Rightarrow> bool \<Rightarrow> string \<Rightarrow> string" where
  "name_loop b prevDash [] = b"
| "name_loop b prevDash (r # s) =
     (if letter_or_digit r then name_loop (b @ [r]) False s
      else if r = CHR ''-'' \<or> r = CHR ''_'' \<or> is_space r then
        (if \<not> prevDash \<and> 0 < length b then name_loop (b @ ''-'') True s else name_loop b prevDash s)
      else
        (if \<not> prevDash \<and> 0 < length b then name_loop (b @ ''-'') True s else name_loop b prevDash s))"

definition or_node :: "string \<Rightarrow> string" where
  "or_node out = (if out = [] then ''node'' else out)"

definition normalizeDeviceName :: "string \<Rightarrow> string" where
  "normalizeDeviceName raw =
     (let s = TrimSpace (ToLower raw);
          out = or_node (Trim (name_loop [] False s) ''-'')
      in if length out > maxDeviceNameLen then or_node (Trim (take maxDeviceNameLen out) ''-'') else out)"

definition accountIDSuffix :: "string \<Rightarrow> string" where
  "accountIDSuffix accountID =
     (let b = filter letter_or_digit (ToLower (TrimSpace accountID));
          cleaned = (if b = [] then ''0000'' else b)
      in if length cleaned > 4 then drop (length cleaned - 4) cleaned else cleaned)"

definition buildAutoDeviceName :: "string \<Rightarrow> string \<Rightarrow> string \<Rightarrow> string" where
  "buildAutoDeviceName mode hostname accountID =
     (let prefix = (if mode = accountModeTeam then ''t'' else ''p'');
          host = normalizeDeviceName hostname;
          id4 = accountIDSuffix accountID;
          m = int maxDeviceNameLen - int (length prefix) - 1 - 1 - int (length id4);
          maxHostLen = (if m < 1 then 1 else m);
          host' = (if int (length host) > maxHostLen then
                     (let h = Trim (take (nat maxHostLen) host) ''-'' in if h = [] then ''n'' else h)
                   else host)
      in normalizeDeviceName (prefix @ ''-'' @ host' @ ''-'' @ id4))"

text \<open>\<open>hostname\<close> is the outcome of \<open>os.Hostname\<close>.\<close>

definition resolveRegistrationDeviceName :: "(gerr, string) result \<Rightarrow> string \<Rightarrow> string \<Rightarrow> string \<Rightarrow> string" where
  "resolveRegistrationDeviceName hostname mode explicitName accountID =
     (if mode \<noteq> accountModePremium \<and> mode \<noteq> accountModeTeam then explicitName
      else
        let explicit = TrimSpace explicitName in
        if explicit \<noteq> [] then normalizeDeviceName explicit
        else
          let h = (case hostname of Inl _ \<Rightarrow> ''node'' | Inr h \<Rightarrow> if TrimSpace h = [] then ''node'' else h)
          in buildAutoDeviceName mode h accountID)"

section \<open>The normal form\<close>

fun single_dashes :: "string \<Rightarrow> bool" where
  "single_dashes (a # b # s) = (\<not> (a = CHR ''-'' \<and> b = CHR ''-'') \<and> single_dashes (b # s))"
| "single_dashes _ = True"

definition name_char :: "char \<Rightarrow> bool" where
  "name_char c = (is_lower c \<or> is_digit c \<or> c = CHR ''-'')"

definition dash_trimmed :: "string \<Rightarrow> bool" where
  "dash_trimmed s = (s \<noteq> [] \<longrightarrow> hd s \<noteq> CHR ''-'' \<and> last s \<noteq> CHR ''-'')"

text \<open>
  A device name: at most sixteen lower-case letters, digits and hyphens, not empty, no hyphen at
  either end and no two in a row.
\<close>

definition device_name :: "string \<Rightarrow> bool" where
  "device_name s = (s \<noteq> [] \<and> length s \<le> maxDeviceNameLen \<and> list_all name_char s \<and> dash_trimmed s \<and> single_dashes s)"

lemma single_dashes_append:
  "single_dashes (s @ t) \<longleftrightarrow> single_dashes s \<and> single_dashes t \<and>
     (s \<noteq> [] \<and> t \<noteq> [] \<longrightarrow> \<not> (last s = CHR ''-'' \<and> hd t = CHR ''-''))"
proof (induction s rule: single_dashes.induct [case_names step empty single])
  case (step a b s)
  then show ?case by auto
next
  case empty
  then show ?case by simp
next
  case (single v)
  then show ?case by (cases t) auto
qed

lemma dash_not_alnum [simp]: "\<not> letter_or_digit CHR ''-''"
  by (simp add: letter_or_digit_def is_upper_def is_lower_def is_digit_def)

text \<open>The invariant of the loop, apart from \<open>prevDash\<close>.\<close>

definition name_prefix :: "string \<Rightarrow> bool" where
  "name_prefix b = (list_all name_char b \<and> single_dashes b \<and> (b \<noteq> [] \<longrightarrow> hd b \<noteq> CHR ''-''))"

lemma name_prefix_snoc:
  assumes "name_prefix b" "name_char r" "r = CHR ''-'' \<longrightarrow> b \<noteq> [] \<and> last b \<noteq> CHR ''-''"
  shows "name_prefix (b @ [r])"
  using assms by (auto simp: name_prefix_def single_dashes_append hd_append)

lemma name_loop_spec:
  "list_all (\<lambda>c. \<not> is_upper c) s \<Longrightarrow> name_prefix b \<Longrightarrow> (prevDash \<longleftrightarrow> b \<noteq> [] \<and> last b = CHR ''-'') \<Longrightarrow>
     name_prefix (name_loop b prevDash s)"
proof (induction s arbitrary: b prevDash)
  case Nil
  then show ?case by simp
next
  case (Cons r s)
  show ?case
  proof (cases "letter_or_digit r")
    case True
    then have r: "name_char r" "r \<noteq> CHR ''-''"
      using Cons.prems(1) by (auto simp: letter_or_digit_def name_char_def is_upper_def is_lower_def is_digit_def)
    then have "name_prefix (b @ [r])" using Cons.prems(2) by (simp add: name_prefix_snoc)
    with True r Cons.prems(1) show ?thesis by (simp add: Cons.IH)
  next
    case False
    have "name_prefix (b @ ''-'')" if "\<not> prevDash" "b \<noteq> []"
      using that Cons.prems(2,3) by (intro name_prefix_snoc) (auto simp: name_char_def)
    with False Cons.prems show ?thesis by (auto simp: Cons.IH)
  qed
qed

lemma name_loop_id:
  assumes "list_all name_char s" "single_dashes (b @ s)" "b @ s \<noteq> []" "hd (b @ s) \<noteq> CHR ''-''"
    "prevDash \<longleftrightarrow> b \<noteq> [] \<and> last b = CHR ''-''"
  shows "name_loop b prevDash s = b @ s"
  using assms
proof (induction s arbitrary: b prevDash)
  case Nil
  then show ?case by simp
next
  case (Cons r s)
  show ?case
  proof (cases "r = CHR ''-''")
    case True
    then have b: "b \<noteq> []" "\<not> prevDash" using Cons.prems by (auto simp: single_dashes_append)
    have "name_loop (b @ ''-'') True s = (b @ ''-'') @ s"
      using Cons.prems True by (intro Cons.IH) auto
    with True b show ?thesis by simp
  next
    case False
    then have "letter_or_digit r" using Cons.prems(1) by (auto simp: name_char_def letter_or_digit_def)
    moreover have "name_loop (b @ [r]) False s = (b @ [r]) @ s"
      using Cons.prems False by (intro Cons.IH) auto
    ultimately show ?thesis by simp
  qed
qed

lemma trim_func_cases:
  obtains "trim_func p s = []" | "trim_func p s \<noteq> []" "\<not> p (hd (trim_func p s))" "\<not> p (last (trim_func p s))"
proof (cases "trim_func p s = []")
  case False
  have "\<not> p (last (trim_func p s))"
    using False by (metis hd_dropWhile last_rev rev_is_Nil_conv trim_func_def)
  moreover have "\<not> p (hd (trim_func p s))"
    using False dropWhile_rev_idem [of p s] by (metis hd_dropWhile trim_func_def)
  ultimately show ?thesis using False that by blast
qed (use that in blast)

lemma trim_func_split: "\<exists>l r. s = l @ trim_func p s @ r"
proof -
  have "s = takeWhile p s @ dropWhile p s" by simp
  moreover have "dropWhile p s = trim_func p s @ rev (takeWhile p (rev (dropWhile p s)))"
    unfolding trim_func_def by (metis rev_append rev_rev_ident takeWhile_dropWhile_id)
  ultimately show ?thesis by metis
qed

lemma Trim_dash:
  assumes "list_all name_char s" "single_dashes s"
  shows "list_all name_char (Trim s ''-'')" "single_dashes (Trim s ''-'')" "dash_trimmed (Trim s ''-'')"
    "length (Trim s ''-'') \<le> length s"
proof -
  obtain l r where s: "s = l @ Trim s ''-'' @ r" using trim_func_split unfolding Trim_def by blast
  then have "list_all name_char (l @ Trim s ''-'' @ r)" "single_dashes (l @ Trim s ''-'' @ r)"
    "length (Trim s ''-'') \<le> length s"
    using assms by (metis, metis, metis le_add1 le_add2 length_append order_trans)
  then show "list_all name_char (Trim s ''-'')" "single_dashes (Trim s ''-'')" "length (Trim s ''-'') \<le> length s"
    by (simp_all add: single_dashes_append)
  show "dash_trimmed (Trim s ''-'')"
    unfolding Trim_def dash_trimmed_def by (rule trim_func_cases [of "\<lambda>c. c \<in> set ''-''" s]) auto
qed

lemma device_name_node: "device_name ''node''"
  by code_simp

lemma or_node_ok:
  assumes "list_all name_char s" "single_dashes s" "dash_trimmed s"
  shows "list_all name_char (or_node s)" "single_dashes (or_node s)" "dash_trimmed (or_node s)" "or_node s \<noteq> []"
  using assms device_name_node by (auto simp: or_node_def device_name_def)

lemma lower_not_upper: "\<not> is_upper (lower_char c)"
  by (auto simp: lower_char_def is_upper_def)

lemma TrimSpace_set: "set (TrimSpace s) \<subseteq> set s"
  using trim_func_split [of s is_space] unfolding TrimSpace_def
  by (metis Un_iff set_append subsetI)

lemma normalizeDeviceName_device_name: "device_name (normalizeDeviceName raw)"
proof -
  let ?s = "TrimSpace (ToLower raw)"
  have "list_all (\<lambda>c. \<not> is_upper c) ?s"
    using TrimSpace_set [of "ToLower raw"] by (auto simp: list_all_iff ToLower_def lower_not_upper)
  then have "name_prefix (name_loop [] False ?s)" by (intro name_loop_spec) (auto simp: name_prefix_def)
  then have t: "list_all name_char (name_loop [] False ?s)" "single_dashes (name_loop [] False ?s)"
    by (simp_all add: name_prefix_def)
  define out where "out = or_node (Trim (name_loop [] False ?s) ''-'')"
  have o: "list_all name_char out" "single_dashes out" "dash_trimmed out" "out \<noteq> []"
    unfolding out_def using or_node_ok [OF Trim_dash(1-3) [OF t]] .
  let ?t = "Trim (take maxDeviceNameLen out) ''-''"
  have "list_all name_char (take maxDeviceNameLen out)" "single_dashes (take maxDeviceNameLen out)"
    using o(1,2) append_take_drop_id [of maxDeviceNameLen out]
    by (metis list_all_append, metis single_dashes_append)
  note tt = Trim_dash [OF this]
  have len: "length (or_node ?t) \<le> maxDeviceNameLen"
    using tt(4) by (auto simp: or_node_def maxDeviceNameLen_def)
  show ?thesis
  proof (cases "length out > maxDeviceNameLen")
    case True
    then have "normalizeDeviceName raw = or_node ?t" by (simp add: normalizeDeviceName_def out_def Let_def)
    with or_node_ok [OF tt(1-3)] len show ?thesis by (simp add: device_name_def)
  next
    case False
    then have "normalizeDeviceName raw = out" by (simp add: normalizeDeviceName_def out_def Let_def)
    with o False show ?thesis by (simp add: device_name_def)
  qed
qed

lemma name_char_facts:
  assumes "name_char c"
  shows "\<not> is_space c" "lower_char c = c"
  using assms by (auto simp: name_char_def is_space_def lower_char_def is_lower_def is_digit_def is_upper_def)

lemma normalizeDeviceName_fixed:
  assumes "device_name s"
  shows "normalizeDeviceName s = s"
proof -
  have s: "s \<noteq> []" "length s \<le> maxDeviceNameLen" "list_all name_char s" "dash_trimmed s" "single_dashes s"
    using assms by (auto simp: device_name_def)
  have "ToLower s = s"
    using s(3) by (auto simp: ToLower_def list_all_iff name_char_facts intro: map_idI)
  moreover have "TrimSpace s = s"
    unfolding TrimSpace_def using s(1,3) by (intro trim_func_id) (auto simp: list_all_iff name_char_facts)
  moreover have "name_loop [] False s = s"
    using s by (subst name_loop_id) (auto simp: dash_trimmed_def)
  moreover have "Trim s ''-'' = s"
    unfolding Trim_def using s(1,4) by (intro trim_func_id) (auto simp: dash_trimmed_def)
  ultimately show ?thesis using s(1,2) by (simp add: normalizeDeviceName_def or_node_def)
qed

interpretation device_names: normaliser "\<lambda>s. Inr (normalizeDeviceName s) :: (gerr, string) result" device_name
  by unfold_locales (auto simp: normalizeDeviceName_device_name normalizeDeviceName_fixed)

lemma accountIDSuffix_ok:
  "accountIDSuffix i \<noteq> [] \<and> length (accountIDSuffix i) \<le> 4 \<and> list_all name_char (accountIDSuffix i) \<and>
     CHR ''-'' \<notin> set (accountIDSuffix i)"
proof -
  let ?b = "filter letter_or_digit (ToLower (TrimSpace i))"
  define c where "c = (if ?b = [] then ''0000'' else ?b)"
  have ok: "letter_or_digit x \<and> \<not> is_upper x" if "x \<in> set c" for x
  proof (cases "?b = []")
    case True
    then have "x = CHR ''0''" using that by (simp add: c_def)
    then show ?thesis by (simp add: letter_or_digit_def is_upper_def is_lower_def is_digit_def)
  next
    case False
    then show ?thesis using that by (auto simp: c_def ToLower_def lower_not_upper)
  qed
  have c: "c \<noteq> []" by (simp add: c_def)
  have "accountIDSuffix i = (if length c > 4 then drop (length c - 4) c else c)"
    by (simp add: accountIDSuffix_def c_def Let_def)
  then have "set (accountIDSuffix i) \<subseteq> set c" "accountIDSuffix i \<noteq> []" "length (accountIDSuffix i) \<le> 4"
    using c by (auto dest: in_set_dropD)
  moreover have "name_char x \<and> x \<noteq> CHR ''-''" if "x \<in> set c" for x
    using ok [OF that] dash_not_alnum by (auto simp: letter_or_digit_def name_char_def)
  ultimately show ?thesis by (auto simp: list_all_iff)
qed

lemma single_dashes_Cons: "single_dashes (c # s) \<longleftrightarrow> single_dashes s \<and> (s \<noteq> [] \<longrightarrow> \<not> (c = CHR ''-'' \<and> hd s = CHR ''-''))"
  by (cases s) auto

lemma single_dashes_no_dash: "CHR ''-'' \<notin> set s \<Longrightarrow> single_dashes s"
  by (induction s rule: single_dashes.induct) auto

text \<open>The host part of a generated name: a device name cut to the room that is left, at least one character.\<close>

definition auto_host :: "string \<Rightarrow> nat \<Rightarrow> string" where
  "auto_host host m =
     (if length host > m then (let h = Trim (take m host) ''-'' in if h = [] then ''n'' else h) else host)"

lemma auto_host_ok:
  assumes "device_name host" "0 < m"
  shows "auto_host host m \<noteq> [] \<and> length (auto_host host m) \<le> m \<and> list_all name_char (auto_host host m) \<and>
    dash_trimmed (auto_host host m) \<and> single_dashes (auto_host host m)"
proof -
  have h: "host \<noteq> []" "list_all name_char host" "dash_trimmed host" "single_dashes host"
    using assms(1) by (auto simp: device_name_def)
  have "list_all name_char (take m host)" "single_dashes (take m host)"
    using h(2,4) append_take_drop_id [of m host] by (metis list_all_append, metis single_dashes_append)
  note t = Trim_dash [OF this]
  have n: "list_all name_char ''n'' \<and> dash_trimmed ''n'' \<and> single_dashes ''n''" by code_simp
  show ?thesis using h t n assms(2) by (auto simp: auto_host_def Let_def)
qed

section \<open>Properties\<close>

text \<open>
  whatever the user types, the registered name is at most sixteen lower-case letters, digits
  and single inner hyphens and is not empty, and a name in that form is registered as it is.
\<close>

theorem normalizeDeviceName_normal_form:
  "device_name (normalizeDeviceName raw) \<and> (device_name raw \<longleftrightarrow> normalizeDeviceName raw = raw)"
  using device_names.normal_iff_fixed [of raw] by (simp add: normalizeDeviceName_device_name)

text \<open>
  a generated name is \<open>p-\<close> or \<open>t-\<close>, a non-empty form of the host name and the account suffix,
  joined by hyphens: the length limit never cuts the suffix that tells two accounts of one
  host apart.
\<close>

theorem buildAutoDeviceName_keeps_suffix:
  "\<exists>host. host \<noteq> [] \<and>
     buildAutoDeviceName mode hostname accountID =
       (if mode = accountModeTeam then ''t'' else ''p'') @ ''-'' @ host @ ''-'' @ accountIDSuffix accountID \<and>
     device_name (buildAutoDeviceName mode hostname accountID)"
proof -
  let ?id = "accountIDSuffix accountID" and ?p = "if mode = accountModeTeam then ''t'' else ''p''"
  let ?m = "13 - length ?id"
  let ?h = "auto_host (normalizeDeviceName hostname) ?m"
  have i: "?id \<noteq> []" "length ?id \<le> 4" "list_all name_char ?id" "CHR ''-'' \<notin> set ?id"
    using accountIDSuffix_ok by auto
  have h: "?h \<noteq> []" "length ?h \<le> ?m" "list_all name_char ?h" "dash_trimmed ?h" "single_dashes ?h"
    using auto_host_ok [OF normalizeDeviceName_device_name, of ?m] i(2) by auto
  have "hd ?id \<noteq> CHR ''-''" "last ?id \<noteq> CHR ''-''" using i(1,4) by (metis hd_in_set, metis last_in_set)
  then have "device_name (?p @ ''-'' @ ?h @ ''-'' @ ?id)"
    using i h single_dashes_no_dash [OF i(4)]
    by (auto simp: device_name_def maxDeviceNameLen_def single_dashes_append single_dashes_Cons dash_trimmed_def name_char_def
        is_lower_def)
  moreover have room: "nat (13 - int (length ?id)) = ?m" "13 - int (length ?id) < int l \<longleftrightarrow> ?m < l" for l
    using i(2) by auto
  moreover have "buildAutoDeviceName mode hostname accountID =
      normalizeDeviceName (?p @ ''-'' @ ?h @ ''-'' @ ?id)"
    using i(2) room by (simp add: buildAutoDeviceName_def auto_host_def maxDeviceNameLen_def Let_def)
  ultimately show ?thesis using h(1) normalizeDeviceName_fixed by metis
qed

end
