(* ===== verification/Api_Models.thy ===== *)
theory Api_Models
  imports Go_Json
begin

text \<open>
  The documents exchanged with the registration service: \<open>src/models/register.go\<close>,
  \<open>src/models/deviceupdate.go\<close> and \<open>src/models/apierror.go\<close>. A struct that is sent has an encoder
  (\<open>_doc\<close>), a struct that is received the list of its field decoders (\<open>_fields\<close>).
\<close>

section \<open>Documents\<close>

record Registration =
  rg_Key :: string
  rg_InstallID :: string
  rg_FcmToken :: string
  rg_Tos :: string
  rg_Model :: string
  rg_Serial :: string
  rg_OsVersion :: string
  rg_KeyType :: string
  rg_TunType :: string
  rg_Locale :: string

definition registration_doc :: "Registration \<Rightarrow> json" where
  "registration_doc r = JObj
     [''key'' \<mapsto> JStr (rg_Key r), ''install_id'' \<mapsto> JStr (rg_InstallID r), ''fcm_token'' \<mapsto> JStr (rg_FcmToken r),
      ''tos'' \<mapsto> JStr (rg_Tos r), ''model'' \<mapsto> JStr (rg_Model r), ''serial_number'' \<mapsto> JStr (rg_Serial r),
      ''os_version'' \<mapsto> JStr (rg_OsVersion r), ''key_type'' \<mapsto> JStr (rg_KeyType r),
      ''tunnel_type'' \<mapsto> JStr (rg_TunType r), ''locale'' \<mapsto> JStr (rg_Locale r)]"

record DeviceUpdate =
  du_Key :: string
  du_KeyType :: string
  du_TunType :: string
  du_Name :: string

definition device_update_doc :: "DeviceUpdate \<Rightarrow> json" where
  "device_update_doc d = JObj
     ([''key'' \<mapsto> JStr (du_Key d), ''key_type'' \<mapsto> JStr (du_KeyType d), ''tunnel_type'' \<mapsto> JStr (du_TunType d)]
      ++ (if du_Name d = [] then Map.empty else [''name'' \<mapsto> JStr (du_Name d)]))"

record Account =
  ac_ID :: string
  ac_AccountType :: string
  ac_Created :: string
  ac_Updated :: string
  ac_Managed :: string
  ac_Organization :: string
  ac_PremiumData :: int
  ac_Quota :: int
  ac_WarpPlus :: bool
  ac_ReferralCount :: int
  ac_ReferralRenewalCount :: int
  ac_Role :: string
  ac_License :: string

definition zeroAccount :: Account where
  "zeroAccount =
     \<lparr>ac_ID = [], ac_AccountType = [], ac_Created = [], ac_Updated = [], ac_Managed = [], ac_Organization = [],
      ac_PremiumData = 0, ac_Quota = 0, ac_WarpPlus = False, ac_ReferralCount = 0, ac_ReferralRenewalCount = 0,
      ac_Role = [], ac_License = []\<rparr>"

definition account_fields :: "((string \<rightharpoonup> json) \<Rightarrow> Account \<Rightarrow> (gerr, Account) result) list" where
  "account_fields =
     [field dec_string ''id'' ac_ID ac_ID_update,
      field dec_string ''account_type'' ac_AccountType ac_AccountType_update,
      field dec_string ''created'' ac_Created ac_Created_update,
      field dec_string ''updated'' ac_Updated ac_Updated_update,
      field dec_string ''managed'' ac_Managed ac_Managed_update,
      field dec_string ''organization'' ac_Organization ac_Organization_update,
      field dec_int ''premium_data'' ac_PremiumData ac_PremiumData_update,
      field dec_int ''quota'' ac_Quota ac_Quota_update,
      field dec_bool ''warp_plus'' ac_WarpPlus ac_WarpPlus_update,
      field dec_int ''referral_count'' ac_ReferralCount ac_ReferralCount_update,
      field dec_int ''referral_renewal_countdown'' ac_ReferralRenewalCount ac_ReferralRenewalCount_update,
      field dec_string ''role'' ac_Role ac_Role_update,
      field dec_string ''license'' ac_License ac_License_update]"

record PeerEndpoint =
  ep_V4 :: string
  ep_V6 :: string
  ep_Host :: string
  ep_Ports :: "int list option"

record Peer =
  pr_PublicKey :: string
  pr_Endpoint :: PeerEndpoint

record Addresses =
  ad4_V4 :: string
  ad6_V6 :: string

record Interface =
  if_Addresses :: Addresses

record Services =
  sv_HTTPProxy :: string

record DeviceConfig =
  dc_ClientID :: string
  dc_Peers :: "Peer list option"
  dc_Interface :: Interface
  dc_Services :: Services

record Policy =
  po_TunnelProtocol :: string

definition zeroPeer :: Peer where
  "zeroPeer = \<lparr>pr_PublicKey = [], pr_Endpoint = \<lparr>ep_V4 = [], ep_V6 = [], ep_Host = [], ep_Ports = None\<rparr>\<rparr>"

definition zeroDeviceConfig :: DeviceConfig where
  "zeroDeviceConfig =
     \<lparr>dc_ClientID = [], dc_Peers = None, dc_Interface = \<lparr>if_Addresses = \<lparr>ad4_V4 = [], ad6_V6 = []\<rparr>\<rparr>,
      dc_Services = \<lparr>sv_HTTPProxy = []\<rparr>\<rparr>"

text \<open>
  Decoding an array into a slice: an element with an index the slice already has is decoded
  into the old element, the others into a zero one; the slice takes the array's length.
\<close>

fun dec_over :: "'a \<Rightarrow> 'a decoder \<Rightarrow> 'a list \<Rightarrow> json list \<Rightarrow> (gerr, 'a list) result" where
  "dec_over z f old [] = Inr []"
| "dec_over z f [] (j # js) = bind_res (f j z) (\<lambda>x. bind_res (dec_over z f [] js) (\<lambda>xs. Inr (x # xs)))"
| "dec_over z f (a # as) (j # js) = bind_res (f j a) (\<lambda>x. bind_res (dec_over z f as js) (\<lambda>xs. Inr (x # xs)))"

fun dec_slice_over :: "'a \<Rightarrow> 'a decoder \<Rightarrow> 'a list option decoder" where
  "dec_slice_over z f JNull d = Inr None"
| "dec_slice_over z f (JArr js) d =
     bind_res (dec_over z f (case d of None \<Rightarrow> [] | Some xs \<Rightarrow> xs) js) (\<lambda>xs. Inr (Some xs))"
| "dec_slice_over z f _ d = Inl (json_type_error ''slice'')"

definition peer_endpoint_fields :: "((string \<rightharpoonup> json) \<Rightarrow> PeerEndpoint \<Rightarrow> (gerr, PeerEndpoint) result) list" where
  "peer_endpoint_fields =
     [field dec_string ''v4'' ep_V4 ep_V4_update,
      field dec_string ''v6'' ep_V6 ep_V6_update,
      field dec_string ''host'' ep_Host ep_Host_update,
      field (dec_slice_over 0 dec_int) ''ports'' ep_Ports ep_Ports_update]"

definition peer_fields :: "((string \<rightharpoonup> json) \<Rightarrow> Peer \<Rightarrow> (gerr, Peer) result) list" where
  "peer_fields =
     [field dec_string ''public_key'' pr_PublicKey pr_PublicKey_update,
      field (dec_struct peer_endpoint_fields) ''endpoint'' pr_Endpoint pr_Endpoint_update]"

definition addresses_fields :: "((string \<rightharpoonup> json) \<Rightarrow> Addresses \<Rightarrow> (gerr, Addresses) result) list" where
  "addresses_fields =
     [field dec_string ''v4'' ad4_V4 ad4_V4_update,
      field dec_string ''v6'' ad6_V6 ad6_V6_update]"

definition device_config_fields :: "((string \<rightharpoonup> json) \<Rightarrow> DeviceConfig \<Rightarrow> (gerr, DeviceConfig) result) list" where
  "device_config_fields =
     [field dec_string ''client_id'' dc_ClientID dc_ClientID_update,
      field (dec_slice_over zeroPeer (dec_struct peer_fields)) ''peers'' dc_Peers dc_Peers_update,
      field (dec_struct [field (dec_struct addresses_fields) ''addresses'' if_Addresses if_Addresses_update])
        ''interface'' dc_Interface dc_Interface_update,
      field (dec_struct [field dec_string ''http_proxy'' sv_HTTPProxy sv_HTTPProxy_update])
        ''services'' dc_Services dc_Services_update]"

record AccountData =
  ad_ID :: string
  ad_Type :: string
  ad_Model :: string
  ad_Name :: string
  ad_Key :: string
  ad_KeyType :: string
  ad_TunType :: string
  ad_Account :: Account
  ad_Config :: DeviceConfig
  ad_WarpEnabled :: bool
  ad_Waitlist :: bool
  ad_Created :: string
  ad_Updated :: string
  ad_Tos :: string
  ad_Place :: int
  ad_Locale :: string
  ad_Enabled :: bool
  ad_InstallID :: string
  ad_Token :: string
  ad_FcmToken :: string
  ad_SerialNumber :: string
  ad_Policy :: Policy

definition zeroAccountData :: AccountData where
  "zeroAccountData =
     \<lparr>ad_ID = [], ad_Type = [], ad_Model = [], ad_Name = [], ad_Key = [], ad_KeyType = [], ad_TunType = [],
      ad_Account = zeroAccount, ad_Config = zeroDeviceConfig, ad_WarpEnabled = False, ad_Waitlist = False,
      ad_Created = [], ad_Updated = [], ad_Tos = [], ad_Place = 0, ad_Locale = [], ad_Enabled = False,
      ad_InstallID = [], ad_Token = [], ad_FcmToken = [], ad_SerialNumber = [],
      ad_Policy = \<lparr>po_TunnelProtocol = []\<rparr>\<rparr>"

definition account_data_fields :: "((string \<rightharpoonup> json) \<Rightarrow> AccountData \<Rightarrow> (gerr, AccountData) result) list" where
  "account_data_fields =
     [field dec_string ''id'' ad_ID ad_ID_update,
      field dec_string ''type'' ad_Type ad_Type_update,
      field dec_string ''model'' ad_Model ad_Model_update,
      field dec_string ''name'' ad_Name ad_Name_update,
      field dec_string ''key'' ad_Key ad_Key_update,
      field dec_string ''key_type'' ad_KeyType ad_KeyType_update,
      field dec_string ''tunnel_type'' ad_TunType ad_TunType_update,
      field (dec_struct account_fields) ''account'' ad_Account ad_Account_update,
      field (dec_struct device_config_fields) ''config'' ad_Config ad_Config_update,
      field dec_bool ''warp_enabled'' ad_WarpEnabled ad_WarpEnabled_update,
      field dec_bool ''waitlist_enabled'' ad_Waitlist ad_Waitlist_update,
      field dec_string ''created'' ad_Created ad_Created_update,
      field dec_string ''updated'' ad_Updated ad_Updated_update,
      field dec_string ''tos'' ad_Tos ad_Tos_update,
      field dec_int ''place'' ad_Place ad_Place_update,
      field dec_string ''locale'' ad_Locale ad_Locale_update,
      field dec_bool ''enabled'' ad_Enabled ad_Enabled_update,
      field dec_string ''install_id'' ad_InstallID ad_InstallID_update,
      field dec_string ''token'' ad_Token ad_Token_update,
      field dec_string ''fcm_token'' ad_FcmToken ad_FcmToken_update,
      field dec_string ''serial_number'' ad_SerialNumber ad_SerialNumber_update,
      field (dec_struct [field dec_string ''tunnel_protocol'' po_TunnelProtocol po_TunnelProtocol_update])
        ''policy'' ad_Policy ad_Policy_update]"

section \<open>API errors\<close>

record ErrorInfo =
  err_Code :: int
  err_Message :: string

text \<open>\<open>Result\<close> is an \<open>interface{}\<close>: the decoded value, nil (\<open>None\<close>) for an absent member or a \<open>null\<close>.\<close>

record APIError =
  api_Result :: "json option"
  api_Success :: bool
  api_Errors :: "ErrorInfo list option"
  api_Messages :: "string list option"

abbreviation slice_list :: "'a list option \<Rightarrow> 'a list" where
  "slice_list xs \<equiv> (case xs of None \<Rightarrow> [] | Some ys \<Rightarrow> ys)"

definition InvalidPublicKey :: string where "InvalidPublicKey = ''Invalid public key''"

definition ErrorsAsString :: "string \<Rightarrow> APIError \<Rightarrow> string" where
  "ErrorsAsString separator e =
     (let result = fold (\<lambda>err acc. acc @ err_Message err @ separator) (slice_list (api_Errors e)) []
      in if length result > 0 then take (length result - length separator) result else result)"

definition HasErrorMessage :: "string \<Rightarrow> APIError \<Rightarrow> bool" where
  "HasErrorMessage message e = list_ex (\<lambda>err. err_Message err = message) (slice_list (api_Errors e))"

fun dec_any :: "json option decoder" where
  "dec_any JNull d = Inr None"
| "dec_any j d = Inr (Some j)"

definition error_info_fields :: "((string \<rightharpoonup> json) \<Rightarrow> ErrorInfo \<Rightarrow> (gerr, ErrorInfo) result) list" where
  "error_info_fields =
     [field dec_int ''code'' err_Code err_Code_update,
      field dec_string ''message'' err_Message err_Message_update]"

definition api_error_fields :: "((string \<rightharpoonup> json) \<Rightarrow> APIError \<Rightarrow> (gerr, APIError) result) list" where
  "api_error_fields =
     [field dec_any ''result'' api_Result api_Result_update,
      field dec_bool ''success'' api_Success api_Success_update,
      field (dec_slice_over \<lparr>err_Code = 0, err_Message = []\<rparr> (dec_struct error_info_fields))
        ''errors'' api_Errors api_Errors_update,
      field (dec_slice_over [] dec_string) ''messages'' api_Messages api_Messages_update]"

definition zeroAPIError :: APIError where
  "zeroAPIError = \<lparr>api_Result = None, api_Success = False, api_Errors = None, api_Messages = None\<rparr>"

section \<open>Lemmas\<close>

lemma foldl_fields_Inl: "foldl (\<lambda>acc f. bind_res acc (f ms)) (Inl e) fs = Inl e"
  by (induction fs) simp_all

text \<open>A struct decoder leaves alone whatever each of its field decoders leaves alone.\<close>

lemma dec_fields_keep:
  assumes "\<forall>f \<in> set fs. \<forall>r r'. f ms r = Inr r' \<longrightarrow> g r' = g r"
    "foldl (\<lambda>acc f. bind_res acc (f ms)) (Inr r) fs = Inr r'"
  shows "g r' = g r"
  using assms
proof (induction fs arbitrary: r)
  case Nil
  then show ?case by simp
next
  case (Cons f fs)
  then show ?case
  proof (cases "f ms r")
    case (Inl e)
    with Cons.prems show ?thesis by (simp add: foldl_fields_Inl)
  next
    case (Inr r1)
    with Cons show ?thesis by force
  qed
qed

lemma field_keep:
  assumes "\<And>h x. g (upd h x) = g x \<or> ms tag = None" "field f tag get upd ms r = Inr r'"
  shows "g r' = g r"
  using assms by (auto simp: field_def bind_res_eq_Inr split: option.splits)

lemma fold_append_messages:
  "fold (\<lambda>err acc. acc @ err_Message err @ sep) es a = a @ concat (map (\<lambda>e. err_Message e @ sep) es)"
  by (induction es arbitrary: a) auto

section \<open>Properties\<close>

text \<open>
  \<open>ErrorsAsString\<close> is the error messages joined by the separator, with no trailing separator.
\<close>

theorem ErrorsAsString_join:
  "ErrorsAsString sep e =
     concat (map (\<lambda>err. err_Message err @ sep) (butlast (slice_list (api_Errors e)))) @
     (if slice_list (api_Errors e) = [] then [] else err_Message (last (slice_list (api_Errors e))))"
proof (cases "slice_list (api_Errors e)" rule: rev_cases)
  case Nil
  then show ?thesis by (simp add: ErrorsAsString_def)
next
  case (snoc es x)
  then show ?thesis by (auto simp: ErrorsAsString_def Let_def fold_append_messages)
qed

end
