(* ===== verification/Go_Base64.thy ===== *)
theory Go_Base64
  imports Go_Netip
begin

text \<open>
  \<open>encoding/hex\<close> and \<open>encoding/base64.StdEncoding\<close> on byte strings. Bytes are \<open>8 word\<close>; the
  encoder writes four characters for each group of three bytes and pads the last group with
  \<open>=\<close>; the decoder skips the line breaks Go skips (\<open>\n\<close> and \<open>\r\<close>), takes the padding only
  at the end and, as \<open>StdEncoding\<close> is not strict, ignores the unused low bits of the last
  character.
\<close>

section \<open>Bytes\<close>

type_synonym byte = "8 word"

abbreviation byte_nat :: "byte \<Rightarrow> nat" where "byte_nat b \<equiv> unat b"

definition nat_byte :: "nat \<Rightarrow> byte" where
  "nat_byte n = of_nat n"

section \<open>Hexadecimal\<close>

definition hex_EncodeToString :: "byte list \<Rightarrow> string" where
  "hex_EncodeToString bs = concat (map (\<lambda>b. [hex_char (byte_nat b div 16), hex_char (byte_nat b mod 16)]) bs)"

fun hex_DecodeString :: "string \<Rightarrow> byte list option" where
  "hex_DecodeString [] = Some []"
| "hex_DecodeString [c] = None"
| "hex_DecodeString (a # b # s) =
     (case (hex_val a, hex_val b, hex_DecodeString s) of
        (Some x, Some y, Some bs) \<Rightarrow> Some (nat_byte (16 * x + y) # bs)
      | _ \<Rightarrow> None)"

section \<open>Base64\<close>

definition b64_char :: "nat \<Rightarrow> char" where
  "b64_char n =
     (if n < 26 then char_of (65 + n)
      else if n < 52 then char_of (71 + n)
      else if n < 62 then char_of (n - 4)
      else if n = 62 then CHR ''+'' else CHR ''/'')"

definition b64_val :: "char \<Rightarrow> nat option" where
  "b64_val c =
     (if is_upper c then Some (code c - 65)
      else if is_lower c then Some (code c - 71)
      else if is_digit c then Some (code c + 4)
      else if c = CHR ''+'' then Some 62
      else if c = CHR ''/'' then Some 63
      else None)"

fun b64_encode :: "byte list \<Rightarrow> string" where
  "b64_encode [] = []"
| "b64_encode [a] =
     [b64_char (unat a div 4), b64_char (unat a mod 4 * 16), CHR ''='', CHR ''='']"
| "b64_encode [a, b] =
     [b64_char (unat a div 4), b64_char (unat a mod 4 * 16 + unat b div 16),
      b64_char (unat b mod 16 * 4), CHR ''='']"
| "b64_encode (a # b # c # bs) =
     b64_char (unat a div 4) # b64_char (unat a mod 4 * 16 + unat b div 16) #
     b64_char (unat b mod 16 * 4 + unat c div 64) # b64_char (unat c mod 64) # b64_encode bs"

fun b64_quads :: "string \<Rightarrow> byte list option" where
  "b64_quads [] = Some []"
| "b64_quads [p, q, r, s] =
     (if s = CHR ''='' then
        (if r = CHR ''='' then
           (case (b64_val p, b64_val q) of
              (Some i, Some j) \<Rightarrow> Some [nat_byte (i * 4 + j div 16)]
            | _ \<Rightarrow> None)
         else
           (case (b64_val p, b64_val q, b64_val r) of
              (Some i, Some j, Some k) \<Rightarrow>
                Some [nat_byte (i * 4 + j div 16), nat_byte (j mod 16 * 16 + k div 4)]
            | _ \<Rightarrow> None))
      else
        (case (b64_val p, b64_val q, b64_val r, b64_val s) of
           (Some i, Some j, Some k, Some l) \<Rightarrow>
             Some [nat_byte (i * 4 + j div 16), nat_byte (j mod 16 * 16 + k div 4), nat_byte (k mod 4 * 64 + l)]
         | _ \<Rightarrow> None))"
| "b64_quads (p # q # r # s # u # cs) =
     (case (b64_val p, b64_val q, b64_val r, b64_val s, b64_quads (u # cs)) of
        (Some i, Some j, Some k, Some l, Some bs) \<Rightarrow>
          Some (nat_byte (i * 4 + j div 16) # nat_byte (j mod 16 * 16 + k div 4) #
                nat_byte (k mod 4 * 64 + l) # bs)
      | _ \<Rightarrow> None)"
| "b64_quads _ = None"

definition is_newline :: "char \<Rightarrow> bool" where
  "is_newline c = (code c = 10 \<or> code c = 13)"

definition b64_decode :: "string \<Rightarrow> byte list option" where
  "b64_decode s = b64_quads (filter (\<lambda>c. \<not> is_newline c) s)"

section \<open>Round trips\<close>

lemma byte_lt [simp]: "unat (b :: byte) < 256"
  using unsigned_less [of b] by simp

lemma nat_byte_unat [simp]: "nat_byte (unat b) = b"
  by (simp add: nat_byte_def)

lemma hex_val_char [simp]: "n < 16 \<Longrightarrow> hex_val (hex_char n) = Some n"
  by (auto simp: hex_val_def hex_char_def is_digit_def digit_char_def digit_val_def)

lemma byte_div_mod: "nat_byte (16 * (unat b div 16) + unat b mod 16) = b"
  by simp

lemma hex_roundtrip: "hex_DecodeString (hex_EncodeToString bs) = Some bs"
proof (induction bs)
  case Nil
  then show ?case by (simp add: hex_EncodeToString_def)
next
  case (Cons b bs)
  have "unat b div 16 < 16" using byte_lt [of b] by linarith
  with Cons byte_div_mod [of b] show ?case by (simp add: hex_EncodeToString_def)
qed

lemma length_hex [simp]: "length (hex_EncodeToString bs) = 2 * length bs"
  by (induction bs) (simp_all add: hex_EncodeToString_def)

lemma b64_val_char [simp]: "n < 64 \<Longrightarrow> b64_val (b64_char n) = Some n"
  by (auto simp: b64_val_def b64_char_def is_upper_def is_lower_def is_digit_def)

lemma b64_char_code: "n < 64 \<Longrightarrow> code (b64_char n) \<noteq> 61 \<and> 32 < code (b64_char n)"
  by (auto simp: b64_char_def)

lemma b64_char_not_pad [simp]: "n < 64 \<Longrightarrow> b64_char n \<noteq> CHR ''=''"
  using b64_char_code [of n] by auto

lemma b64_char_not_newline [simp]: "n < 64 \<Longrightarrow> \<not> is_newline (b64_char n)"
  using b64_char_code [of n] by (auto simp: is_newline_def)

lemma b64_pad_not_newline [simp]: "\<not> is_newline (CHR ''='')"
  by (simp add: is_newline_def)

lemma b64_ranges [simp]:
  fixes a b c :: byte
  shows "unat a div 4 < 64" "unat a mod 4 * 16 < 64" "unat a mod 4 * 16 + unat b div 16 < 64"
    "unat b mod 16 * 4 < 64" "unat b mod 16 * 4 + unat c div 64 < 64" "unat c mod 64 < 64"
proof -
  have "unat a < 256" "unat b < 256" "unat c < 256" by simp_all
  then show "unat a div 4 < 64" "unat a mod 4 * 16 < 64" "unat a mod 4 * 16 + unat b div 16 < 64"
    "unat b mod 16 * 4 < 64" "unat b mod 16 * 4 + unat c div 64 < 64" "unat c mod 64 < 64"
    by linarith+
qed

lemma byte_div16: "unat (b :: byte) div 16 < 16"
  using byte_lt [of b] by linarith

lemma byte_div64: "unat (c :: byte) div 64 < 4"
  using byte_lt [of c] by linarith

lemma b64_join1 [simp]: "nat_byte (unat a div 4 * 4 + (unat a mod 4 * 16) div 16) = a"
  by simp

lemma b64_join1b: "nat_byte (unat a div 4 * 4 + (unat a mod 4 * 16 + unat (b :: byte) div 16) div 16) = a"
proof -
  have "(unat a mod 4 * 16 + unat b div 16) div 16 = unat a mod 4"
    using byte_lt [of b] by linarith
  then show ?thesis by simp
qed

lemma b64_join2: "nat_byte ((unat (a :: byte) mod 4 * 16 + unat b div 16) mod 16 * 16 + (unat b mod 16 * 4) div 4) = b"
proof -
  have "(unat a mod 4 * 16 + unat b div 16) mod 16 = unat b div 16"
    using byte_div16 [of b] by simp
  then show ?thesis by simp
qed

lemma b64_join2b: "nat_byte ((unat (a :: byte) mod 4 * 16 + unat b div 16) mod 16 * 16 +
    (unat b mod 16 * 4 + unat (c :: byte) div 64) div 4) = b"
proof -
  have "(unat a mod 4 * 16 + unat b div 16) mod 16 = unat b div 16"
    "(unat b mod 16 * 4 + unat c div 64) div 4 = unat b mod 16"
    using byte_div16 [of b] byte_div64 [of c] by simp_all
  then show ?thesis by simp
qed

lemma b64_join3: "nat_byte ((unat (b :: byte) mod 16 * 4 + unat c div 64) mod 4 * 64 + unat c mod 64) = c"
proof -
  have "(unat b mod 16 * 4 + unat c div 64) mod 4 = unat c div 64"
    using byte_div64 [of c] by simp
  then show ?thesis by simp
qed

lemmas b64_join = b64_join1b b64_join2 b64_join2b b64_join3

lemma b64_encode_Nil [simp]: "b64_encode bs = [] \<longleftrightarrow> bs = []"
  by (cases bs rule: b64_encode.cases) simp_all

lemma b64_quads_append:
  assumes "cs \<noteq> []"
  shows "b64_quads (p # q # r # s # cs) =
     (case (b64_val p, b64_val q, b64_val r, b64_val s, b64_quads cs) of
        (Some i, Some j, Some k, Some l, Some bs) \<Rightarrow>
          Some (nat_byte (i * 4 + j div 16) # nat_byte (j mod 16 * 16 + k div 4) #
                nat_byte (k mod 4 * 64 + l) # bs)
      | _ \<Rightarrow> None)"
  using assms by (cases cs) simp_all

lemma b64_quads_encode: "b64_quads (b64_encode bs) = Some bs"
proof (induction bs rule: b64_encode.induct)
  case (4 a b c bs)
  show ?case
  proof (cases "bs = []")
    case True
    then show ?thesis by (simp add: b64_join byte_div16 byte_div64)
  next
    case False
    with 4 show ?thesis by (simp add: b64_quads_append b64_join byte_div16 byte_div64)
  qed
qed (simp_all add: b64_join byte_div16 byte_div64)

lemma b64_encode_no_newline: "list_all (\<lambda>c. \<not> is_newline c) (b64_encode bs)"
  by (induction bs rule: b64_encode.induct) simp_all

lemma b64_roundtrip: "b64_decode (b64_encode bs) = Some bs"
proof -
  have "filter (\<lambda>c. \<not> is_newline c) (b64_encode bs) = b64_encode bs"
    using b64_encode_no_newline [of bs] by (simp add: list_all_iff)
  then show ?thesis by (simp add: b64_decode_def b64_quads_encode)
qed

lemma length_b64_encode: "length (b64_encode bs) = 4 * ((length bs + 2) div 3)"
proof (induction bs rule: b64_encode.induct)
  case (4 a b c bs)
  have "(length (a # b # c # bs) + 2) div 3 = Suc ((length bs + 2) div 3)" by simp
  with 4 show ?case by simp
qed simp_all

lemma b64_encode_inj: "b64_encode xs = b64_encode ys \<Longrightarrow> xs = ys"
  by (metis b64_quads_encode option.inject)

lemma b64_encode_not_space: "c \<in> set (b64_encode bs) \<Longrightarrow> \<not> is_space c"
proof (induction bs rule: b64_encode.induct)
  case (2 a)
  then show ?case using b64_char_code [of "unat a div 4"] b64_char_code [of "unat a mod 4 * 16"]
    by (auto simp: is_space_def)
next
  case (3 a b)
  then show ?case
    using b64_char_code [of "unat a div 4"] b64_char_code [of "unat a mod 4 * 16 + unat b div 16"]
      b64_char_code [of "unat b mod 16 * 4"]
    by (auto simp: is_space_def)
next
  case (4 a b c bs)
  then show ?case
    using b64_char_code [of "unat a div 4"] b64_char_code [of "unat a mod 4 * 16 + unat b div 16"]
      b64_char_code [of "unat b mod 16 * 4 + unat c div 64"] b64_char_code [of "unat c mod 64"]
    by (auto simp: is_space_def)
qed simp

end
