(* ===== verification/Cloudflare_Api.thy ===== *)
theory Cloudflare_Api
  imports Api_Models Go_Base64 Tunnel_Log
begin

text \<open>
  The client of the registration service: \<open>src/api/cloudflare.go\<close>, \<open>src/api/wireguard.go\<close>,
  \<open>src/internal/consts.go\<close> and the random identifiers of \<open>src/internal/utils.go\<close>.

  The HTTP client with the service behind it is the record \<open>http\<close> over a state of its own: \<open>ht_parse\<close>
  is the verdict of \<open>http.NewRequest\<close> on a URL, \<open>ht_do\<close> answers a request and may change the state,
  \<open>ht_text\<close> is the text of the errors other packages define. Random bytes, the line typed at the
  prompt and the time are arguments. A request carries its JSON document; a response body is
  what reading it yields. \<open>json.Marshal\<close> of the structs sent here has no error branch.
\<close>

section \<open>Constants\<close>

definition ApiUrl :: string where "ApiUrl = ''https://api.cloudflareclient.com''"
definition ApiVersion :: string where "ApiVersion = ''v0a4471''"
definition ConnectSNI :: string where "ConnectSNI = ''consumer-masque.cloudflareclient.com''"
definition L4ConnectSNI :: string where "L4ConnectSNI = ''consumer-masque-proxy.cloudflareclient.com''"
definition ConnectURI :: string where "ConnectURI = ''https://cloudflareaccess.com''"
definition DefaultModel :: string where "DefaultModel = ''PC''"
definition KeyTypeWg :: string where "KeyTypeWg = ''curve25519''"
definition TunTypeWg :: string where "TunTypeWg = ''wireguard''"
definition KeyTypeMasque :: string where "KeyTypeMasque = ''secp256r1''"
definition TunTypeMasque :: string where "TunTypeMasque = ''masque''"
definition DefaultLocale :: string where "DefaultLocale = ''en_US''"

definition Headers :: "(string \<times> string) list" where
  "Headers =
     [(''User-Agent'', ''WARP for Android''),
      (''CF-Client-Version'', ''a-6.35-4471''),
      (''Content-Type'', ''application/json; charset=UTF-8''),
      (''Connection'', ''Keep-Alive'')]"

section \<open>HTTP\<close>

text \<open>
  \<open>Header.Set\<close> stores under the canonical key: a letter at the start and after a hyphen is upper
  case, the others are lower case (every key used here is a valid token).
\<close>

definition upper_char :: "char \<Rightarrow> char" where
  "upper_char c = (if is_lower c then char_of (code c - 32) else c)"

fun canonical_from :: "bool \<Rightarrow> string \<Rightarrow> string" where
  "canonical_from up [] = []"
| "canonical_from up (c # s) = (if up then upper_char c else lower_char c) # canonical_from (c = CHR ''-'') s"

definition header_Set :: "string \<Rightarrow> string \<Rightarrow> (string \<rightharpoonup> string) \<Rightarrow> (string \<rightharpoonup> string)" where
  "header_Set k v h = h(canonical_from True k \<mapsto> v)"

record request =
  rq_method :: string
  rq_url :: string
  rq_header :: "string \<rightharpoonup> string"
  rq_body :: "json option"

text \<open>
  A response body: a JSON text, a JSON value with more bytes (\<open>None\<close>) or a read error (\<open>Some\<close>)
  after it, other bytes, or a read error before any value is complete.
\<close>

datatype body = BodyJson json | BodyThen json "gerr option" | BodyOther string | BodyFails gerr

record response =
  rs_StatusCode :: int
  rs_Status :: string
  rs_Body :: body

record 's http =
  ht_text :: "gerr \<Rightarrow> string"
  ht_parse :: "string \<Rightarrow> gerr option"
  ht_do :: "request \<Rightarrow> 's \<Rightarrow> 's \<times> (gerr, response) result"

definition json_syntax_error :: gerr where
  "json_syntax_error = EText ''invalid character''"

text \<open>\<open>io.ReadAll(resp.Body)\<close>.\<close>

fun ReadAll :: "body \<Rightarrow> (gerr, content) result" where
  "ReadAll (BodyJson j) = Inr (JsonText j)"
| "ReadAll (BodyThen j None) = Inr (OtherText [])"
| "ReadAll (BodyThen j (Some e)) = Inl e"
| "ReadAll (BodyOther s) = Inr (OtherText s)"
| "ReadAll (BodyFails e) = Inl e"

text \<open>\<open>json.Unmarshal\<close> of read bytes and \<open>json.NewDecoder(resp.Body).Decode\<close>.\<close>

fun Unmarshal :: "'a decoder \<Rightarrow> content \<Rightarrow> 'a \<Rightarrow> (gerr, 'a) result" where
  "Unmarshal f (JsonText j) d = f j d"
| "Unmarshal f (OtherText s) d = Inl json_syntax_error"

fun Decode :: "'a decoder \<Rightarrow> body \<Rightarrow> 'a \<Rightarrow> (gerr, 'a) result" where
  "Decode f (BodyJson j) d = f j d"
| "Decode f (BodyThen j e) d = f j d"
| "Decode f (BodyOther s) d = Inl json_syntax_error"
| "Decode f (BodyFails e) d = Inl e"

definition parseAPIError :: "content \<Rightarrow> APIError option" where
  "parseAPIError body =
     (case Unmarshal (dec_struct api_error_fields) body zeroAPIError of
        Inl _ \<Rightarrow> None
      | Inr apiErr \<Rightarrow>
          if length (slice_list (api_Errors apiErr)) = 0 \<and> length (slice_list (api_Messages apiErr)) = 0
             \<and> api_Result apiErr = None
          then None else Some apiErr)"

section \<open>Random identifiers and the time stamp\<close>

definition GenerateRandomAndroidSerial :: "(gerr, byte list) result \<Rightarrow> (gerr, string) result" where
  "GenerateRandomAndroidSerial rnd = bind_res rnd (\<lambda>serial. Inr (hex_EncodeToString serial))"

definition GenerateRandomWgPubkey :: "(gerr, byte list) result \<Rightarrow> (gerr, string) result" where
  "GenerateRandomWgPubkey rnd = bind_res rnd (\<lambda>publicKey. Inr (b64_encode publicKey))"

text \<open>A point in time by its parts; the offset of the zone is in minutes east of UTC.\<close>

record civil =
  cv_year :: nat
  cv_month :: nat
  cv_day :: nat
  cv_hour :: nat
  cv_min :: nat
  cv_sec :: nat
  cv_nanosec :: nat
  cv_offset :: int

definition pad_digits :: "nat \<Rightarrow> nat \<Rightarrow> string" where
  "pad_digits w n = (let ds = dec_digits n in replicate (w - length ds) CHR ''0'' @ ds)"

definition TimeAsCfString :: "civil \<Rightarrow> string" where
  "TimeAsCfString t =
     pad_digits 4 (cv_year t) @ ''-'' @ pad_digits 2 (cv_month t) @ ''-'' @ pad_digits 2 (cv_day t) @ ''T'' @
     pad_digits 2 (cv_hour t) @ '':'' @ pad_digits 2 (cv_min t) @ '':'' @ pad_digits 2 (cv_sec t) @ ''.'' @
     pad_digits 3 (cv_nanosec t div 1000000) @
     (if cv_offset t < 0 then ''-'' else ''+'') @
     pad_digits 2 (nat \<bar>cv_offset t\<bar> div 60) @ '':'' @ pad_digits 2 (nat \<bar>cv_offset t\<bar> mod 60)"

section \<open>Requests\<close>

text \<open>The loop over \<open>internal.Headers\<close> (its keys are distinct, so the order does not matter).\<close>

definition base_header :: "string \<rightharpoonup> string" where
  "base_header = fold (\<lambda>(k, v) h. header_Set k v h) Headers Map.empty"

definition bearer_header :: "string \<Rightarrow> (string \<rightharpoonup> string)" where
  "bearer_header token = header_Set ''Authorization'' (''Bearer '' @ token) base_header"

definition reg_url :: "string \<Rightarrow> string" where
  "reg_url rest = ApiUrl @ ''/'' @ ApiVersion @ ''/reg'' @ rest"

definition account_get :: "AccountData \<Rightarrow> request" where
  "account_get a =
     \<lparr>rq_method = ''GET'', rq_url = reg_url (''/'' @ ad_ID a @ ''/account''),
      rq_header = bearer_header (ad_Token a), rq_body = None\<rparr>"

definition account_put :: "AccountData \<Rightarrow> string \<Rightarrow> request" where
  "account_put a license =
     \<lparr>rq_method = ''PUT'', rq_url = reg_url (''/'' @ ad_ID a @ ''/account''),
      rq_header = bearer_header (ad_Token a), rq_body = Some (JObj [''license'' \<mapsto> JStr license])\<rparr>"

definition enroll_patch :: "AccountData \<Rightarrow> byte list \<Rightarrow> string \<Rightarrow> request" where
  "enroll_patch a pubKey deviceName =
     \<lparr>rq_method = ''PATCH'', rq_url = reg_url (''/'' @ ad_ID a), rq_header = bearer_header (ad_Token a),
      rq_body = Some (device_update_doc
        \<lparr>du_Key = b64_encode pubKey, du_KeyType = KeyTypeMasque, du_TunType = TunTypeMasque,
         du_Name = (if deviceName \<noteq> [] then deviceName else [])\<rparr>)\<rparr>"

text \<open>
  \<open>http.NewRequest\<close> and \<open>Do\<close>, with the texts of the two errors (\<open>send\<close>), then \<open>io.ReadAll\<close> with the
  text of its error (\<open>exchange\<close>).
\<close>

definition send :: "'s http \<Rightarrow> (gerr \<Rightarrow> gerr) \<Rightarrow> (gerr \<Rightarrow> gerr) \<Rightarrow> request \<Rightarrow> 's \<Rightarrow> 's \<times> (gerr, response) result" where
  "send h ecreate esend req s =
     (case ht_parse h (rq_url req) of
        Some e \<Rightarrow> (s, Inl (ecreate e))
      | None \<Rightarrow> (case ht_do h req s of (s', r) \<Rightarrow> (s', map_err esend r)))"

definition exchange :: "'s http \<Rightarrow> (gerr \<Rightarrow> gerr) \<Rightarrow> (gerr \<Rightarrow> gerr) \<Rightarrow> (gerr \<Rightarrow> gerr) \<Rightarrow> request \<Rightarrow> 's
    \<Rightarrow> 's \<times> (gerr, response \<times> content) result" where
  "exchange h ecreate esend eread req s =
     (case send h ecreate esend req s of
        (s', r) \<Rightarrow> (s', bind_res r (\<lambda>resp. bind_res (map_err eread (ReadAll (rs_Body resp))) (\<lambda>b. Inr (resp, b)))))"

text \<open>\<open>fmt.Errorf(p + "%v", err)\<close> and \<open>fmt.Errorf(p + "%w", err)\<close>.\<close>

definition errV :: "'s http \<Rightarrow> string \<Rightarrow> gerr \<Rightarrow> gerr" where
  "errV h p e = EText (p @ err_text (ht_text h) e)"

definition errW :: "string \<Rightarrow> gerr \<Rightarrow> gerr" where
  "errW p e = EWrap p e []"

definition exchange_v :: "'s http \<Rightarrow> request \<Rightarrow> 's \<Rightarrow> 's \<times> (gerr, response \<times> content) result" where
  "exchange_v h = exchange h (errV h ''failed to create request: '') (errV h ''failed to send request: '')
     (errV h ''failed to read response body: '')"

definition success :: "int \<Rightarrow> bool" where
  "success n = (200 \<le> n \<and> n < 300)"

section \<open>cloudflare.go\<close>

text \<open>\<open>acceptTos\<close> false asks at the prompt: \<open>scan\<close> is the outcome of \<open>fmt.Scanln\<close>.\<close>

definition Register :: "'s http \<Rightarrow> (gerr, byte list) result \<Rightarrow> (gerr, byte list) result \<Rightarrow> (gerr, string) result \<Rightarrow> civil
    \<Rightarrow> string \<Rightarrow> string \<Rightarrow> string \<Rightarrow> bool \<Rightarrow> 's \<Rightarrow> 's \<times> (gerr, AccountData) result" where
  "Register h rnd1 rnd2 scan now model locale jwt acceptTos s =
     (case GenerateRandomWgPubkey rnd1 of
        Inl e \<Rightarrow> (s, Inl (errV h ''failed to generate wg key: '' e))
      | Inr wgKey \<Rightarrow>
     (case GenerateRandomAndroidSerial rnd2 of
        Inl e \<Rightarrow> (s, Inl (errV h ''failed to generate serial: '' e))
      | Inr serial \<Rightarrow>
     (case (if acceptTos then Inr ''y'' else scan) of
        Inl e \<Rightarrow> (s, Inl (errV h ''failed to read user input: '' e))
      | Inr response \<Rightarrow>
          if response \<noteq> ''y'' then (s, Inl (EText ''user did not accept TOS''))
          else
            let data = \<lparr>rg_Key = wgKey, rg_InstallID = [], rg_FcmToken = [], rg_Tos = TimeAsCfString now,
                        rg_Model = model, rg_Serial = serial, rg_OsVersion = [], rg_KeyType = KeyTypeWg,
                        rg_TunType = TunTypeWg, rg_Locale = locale\<rparr>;
                req = \<lparr>rq_method = ''POST'', rq_url = reg_url [],
                       rq_header = (if jwt \<noteq> [] then header_Set ''CF-Access-Jwt-Assertion'' jwt base_header
                                    else base_header),
                       rq_body = Some (registration_doc data)\<rparr>
            in (case send h (errV h ''failed to create request: '') (errV h ''failed to send request: '') req s of
                  (s', r) \<Rightarrow>
                    (s', bind_res r (\<lambda>resp.
                       if rs_StatusCode resp \<noteq> 200 then Inl (EText (''failed to register: '' @ rs_Status resp))
                       else map_err (errV h ''failed to decode response: '')
                              (Decode (dec_struct account_data_fields) (rs_Body resp) zeroAccountData)))))))"

text \<open>
  The functions below return an \<open>*APIError\<close> beside the error; the response is decoded over the
  account passed in (\<open>EnrollKey\<close>) or over a zero one (\<open>GetAccount\<close>).
\<close>

definition EnrollKey :: "'s http \<Rightarrow> AccountData \<Rightarrow> byte list \<Rightarrow> string \<Rightarrow> 's
    \<Rightarrow> 's \<times> (APIError option \<times> gerr, AccountData) result" where
  "EnrollKey h accountData pubKey deviceName s =
     (case exchange_v h (enroll_patch accountData pubKey deviceName) s of
        (s', r) \<Rightarrow>
          (s', bind_res (map_err (\<lambda>e. (None, e)) r) (\<lambda>(resp, body).
             if rs_StatusCode resp \<noteq> 200
             then Inl (parseAPIError body, EText (''failed to update: '' @ rs_Status resp))
             else map_err (\<lambda>e. (None, errV h ''failed to decode response: '' e))
                    (Unmarshal (dec_struct account_data_fields) body accountData))))"

definition GetAccount :: "'s http \<Rightarrow> AccountData \<Rightarrow> 's \<Rightarrow> 's \<times> (APIError option \<times> gerr, Account) result" where
  "GetAccount h accountData s =
     (case exchange_v h (account_get accountData) s of
        (s', r) \<Rightarrow>
          (s', bind_res (map_err (\<lambda>e. (None, e)) r) (\<lambda>(resp, body).
             if \<not> success (rs_StatusCode resp)
             then Inl (parseAPIError body, EText (''failed to fetch account: '' @ rs_Status resp))
             else map_err (\<lambda>e. (None, errV h ''failed to decode response: '' e))
                    (Unmarshal (dec_struct account_fields) body zeroAccount))))"

definition updateAccountLicensePut :: "'s http \<Rightarrow> AccountData \<Rightarrow> string \<Rightarrow> 's
    \<Rightarrow> 's \<times> (APIError option \<times> gerr, unit) result" where
  "updateAccountLicensePut h accountData license s =
     (case exchange_v h (account_put accountData license) s of
        (s', r) \<Rightarrow>
          (s', bind_res (map_err (\<lambda>e. (None, e)) r) (\<lambda>(resp, body).
             if \<not> success (rs_StatusCode resp)
             then Inl (parseAPIError body, EText (''failed to apply license: '' @ rs_Status resp))
             else Inr ())))"

definition RebindLicense :: "'s http \<Rightarrow> AccountData \<Rightarrow> string \<Rightarrow> 's
    \<Rightarrow> 's \<times> (APIError option \<times> gerr, Account \<times> bool) result" where
  "RebindLicense h accountData target0 s =
     (let target = TrimSpace target0 in
      if target = [] then (s, Inl (None, EText ''target license is empty''))
      else
        (case GetAccount h accountData s of
           (s1, Inl e) \<Rightarrow> (s1, Inl e)
         | (s1, Inr current) \<Rightarrow>
             if ac_License current = target then (s1, Inr (current, False))
             else
               (case updateAccountLicensePut h accountData target s1 of
                  (s2, Inl e) \<Rightarrow> (s2, Inl e)
                | (s2, Inr _) \<Rightarrow>
                    (case GetAccount h accountData s2 of
                       (s3, Inl e) \<Rightarrow> (s3, Inl e)
                     | (s3, Inr finalAccount) \<Rightarrow> (s3, Inr (finalAccount, True))))))"

section \<open>wireguard.go\<close>

definition api_failure :: "string \<Rightarrow> response \<Rightarrow> content \<Rightarrow> gerr" where
  "api_failure what resp body =
     (case parseAPIError body of
        Some apiErr \<Rightarrow> EText (what @ rs_Status resp @ '' ('' @ ErrorsAsString ''; '' apiErr @ '')'')
      | None \<Rightarrow> EText (what @ rs_Status resp))"

definition RegisterWireGuardDevice :: "'s http \<Rightarrow> (gerr, byte list) result \<Rightarrow> civil \<Rightarrow> string \<Rightarrow> string \<Rightarrow> string \<Rightarrow> 's
    \<Rightarrow> 's \<times> (gerr, AccountData) result" where
  "RegisterWireGuardDevice h rnd now publicKey model0 jwt s =
     (if TrimSpace publicKey = [] then (s, Inl (EText ''public key is required''))
      else
        let model = (if TrimSpace model0 = [] then DefaultModel else model0) in
        (case GenerateRandomAndroidSerial rnd of
           Inl e \<Rightarrow> (s, Inl (errW ''generate serial: '' e))
         | Inr serial \<Rightarrow>
             let payload = \<lparr>rg_Key = publicKey, rg_InstallID = [], rg_FcmToken = [], rg_Tos = TimeAsCfString now,
                            rg_Model = model, rg_Serial = serial, rg_OsVersion = [], rg_KeyType = KeyTypeWg,
                            rg_TunType = TunTypeWg, rg_Locale = DefaultLocale\<rparr>;
                 req = \<lparr>rq_method = ''POST'', rq_url = reg_url [],
                        rq_header = (if TrimSpace jwt \<noteq> [] then header_Set ''CF-Access-Jwt-Assertion'' jwt base_header
                                     else base_header),
                        rq_body = Some (registration_doc payload)\<rparr>
             in (case exchange h (errW ''create register request: '') (errW ''send register request: '')
                       (errW ''read register response: '') req s of
                   (s', r) \<Rightarrow>
                     (s', bind_res r (\<lambda>(resp, body).
                        if rs_StatusCode resp \<noteq> 200 then Inl (api_failure ''register wireguard device: '' resp body)
                        else map_err (errW ''decode register response: '')
                               (Unmarshal (dec_struct account_data_fields) body zeroAccountData))))))"

definition source_device_get :: "string \<Rightarrow> string \<Rightarrow> request" where
  "source_device_get deviceID accessToken =
     \<lparr>rq_method = ''GET'', rq_url = reg_url (''/'' @ deviceID), rq_header = bearer_header accessToken, rq_body = None\<rparr>"

definition GetWireGuardSourceDevice :: "'s http \<Rightarrow> string \<Rightarrow> string \<Rightarrow> 's \<Rightarrow> 's \<times> (gerr, AccountData) result" where
  "GetWireGuardSourceDevice h deviceID accessToken s =
     (case exchange h (errW ''create source device request: '') (errW ''send source device request: '')
             (errW ''read source device response: '') (source_device_get deviceID accessToken) s of
        (s', r) \<Rightarrow>
          (s', bind_res r (\<lambda>(resp, body).
             if rs_StatusCode resp \<noteq> 200 then Inl (api_failure ''fetch source device: '' resp body)
             else map_err (errW ''decode source device response: '')
                    (Unmarshal (dec_struct account_data_fields) body zeroAccountData))))"

definition SetWireGuardDeviceName :: "'s http \<Rightarrow> string \<Rightarrow> string \<Rightarrow> string \<Rightarrow> 's \<Rightarrow> 's \<times> gerr option" where
  "SetWireGuardDeviceName h deviceID accessToken deviceName s =
     (let req = \<lparr>rq_method = ''PATCH'', rq_url = reg_url (''/'' @ deviceID @ ''/account/reg/'' @ deviceID),
                 rq_header = bearer_header accessToken, rq_body = Some (JObj [''name'' \<mapsto> JStr deviceName])\<rparr>
      in (case exchange h (errW ''create device name request: '') (errW ''send device name request: '')
                (errW ''read device name response: '') req s of
            (s', Inl e) \<Rightarrow> (s', Some e)
          | (s', Inr (resp, body)) \<Rightarrow>
              (s', if \<not> success (rs_StatusCode resp) then Some (api_failure ''set device name: '' resp body) else None)))"

section \<open>Lemmas\<close>

text \<open>A client that also records the requests it passes on.\<close>

definition traced :: "'s http \<Rightarrow> ('s \<times> request list) http" where
  "traced h =
     \<lparr>ht_text = ht_text h, ht_parse = ht_parse h,
      ht_do = (\<lambda>req (s, tr). case ht_do h req s of (s', r) \<Rightarrow> ((s', tr @ [req]), r))\<rparr>"

text \<open>An operation that makes at most the one request \<open>req\<close>: what it returns does not depend on the recording.\<close>

definition one_request :: "('s \<Rightarrow> 's \<times> 'a) \<Rightarrow> (('s \<times> request list) \<Rightarrow> ('s \<times> request list) \<times> 'a) \<Rightarrow> request \<Rightarrow> bool" where
  "one_request f g req =
     (\<forall>s tr. \<exists>sent. g (s, tr) = ((fst (f s), tr @ (if sent then [req] else [])), snd (f s)))"

lemma one_requestE:
  assumes "one_request f g req"
  obtains sent where "g (s, tr) = ((fst (f s), tr @ (if sent then [req] else [])), snd (f s))"
  using assms unfolding one_request_def by blast

lemma send_one_request: "one_request (send h ec es req) (send (traced h) ec es req) req"
  unfolding one_request_def
proof (intro allI)
  fix s tr
  show "\<exists>sent. send (traced h) ec es req (s, tr) =
      ((fst (send h ec es req s), tr @ (if sent then [req] else [])), snd (send h ec es req s))"
  proof (cases "ht_parse h (rq_url req)")
    case None
    then show ?thesis
      by (intro exI [of _ True]) (simp add: send_def traced_def split: prod.splits)
  next
    case (Some e)
    then show ?thesis
      by (intro exI [of _ False]) (simp add: send_def traced_def)
  qed
qed

lemma exchange_one_request: "one_request (exchange h ec es er req) (exchange (traced h) ec es er req) req"
  unfolding one_request_def
proof (intro allI)
  fix s tr
  obtain sent where "send (traced h) ec es req (s, tr) =
      ((fst (send h ec es req s), tr @ (if sent then [req] else [])), snd (send h ec es req s))"
    by (rule one_requestE [OF send_one_request])
  then show "\<exists>sent. exchange (traced h) ec es er req (s, tr) =
      ((fst (exchange h ec es er req s), tr @ (if sent then [req] else [])), snd (exchange h ec es er req s))"
    by (intro exI [of _ sent]) (simp add: exchange_def split: prod.splits)
qed

lemma traced_text [simp]: "ht_text (traced h) = ht_text h"
  by (simp add: traced_def)

lemma errV_traced [simp]: "errV (traced h) = errV h"
  by (intro ext) (simp add: errV_def)

lemma exchange_v_one_request: "one_request (exchange_v h req) (exchange_v (traced h) req) req"
  by (simp add: exchange_v_def exchange_one_request)

lemma GetAccount_one_request: "one_request (GetAccount h a) (GetAccount (traced h) a) (account_get a)"
  unfolding one_request_def
proof (intro allI)
  fix s tr
  obtain sent where "exchange_v (traced h) (account_get a) (s, tr) =
      ((fst (exchange_v h (account_get a) s), tr @ (if sent then [account_get a] else [])), snd (exchange_v h (account_get a) s))"
    by (rule one_requestE [OF exchange_v_one_request])
  then show "\<exists>sent. GetAccount (traced h) a (s, tr) =
      ((fst (GetAccount h a s), tr @ (if sent then [account_get a] else [])), snd (GetAccount h a s))"
    by (intro exI [of _ sent]) (simp add: GetAccount_def split: prod.splits cong: if_cong)
qed

lemma licensePut_one_request:
  "one_request (updateAccountLicensePut h a l) (updateAccountLicensePut (traced h) a l) (account_put a l)"
  unfolding one_request_def
proof (intro allI)
  fix s tr
  obtain sent where "exchange_v (traced h) (account_put a l) (s, tr) =
      ((fst (exchange_v h (account_put a l) s), tr @ (if sent then [account_put a l] else [])),
       snd (exchange_v h (account_put a l) s))"
    by (rule one_requestE [OF exchange_v_one_request])
  then show "\<exists>sent. updateAccountLicensePut (traced h) a l (s, tr) =
      ((fst (updateAccountLicensePut h a l s), tr @ (if sent then [account_put a l] else [])),
       snd (updateAccountLicensePut h a l s))"
    by (intro exI [of _ sent]) (simp add: updateAccountLicensePut_def split: prod.splits)
qed

text \<open>An operation that failed before its request was sent never answers \<open>Inr\<close>.\<close>

lemma exchange_v_sent:
  assumes "exchange_v (traced h) req (s, tr) = ((s', tr'), Inr x)"
  shows "tr' = tr @ [req]"
  using assms by (auto simp: exchange_v_def exchange_def send_def traced_def bind_res_eq_Inr
      split: option.splits prod.splits)

lemma GetAccount_sent:
  assumes "GetAccount (traced h) a (s, tr) = ((s', tr'), Inr x)"
  shows "tr' = tr @ [account_get a]"
  using assms exchange_v_sent [of h "account_get a" s tr]
  by (auto simp: GetAccount_def bind_res_eq_Inr split: prod.splits)

lemma licensePut_sent:
  assumes "updateAccountLicensePut (traced h) a l (s, tr) = ((s', tr'), Inr x)"
  shows "tr' = tr @ [account_put a l]"
  using assms exchange_v_sent [of h "account_put a l" s tr]
  by (auto simp: updateAccountLicensePut_def bind_res_eq_Inr split: prod.splits)

section \<open>Properties\<close>

text \<open>
  whatever the service answers, \<open>RebindLicense\<close> sends a prefix of the sequence read, write,
  read, on the account of the device and with its token only; the write, which carries the trimmed license,
  is sent only after a read that showed another license.
\<close>

theorem RebindLicense_requests:
  "\<exists>k. snd (fst (RebindLicense (traced h) a target (s, []))) =
         take k [account_get a, account_put a (TrimSpace target), account_get a] \<and>
       (2 \<le> k \<longrightarrow> (\<exists>s1 acc. GetAccount h a s = (s1, Inr acc) \<and> ac_License acc \<noteq> TrimSpace target))"
proof (cases "TrimSpace target = []")
  case True
  then show ?thesis by (intro exI [of _ 0]) (simp add: RebindLicense_def)
next
  case False
  let ?g = "account_get a" and ?p = "account_put a (TrimSpace target)"
  obtain s1 r1 where g1: "GetAccount h a s = (s1, r1)" by fastforce
  obtain b1 where t1: "GetAccount (traced h) a (s, []) = ((s1, if b1 then [?g] else []), r1)"
    by (rule one_requestE [OF GetAccount_one_request, of h a s "[]"]) (simp add: g1)
  show ?thesis
  proof (cases r1)
    case (Inl e)
    with t1 False show ?thesis by (intro exI [of _ "if b1 then 1 else 0"]) (simp add: RebindLicense_def)
  next
    case (Inr acc)
    with t1 have b1: "(if b1 then [?g] else []) = [?g]" using GetAccount_sent [of h a s "[]"] by fastforce
    show ?thesis
    proof (cases "ac_License acc = TrimSpace target")
      case True
      with t1 b1 Inr False show ?thesis by (intro exI [of _ 1]) (simp add: RebindLicense_def)
    next
      case lic: False
      obtain s2 r2 b2 where t2: "updateAccountLicensePut (traced h) a (TrimSpace target) (s1, [?g]) =
          ((s2, [?g] @ (if b2 then [?p] else [])), r2)"
        by (rule one_requestE [OF licensePut_one_request, of h a "TrimSpace target" s1 "[?g]"])
      show ?thesis
      proof (cases r2)
        case (Inl e)
        with t1 b1 t2 \<open>r1 = Inr acc\<close> False lic g1 show ?thesis
          by (intro exI [of _ "if b2 then 2 else 1"]) (auto simp: RebindLicense_def)
      next
        case (Inr u)
        with t2 have b2: "(if b2 then [?p] else []) = [?p]" using licensePut_sent [of h a _ s1 "[?g]"] by fastforce
        obtain s3 r3 b3 where t3: "GetAccount (traced h) a (s2, [?g, ?p]) =
            ((s3, [?g, ?p] @ (if b3 then [?g] else [])), r3)"
          by (rule one_requestE [OF GetAccount_one_request, of h a s2 "[?g, ?p]"])
        then show ?thesis
          using t1 b1 t2 b2 Inr \<open>r1 = Inr acc\<close> False lic g1
          by (intro exI [of _ "if b3 then 3 else 2"]) (auto simp: RebindLicense_def Let_def split: sum.splits)
      qed
    qed
  qed
qed

definition sample_account :: AccountData where
  "sample_account = zeroAccountData\<lparr>ad_ID := ''dev1'', ad_Token := ''tok1''\<rparr>"

text \<open>
  A service that keeps one license, shown by a read of the account and replaced by a write, for
  requests with the right token. It stands for the documented behaviour of the account resource.
\<close>

definition license_server :: "string http" where
  "license_server =
     \<lparr>ht_text = (\<lambda>_. []), ht_parse = (\<lambda>_. None),
      ht_do = (\<lambda>req lic.
        if rq_header req ''Authorization'' \<noteq> Some ''Bearer tok1''
        then (lic, Inr \<lparr>rs_StatusCode = 401, rs_Status = ''401 Unauthorized'', rs_Body = BodyOther []\<rparr>)
        else (case rq_body req of
                Some (JObj ms) \<Rightarrow>
                  (case ms ''license'' of
                     Some (JStr l) \<Rightarrow>
                       (l, Inr \<lparr>rs_StatusCode = 204, rs_Status = ''204 No Content'', rs_Body = BodyOther []\<rparr>)
                   | _ \<Rightarrow> (lic, Inr \<lparr>rs_StatusCode = 400, rs_Status = ''400 Bad Request'', rs_Body = BodyOther []\<rparr>))
              | _ \<Rightarrow> (lic, Inr \<lparr>rs_StatusCode = 200, rs_Status = ''200 OK'',
                       rs_Body = BodyJson (JObj [''id'' \<mapsto> JStr ''a'', ''license'' \<mapsto> JStr lic])\<rparr>)))\<rparr>"

theorem RebindLicense_requests_witness:
  "\<exists>k. snd (fst (RebindLicense (traced license_server) sample_account '' new '' (''old'', []))) =
         take k [account_get sample_account, account_put sample_account ''new'', account_get sample_account] \<and>
       (2 \<le> k \<longrightarrow> (\<exists>s1 acc. GetAccount license_server sample_account ''old'' = (s1, Inr acc) \<and> ac_License acc \<noteq> ''new''))"
proof -
  have "TrimSpace '' new '' = ''new''" by code_simp
  then show ?thesis using RebindLicense_requests [of license_server sample_account "'' new ''" "''old''"] by simp
qed

text \<open>
  The contract of the account resource: a read answers with the account, whose license is the one
  stored; a write stores the license it carries.
\<close>

definition account_resource :: "'s http \<Rightarrow> AccountData \<Rightarrow> ('s \<Rightarrow> string) \<Rightarrow> bool" where
  "account_resource h a lic =
     (ht_parse h (reg_url (''/'' @ ad_ID a @ ''/account'')) = None \<and>
      (\<forall>s. \<exists>s' resp j acc. ht_do h (account_get a) s = (s', Inr resp) \<and> success (rs_StatusCode resp) \<and>
             rs_Body resp = BodyJson j \<and> dec_struct account_fields j zeroAccount = Inr acc \<and>
             ac_License acc = lic s \<and> lic s' = lic s) \<and>
      (\<forall>s l. \<exists>s' resp b. ht_do h (account_put a l) s = (s', Inr resp) \<and> success (rs_StatusCode resp) \<and>
             ReadAll (rs_Body resp) = Inr b \<and> lic s' = l))"

lemma account_resource_read:
  assumes "account_resource h a lic"
  shows "\<exists>s' acc. GetAccount h a s = (s', Inr acc) \<and> ac_License acc = lic s \<and> lic s' = lic s"
proof -
  obtain s' resp j acc where "ht_do h (account_get a) s = (s', Inr resp)" "success (rs_StatusCode resp)"
    "rs_Body resp = BodyJson j" "dec_struct account_fields j zeroAccount = Inr acc" "ac_License acc = lic s" "lic s' = lic s"
    using assms unfolding account_resource_def by blast
  moreover have "ht_parse h (rq_url (account_get a)) = None"
    using assms by (simp add: account_resource_def account_get_def)
  ultimately show ?thesis by (simp add: GetAccount_def exchange_v_def exchange_def send_def)
qed

lemma account_resource_write:
  assumes "account_resource h a lic"
  shows "\<exists>s'. updateAccountLicensePut h a l s = (s', Inr ()) \<and> lic s' = l"
proof -
  obtain s' resp b where "ht_do h (account_put a l) s = (s', Inr resp)" "success (rs_StatusCode resp)"
    "ReadAll (rs_Body resp) = Inr b" "lic s' = l"
    using assms unfolding account_resource_def by metis
  moreover have "ht_parse h (rq_url (account_put a l)) = None"
    using assms by (simp add: account_resource_def account_put_def)
  ultimately show ?thesis by (simp add: updateAccountLicensePut_def exchange_v_def exchange_def send_def)
qed

lemma RebindLicense_ok:
  assumes "account_resource h a lic" "TrimSpace target \<noteq> []"
  shows "\<exists>s' acc. RebindLicense h a target s = (s', Inr (acc, lic s \<noteq> TrimSpace target)) \<and>
    ac_License acc = TrimSpace target \<and> lic s' = TrimSpace target"
proof -
  obtain s1 acc1 where 1: "GetAccount h a s = (s1, Inr acc1)" "ac_License acc1 = lic s" "lic s1 = lic s"
    using account_resource_read [OF assms(1)] by blast
  obtain s2 where 2: "updateAccountLicensePut h a (TrimSpace target) s1 = (s2, Inr ())" "lic s2 = TrimSpace target"
    using account_resource_write [OF assms(1)] by blast
  obtain s3 acc3 where 3: "GetAccount h a s2 = (s3, Inr acc3)" "ac_License acc3 = lic s2" "lic s3 = lic s2"
    using account_resource_read [OF assms(1)] by blast
  show ?thesis
  proof (cases "lic s = TrimSpace target")
    case True
    with 1 assms(2) show ?thesis by (simp add: RebindLicense_def)
  next
    case False
    with 1 2 3 assms(2) show ?thesis by (simp add: RebindLicense_def)
  qed
qed

text \<open>
  C25: against a service whose account resource shows the license last written to it, \<open>RebindLicense\<close>
  returns the account with the trimmed license, reports whether it had to write it, and leaves the
  service with it.
\<close>

theorem RebindLicense_applies:
  assumes "account_resource h a lic" "TrimSpace target \<noteq> []"
  shows "\<exists>s' acc. RebindLicense h a target s = (s', Inr (acc, lic s \<noteq> TrimSpace target)) \<and>
    ac_License acc = TrimSpace target \<and> lic s' = TrimSpace target"
  using assms by (rule RebindLicense_ok)

lemma sample_bearer: "bearer_header (ad_Token sample_account) ''Authorization'' = Some ''Bearer tok1''"
  by code_simp

lemma license_server_resource: "account_resource license_server sample_account (\<lambda>lic. lic)"
  using sample_bearer
  by (simp add: account_resource_def license_server_def account_get_def account_put_def success_def
      account_fields_def field_def zeroAccount_def)

theorem RebindLicense_applies_witness:
  "\<exists>s' acc. RebindLicense license_server sample_account '' new '' ''old'' = (s', Inr (acc, True)) \<and>
     ac_License acc = ''new'' \<and> s' = ''new''"
proof -
  have t: "TrimSpace '' new '' = ''new''" by code_simp
  show ?thesis
    using RebindLicense_applies [OF license_server_resource, of "'' new ''" "''old''"] by (simp add: t)
qed

text \<open>
  enrolling a key never loses the access token: when the service accepts the update and its
  answer has no \<open>token\<close> member (only the registration answer has one), the returned account still
  has the token of the account passed in, and likewise its identifier and its interface settings when
  the answer leaves them out.
\<close>

theorem EnrollKey_keeps_token:
  assumes "exchange_v h (enroll_patch a pubKey name) s = (s1, Inr (resp, JsonText (JObj ms)))"
    "EnrollKey h a pubKey name s = (s2, Inr a')"
  shows "(ms ''token'' = None \<longrightarrow> ad_Token a' = ad_Token a) \<and> (ms ''id'' = None \<longrightarrow> ad_ID a' = ad_ID a) \<and>
    (ms ''config'' = None \<longrightarrow> ad_Config a' = ad_Config a)"
proof -
  have dec: "foldl (\<lambda>acc f. bind_res acc (f ms)) (Inr a) account_data_fields = Inr a'"
    using assms by (simp add: EnrollKey_def split: if_splits)
  note fields = account_data_fields_def
  have "ad_Token a' = ad_Token a" if "ms ''token'' = None"
    by (rule dec_fields_keep [OF _ dec]) (use that in \<open>auto simp: fields elim!: field_keep [rotated]\<close>)
  moreover have "ad_ID a' = ad_ID a" if "ms ''id'' = None"
    by (rule dec_fields_keep [OF _ dec]) (use that in \<open>auto simp: fields elim!: field_keep [rotated]\<close>)
  moreover have "ad_Config a' = ad_Config a" if "ms ''config'' = None"
    by (rule dec_fields_keep [OF _ dec]) (use that in \<open>auto simp: fields elim!: field_keep [rotated]\<close>)
  ultimately show ?thesis by blast
qed

definition enroll_server :: "unit http" where
  "enroll_server =
     \<lparr>ht_text = (\<lambda>_. []), ht_parse = (\<lambda>_. None),
      ht_do = (\<lambda>req s. (s, Inr \<lparr>rs_StatusCode = 200, rs_Status = ''200 OK'',
        rs_Body = BodyJson (JObj [''key_type'' \<mapsto> JStr ''secp256r1'', ''name'' \<mapsto> JStr ''pc''])\<rparr>))\<rparr>"

theorem EnrollKey_keeps_token_witness:
  "\<exists>a'. EnrollKey enroll_server sample_account [1, 2, 3] ''pc'' () = ((), Inr a') \<and> ad_Token a' = ''tok1''"
proof -
  let ?ms = "[''key_type'' \<mapsto> JStr ''secp256r1'', ''name'' \<mapsto> JStr ''pc'']"
  have ex: "exchange_v enroll_server (enroll_patch sample_account [1, 2, 3] ''pc'') () =
      ((), Inr (\<lparr>rs_StatusCode = 200, rs_Status = ''200 OK'', rs_Body = BodyJson (JObj ?ms)\<rparr>, JsonText (JObj ?ms)))"
    by (simp add: exchange_v_def exchange_def send_def enroll_server_def)
  moreover obtain a' where run: "EnrollKey enroll_server sample_account [1, 2, 3] ''pc'' () = ((), Inr a')"
    using ex by (simp add: EnrollKey_def account_data_fields_def field_def)
  ultimately have "ad_Token a' = ad_Token sample_account"
    using EnrollKey_keeps_token [OF ex run] by simp
  with run show ?thesis by (simp add: sample_account_def)
qed

end
