(* ===== verification/Endpoints.thy ===== *)
theory Endpoints
  imports Config Go_Netip
begin

text \<open>
  Endpoints, addresses and timeouts of a run, \<open>src/cmd/proxy.go\<close>: the host of an endpoint as the
  API or the configuration gives it, the MASQUE endpoint for a transport and address family, the
  address of a DNS server, the tunnel addresses, the timeouts.
\<close>

section \<open>Endpoints\<close>

datatype net_addr = UDPAddrOf ip int | TCPAddrOf ip int

definition parseEndpointHost :: "string \<Rightarrow> (gerr, string) result" where
  "parseEndpointHost endpoint0 =
     (let endpoint = TrimSpace endpoint0 in
      if endpoint = [] then Inl (EText ''empty endpoint'')
      else case SplitHostPort endpoint of
        Inr (host0, _) \<Rightarrow>
          let host = Trim host0 ''[]'' in
          (case ParseAddr host of Inr addr \<Rightarrow> Inr (AddrString addr) | Inl _ \<Rightarrow> Inr host)
      | Inl _ \<Rightarrow>
          (case ParseAddr (Trim endpoint ''[]'') of
             Inr addr \<Rightarrow> Inr (AddrString addr)
           | Inl _ \<Rightarrow>
               let bad = Inl (EText (''unsupported endpoint format: '' @ go_quote endpoint)) in
               if CountByte endpoint CHR '':'' > 1 then
                 (case LastIndexByte endpoint CHR '':'' of
                    None \<Rightarrow> bad
                  | Some i \<Rightarrow>
                      if 0 < i \<and> i < length endpoint - 1 then
                        (case Atoi (drop (i + 1) endpoint) of
                           None \<Rightarrow> bad
                         | Some _ \<Rightarrow>
                             (case ParseAddr (take i endpoint) of
                                Inr addr \<Rightarrow> Inr (AddrString addr)
                              | Inl _ \<Rightarrow> bad))
                      else bad)
               else bad))"

definition endpoint_ip :: "string \<Rightarrow> bool \<Rightarrow> (gerr, ip) result" where
  "endpoint_ip host useIPv6 =
     bind_res (parseEndpointHost host) (\<lambda>normalizedHost.
       case ParseIP normalizedHost of
         None \<Rightarrow> Inl (EText (''invalid endpoint IP: '' @ go_quote normalizedHost))
       | Some i \<Rightarrow>
           if useIPv6 \<and> To4 i \<noteq> None then Inl (EText (''expected IPv6 endpoint, got IPv4: '' @ normalizedHost))
           else if \<not> useIPv6 \<and> To4 i = None then Inl (EText (''expected IPv4 endpoint, got IPv6: '' @ normalizedHost))
           else Inr i)"

definition udpAddrFromHost :: "string \<Rightarrow> int \<Rightarrow> bool \<Rightarrow> (gerr, net_addr) result" where
  "udpAddrFromHost host port useIPv6 = bind_res (endpoint_ip host useIPv6) (\<lambda>i. Inr (UDPAddrOf i port))"

definition tcpAddrFromHost :: "string \<Rightarrow> int \<Rightarrow> bool \<Rightarrow> (gerr, net_addr) result" where
  "tcpAddrFromHost host port useIPv6 = bind_res (endpoint_ip host useIPv6) (\<lambda>i. Inr (TCPAddrOf i port))"

definition selectMasqueEndpoint :: "Config \<Rightarrow> int \<Rightarrow> bool \<Rightarrow> bool \<Rightarrow> (gerr, net_addr) result" where
  "selectMasqueEndpoint cfg port useIPv6 useHTTP2 =
     (if useHTTP2 then
        if useIPv6 then
          let h2Host = TrimSpace (EndpointH2V6 cfg) in
          if h2Host = [] then Inl (EText ''http2 with use_ipv6 requires endpoint_h2_v6'')
          else tcpAddrFromHost h2Host port useIPv6
        else
          let h2Host = TrimSpace (EndpointH2V4 cfg)
          in tcpAddrFromHost (if h2Host = [] then DefaultEndpointH2V4 else h2Host) port useIPv6
      else udpAddrFromHost (if useIPv6 then EndpointV6 cfg else EndpointV4 cfg) port useIPv6)"

definition familyLabel :: "bool \<Rightarrow> string" where
  "familyLabel useIPv6 = (if useIPv6 then ''ipv6'' else ''ipv4'')"

section \<open>DNS servers\<close>

definition valid_dns_port :: "string \<Rightarrow> bool" where
  "valid_dns_port port = (case Atoi port of None \<Rightarrow> False | Some n \<Rightarrow> 0 < n \<and> n \<le> 65535)"

definition normalizeDNSServerAddress :: "string \<Rightarrow> (gerr, string) result" where
  "normalizeDNSServerAddress dns0 =
     (let dns = TrimSpace dns0 in
      if dns = [] then Inl (EText ''empty DNS server'')
      else case SplitHostPort dns of
        Inr (host, port) \<Rightarrow>
          if host = [] then Inl (EText (''missing DNS host in '' @ go_quote dns))
          else if \<not> valid_dns_port port then Inl (EText (''invalid DNS port in '' @ go_quote dns))
          else Inr (JoinHostPort host port)
      | Inl _ \<Rightarrow>
          (case ParseAddr (Trim dns ''[]'') of
             Inr addr \<Rightarrow> Inr (JoinHostPort (AddrString addr) ''53'')
           | Inl _ \<Rightarrow>
               if \<not> Contains dns '':'' then Inr (JoinHostPort dns ''53'')
               else Inl (EText (''invalid DNS server address '' @ go_quote dns))))"

text \<open>The server and timeout of the local resolver.\<close>

definition slice :: "'a list option \<Rightarrow> 'a list" where
  "slice xs = (case xs of None \<Rightarrow> [] | Some ys \<Rightarrow> ys)"

definition newLocalDNSResolver :: "(gerr \<Rightarrow> string) \<Rightarrow> Config \<Rightarrow> (gerr, string \<times> duration) result" where
  "newLocalDNSResolver txt cfg =
     (case slice (DNS (Socks cfg)) of
        [] \<Rightarrow> Inr (''8.8.8.8:53'', DNSTimeout (Socks cfg))
      | d # _ \<Rightarrow>
          (case normalizeDNSServerAddress d of
             Inl e \<Rightarrow> Inl (EText (''Failed to parse local DNS server '' @ d @ '': '' @ txt e))
           | Inr s \<Rightarrow> Inr (s, DNSTimeout (Socks cfg))))"

section \<open>Network configuration\<close>

definition parse_addrs :: "string \<Rightarrow> string list \<Rightarrow> (gerr, addr list) result" where
  "parse_addrs what ss = map_res (\<lambda>s. map_err (\<lambda>_. EText (''Failed to parse '' @ what)) (ParseAddr s)) ss"

definition prepareNetworkConfig :: "Config \<Rightarrow> (gerr, net_addr \<times> addr list \<times> addr list) result" where
  "prepareNetworkConfig cfg =
     (let s = Socks cfg in
      bind_res (map_err (\<lambda>e. EWrap ''failed to parse endpoint: '' e [])
                 (selectMasqueEndpoint cfg (ConnectPort s) (UseIPv6 s) (HTTP2 s))) (\<lambda>endpoint.
      bind_res (parse_addrs ''IPv4 address'' (if NoTunnelIPv4 s then [] else [IPv4 cfg])) (\<lambda>v4.
      bind_res (parse_addrs ''IPv6 address'' (if NoTunnelIPv6 s then [] else [IPv6 cfg])) (\<lambda>v6.
      bind_res (parse_addrs ''DNS server'' (slice (DNS s))) (\<lambda>dns.
        Inr (endpoint, v4 @ v6, dns))))))"

definition getTimeoutSettings :: "Config \<Rightarrow> duration \<times> duration" where
  "getTimeoutSettings cfg =
     (let c = ConnectionTimeout (Socks cfg); i = IdleTimeout (Socks cfg)
      in (if c = 0 then 30 * Second else c, if i = 0 then 5 * Minute else i))"

definition mtuWarning :: "int \<Rightarrow> string \<times> bool" where
  "mtuWarning mtu =
     (if mtu < 1280 then (''MTU below 1280 may break IPv6 and cause path-MTU issues'', True)
      else if mtu > 1400 then
        (''MTU above 1400 will likely exceed the QUIC datagram size and be clamped back to 1280 by ICMP packet-too-big'', True)
      else ([], False))"

section \<open>Lemmas\<close>

lemma trim_func_none: "list_all (\<lambda>c. \<not> p c) s \<Longrightarrow> trim_func p s = s"
  by (cases "s = []") (auto intro!: trim_func_id simp: list_all_iff)

lemma string4_plain:
  "TrimSpace (string4 b) = string4 b" "Trim (string4 b) ''[]'' = string4 b" "no_brackets (string4 b)" "CHR '':'' \<notin> set (string4 b)"
proof -
  show "TrimSpace (string4 b) = string4 b"
    unfolding TrimSpace_def by (rule trim_func_none, rule string4_chars [OF addr_chars_space])
  show n: "no_brackets (string4 b)" by (simp add: no_brackets_list_all string4_chars [OF addr_chars_bracket])
  then show "Trim (string4 b) ''[]'' = string4 b"
    unfolding Trim_def by (intro trim_func_none) (auto simp: no_brackets_def list_all_iff)
  have "CHR '':'' \<notin> set (join_with ''.'' ds)" if "list_all (list_all is_digit) ds" for ds
    using that by (induction "''.''" ds rule: join_with.induct) (auto simp: is_digit_def list_all_iff)
  then show "CHR '':'' \<notin> set (string4 b)"
    by (simp add: string4_def list.pred_map comp_def dec_digits_all_digit list_all_iff [of _ b])
qed

lemma endpoint_ip_family:
  "endpoint_ip host v6 = Inr i \<Longrightarrow> length i = 16 \<and> (To4 i = None) = v6"
proof -
  assume e: "endpoint_ip host v6 = Inr i"
  then obtain h where h: "parseEndpointHost host = Inr h" by (auto simp: endpoint_ip_def bind_res_eq_Inr)
  with e obtain j where j: "ParseIP h = Some j" by (cases "ParseIP h") (auto simp: endpoint_ip_def)
  with e h have "i = j" "(To4 j = None) = v6" by (auto simp: endpoint_ip_def split: if_splits)
  with ParseIP_length [OF j] show ?thesis by simp
qed

lemma Atoi_last: "Atoi p = Some n \<Longrightarrow> p \<noteq> [] \<and> is_digit (last p)"
proof -
  have "ds \<noteq> [] \<and> is_digit (last ds)" if "parse_digits ds = Some m" for ds m
    using that by (auto simp: parse_digits_def list_all_iff split: if_splits)
  then show "Atoi p = Some n \<Longrightarrow> p \<noteq> [] \<and> is_digit (last p)"
    by (cases p) (fastforce simp: Atoi_def split: if_splits option.splits)+
qed

lemma SplitHostPort_plain:
  assumes "SplitHostPort hp = Inr (h, p)" "no_brackets hp"
  shows "hp = h @ CHR '':'' # p" "CHR '':'' \<notin> set h" "CHR '':'' \<notin> set p"
proof -
  from assms(1) obtain i where i: "LastIndexByte hp CHR '':'' = Some i"
    by (auto simp: SplitHostPort_def split: option.splits)
  note li = LastIndexByte_Some [OF i]
  have "hp ! 0 \<noteq> CHR ''[''" using li assms(2) by (cases hp) auto
  then have hp: "h = take i hp" "p = drop (i + 1) hp" "IndexByte (take i hp) CHR '':'' = None"
    using assms(1) i by (auto simp: SplitHostPort_def bind_res_eq_Inr split: if_splits)
  show "hp = h @ CHR '':'' # p" using li hp id_take_nth_drop [of i hp] by simp
  show "CHR '':'' \<notin> set h" "CHR '':'' \<notin> set p" using hp li by (simp_all add: IndexByte_None)
qed

lemma digit_not_space: "is_digit c \<Longrightarrow> \<not> is_space c"
  by (auto simp: is_digit_def is_space_def)

text \<open>The normal form of a DNS server address: it is what the normalisation leaves alone.\<close>

lemma dns_fixed:
  assumes "r = JoinHostPort h p" "h \<noteq> []" "no_brackets h" "\<not> is_space (hd h)" "valid_dns_port p"
    and "CHR '':'' \<notin> set p" "no_brackets p"
  shows "SplitHostPort r = Inr (h, p)" "normalizeDNSServerAddress r = Inr r"
proof -
  show s: "SplitHostPort r = Inr (h, p)"
    unfolding assms(1) using assms(3,6,7) by (intro SplitHostPort_JoinHostPort) (auto simp: no_brackets_def)
  have p: "p \<noteq> []" "\<not> is_space (last p)"
    using assms(5) Atoi_last digit_not_space by (auto simp: valid_dns_port_def split: option.splits)
  have r: "r \<noteq> []" "last r = last p" "hd r = (if CHR '':'' \<in> set h then CHR ''['' else hd h)"
    using assms(1,2) p(1) by (auto simp: JoinHostPort_def IndexByte_None)
  have "TrimSpace r = r"
    unfolding TrimSpace_def using r p(2) assms(4) by (intro trim_func_id) (auto simp: is_space_def)
  with s r(1) assms(1,2,5) show "normalizeDNSServerAddress r = Inr r" by (simp add: normalizeDNSServerAddress_def Let_def)
qed

lemma port53: "valid_dns_port ''53''" "no_brackets ''53''" "CHR '':'' \<notin> set ''53''"
proof -
  have "Itoa 53 = ''53''" by code_simp
  with Atoi_Itoa [of 53] show "valid_dns_port ''53''" by (simp add: valid_dns_port_def)
qed simp_all

lemma join_with_nonempty: "s \<noteq> [] \<Longrightarrow> join_with sep (s # ss) \<noteq> []"
  by (cases ss) auto

lemma string4_nonempty: "b \<noteq> [] \<Longrightarrow> string4 b \<noteq> []"
  by (cases b) (auto simp: string4_def join_with_nonempty)

lemma hex_digits_nonempty: "hex_digits n \<noteq> []"
  by (subst hex_digits.simps) simp

lemma string6_nonempty: "length b = 16 \<Longrightarrow> string6 b \<noteq> []"
proof -
  assume "length b = 16"
  then obtain x y r where "b = x # y # r" by (cases b rule: groups.cases) auto
  then show ?thesis
    by (auto simp: string6_def Let_def join_with_nonempty hex_digits_nonempty split: prod.split)
qed

lemma parsed_plain:
  assumes "ParseAddr s = Inr a" "CHR ''%'' \<notin> set s"
  shows "AddrString a \<noteq> []" "no_brackets (AddrString a)" "\<not> is_space (hd (AddrString a))"
proof -
  have z: "z = []" if "a = Addr6 b z" for b z
    using assms that
    by (auto simp: ParseAddr_def parseIPv6_def parseIPv4_def IndexByte_None [symmetric] bind_res_eq_Inr v6_finish_def Let_def
        split: option.splits if_splits prod.splits)
  have wf: "wf_addr a \<and> a \<noteq> NoAddr" by (rule ParseAddr_wf [OF assms(1)])
  have chars: "list_all Q (AddrString a)" if "addr_chars Q" for Q
    using wf z that string4_chars AddrString6_chars by (cases a) auto
  show ne: "AddrString a \<noteq> []"
  proof (cases a)
    case (Addr4 b)
    then have "b \<noteq> []" using wf by auto
    with Addr4 string4_nonempty show ?thesis by simp
  qed (use wf string6_nonempty in auto)
  show "no_brackets (AddrString a)" using chars [OF addr_chars_bracket] by (simp add: no_brackets_list_all)
  show "\<not> is_space (hd (AddrString a))" using chars [OF addr_chars_space] ne by (cases "AddrString a") auto
qed

section \<open>Properties\<close>

text \<open>
  the endpoint fits the transport: HTTP/2 gets a TCP address and HTTP/3 a UDP address, with the
  configured port and an IP of the family that was asked for; anything else is an error.
\<close>

theorem selectMasqueEndpoint_typed:
  assumes "selectMasqueEndpoint cfg port useIPv6 useHTTP2 = Inr ep"
  shows "\<exists>i. ep = (if useHTTP2 then TCPAddrOf i port else UDPAddrOf i port) \<and> length i = 16 \<and> (To4 i = None) = useIPv6"
proof -
  from assms obtain host i where "endpoint_ip host useIPv6 = Inr i" "ep = (if useHTTP2 then TCPAddrOf i port else UDPAddrOf i port)"
    by (auto simp: selectMasqueEndpoint_def tcpAddrFromHost_def udpAddrFromHost_def bind_res_eq_Inr Let_def split: if_splits)
  with endpoint_ip_family show ?thesis by blast
qed

text \<open>
  an IPv4 endpoint has one host in each of its spellings: the bare address, with a port, and with
  blanks around; the host is the address as it is printed, and it is accepted as an IPv4 endpoint
  and refused as an IPv6 one.
\<close>

theorem parseEndpointHost_v4:
  assumes "length b = 4" "0 \<le> n" "list_all is_space pre" "list_all is_space post"
  shows "parseEndpointHost (pre @ string4 b @ post) = Inr (string4 b) \<and>
    parseEndpointHost (pre @ string4 b @ CHR '':'' # Itoa n @ post) = Inr (string4 b) \<and>
    udpAddrFromHost (pre @ string4 b @ CHR '':'' # Itoa n @ post) p False = Inr (UDPAddrOf (v4_in_v6_prefix @ b) p) \<and>
    (\<exists>e. udpAddrFromHost (pre @ string4 b @ post) p True = Inl e)"
proof -
  have trim: "TrimSpace (pre @ s @ post) = s" if "s \<noteq> []" "\<not> is_space (hd s)" "\<not> is_space (last s)" for s
  proof -
    have "dropWhile is_space (pre @ s @ post) = dropWhile is_space (s @ post)"
      using assms(3) by (intro dropWhile_append2) (simp add: list_all_iff)
    moreover have "dropWhile is_space (rev post @ rev s) = dropWhile is_space (rev s)"
      using assms(4) by (intro dropWhile_append2) (simp add: list_all_iff)
    moreover have "dropWhile is_space (s @ post) = s @ post" using that by (cases s) auto
    moreover have "dropWhile is_space (rev s) = rev s" using that by (cases s rule: rev_cases) auto
    ultimately show ?thesis by (simp add: TrimSpace_def trim_func_def)
  qed
  have ne: "string4 b \<noteq> []" using assms(1) by (intro string4_nonempty) auto
  have sp: "\<not> is_space (hd (string4 b))" "\<not> is_space (last (string4 b))"
    using string4_chars [OF addr_chars_space, of b] ne by (auto simp: list_all_iff)
  have port: "Itoa n \<noteq> []" "\<not> is_space (last (Itoa n))"
    using assms(2) dec_digits_all_digit [of "nat n"] by (auto simp: Itoa_def list_all_iff digit_not_space)
  have t1: "TrimSpace (pre @ string4 b @ post) = string4 b" by (rule trim [OF ne sp])
  have t2: "TrimSpace (pre @ string4 b @ CHR '':'' # Itoa n @ post) = string4 b @ CHR '':'' # Itoa n"
    using trim [of "string4 b @ CHR '':'' # Itoa n"] ne sp(1) port by simp
  have none: "SplitHostPort (string4 b) = Inl MissingPort"
    using string4_plain(4) [of b] by (simp add: SplitHostPort_def LastIndexByte_None [THEN iffD2])
  have join: "JoinHostPort (string4 b) (Itoa n) = string4 b @ CHR '':'' # Itoa n"
    using string4_plain(4) [of b] by (simp add: JoinHostPort_def IndexByte_None [THEN iffD2])
  have some: "SplitHostPort (string4 b @ CHR '':'' # Itoa n) = Inr (string4 b, Itoa n)"
    using SplitHostPort_JoinHostPort_Itoa [of "string4 b" n] string4_plain(3) [of b] by (simp add: join no_brackets_def)
  have pa: "ParseAddr (string4 b) = Inr (Addr4 b)" using ParseAddr_AddrString4 [OF assms(1)] by simp
  have h1: "parseEndpointHost (pre @ string4 b @ post) = Inr (string4 b)"
    by (simp add: parseEndpointHost_def t1 ne none string4_plain(2) pa)
  have h2: "parseEndpointHost (pre @ string4 b @ CHR '':'' # Itoa n @ post) = Inr (string4 b)"
    by (simp add: parseEndpointHost_def t2 some string4_plain(2) pa)
  have "To4 (v4_in_v6_prefix @ b) \<noteq> None" using assms(1) by (simp add: To4_def)
  with h1 h2 ParseIP_string4 [OF assms(1)] show ?thesis by (auto simp: udpAddrFromHost_def endpoint_ip_def)
qed

theorem parseEndpointHost_v4_witness:
  "parseEndpointHost '' 162.159.198.1:443'' = Inr ''162.159.198.1''"
proof -
  have s: "string4 [162, 159, 198, 1] = ''162.159.198.1''" "Itoa 443 = ''443''" by code_simp+
  show ?thesis using parseEndpointHost_v4 [of "[162, 159, 198, 1]" 443 "'' ''" "[]"] by (simp add: s is_space_def)
qed

text \<open>
  normalising the address of a DNS server gives a host and a port between 1 and 65535, and is
  idempotent, for addresses without brackets and zone.
\<close>

theorem normalizeDNSServerAddress_idem:
  assumes "normalizeDNSServerAddress dns = Inr r" "no_brackets dns" "CHR ''%'' \<notin> set dns"
  shows "normalizeDNSServerAddress r = Inr r \<and> (\<exists>h p. SplitHostPort r = Inr (h, p) \<and> h \<noteq> [] \<and> valid_dns_port p)"
proof -
  let ?d = "TrimSpace dns"
  have ne: "?d \<noteq> []" using assms(1) by (auto simp: normalizeDNSServerAddress_def)
  have sub: "set ?d \<subseteq> set dns" by (simp add: TrimSpace_def set_trim_func)
  then have nb: "no_brackets ?d" and nz: "CHR ''%'' \<notin> set ?d" using assms(2,3) by (auto simp: no_brackets_def)
  have hd: "\<not> is_space (hd ?d)" using trim_func_ends [of is_space dns] ne by (simp add: TrimSpace_def)
  have tr: "Trim ?d ''[]'' = ?d" unfolding Trim_def using nb by (intro trim_func_none) (auto simp: no_brackets_def list_all_iff)
  consider (hp) h p where "SplitHostPort ?d = Inr (h, p)" "h \<noteq> []" "valid_dns_port p" "r = JoinHostPort h p"
    | (ip) a where "ParseAddr ?d = Inr a" "r = JoinHostPort (AddrString a) ''53''"
    | (name) "r = JoinHostPort ?d ''53''"
    using assms(1) ne tr
    by (auto simp: normalizeDNSServerAddress_def Let_def split: sum.splits prod.splits if_splits)
  then show ?thesis
  proof cases
    case hp
    note sp = SplitHostPort_plain [OF hp(1) nb]
    have "no_brackets h" "no_brackets p" using nb sp(1) by (metis no_brackets_simps(2,3))+
    moreover have "\<not> is_space (hd h)" using hd sp(1) hp(2) by (cases h) auto
    ultimately show ?thesis using dns_fixed [OF hp(4,2)] hp(2,3) sp(3) by auto
  next
    case ip
    note pl = parsed_plain [OF ip(1) nz]
    show ?thesis using dns_fixed [OF ip(2) pl port53(1,3,2)] pl(1) port53(1) by auto
  next
    case name
    show ?thesis using dns_fixed [OF name ne nb hd port53(1,3,2)] ne port53(1) by auto
  qed
qed

theorem normalizeDNSServerAddress_idem_witness:
  "normalizeDNSServerAddress ''dns.example'' = Inr ''dns.example:53'' \<and>
   normalizeDNSServerAddress ''dns.example:53'' = Inr ''dns.example:53''"
proof -
  have n: "normalizeDNSServerAddress ''dns.example'' = Inr ''dns.example:53''" by code_simp
  from normalizeDNSServerAddress_idem [OF n] n show ?thesis by simp
qed

text \<open>The endpoint of the default HTTP/2 configuration.\<close>

theorem selectMasqueEndpoint_typed_witness:
  "\<exists>i. selectMasqueEndpoint (sample_config\<lparr>EndpointH2V4 := []\<rparr>) 443 False True = Inr (TCPAddrOf i 443) \<and> length i = 16"
proof -
  have "string4 [162, 159, 198, 2] = ''162.159.198.2''" by code_simp
  then have h: "DefaultEndpointH2V4 = string4 [162, 159, 198, 2]" by (simp add: DefaultEndpointH2V4_def)
  have t: "TrimSpace [] = []" by (simp add: TrimSpace_def)
  have "parseEndpointHost DefaultEndpointH2V4 = Inr DefaultEndpointH2V4" unfolding h by code_simp
  then have s: "selectMasqueEndpoint (sample_config\<lparr>EndpointH2V4 := []\<rparr>) 443 False True =
      Inr (TCPAddrOf (v4_in_v6_prefix @ [162, 159, 198, 2]) 443)"
    using ParseIP_string4 [of "[162, 159, 198, 2]"]
    by (simp add: selectMasqueEndpoint_def tcpAddrFromHost_def endpoint_ip_def t h [symmetric] To4_def)
  from selectMasqueEndpoint_typed [OF s] s show ?thesis by auto
qed

end
