(* ===== verification/Startup.thy ===== *)
theory Startup
  imports Device_Names Cloudflare_Api Config Endpoints
begin

text \<open>
  What \<open>uscf proxy\<close> does before it serves, \<open>src/cmd/proxy.go\<close>: choosing between the stored account
  and a registration, the one-shot token file, the registration itself, the command-line overrides.
  The state is the loaded configuration with the file system (\<open>app\<close>) and the state of the
  registration service. A flag that counts only when given is an option. The last step of
  \<open>runProxyCmd\<close>, serving, is the value \<open>launch\<close> it hands over.
\<close>

section \<open>State and environment\<close>

record flags =
  fl_config :: string
  fl_license :: string
  fl_jwt :: string
  fl_reset_config :: bool
  fl_name :: string
  fl_locale :: string
  fl_model :: string
  fl_accept_tos :: bool
  fl_bind_address :: string
  fl_port :: string
  fl_username :: string
  fl_password :: string
  fl_use_ipv6 :: "bool option"
  fl_http2 :: "bool option"
  fl_l4 :: "bool option"
  fl_wg :: "bool option"
  fl_l4_udp :: "string option"
  fl_experimental :: bool
  fl_wg_account :: string
  fl_wg_keepalive :: int

text \<open>
  What a run takes from outside: the service, the YAML library, the text of a JSON file, random bytes,
  the answer at the prompt, the time, the key pair of \<open>GenerateEcKeyPair\<close> and the host name.
\<close>

record 's sys =
  sy_http :: "'s http"
  sy_yaml :: yaml_lib
  sy_json_text :: "json \<Rightarrow> string"
  sy_rand1 :: "(gerr, byte list) result"
  sy_rand2 :: "(gerr, byte list) result"
  sy_scan :: "(gerr, string) result"
  sy_now :: civil
  sy_keypair :: "(gerr, byte list \<times> byte list) result"
  sy_hostname :: "(gerr, string) result"

record 's world =
  w_app :: app
  w_service :: 's

section \<open>The decision\<close>

datatype startupAction = startupUseExisting | startupRegisterFree | startupRegisterPremium | startupRegisterTeam

record startupDecision =
  sd_Action :: startupAction
  sd_EffectiveMode :: string
  sd_ShouldPersistMode :: bool
  sd_ModeWasInvalid :: bool
  sd_IgnoredLicense :: bool
  sd_IgnoredJWT :: bool

definition isStartupConfigValid :: "Config \<Rightarrow> bool" where
  "isStartupConfigValid cfg = (TrimSpace (ID cfg) \<noteq> [] \<and> TrimSpace (AccessToken cfg) \<noteq> [])"

definition resolveAccountMode :: "Config \<Rightarrow> string \<Rightarrow> string \<times> bool \<times> bool" where
  "resolveAccountMode cfg customLicense =
     (let raw = TrimSpace (AccountMode cfg); normalized = ToLower raw in
      if normalized = accountModeFree \<or> normalized = accountModePremium \<or> normalized = accountModeTeam then
        (if raw \<noteq> normalized then (normalized, True, False) else (normalized, False, False))
      else if normalized = [] then
        (if HasPrefix (TrimSpace (ID cfg)) ''t.'' then (accountModeTeam, True, False)
         else if customLicense \<noteq> [] \<and> customLicense = TrimSpace (License cfg) then (accountModePremium, True, False)
         else (accountModeFree, True, False))
      else (accountModeFree, True, True))"

definition registerDecision :: "startupAction \<Rightarrow> string \<Rightarrow> startupDecision" where
  "registerDecision a m =
     \<lparr>sd_Action = a, sd_EffectiveMode = m, sd_ShouldPersistMode = False, sd_ModeWasInvalid = False,
      sd_IgnoredLicense = False, sd_IgnoredJWT = False\<rparr>"

definition decideStartupAction :: "bool \<Rightarrow> Config \<Rightarrow> string \<Rightarrow> string \<Rightarrow> (gerr, startupDecision) result" where
  "decideStartupAction configLoaded cfg customLicense0 customJWT0 =
     (let customLicense = TrimSpace customLicense0; customJWT = TrimSpace customJWT0 in
      if customLicense \<noteq> [] \<and> customJWT \<noteq> [] then Inl (EText ''cannot use --license and --jwt together'')
      else if \<not> configLoaded \<or> \<not> isStartupConfigValid cfg then
        (if customLicense \<noteq> [] then Inr (registerDecision startupRegisterPremium accountModePremium)
         else if customJWT \<noteq> [] then Inr (registerDecision startupRegisterTeam accountModeTeam)
         else Inr (registerDecision startupRegisterFree accountModeFree))
      else
        (case resolveAccountMode cfg customLicense of (effectiveMode, shouldPersist, modeWasInvalid) \<Rightarrow>
          let decision = \<lparr>sd_Action = startupUseExisting, sd_EffectiveMode = effectiveMode,
                          sd_ShouldPersistMode = shouldPersist, sd_ModeWasInvalid = modeWasInvalid,
                          sd_IgnoredLicense = False, sd_IgnoredJWT = False\<rparr> in
          if effectiveMode = accountModePremium \<or> effectiveMode = accountModeTeam then
            Inr (decision\<lparr>sd_Action := startupUseExisting, sd_IgnoredLicense := (customLicense \<noteq> []),
                          sd_IgnoredJWT := (customJWT \<noteq> [])\<rparr>)
          else if effectiveMode = accountModeFree then
            (if customLicense \<noteq> [] then
               Inr (decision\<lparr>sd_Action := startupRegisterPremium, sd_EffectiveMode := accountModePremium\<rparr>)
             else if customJWT \<noteq> [] then
               Inr (decision\<lparr>sd_Action := startupRegisterTeam, sd_EffectiveMode := accountModeTeam\<rparr>)
             else Inr (decision\<lparr>sd_Action := startupUseExisting\<rparr>))
          else Inl (EText (''unsupported account mode: '' @ effectiveMode))))"

section \<open>The token file\<close>

definition jwtFilePathFromConfigPath :: "string \<Rightarrow> string" where
  "jwtFilePathFromConfigPath configPath0 =
     (let configPath = (if TrimSpace configPath0 = [] then ''config.json'' else configPath0)
      in JoinPath [Dir configPath, ''jwt.txt''])"

fun file_text :: "(json \<Rightarrow> string) \<Rightarrow> content \<Rightarrow> string" where
  "file_text jt (OtherText s) = s"
| "file_text jt (JsonText j) = jt j"

text \<open>The token (empty when there is none) and the error, as the source returns both.\<close>

definition consumeJWTFromSiblingFile :: "(json \<Rightarrow> string) \<Rightarrow> fsys \<Rightarrow> string \<Rightarrow> fsys \<times> string \<times> gerr option" where
  "consumeJWTFromSiblingFile jt fs configPath =
     (let jwtPath = jwtFilePathFromConfigPath configPath in
      case os_ReadFile fs jwtPath of
        Inl err \<Rightarrow>
          if errors_Is err ENotExist then (fs, [], None)
          else (fs, [], Some (EWrap (''failed to read jwt file '' @ go_quote jwtPath @ '': '') err []))
      | Inr raw \<Rightarrow>
          let token = TrimSpace (file_text jt raw) in
          if token = [] then (fs, [], None)
          else (case os_WriteFile fs jwtPath (OtherText []) 384 of
                  Inl err \<Rightarrow> (fs, token, Some (EWrap (''failed to clear jwt file '' @ go_quote jwtPath @ '': '') err []))
                | Inr fs' \<Rightarrow> (fs', token, None)))"

definition resolveJWTFromFlagOrFile :: "(json \<Rightarrow> string) \<Rightarrow> fsys \<Rightarrow> string \<Rightarrow> bool \<Rightarrow> Config \<Rightarrow> string \<Rightarrow> string
    \<Rightarrow> fsys \<times> string \<times> bool \<times> gerr option" where
  "resolveJWTFromFlagOrFile jt fs configPath configLoaded cfg customLicense0 customJWT0 =
     (let customLicense = TrimSpace customLicense0; customJWT = TrimSpace customJWT0 in
      if customJWT \<noteq> [] \<or> customLicense \<noteq> [] then (fs, customJWT, False, None)
      else case decideStartupAction configLoaded cfg customLicense [] of
        Inl err \<Rightarrow> (fs, customJWT, False, Some err)
      | Inr decision \<Rightarrow>
          if sd_EffectiveMode decision \<noteq> accountModeFree then (fs, customJWT, False, None)
          else (case consumeJWTFromSiblingFile jt fs configPath of
                  (fs', fileJWT, consumeErr) \<Rightarrow>
                    if fileJWT = [] then (fs', customJWT, False, consumeErr)
                    else if consumeErr \<noteq> None then (fs', fileJWT, True, consumeErr)
                    else (fs', fileJWT, True, None)))"

section \<open>Registration\<close>

definition pickAccountLicense :: "AccountData \<Rightarrow> AccountData \<Rightarrow> string \<Rightarrow> string" where
  "pickAccountLicense primary fallback customLicense =
     (if ac_License (ad_Account primary) \<noteq> [] then ac_License (ad_Account primary)
      else if ac_License (ad_Account fallback) \<noteq> [] then ac_License (ad_Account fallback)
      else customLicense)"

text \<open>The text of an error with the messages of the API when there are any.\<close>

definition api_error_text :: "'s sys \<Rightarrow> string \<Rightarrow> APIError option \<times> gerr \<Rightarrow> gerr" where
  "api_error_text y what r =
     (case r of
        (Some apiErr, e) \<Rightarrow>
          EText (what @ err_text (ht_text (sy_http y)) e @ '' (API errors: '' @ ErrorsAsString ''; '' apiErr @ '')'')
      | (None, e) \<Rightarrow> EText (what @ err_text (ht_text (sy_http y)) e))"

definition registration_jwt :: "string \<Rightarrow> string \<Rightarrow> (gerr, string) result" where
  "registration_jwt accountMode customJWT =
     (if accountMode = accountModeFree \<or> accountMode = accountModePremium then Inr []
      else if accountMode = accountModeTeam then
        (if customJWT = [] then Inl (EText ''Failed to register: jwt is required for team mode'') else Inr customJWT)
      else Inl (EText (''Failed to register: unsupported account mode '' @ go_quote accountMode)))"

text \<open>The license step of a premium registration; the account is unchanged in the other modes.\<close>

definition apply_license :: "'s sys \<Rightarrow> string \<Rightarrow> string \<Rightarrow> AccountData \<Rightarrow> 's \<Rightarrow> 's \<times> (gerr, AccountData) result" where
  "apply_license y accountMode customLicense accountData s =
     (if accountMode = accountModePremium then
        if customLicense = [] then (s, Inl (EText ''Failed to apply license: license is required for premium mode''))
        else (case RebindLicense (sy_http y) accountData customLicense s of
                (s', Inl r) \<Rightarrow> (s', Inl (api_error_text y ''Failed to apply license: '' r))
              | (s', Inr (finalAccount, changed)) \<Rightarrow>
                  (s', Inr (accountData\<lparr>ad_Account := (ad_Account accountData)\<lparr>ac_License := ac_License finalAccount\<rparr>\<rparr>)))
      else (s, Inr accountData))"

text \<open>The configuration built from the answers, after the key has been enrolled.\<close>

definition registered_config :: "'s sys \<Rightarrow> string \<Rightarrow> string \<Rightarrow> string \<Rightarrow> byte list \<Rightarrow> AccountData \<Rightarrow> AccountData
    \<Rightarrow> (gerr, Config) result" where
  "registered_config y accountMode customLicense deviceName privKey accountData updated =
     (case slice (dc_Peers (ad_Config updated)) of
        [] \<Rightarrow> Inl (EText ''Failed to save config: register response has no peers'')
      | peer # _ \<Rightarrow>
          bind_res (map_err (\<lambda>e. errV (sy_http y) ''Failed to parse IPv4 endpoint: '' e)
                     (parseEndpointHost (ep_V4 (pr_Endpoint peer)))) (\<lambda>endpointV4.
          bind_res (map_err (\<lambda>e. errV (sy_http y) ''Failed to parse IPv6 endpoint: '' e)
                     (parseEndpointHost (ep_V6 (pr_Endpoint peer)))) (\<lambda>endpointV6.
            Inr (InitNewConfig (b64_encode privKey) endpointV4 endpointV6 (pr_PublicKey peer)
                   (pickAccountLicense updated accountData customLicense) (ad_ID updated) (ad_Token accountData)
                   accountMode (ad4_V4 (if_Addresses (dc_Interface (ad_Config updated))))
                   (ad6_V6 (if_Addresses (dc_Interface (ad_Config updated)))) deviceName))))"

text \<open>Everything up to the new configuration talks to the service only.\<close>

definition register_account :: "'s sys \<Rightarrow> flags \<Rightarrow> string \<Rightarrow> string \<Rightarrow> string \<Rightarrow> 's \<Rightarrow> 's \<times> (gerr, Config) result" where
  "register_account y fl accountMode customLicense customJWT s =
     (case registration_jwt accountMode customJWT of
        Inl e \<Rightarrow> (s, Inl e)
      | Inr registerJWT \<Rightarrow>
     (case Register (sy_http y) (sy_rand1 y) (sy_rand2 y) (sy_scan y) (sy_now y) (fl_model fl) (fl_locale fl) registerJWT
             (fl_accept_tos fl) s of
        (s1, Inl e) \<Rightarrow> (s1, Inl (errV (sy_http y) ''Failed to register: '' e))
      | (s1, Inr accountData0) \<Rightarrow>
          let deviceName = resolveRegistrationDeviceName (sy_hostname y) accountMode (fl_name fl) (ad_ID accountData0) in
     (case apply_license y accountMode customLicense accountData0 s1 of
        (s2, Inl e) \<Rightarrow> (s2, Inl e)
      | (s2, Inr accountData) \<Rightarrow>
     (case sy_keypair y of
        Inl e \<Rightarrow> (s2, Inl (errV (sy_http y) ''Failed to generate key pair: '' e))
      | Inr (privKey, pubKey) \<Rightarrow>
     (case EnrollKey (sy_http y) accountData pubKey deviceName s2 of
        (s3, Inl r) \<Rightarrow> (s3, Inl (api_error_text y ''Failed to enroll key: '' r))
      | (s3, Inr updated) \<Rightarrow>
          (s3, registered_config y accountMode customLicense deviceName privKey accountData updated))))))"

definition handleRegistration :: "'s sys \<Rightarrow> flags \<Rightarrow> string \<Rightarrow> string \<Rightarrow> string \<Rightarrow> string \<Rightarrow> 's world
    \<Rightarrow> 's world \<times> gerr option" where
  "handleRegistration y fl configPath accountMode customLicense customJWT w =
     (case register_account y fl accountMode customLicense customJWT (w_service w) of
        (s', Inl e) \<Rightarrow> (w\<lparr>w_service := s'\<rparr>, Some e)
      | (s', Inr cfg) \<Rightarrow>
          (case SaveConfig (sy_yaml y) ((w_app w)\<lparr>AppConfig := cfg\<rparr>) configPath of
             (a, Some e) \<Rightarrow> (\<lparr>w_app = a, w_service = s'\<rparr>, Some (errV (sy_http y) ''Failed to save config: '' e))
           | (a, None) \<Rightarrow> (\<lparr>w_app = a\<lparr>ConfigLoaded := True\<rparr>, w_service = s'\<rparr>, None)))"

section \<open>Overrides\<close>

definition string_override :: "string \<Rightarrow> string \<Rightarrow> ((string \<Rightarrow> string) \<Rightarrow> SocksConfig \<Rightarrow> SocksConfig)
    \<Rightarrow> SocksConfig \<times> string list \<Rightarrow> SocksConfig \<times> string list" where
  "string_override v name upd r =
     (case r of (c, os) \<Rightarrow> if v \<noteq> [] then (upd (\<lambda>_. v) c, os @ [name]) else (c, os))"

definition bool_override :: "bool option \<Rightarrow> string \<Rightarrow> ((bool \<Rightarrow> bool) \<Rightarrow> SocksConfig \<Rightarrow> SocksConfig)
    \<Rightarrow> SocksConfig \<times> string list \<Rightarrow> SocksConfig \<times> string list" where
  "bool_override v name upd r =
     (case r of (c, os) \<Rightarrow> (case v of Some b \<Rightarrow> (upd (\<lambda>_. b) c, os @ [name]) | None \<Rightarrow> (c, os)))"

definition l4_udp_override :: "string option \<Rightarrow> SocksConfig \<times> string list \<Rightarrow> SocksConfig \<times> string list" where
  "l4_udp_override v r =
     (case r of (c, os) \<Rightarrow>
        (case v of
           Some raw \<Rightarrow>
             if ToLower (TrimSpace raw) \<in> {L4UDPBlock, L4UDPDirect, L4UDPTunnel}
             then (c\<lparr>L4UDP := ToLower (TrimSpace raw)\<rparr>, os @ [''l4_udp'']) else (c, os)
         | None \<Rightarrow> (c, os)))"

text \<open>\<open>configChanged\<close> is set exactly where a name is appended to the overrides.\<close>

definition applySocksFlagOverrides :: "flags \<Rightarrow> Config \<Rightarrow> Config \<times> bool \<times> string list" where
  "applySocksFlagOverrides fl cfg =
     (case l4_udp_override (fl_l4_udp fl)
             (bool_override (fl_wg fl) ''wg'' WG_update
             (bool_override (fl_l4 fl) ''l4'' L4_update
             (bool_override (fl_http2 fl) ''http2'' HTTP2_update
             (bool_override (fl_use_ipv6 fl) ''use_ipv6'' UseIPv6_update
             (string_override (fl_password fl) ''password'' Password_update
             (string_override (fl_username fl) ''username'' Username_update
             (string_override (fl_port fl) ''port'' Port_update
             (string_override (fl_bind_address fl) ''bind_address'' BindAddress_update (Socks cfg, []))))))))) of
        (c, overrides) \<Rightarrow> (cfg\<lparr>Socks := c\<rparr>, overrides \<noteq> [], overrides))"

definition wgModeSelected :: "flags \<Rightarrow> Config \<Rightarrow> bool" where
  "wgModeSelected fl cfg = (case fl_wg fl of Some v \<Rightarrow> v | None \<Rightarrow> WG (Socks cfg))"

definition rejectConflictingTransport :: "Config \<Rightarrow> gerr option" where
  "rejectConflictingTransport cfg =
     (if L4 (Socks cfg) then Some (EText ''--wg cannot be combined with l4 mode; disable socks.l4 (or pass --l4=false) to use WireGuard'')
      else if HTTP2 (Socks cfg) then
        Some (EText ''--wg cannot be combined with http2 mode; disable socks.http2 (or pass --http2=false) to use WireGuard'')
      else None)"

section \<open>The command\<close>

text \<open>
  How serving starts: the L4 chain or the tunnel, by \<open>setupAndRunSocksProxy\<close>, or the WireGuard mode.
\<close>

datatype launch = LaunchWG string | LaunchL4 "string list" bool | LaunchTunnel "string list" bool

definition choose_chain :: "Config \<Rightarrow> string list \<Rightarrow> bool \<Rightarrow> launch" where
  "choose_chain cfg overrides configSaved =
     (if L4 (Socks cfg) then LaunchL4 overrides configSaved else LaunchTunnel overrides configSaved)"

text \<open>The branch \<open>startupUseExisting\<close>: the inferred mode is stored, and the SOCKS block reset on request.\<close>

definition use_existing :: "'s sys \<Rightarrow> flags \<Rightarrow> string \<Rightarrow> startupDecision \<Rightarrow> app \<Rightarrow> app \<times> gerr option" where
  "use_existing y fl configPath decision a =
     (let a1 = (if ConfigLoaded a \<and> sd_ShouldPersistMode decision
                then fst (SaveConfig (sy_yaml y) (a\<lparr>AppConfig := (AppConfig a)\<lparr>AccountMode := sd_EffectiveMode decision\<rparr>\<rparr>) configPath)
                else a)
      in if fl_reset_config fl \<and> ConfigLoaded a1 then
           (let sniAddress = SNIAddress (Socks (AppConfig a1));
                cfg = (AppConfig a1)\<lparr>Socks := GetDefaultSocksConfig\<lparr>SNIAddress := sniAddress\<rparr>\<rparr>
            in case SaveConfig (sy_yaml y) (a1\<lparr>AppConfig := cfg\<rparr>) configPath of
                 (a2, Some e) \<Rightarrow> (a2, Some (EWrap ''failed to save reset configuration: '' e []))
               | (a2, None) \<Rightarrow> (a2, None))
         else (a1, None))"

definition register_branch :: "'s sys \<Rightarrow> flags \<Rightarrow> string \<Rightarrow> startupDecision \<Rightarrow> string \<Rightarrow> string \<Rightarrow> 's world
    \<Rightarrow> 's world \<times> gerr option" where
  "register_branch y fl configPath decision customLicense customJWT w =
     (case handleRegistration y fl configPath (sd_EffectiveMode decision) customLicense customJWT w of
        (w1, Some e) \<Rightarrow> (w1, Some e)
      | (w1, None) \<Rightarrow>
          let a = w_app w1;
              cfg = (AppConfig a)\<lparr>Socks := (Socks (AppConfig a))\<lparr>SNIAddress := ConnectSNI\<rparr>\<rparr>
          in (w1\<lparr>w_app := fst (SaveConfig (sy_yaml y) (a\<lparr>AppConfig := cfg\<rparr>) configPath)\<rparr>, None))"

definition finish_startup :: "'s sys \<Rightarrow> flags \<Rightarrow> string \<Rightarrow> 's world \<Rightarrow> 's world \<times> (gerr, launch) result" where
  "finish_startup y fl configPath w =
     (case applySocksFlagOverrides fl (AppConfig (w_app w)) of
        (cfg, configChanged, overrides) \<Rightarrow>
          let a1 = (w_app w)\<lparr>AppConfig := cfg\<rparr>;
              a2 = (if configChanged then fst (SaveConfig (sy_yaml y) a1 configPath) else a1)
          in (w\<lparr>w_app := a2\<rparr>, Inr (choose_chain (AppConfig a2) overrides configChanged)))"

definition runProxyCmd :: "'s sys \<Rightarrow> flags \<Rightarrow> 's world \<Rightarrow> 's world \<times> (gerr, launch) result" where
  "runProxyCmd y fl w =
     (let a = w_app w; configPath = ResolveConfigPath (app_fs a) (fl_config fl) in
      if wgModeSelected fl (AppConfig a) then (w, Inr (LaunchWG configPath))
      else
        let customLicense = TrimSpace (fl_license fl) in
        (case resolveJWTFromFlagOrFile (sy_json_text y) (app_fs a) configPath (ConfigLoaded a) (AppConfig a) customLicense
               (TrimSpace (fl_jwt fl)) of
           (fs1, customJWT, jwtFromFile, jwtResolveErr) \<Rightarrow>
             let w1 = w\<lparr>w_app := a\<lparr>app_fs := fs1\<rparr>\<rparr> in
             (case decideStartupAction (ConfigLoaded a) (AppConfig a) customLicense customJWT of
                Inl e \<Rightarrow> (w1, Inl e)
              | Inr decision \<Rightarrow>
                  (case (if sd_Action decision = startupUseExisting
                         then (case use_existing y fl configPath decision (w_app w1) of (a', r) \<Rightarrow> (w1\<lparr>w_app := a'\<rparr>, r))
                         else register_branch y fl configPath decision customLicense customJWT w1) of
                     (w2, Some e) \<Rightarrow> (w2, Inl e)
                   | (w2, None) \<Rightarrow> finish_startup y fl configPath w2))))"

section \<open>Lemmas\<close>

lemma SaveConfig_frame [simp]:
  "AppConfig (fst (SaveConfig yl a p)) = AppConfig a"
  "ConfigLoaded (fst (SaveConfig yl a p)) = ConfigLoaded a"
  by (auto simp: SaveConfig_def Let_def split: sum.splits)

lemma SaveConfig_pair:
  "SaveConfig yl a p = (a', r) \<Longrightarrow> AppConfig a' = AppConfig a \<and> ConfigLoaded a' = ConfigLoaded a"
  using SaveConfig_frame [of yl a p] by simp

lemma resolveAccountMode_range:
  "fst (resolveAccountMode cfg l) \<in> {accountModeFree, accountModePremium, accountModeTeam}"
  by (auto simp: resolveAccountMode_def Let_def)

lemma account_modes_distinct [simp]:
  "accountModeFree \<noteq> accountModePremium" "accountModeFree \<noteq> accountModeTeam" "accountModePremium \<noteq> accountModeTeam"
  "accountModePremium \<noteq> accountModeFree" "accountModeTeam \<noteq> accountModeFree" "accountModeTeam \<noteq> accountModePremium"
  by (simp_all add: account_modes)

lemma resolveAccountMode_stored:
  assumes "ToLower (TrimSpace (AccountMode cfg)) \<in> {accountModeFree, accountModePremium, accountModeTeam}"
  shows "fst (resolveAccountMode cfg l) = ToLower (TrimSpace (AccountMode cfg))"
  using assms by (auto simp: resolveAccountMode_def Let_def)

lemma decide_paid:
  assumes "loaded" "isStartupConfigValid cfg"
    "ToLower (TrimSpace (AccountMode cfg)) \<in> {accountModePremium, accountModeTeam}"
    "\<not> (TrimSpace lic \<noteq> [] \<and> TrimSpace jwt \<noteq> [])"
  shows "\<exists>d. decideStartupAction loaded cfg lic jwt = Inr d \<and> sd_Action d = startupUseExisting \<and>
    sd_EffectiveMode d = ToLower (TrimSpace (AccountMode cfg)) \<and>
    sd_IgnoredLicense d = (TrimSpace lic \<noteq> []) \<and> sd_IgnoredJWT d = (TrimSpace jwt \<noteq> [])"
proof -
  obtain m sp mi where r: "resolveAccountMode cfg (TrimSpace lic) = (m, sp, mi)" by (metis prod_cases3)
  then have "m = ToLower (TrimSpace (AccountMode cfg))"
    using resolveAccountMode_stored [of cfg "TrimSpace lic"] assms(3) by auto
  with r assms show ?thesis by (auto simp: decideStartupAction_def Let_def)
qed

text \<open>A decision to register names its mode, and comes with the flag the mode needs.\<close>

lemma decide_register:
  assumes "decideStartupAction loaded cfg lic jwt = Inr d"
  shows "sd_EffectiveMode d \<in> {accountModeFree, accountModePremium, accountModeTeam} \<and>
    (sd_Action d = startupRegisterFree \<longrightarrow> sd_EffectiveMode d = accountModeFree) \<and>
    (sd_Action d = startupRegisterPremium \<longrightarrow> sd_EffectiveMode d = accountModePremium \<and> TrimSpace lic \<noteq> []) \<and>
    (sd_Action d = startupRegisterTeam \<longrightarrow> sd_EffectiveMode d = accountModeTeam \<and> TrimSpace jwt \<noteq> [])"
proof -
  obtain m sp mi where r: "resolveAccountMode cfg (TrimSpace lic) = (m, sp, mi)" by (metis prod_cases3)
  then have "m \<in> {accountModeFree, accountModePremium, accountModeTeam}"
    using resolveAccountMode_range [of cfg "TrimSpace lic"] by simp
  with r assms show ?thesis
    by (auto simp: decideStartupAction_def registerDecision_def Let_def split: if_splits)
qed

lemma decide_total:
  "decideStartupAction loaded cfg lic jwt = Inl e \<longleftrightarrow>
     TrimSpace lic \<noteq> [] \<and> TrimSpace jwt \<noteq> [] \<and> e = EText ''cannot use --license and --jwt together''"
proof -
  obtain m sp mi where r: "resolveAccountMode cfg (TrimSpace lic) = (m, sp, mi)" by (metis prod_cases3)
  then have "m \<in> {accountModeFree, accountModePremium, accountModeTeam}"
    using resolveAccountMode_range [of cfg "TrimSpace lic"] by simp
  with r show ?thesis by (auto simp: decideStartupAction_def Let_def)
qed

lemma decide_trim [simp]: "decideStartupAction loaded cfg (TrimSpace lic) jwt = decideStartupAction loaded cfg lic jwt"
  "decideStartupAction loaded cfg lic (TrimSpace jwt) = decideStartupAction loaded cfg lic jwt"
  by (simp_all add: decideStartupAction_def)

text \<open>Overrides touch the SOCKS block only.\<close>

lemma applySocksFlagOverrides_key:
  "extractKeyConfig (fst (applySocksFlagOverrides fl cfg)) = extractKeyConfig cfg"
  by (simp add: applySocksFlagOverrides_def extractKeyConfig_def split: prod.splits)

lemma string_override_frame:
  assumes "\<And>f c. L4 (upd f c) = L4 c" "\<And>f c. HTTP2 (upd f c) = HTTP2 c"
  shows "L4 (fst (string_override v n upd r)) = L4 (fst r)" "HTTP2 (fst (string_override v n upd r)) = HTTP2 (fst r)"
  using assms by (simp_all add: string_override_def split: prod.split)

lemma bool_override_frame:
  "(\<And>f c. L4 (upd f c) = L4 c) \<Longrightarrow> L4 (fst (bool_override v n upd r)) = L4 (fst r)"
  "(\<And>f c. HTTP2 (upd f c) = HTTP2 c) \<Longrightarrow> HTTP2 (fst (bool_override v n upd r)) = HTTP2 (fst r)"
  "L4 (fst (bool_override v n L4_update r)) = (case v of Some b \<Rightarrow> b | None \<Rightarrow> L4 (fst r))"
  "HTTP2 (fst (bool_override v n HTTP2_update r)) = (case v of Some b \<Rightarrow> b | None \<Rightarrow> HTTP2 (fst r))"
  by (simp_all add: bool_override_def split: prod.split option.split)

lemma l4_udp_override_frame:
  "L4 (fst (l4_udp_override v r)) = L4 (fst r)" "HTTP2 (fst (l4_udp_override v r)) = HTTP2 (fst r)"
  by (simp_all add: l4_udp_override_def split: prod.split option.split)

lemma applySocksFlagOverrides_transport:
  "L4 (Socks (fst (applySocksFlagOverrides fl cfg))) = (case fl_l4 fl of Some b \<Rightarrow> b | None \<Rightarrow> L4 (Socks cfg))"
  "HTTP2 (Socks (fst (applySocksFlagOverrides fl cfg))) = (case fl_http2 fl of Some b \<Rightarrow> b | None \<Rightarrow> HTTP2 (Socks cfg))"
  by (simp_all add: applySocksFlagOverrides_def split_beta l4_udp_override_frame bool_override_frame string_override_frame
      split: option.split)

lemma finish_startup_frame:
  "w_service (fst (finish_startup y fl p w)) = w_service w"
  "extractKeyConfig (AppConfig (w_app (fst (finish_startup y fl p w)))) = extractKeyConfig (AppConfig (w_app w))"
  using applySocksFlagOverrides_key [of fl "AppConfig (w_app w)"]
  by (auto simp: finish_startup_def Let_def split: prod.splits)

lemma use_existing_key:
  "(extractKeyConfig (AppConfig (fst (use_existing y fl p d a))))\<lparr>key_AccountMode := m\<rparr> =
   (extractKeyConfig (AppConfig a))\<lparr>key_AccountMode := m\<rparr>"
  by (auto simp: use_existing_def Let_def extractKeyConfig_def dest!: SaveConfig_pair split: prod.splits option.splits)

text \<open>The loaded configuration of a successful registration.\<close>

lemma register_account_config:
  assumes "register_account y fl m lic jwt s = (s', Inr cfg)"
  shows "Socks cfg = GetDefaultSocksConfig" "Logging cfg = GetDefaultLoggingConfig" "AccountMode cfg = m"
  using assms
  by (auto simp: register_account_def registered_config_def InitNewConfig_def Let_def bind_res_eq_Inr
      split: sum.splits prod.splits list.splits)

lemma handleRegistration_ok:
  assumes "handleRegistration y fl p m lic jwt w = (w', None)"
  obtains s' cfg a where "register_account y fl m lic jwt (w_service w) = (s', Inr cfg)"
    "SaveConfig (sy_yaml y) ((w_app w)\<lparr>AppConfig := cfg\<rparr>) p = (a, None)"
    "w' = \<lparr>w_app = a\<lparr>ConfigLoaded := True\<rparr>, w_service = s'\<rparr>" "AppConfig a = cfg"
proof -
  obtain s' r where reg: "register_account y fl m lic jwt (w_service w) = (s', r)" by fastforce
  with assms obtain cfg where r: "r = Inr cfg" by (cases r) (auto simp: handleRegistration_def)
  obtain a e where sv: "SaveConfig (sy_yaml y) ((w_app w)\<lparr>AppConfig := cfg\<rparr>) p = (a, e)" by fastforce
  with assms reg r have "e = None" "w' = \<lparr>w_app = a\<lparr>ConfigLoaded := True\<rparr>, w_service = s'\<rparr>"
    by (auto simp: handleRegistration_def split: option.splits)
  moreover have "AppConfig a = cfg" using SaveConfig_pair [OF sv] by simp
  ultimately show ?thesis using that reg r sv by simp
qed

lemma default_socks_valid: "socks_valid GetDefaultSocksConfig" "\<not> socks_unset GetDefaultSocksConfig"
  by (simp_all add: socks_valid_def socks_unset_def GetDefaultSocksConfig_def config_consts)

lemma default_logging: "logging_or_default GetDefaultLoggingConfig = GetDefaultLoggingConfig"
  by code_simp

lemma decide_stored:
  assumes "isStartupConfigValid cfg" "AccountMode cfg \<in> {accountModeFree, accountModePremium, accountModeTeam}"
    "AccountMode cfg = accountModeFree \<longrightarrow> TrimSpace lic = [] \<and> TrimSpace jwt = []"
    "\<not> (TrimSpace lic \<noteq> [] \<and> TrimSpace jwt \<noteq> [])"
  shows "\<exists>d. decideStartupAction True cfg lic jwt = Inr d \<and> sd_Action d = startupUseExisting"
proof -
  have norm: "ToLower (TrimSpace m) = m" if "m \<in> {accountModeFree, accountModePremium, accountModeTeam}" for m
  proof -
    have "ToLower (TrimSpace ''free'') = ''free''" "ToLower (TrimSpace ''premium'') = ''premium''"
      "ToLower (TrimSpace ''team'') = ''team''" by code_simp+
    with that show ?thesis by (auto simp: account_modes)
  qed
  obtain m sp mi where r: "resolveAccountMode cfg (TrimSpace lic) = (m, sp, mi)" by (metis prod_cases3)
  then have "m = AccountMode cfg"
    using resolveAccountMode_stored [of cfg "TrimSpace lic"] assms(2) norm by auto
  with r assms show ?thesis by (auto simp: decideStartupAction_def Let_def)
qed

section \<open>A concrete run\<close>

text \<open>A service that registers one device and enrols its key.\<close>

definition sample_device :: json where
  "sample_device = JObj
     [''id'' \<mapsto> JStr ''t.d1'',
      ''config'' \<mapsto> JObj
        [''peers'' \<mapsto> JArr [JObj [''public_key'' \<mapsto> JStr ''pem'',
            ''endpoint'' \<mapsto> JObj [''v4'' \<mapsto> JStr ''162.159.198.1:0'', ''v6'' \<mapsto> JStr ''engage.example.com:0'']]],
         ''interface'' \<mapsto> JObj [''addresses'' \<mapsto> JObj [''v4'' \<mapsto> JStr ''172.16.0.2'', ''v6'' \<mapsto> JStr ''2606:4700:110::2'']]]]"

definition sample_service :: "nat http" where
  "sample_service =
     \<lparr>ht_text = (\<lambda>_. []), ht_parse = (\<lambda>_. None),
      ht_do = (\<lambda>req n. (Suc n, Inr \<lparr>rs_StatusCode = 200, rs_Status = ''200 OK'',
        rs_Body = (if rq_method req = ''POST''
                   then BodyJson (JObj [''id'' \<mapsto> JStr ''t.d1'', ''token'' \<mapsto> JStr ''tok''])
                   else BodyJson sample_device)\<rparr>))\<rparr>"

definition sample_sys :: "nat sys" where
  "sample_sys =
     \<lparr>sy_http = sample_service, sy_yaml = json_yaml, sy_json_text = (\<lambda>_. []), sy_rand1 = Inr (replicate 32 1),
      sy_rand2 = Inr (replicate 8 2), sy_scan = Inr ''y'',
      sy_now = \<lparr>cv_year = 2025, cv_month = 1, cv_day = 2, cv_hour = 3, cv_min = 4, cv_sec = 5, cv_nanosec = 6, cv_offset = 0\<rparr>,
      sy_keypair = Inr ([1, 2, 3], [4, 5, 6]), sy_hostname = Inr ''Host''\<rparr>"

definition sample_flags :: flags where
  "sample_flags =
     \<lparr>fl_config = ''config.yaml'', fl_license = [], fl_jwt = ''jwt1'', fl_reset_config = False, fl_name = [],
      fl_locale = ''en_US'', fl_model = ''PC'', fl_accept_tos = True, fl_bind_address = [], fl_port = [],
      fl_username = [], fl_password = [], fl_use_ipv6 = None, fl_http2 = None, fl_l4 = None, fl_wg = None,
      fl_l4_udp = None, fl_experimental = False, fl_wg_account = ''wg-account.json'', fl_wg_keepalive = 25\<rparr>"

definition sample_world :: "nat world" where
  "sample_world =
     \<lparr>w_app = \<lparr>AppConfig = config_of_public \<lparr>pub_Socks = GetDefaultSocksConfig\<lparr>Username := ''u'', Password := ''p''\<rparr>,
         pub_Registration = \<lparr>DeviceName = []\<rparr>, pub_Logging = GetDefaultLoggingConfig\<rparr>,
        ConfigLoaded = True, app_fs = empty_fs\<rparr>, w_service = 0\<rparr>"

definition sample_registered :: Config where
  "sample_registered = InitNewConfig ''AQID'' ''162.159.198.1'' ''engage.example.com'' ''pem'' [] ''t.d1'' ''tok'' ''team''
     ''172.16.0.2'' ''2606:4700:110::2'' ''t-host-td1''"

lemma sample_register: "register_account sample_sys sample_flags ''team'' [] ''jwt1'' 0 = (2, Inr sample_registered)"
proof -
  have str: "TrimSpace [] = []" "parseEndpointHost ''162.159.198.1:0'' = Inr ''162.159.198.1''"
    "parseEndpointHost ''engage.example.com:0'' = Inr ''engage.example.com''" "b64_encode [1, 2, 3] = ''AQID''"
    "resolveRegistrationDeviceName (Inr ''Host'') ''team'' [] ''t.d1'' = ''t-host-td1''"
    by code_simp+
  have acc: "Register sample_service (Inr (replicate 32 1)) (Inr (replicate 8 2)) (Inr ''y'') (sy_now sample_sys) ''PC'' ''en_US'' ''jwt1'' True 0
      = (1, Inr (zeroAccountData\<lparr>ad_ID := ''t.d1'', ad_Token := ''tok''\<rparr>))"
    by (simp add: Register_def GenerateRandomWgPubkey_def GenerateRandomAndroidSerial_def send_def sample_service_def
        account_data_fields_def field_def zeroAccountData_def Let_def)
  obtain u where u: "EnrollKey sample_service (zeroAccountData\<lparr>ad_ID := ''t.d1'', ad_Token := ''tok''\<rparr>) [4, 5, 6] ''t-host-td1'' 1
      = (2, Inr u)" "ad_ID u = ''t.d1''" "ac_License (ad_Account u) = []"
    "dc_Peers (ad_Config u) = Some [\<lparr>pr_PublicKey = ''pem'', pr_Endpoint =
       \<lparr>ep_V4 = ''162.159.198.1:0'', ep_V6 = ''engage.example.com:0'', ep_Host = [], ep_Ports = None\<rparr>\<rparr>]"
    "if_Addresses (dc_Interface (ad_Config u)) = \<lparr>ad4_V4 = ''172.16.0.2'', ad6_V6 = ''2606:4700:110::2''\<rparr>"
    by (simp add: EnrollKey_def exchange_v_def exchange_def send_def sample_service_def enroll_patch_def sample_device_def
        account_data_fields_def field_def zeroAccountData_def device_config_fields_def peer_fields_def
        peer_endpoint_fields_def addresses_fields_def zeroPeer_def zeroDeviceConfig_def zeroAccount_def)
  show ?thesis
    using acc u str
    by (simp add: register_account_def registration_jwt_def account_modes sample_sys_def sample_flags_def Let_def
        apply_license_def registered_config_def slice_def sample_registered_def pickAccountLicense_def
        zeroAccountData_def zeroAccount_def)
qed

lemma sample_registration:
  "\<exists>a. handleRegistration sample_sys sample_flags ''config.yaml'' ''team'' [] ''jwt1'' sample_world =
     (\<lparr>w_app = a, w_service = 2\<rparr>, None) \<and> AppConfig a = sample_registered"
proof -
  have "snd (SaveConfig json_yaml ((w_app sample_world)\<lparr>AppConfig := sample_registered\<rparr>) ''config.yaml'') = None"
    by (simp add: SaveConfig_def Let_def sample_registered_def InitNewConfig_def NormalizeSocksConfig_fixed
        default_socks_normal writeConfigFile_def writeJSONFile_def json_yaml_def os_WriteFile_def sample_world_def empty_fs_def)
  then obtain a where "SaveConfig json_yaml ((w_app sample_world)\<lparr>AppConfig := sample_registered\<rparr>) ''config.yaml'' = (a, None)"
    by (metis prod.collapse)
  moreover from SaveConfig_pair [OF this] have "AppConfig a = sample_registered" by simp
  moreover have "sy_yaml sample_sys = json_yaml" "w_service sample_world = 0" by (simp_all add: sample_sys_def sample_world_def)
  ultimately show ?thesis using sample_register by (simp add: handleRegistration_def)
qed

lemma sample_paths: "Clean (default_path ''config.yaml'') \<noteq> Clean (keyConfigPath ''config.yaml'')"
  by code_simp

lemma sample_side: "yaml_spec (sy_yaml sample_sys)" "\<forall>q. \<not> fs_unreadable (app_fs (w_app sample_world)) q"
  by (simp_all add: sample_sys_def json_yaml_spec sample_world_def empty_fs_def)

section \<open>Properties\<close>

text \<open>
  C26: an account already in the premium or team mode is never replaced: whatever flags are given,
  whatever the token file holds, \<open>runProxyCmd\<close> sends no request to the service and keeps the identity
  it has loaded, up to the spelling of the mode.
\<close>

theorem paid_account_never_replaced:
  assumes "ConfigLoaded (w_app w)" "isStartupConfigValid (AppConfig (w_app w))"
    "ToLower (TrimSpace (AccountMode (AppConfig (w_app w)))) \<in> {accountModePremium, accountModeTeam}"
  shows "w_service (fst (runProxyCmd y fl w)) = w_service w \<and>
    (extractKeyConfig (AppConfig (w_app (fst (runProxyCmd y fl w)))))\<lparr>key_AccountMode := []\<rparr> =
      (extractKeyConfig (AppConfig (w_app w)))\<lparr>key_AccountMode := []\<rparr>"
proof (cases "wgModeSelected fl (AppConfig (w_app w))")
  case True
  then show ?thesis by (simp add: runProxyCmd_def Let_def)
next
  case False
  let ?a = "w_app w" and ?p = "ResolveConfigPath (app_fs (w_app w)) (fl_config fl)"
  obtain fs1 jwt b e where j: "resolveJWTFromFlagOrFile (sy_json_text y) (app_fs ?a) ?p (ConfigLoaded ?a) (AppConfig ?a)
      (TrimSpace (fl_license fl)) (TrimSpace (fl_jwt fl)) = (fs1, jwt, b, e)" by (metis prod_cases4)
  let ?w1 = "w\<lparr>w_app := ?a\<lparr>app_fs := fs1\<rparr>\<rparr>"
  show ?thesis
  proof (cases "decideStartupAction (ConfigLoaded ?a) (AppConfig ?a) (fl_license fl) jwt")
    case (Inl err)
    with False j show ?thesis by (simp add: runProxyCmd_def Let_def)
  next
    case (Inr d)
    then have "\<not> (TrimSpace (fl_license fl) \<noteq> [] \<and> TrimSpace jwt \<noteq> [])"
      by (auto simp: decideStartupAction_def Let_def split: if_splits)
    from decide_paid [OF assms this] Inr have d: "sd_Action d = startupUseExisting" by simp
    obtain a' r where u: "use_existing y fl ?p d (?a\<lparr>app_fs := fs1\<rparr>) = (a', r)" by fastforce
    have k: "(extractKeyConfig (AppConfig a'))\<lparr>key_AccountMode := []\<rparr> =
        (extractKeyConfig (AppConfig ?a))\<lparr>key_AccountMode := []\<rparr>"
      using use_existing_key [of "[]" y fl ?p d "?a\<lparr>app_fs := fs1\<rparr>"] u by simp
    show ?thesis
    proof (cases r)
      case None
      with False j Inr d u k show ?thesis by (simp add: runProxyCmd_def Let_def finish_startup_frame)
    next
      case (Some err)
      with False j Inr d u k show ?thesis by (simp add: runProxyCmd_def Let_def)
    qed
  qed
qed

theorem paid_account_never_replaced_witness:
  "w_service (fst (runProxyCmd sample_sys (sample_flags\<lparr>fl_license := ''x''\<rparr>)
     \<lparr>w_app = \<lparr>AppConfig = sample_registered, ConfigLoaded = True, app_fs = empty_fs\<rparr>, w_service = 7\<rparr>)) = 7"
proof -
  have "isStartupConfigValid sample_registered" "ToLower (TrimSpace ''team'') = ''team''" by code_simp+
  then show ?thesis
    using paid_account_never_replaced [of "\<lparr>w_app = \<lparr>AppConfig = sample_registered, ConfigLoaded = True, app_fs = empty_fs\<rparr>,
      w_service = 7\<rparr>" sample_sys "sample_flags\<lparr>fl_license := ''x''\<rparr>"]
    by (simp add: sample_registered_def InitNewConfig_def account_modes)
qed

text \<open>
  the token file is one-shot and guarded: it is only read into a token when no upgrade flag is
  given and the mode in force is free, a call that takes no token leaves the files alone,
  and after a token was taken the same call finds none.
\<close>

theorem jwt_file_one_shot:
  assumes "resolveJWTFromFlagOrFile jt fs p loaded cfg lic jwt = (fs', token, fromFile, e)"
  shows "(fromFile \<longrightarrow> token \<noteq> [] \<and> TrimSpace lic = [] \<and> TrimSpace jwt = [] \<and>
      (\<exists>d. decideStartupAction loaded cfg [] [] = Inr d \<and> sd_EffectiveMode d = accountModeFree)) \<and>
    (\<not> fromFile \<longrightarrow> fs' = fs \<and> token = TrimSpace jwt) \<and>
    (fromFile \<and> e = None \<longrightarrow> resolveJWTFromFlagOrFile jt fs' p loaded cfg lic jwt = (fs', [], False, None))"
proof (cases "TrimSpace jwt \<noteq> [] \<or> TrimSpace lic \<noteq> []")
  case True
  with assms show ?thesis by (auto simp: resolveJWTFromFlagOrFile_def Let_def)
next
  case False
  then have blank: "TrimSpace lic = []" "TrimSpace jwt = []" by auto
  then obtain d where d: "decideStartupAction loaded cfg [] [] = Inr d"
    by (cases "decideStartupAction loaded cfg [] []") (auto simp: decide_total TrimSpace_def trim_func_def)
  show ?thesis
  proof (cases "sd_EffectiveMode d = accountModeFree")
    case mode: False
    with assms blank d show ?thesis by (auto simp: resolveJWTFromFlagOrFile_def Let_def)
  next
    case mode: True
    obtain fs1 t e1 where c: "consumeJWTFromSiblingFile jt fs p = (fs1, t, e1)" by (metis prod_cases3)
    have r: "(fs', token, fromFile, e) = (fs1, t, t \<noteq> [], e1)"
      using assms blank d mode c by (auto simp: resolveJWTFromFlagOrFile_def Let_def split: if_splits)
    have same: "t = [] \<longrightarrow> fs1 = fs"
      using c by (auto simp: consumeJWTFromSiblingFile_def Let_def split: sum.splits if_splits)
    have again: "consumeJWTFromSiblingFile jt fs1 p = (fs1, [], None)" if t: "t \<noteq> []" "e1 = None"
    proof -
      let ?q = "jwtFilePathFromConfigPath p"
      obtain raw where raw: "os_ReadFile fs ?q = Inr raw"
        using c t by (cases "os_ReadFile fs ?q") (auto simp: consumeJWTFromSiblingFile_def Let_def split: if_splits)
      then have w: "os_WriteFile fs ?q (OtherText []) 384 = Inr fs1"
        using c t by (auto simp: consumeJWTFromSiblingFile_def Let_def split: if_splits sum.splits)
      have "\<not> fs_unreadable fs (Clean ?q)" using raw by (auto simp: os_ReadFile_def split: option.splits if_splits)
      then have "os_ReadFile fs1 ?q = Inr (OtherText [])" using os_ReadFile_WriteFile [OF w] by simp
      then show ?thesis by (simp add: consumeJWTFromSiblingFile_def TrimSpace_def trim_func_def)
    qed
    have "resolveJWTFromFlagOrFile jt fs1 p loaded cfg lic jwt = (fs1, [], False, None)" if "t \<noteq> []" "e1 = None"
      using blank d mode again [OF that] by (simp add: resolveJWTFromFlagOrFile_def)
    with r same blank d mode show ?thesis by auto
  qed
qed

theorem jwt_file_one_shot_witness:
  "\<exists>fs'. resolveJWTFromFlagOrFile (\<lambda>_. []) (empty_fs\<lparr>fs_files := [''jwt.txt'' \<mapsto> OtherText '' abc '']\<rparr>) ''config.yaml'' False
       sample_config [] [] = (fs', ''abc'', True, None) \<and>
     resolveJWTFromFlagOrFile (\<lambda>_. []) fs' ''config.yaml'' False sample_config [] [] = (fs', [], False, None)"
proof -
  let ?fs = "empty_fs\<lparr>fs_files := [''jwt.txt'' \<mapsto> OtherText '' abc '']\<rparr>"
  have str: "jwtFilePathFromConfigPath ''config.yaml'' = ''jwt.txt''" "Clean ''jwt.txt'' = ''jwt.txt''"
    "TrimSpace '' abc '' = ''abc''" "TrimSpace [] = []" by code_simp+
  have run: "\<exists>fs'. resolveJWTFromFlagOrFile (\<lambda>_. []) ?fs ''config.yaml'' False sample_config [] [] = (fs', ''abc'', True, None)"
    by (simp add: resolveJWTFromFlagOrFile_def decideStartupAction_def registerDecision_def str
        consumeJWTFromSiblingFile_def os_ReadFile_def os_WriteFile_def empty_fs_def)
  then obtain fs' where r: "resolveJWTFromFlagOrFile (\<lambda>_. []) ?fs ''config.yaml'' False sample_config [] [] =
      (fs', ''abc'', True, None)" by blast
  show ?thesis using r jwt_file_one_shot [OF r] by blast
qed

text \<open>
  C28: a registration survives a restart: a process that loads the files a successful
  \<open>handleRegistration\<close> left finds the same configuration, and if the service gave an identifier and a
  token it then uses the account as it is, even when the upgrade flags of a premium or
  team registration are still on its command line.
\<close>

theorem registration_survives_restart:
  assumes "handleRegistration y fl p m lic jwt w = (w', None)"
    and "yaml_spec (sy_yaml y)" "Clean (default_path p) \<noteq> Clean (keyConfigPath p)"
    and "\<forall>q. \<not> fs_unreadable (app_fs (w_app w)) q"
    and "isStartupConfigValid (AppConfig (w_app w'))"
    and "m \<in> {accountModeFree, accountModePremium, accountModeTeam}"
      "m = accountModeFree \<longrightarrow> TrimSpace lic = [] \<and> TrimSpace jwt = []"
      "\<not> (TrimSpace lic \<noteq> [] \<and> TrimSpace jwt \<noteq> [])"
  shows "\<exists>a2 d. LoadConfig (sy_yaml y) \<lparr>AppConfig = c0, ConfigLoaded = False, app_fs = app_fs (w_app w')\<rparr> p = (a2, None) \<and>
    AppConfig a2 = AppConfig (w_app w') \<and> ConfigLoaded a2 \<and>
    decideStartupAction (ConfigLoaded a2) (AppConfig a2) lic jwt = Inr d \<and> sd_Action d = startupUseExisting"
proof -
  obtain s' cfg a where reg: "register_account y fl m lic jwt (w_service w) = (s', Inr cfg)"
    and sv: "SaveConfig (sy_yaml y) ((w_app w)\<lparr>AppConfig := cfg\<rparr>) p = (a, None)"
    and w': "w' = \<lparr>w_app = a\<lparr>ConfigLoaded := True\<rparr>, w_service = s'\<rparr>" "AppConfig a = cfg"
    using assms(1) by (rule handleRegistration_ok)
  note cfg = register_account_config [OF reg]
  let ?b = "\<lparr>AppConfig = c0, ConfigLoaded = False, app_fs = app_fs (w_app w')\<rparr>"
  have "LoadConfig (sy_yaml y) ?b p = (?b\<lparr>AppConfig := (AppConfig ((w_app w)\<lparr>AppConfig := cfg\<rparr>))
      \<lparr>Socks := GetDefaultSocksConfig, Logging := logging_or_default (Logging (AppConfig ((w_app w)\<lparr>AppConfig := cfg\<rparr>)))\<rparr>,
      ConfigLoaded := True\<rparr>, None)"
    using assms(4) cfg w'
    by (intro SaveConfig_then_LoadConfig [OF assms(2) sv assms(3)])
      (simp_all add: NormalizeSocksConfig_fixed default_socks_normal default_socks_valid)
  then have "LoadConfig (sy_yaml y) ?b p = (?b\<lparr>AppConfig := cfg, ConfigLoaded := True\<rparr>, None)"
    using cfg by (simp add: default_logging)
  moreover have "\<exists>d. decideStartupAction True cfg lic jwt = Inr d \<and> sd_Action d = startupUseExisting"
    using assms(5-8) cfg(3) w' by (intro decide_stored) auto
  ultimately show ?thesis using w' by auto
qed

theorem registration_survives_restart_witness:
  "\<exists>w' a2 d. handleRegistration sample_sys sample_flags ''config.yaml'' ''team'' [] ''jwt1'' sample_world = (w', None) \<and>
     LoadConfig json_yaml \<lparr>AppConfig = sample_config, ConfigLoaded = False, app_fs = app_fs (w_app w')\<rparr> ''config.yaml'' = (a2, None) \<and>
     decideStartupAction (ConfigLoaded a2) (AppConfig a2) [] ''jwt1'' = Inr d \<and> sd_Action d = startupUseExisting"
proof -
  obtain w' where w': "handleRegistration sample_sys sample_flags ''config.yaml'' ''team'' [] ''jwt1'' sample_world = (w', None)"
    "AppConfig (w_app w') = sample_registered" using sample_registration by auto
  moreover have "isStartupConfigValid (AppConfig (w_app w'))" unfolding w'(2) by code_simp
  moreover have "TrimSpace [] = []" by code_simp
  ultimately show ?thesis
    using registration_survives_restart [OF w'(1) sample_side(1) sample_paths sample_side(2), of sample_config]
    by (simp add: account_modes sample_sys_def) blast
qed

text \<open>
  a registration discards the SOCKS and logging settings that were loaded: whatever block a
  configuration file without an account had, a successful \<open>handleRegistration\<close> replaces it, in memory
  and on disk, by the defaults.
\<close>

theorem registration_resets_socks:
  assumes "handleRegistration y fl p m lic jwt w = (w', None)" "yaml_spec (sy_yaml y)"
    "Clean (default_path p) \<noteq> Clean (keyConfigPath p)" "\<forall>q. \<not> fs_unreadable (app_fs (w_app w)) q"
  shows "Socks (AppConfig (w_app w')) = GetDefaultSocksConfig \<and>
    Logging (AppConfig (w_app w')) = GetDefaultLoggingConfig \<and>
    (\<exists>a2. LoadConfig (sy_yaml y) (w_app w') p = (a2, None) \<and> Socks (AppConfig a2) = GetDefaultSocksConfig)"
proof -
  obtain s' cfg a where reg: "register_account y fl m lic jwt (w_service w) = (s', Inr cfg)"
    and sv: "SaveConfig (sy_yaml y) ((w_app w)\<lparr>AppConfig := cfg\<rparr>) p = (a, None)"
    and w': "w' = \<lparr>w_app = a\<lparr>ConfigLoaded := True\<rparr>, w_service = s'\<rparr>" "AppConfig a = cfg"
    using assms(1) by (rule handleRegistration_ok)
  note cfg = register_account_config [OF reg]
  have "LoadConfig (sy_yaml y) (w_app w') p = ((w_app w')\<lparr>AppConfig := (AppConfig ((w_app w)\<lparr>AppConfig := cfg\<rparr>))
      \<lparr>Socks := GetDefaultSocksConfig, Logging := logging_or_default (Logging (AppConfig ((w_app w)\<lparr>AppConfig := cfg\<rparr>)))\<rparr>,
      ConfigLoaded := True\<rparr>, None)"
    using assms(4) cfg w'
    by (intro SaveConfig_then_LoadConfig [OF assms(2) sv assms(3)])
      (simp_all add: NormalizeSocksConfig_fixed default_socks_normal default_socks_valid)
  with cfg w' show ?thesis by simp
qed

theorem registration_resets_socks_witness:
  "Username (Socks (AppConfig (w_app sample_world))) = ''u'' \<and>
   (\<exists>w'. handleRegistration sample_sys sample_flags ''config.yaml'' ''team'' [] ''jwt1'' sample_world = (w', None) \<and>
      Username (Socks (AppConfig (w_app w'))) = [] \<and> Password (Socks (AppConfig (w_app w'))) = [])"
proof -
  obtain w' where w': "handleRegistration sample_sys sample_flags ''config.yaml'' ''team'' [] ''jwt1'' sample_world = (w', None)"
    using sample_registration by auto
  have "Socks (AppConfig (w_app w')) = GetDefaultSocksConfig"
    using registration_resets_socks [OF w' sample_side(1) sample_paths sample_side(2)] by simp
  with w' show ?thesis by (simp add: sample_world_def GetDefaultSocksConfig_def config_of_public_def)
qed

text \<open>
  the decision of \<open>runProxyCmd\<close> is total and agrees with what \<open>handleRegistration\<close> requires: it fails
  only when both upgrade flags are given, and a decision to register never runs into the errors
  for a missing token, a missing license or an unknown mode.
\<close>

theorem startup_decision_complete:
  "((\<exists>e. decideStartupAction loaded cfg lic jwt = Inl e) \<longleftrightarrow> TrimSpace lic \<noteq> [] \<and> TrimSpace jwt \<noteq> []) \<and>
   (\<forall>d. decideStartupAction loaded cfg lic jwt = Inr d \<and> sd_Action d \<noteq> startupUseExisting \<longrightarrow>
      is_ok (registration_jwt (sd_EffectiveMode d) (TrimSpace jwt)) \<and>
      (sd_EffectiveMode d = accountModePremium \<longrightarrow> TrimSpace lic \<noteq> []))"
proof (intro conjI allI impI)
  show "(\<exists>e. decideStartupAction loaded cfg lic jwt = Inl e) \<longleftrightarrow> TrimSpace lic \<noteq> [] \<and> TrimSpace jwt \<noteq> []"
    by (simp add: decide_total)
next
  fix d
  assume d: "decideStartupAction loaded cfg lic jwt = Inr d \<and> sd_Action d \<noteq> startupUseExisting"
  then show "is_ok (registration_jwt (sd_EffectiveMode d) (TrimSpace jwt))"
    using decide_register [of loaded cfg lic jwt d] by (cases "sd_Action d") (auto simp: registration_jwt_def)
  show "TrimSpace lic \<noteq> []" if "sd_EffectiveMode d = accountModePremium"
    using that d decide_register [of loaded cfg lic jwt d] by (cases "sd_Action d") auto
qed

theorem startup_decision_complete_witness:
  "is_ok (registration_jwt accountModeTeam (TrimSpace ''jwt1''))"
proof -
  have d: "decideStartupAction False sample_config [] ''jwt1'' = Inr (registerDecision startupRegisterTeam accountModeTeam)"
    by code_simp
  show ?thesis
    using startup_decision_complete [of False sample_config "[]" "''jwt1''"] d by (simp add: registerDecision_def)
qed

end
