(* ===== verification/Wireguard.thy ===== *)
theory Wireguard
  imports Go_Base64 Go_Json
begin

text \<open>
  Keys, profiles and interface configuration of WireGuard, \<open>src/wireguard\<close>. A key is its list of 32
  bytes. The scalar multiplication of \<open>curve25519\<close> is an argument. The text of an error of \<open>netip\<close>, \<open>net\<close> or
  \<open>base64\<close> at the end of an error text is left out.
\<close>

unbundle bit_operations_syntax

section \<open>keys.go\<close>

definition KeyLength :: nat where "KeyLength = 32"

type_synonym Key = "byte list"

definition wf_key :: "Key \<Rightarrow> bool" where
  "wf_key k = (length k = KeyLength)"

definition KeyString :: "Key \<Rightarrow> string" where
  "KeyString k = b64_encode k"

definition Public :: "(byte list \<Rightarrow> byte list) \<Rightarrow> Key \<Rightarrow> Key" where
  "Public scalarBaseMult k = scalarBaseMult k"

text \<open>\<open>rnd\<close> is what \<open>rand.Read\<close> puts into the 32 bytes.\<close>

definition NewPrivateKey :: "(gerr, byte list) result \<Rightarrow> (gerr, Key) result" where
  "NewPrivateKey rnd =
     bind_res (map_err (\<lambda>e. EWrap ''read random key: '' e []) rnd) (\<lambda>key.
       let key1 = key[0 := (key ! 0) AND 248]
       in Inr (key1[31 := ((key1 ! 31) AND 127) OR 64]))"

definition NewKey :: "string \<Rightarrow> (gerr, Key) result" where
  "NewKey base64Key =
     (case b64_decode base64Key of
        None \<Rightarrow> Inl (EWrap ''decode key: '' (EText ''illegal base64 data'') [])
      | Some decoded \<Rightarrow>
          if length decoded \<noteq> KeyLength then Inl (EText (''invalid key length '' @ Itoa (int (length decoded))))
          else Inr decoded)"

section \<open>profile.go\<close>

record ProfileData =
  pd_PrivateKey :: string
  pd_Address1 :: string
  pd_Address2 :: string
  pd_PublicKey :: string
  pd_Endpoint :: string

abbreviation nl :: string where "nl \<equiv> [CHR 0x0A]"

definition generateProfile :: "ProfileData \<Rightarrow> string" where
  "generateProfile d =
     ''[Interface]'' @ nl @
     ''PrivateKey = '' @ pd_PrivateKey d @ nl @
     ''Address = '' @ pd_Address1 d @ ''/32, '' @ pd_Address2 d @ ''/128'' @ nl @
     ''DNS = 1.1.1.1, 1.0.0.1, 2606:4700:4700::1111, 2606:4700:4700::1001'' @ nl @
     ''MTU = 1280'' @ nl @
     ''[Peer]'' @ nl @
     ''PublicKey = '' @ pd_PublicKey d @ nl @
     ''AllowedIPs = 0.0.0.0/0, ::/0'' @ nl @
     ''Endpoint = '' @ pd_Endpoint d @ nl @
     ''PersistentKeepalive = 25'' @ nl"

record Profile =
  profileString :: string

definition NewProfile :: "ProfileData \<Rightarrow> Profile" where
  "NewProfile data = \<lparr>profileString = generateProfile data\<rparr>"

definition Profile_Save :: "fsys \<Rightarrow> Profile \<Rightarrow> string \<Rightarrow> fsys \<times> gerr option" where
  "Profile_Save fs p profileFile =
     (case os_WriteFile fs profileFile (OtherText (profileString p)) 384 of
        Inl e \<Rightarrow> (fs, Some (EWrap ''write profile: '' e []))
      | Inr fs1 \<Rightarrow>
          (case os_Chmod fs1 profileFile 384 of
             Inl e \<Rightarrow> (fs1, Some (EWrap ''chmod profile: '' e []))
           | Inr fs2 \<Rightarrow> (fs2, None)))"

section \<open>uapi.go\<close>

definition HexString :: "Key \<Rightarrow> string" where
  "HexString k = hex_EncodeToString k"

record UAPIParams =
  ua_PrivateKey :: "Key option"
  ua_PublicKey :: "Key option"
  ua_Endpoint :: string
  ua_PersistentKeepalive :: int
  ua_AllowedIPs :: "string list"
  ua_ListenPort :: int

definition uapi_line :: "string \<Rightarrow> string \<Rightarrow> string" where
  "uapi_line k v = k @ ''='' @ v @ nl"

definition parse_allowed :: "string list \<Rightarrow> (gerr, ip_prefix list) result" where
  "parse_allowed cidrs =
     map_res (\<lambda>cidr. case ParsePrefix (TrimSpace cidr) of
                       None \<Rightarrow> Inl (EText (''build uapi: invalid allowed ip '' @ go_quote cidr))
                     | Some p \<Rightarrow> Inr p) cidrs"

definition BuildUAPIConfig :: "UAPIParams \<Rightarrow> (gerr, string) result" where
  "BuildUAPIConfig p =
     (case ua_PrivateKey p of
        None \<Rightarrow> Inl (EText ''build uapi: nil private key'')
      | Some priv \<Rightarrow>
     (case ua_PublicKey p of
        None \<Rightarrow> Inl (EText ''build uapi: nil peer public key'')
      | Some pub \<Rightarrow>
     (case ParseAddrPort (TrimSpace (ua_Endpoint p)) of
        None \<Rightarrow> Inl (EText (''build uapi: endpoint '' @ go_quote (ua_Endpoint p) @ '' must be ip:port (hostnames must be resolved first)''))
      | Some ap \<Rightarrow>
          if ua_ListenPort p < 0 \<or> ua_ListenPort p > 65535 then
            Inl (EText (''build uapi: invalid listen port '' @ Itoa (ua_ListenPort p)))
          else if ua_PersistentKeepalive p < 0 \<or> ua_PersistentKeepalive p > 65535 then
            Inl (EText (''build uapi: invalid persistent keepalive '' @ Itoa (ua_PersistentKeepalive p)))
          else
            bind_res (parse_allowed (if ua_AllowedIPs p = [] then [''0.0.0.0/0'', ''::/0''] else ua_AllowedIPs p))
              (\<lambda>prefixes.
                Inr (uapi_line ''private_key'' (HexString priv) @
                     (if ua_ListenPort p > 0 then uapi_line ''listen_port'' (Itoa (ua_ListenPort p)) else []) @
                     uapi_line ''replace_peers'' ''true'' @
                     uapi_line ''public_key'' (HexString pub) @
                     uapi_line ''endpoint'' (AddrPortString ap) @
                     (if ua_PersistentKeepalive p > 0
                      then uapi_line ''persistent_keepalive_interval'' (Itoa (ua_PersistentKeepalive p)) else []) @
                     uapi_line ''replace_allowed_ips'' ''true'' @
                     concat (map (\<lambda>prefix. uapi_line ''allowed_ip'' (PrefixString prefix)) prefixes))))))"

section \<open>validate.go\<close>

definition NormalizeInterfaceAddr :: "string \<Rightarrow> (gerr, ip_prefix) result" where
  "NormalizeInterfaceAddr s0 =
     (let s = TrimSpace s0 in
      if s = [] then Inl (EText ''empty interface address'')
      else if Contains s ''/'' then
        (case ParsePrefix s of
           None \<Rightarrow> Inl (EText (''parse interface prefix '' @ go_quote s))
         | Some prefix \<Rightarrow> Inr prefix)
      else
        (case ParseAddr s of
           Inl _ \<Rightarrow> Inl (EText (''parse interface address '' @ go_quote s))
         | Inr addr \<Rightarrow> Inr (addr, BitLen addr)))"

definition ValidateKeyB64 :: "string \<Rightarrow> gerr option" where
  "ValidateKeyB64 s0 =
     (let s = TrimSpace s0 in
      if s = [] then Some (EText ''empty key'')
      else case b64_decode s of
             None \<Rightarrow> Some (EText (''invalid base64 '' @ go_quote s))
           | Some decoded \<Rightarrow>
               if length decoded \<noteq> KeyLength
               then Some (EText (''invalid key length '' @ Itoa (int (length decoded)) @ '' (want 32)''))
               else None)"

definition ValidateEndpointHostPort :: "string \<Rightarrow> gerr option" where
  "ValidateEndpointHostPort endpoint0 =
     (let endpoint = TrimSpace endpoint0 in
      if endpoint = [] then Some (EText ''empty endpoint'')
      else case SplitHostPort endpoint of
             Inl e \<Rightarrow> Some (EText (''endpoint '' @ go_quote endpoint @ '' must be host:port''))
           | Inr (host, port) \<Rightarrow>
               if TrimSpace host = [] then Some (EText (''endpoint '' @ go_quote endpoint @ '' missing host''))
               else case Atoi port of
                      None \<Rightarrow> Some (EText (''endpoint '' @ go_quote endpoint @ '' has invalid port '' @ go_quote port))
                    | Some p \<Rightarrow> if p \<le> 0 \<or> p > 65535 then Some (EText (''endpoint '' @ go_quote endpoint @ '' has invalid port '' @ go_quote port)) else None)"

definition ValidatePeer :: "string \<Rightarrow> string \<Rightarrow> gerr option" where
  "ValidatePeer publicKeyB64 endpoint =
     (case ValidateKeyB64 publicKeyB64 of
        Some e \<Rightarrow> Some (EWrap ''peer public key: '' e [])
      | None \<Rightarrow>
          (case ValidateEndpointHostPort endpoint of
             Some e \<Rightarrow> Some (EWrap ''peer endpoint: '' e [])
           | None \<Rightarrow> None))"

section \<open>Lemmas\<close>

definition clamped :: "Key \<Rightarrow> bool" where
  "clamped k = (wf_key k \<and> unat (k ! 0) mod 8 = 0 \<and> 64 \<le> unat (k ! 31) \<and> unat (k ! 31) < 128)"

lemma and_248: "unat ((b :: byte) AND 248) mod 8 = 0"
proof -
  have "take_bit 3 (b AND 248) = 0" by (simp add: take_bit_and)
  then have "take_bit 3 (unat (b AND 248)) = 0" by (metis unsigned_0 unsigned_take_bit_eq)
  then show ?thesis by (simp add: take_bit_eq_mod)
qed

lemma or_64: "64 \<le> unat (((b :: byte) AND 127) OR 64)" "unat ((b AND 127) OR 64) < 128"
proof -
  have "(drop_bit 6 b AND 1) OR 1 = (1 :: byte)"
    by (rule bit_eqI) (auto simp: bit_or_iff bit_and_iff bit_1_iff)
  then have "drop_bit 6 ((b AND 127) OR 64) = 1" by (simp add: drop_bit_or drop_bit_and)
  then have "drop_bit 6 (unat ((b AND 127) OR 64)) = 1" using unat_drop_bit_eq [of 6 "(b AND 127) OR 64"] by simp
  then have "unat ((b AND 127) OR 64) div 64 = 1" by (simp add: drop_bit_eq_div)
  then show "64 \<le> unat ((b AND 127) OR 64)" "unat ((b AND 127) OR 64) < 128" by linarith+
qed

lemma NewKey_KeyString: "wf_key k \<Longrightarrow> NewKey (KeyString k) = Inr k"
  by (simp add: NewKey_def KeyString_def b64_roundtrip wf_key_def)

lemma NewKey_wf: "NewKey s = Inr k \<Longrightarrow> wf_key k"
  by (auto simp: NewKey_def wf_key_def split: option.splits if_splits)

lemma TrimSpace_KeyString [simp]: "TrimSpace (KeyString k) = KeyString k"
proof (cases "k = []")
  case False
  then have "KeyString k \<noteq> []" by (simp add: KeyString_def)
  then show ?thesis unfolding TrimSpace_def
    using b64_encode_not_space [of _ k] by (intro trim_func_id) (auto simp: KeyString_def)
qed (simp add: KeyString_def TrimSpace_def trim_func_def)

lemma ValidateKeyB64_KeyString: "wf_key k \<Longrightarrow> ValidateKeyB64 (KeyString k) = None"
proof -
  assume k: "wf_key k"
  then have "k \<noteq> []" by (auto simp: wf_key_def KeyLength_def)
  then have "KeyString k \<noteq> []" "b64_decode (KeyString k) = Some k" by (simp_all add: KeyString_def b64_roundtrip)
  with k show ?thesis by (simp add: ValidateKeyB64_def wf_key_def)
qed

section \<open>Lines\<close>

text \<open>What a reader of the format sees: the lines of the text, each split at its first equals sign.\<close>

fun lines :: "string \<Rightarrow> string list" where
  "lines s = butlast (split_byte CHR 0x0A s)"

definition key_value :: "string \<Rightarrow> string \<times> string" where
  "key_value l = (takeWhile (\<lambda>c. c \<noteq> CHR ''='') l, drop 1 (dropWhile (\<lambda>c. c \<noteq> CHR ''='') l))"

definition uapi_pairs :: "string \<Rightarrow> (string \<times> string) list" where
  "uapi_pairs s = map key_value (lines s)"

definition plain :: "string \<Rightarrow> bool" where
  "plain s = (CHR 0x0A \<notin> set s)"

lemma split_byte_ne [simp]: "split_byte c s \<noteq> []"
  by (induction s) (auto split: list.splits)

lemma split_byte_line: "c \<notin> set l \<Longrightarrow> split_byte c (l @ c # s) = l # split_byte c s"
  by (induction l) auto

lemma uapi_pairs_line:
  assumes "plain k" "plain v" "CHR ''='' \<notin> set k"
  shows "uapi_pairs (uapi_line k v @ s) = (k, v) # uapi_pairs s"
proof -
  have "split_byte CHR 0x0A (uapi_line k v @ s) = (k @ ''='' @ v) # split_byte CHR 0x0A s"
    using split_byte_line [of "CHR 0x0A" "k @ ''='' @ v" s] assms(1,2) by (auto simp: uapi_line_def plain_def)
  moreover have "key_value (k @ ''='' @ v) = (k, v)"
    using assms(3) by (auto simp: key_value_def takeWhile_append dropWhile_append)
  ultimately show ?thesis by (simp add: uapi_pairs_def)
qed

lemma uapi_pairs_Nil [simp]: "uapi_pairs [] = []"
  by (simp add: uapi_pairs_def)

lemma not_space_plain: "list_all (\<lambda>c. \<not> is_space c) s \<Longrightarrow> plain s"
  by (auto simp: plain_def list_all_iff is_space_def)

lemma plain_append [simp]: "plain (s @ t) \<longleftrightarrow> plain s \<and> plain t"
  by (auto simp: plain_def)

lemma plain_Cons [simp]: "plain (c # s) \<longleftrightarrow> c \<noteq> CHR 0x0A \<and> plain s"
  by (auto simp: plain_def)

lemma plain_Nil [simp]: "plain []"
  by (simp add: plain_def)

lemma plain_dec_digits [simp]: "plain (dec_digits n)"
  by (rule not_space_plain, rule dec_digits_chars, rule addr_chars_space)

lemma plain_Itoa [simp]: "plain (Itoa i)"
  by (simp add: Itoa_def)

lemma plain_HexString [simp]: "plain (HexString k)"
proof -
  have h: "hex_char d \<noteq> CHR 0x0A" if "d < 16" for d
    using that addr_chars_space by (auto simp: addr_chars_def is_space_def)
  have "unat b div 16 < 16" for b :: byte using byte_lt [of b] by linarith
  with h show ?thesis by (induction k) (simp_all add: HexString_def hex_EncodeToString_def)
qed

lemma plain_AddrString: "Zone a = [] \<Longrightarrow> plain (AddrString a)"
proof (cases a)
  case (Addr4 b)
  then show ?thesis using not_space_plain [OF string4_chars [OF addr_chars_space]] by simp
next
  case (Addr6 b z)
  assume "Zone a = []"
  with Addr6 have "a = Addr6 b []" by simp
  then show ?thesis using not_space_plain [OF AddrString6_chars [OF addr_chars_space]] by simp
qed simp

lemma plain_AddrPortString: "Zone (fst ap) = [] \<Longrightarrow> plain (AddrPortString ap)"
  by (cases ap) (simp add: AddrPortString_def plain_AddrString)

lemma ParsePrefix_Zone: "ParsePrefix s = Some p \<Longrightarrow> Zone (fst p) = []"
proof -
  assume "ParsePrefix s = Some p"
  then have "\<not> (Is6 (fst p) \<and> Zone (fst p) \<noteq> [])"
    by (auto simp: ParsePrefix_def Let_def split: option.splits sum.splits if_splits)
  then show ?thesis by (cases "fst p") auto
qed

lemma plain_PrefixString: "ParsePrefix s = Some p \<Longrightarrow> plain (PrefixString p)"
  by (simp add: PrefixString_def plain_AddrString ParsePrefix_Zone)

lemma parse_allowed_plain: "parse_allowed cidrs = Inr ps \<Longrightarrow> \<forall>p \<in> set ps. plain (PrefixString p)"
proof (induction cidrs arbitrary: ps)
  case Nil
  then show ?case by (simp add: parse_allowed_def)
next
  case (Cons c cidrs)
  then obtain p qs where "ParsePrefix (TrimSpace c) = Some p" "parse_allowed cidrs = Inr qs" "ps = p # qs"
    by (auto simp: parse_allowed_def bind_res_eq_Inr split: option.splits)
  with Cons.IH show ?case by (auto dest: plain_PrefixString)
qed

lemma uapi_pairs_allowed:
  assumes "\<forall>p \<in> set ps. plain (PrefixString p)"
  shows "uapi_pairs (concat (map (\<lambda>p. uapi_line ''allowed_ip'' (PrefixString p)) ps)) =
    map (\<lambda>p. (''allowed_ip'', PrefixString p)) ps"
  using assms by (induction ps) (simp_all add: uapi_pairs_line)

section \<open>Properties\<close>

text \<open>
  a generated private key is a clamped scalar of 32 bytes, and its printed form passes the
  validation and is read back as the same key.
\<close>

theorem NewPrivateKey_clamped_roundtrip:
  assumes "length bytes = KeyLength"
  shows "\<exists>k. NewPrivateKey (Inr bytes) = Inr k \<and> clamped k \<and> NewKey (KeyString k) = Inr k \<and>
    ValidateKeyB64 (KeyString k) = None"
proof -
  let ?k = "bytes[0 := (bytes ! 0) AND 248, 31 := ((bytes[0 := (bytes ! 0) AND 248] ! 31) AND 127) OR 64]"
  have len: "length ?k = 32" using assms by (simp add: KeyLength_def)
  then have "clamped ?k"
    using assms and_248 [of "bytes ! 0"] or_64 [of "bytes ! 31"] by (simp add: clamped_def wf_key_def KeyLength_def)
  moreover have wf: "wf_key ?k" using len by (simp add: wf_key_def KeyLength_def)
  ultimately show ?thesis using NewKey_KeyString [OF wf] ValidateKeyB64_KeyString [OF wf] by (simp add: NewPrivateKey_def Let_def)
qed

theorem NewPrivateKey_clamped_roundtrip_witness:
  "\<exists>k. NewPrivateKey (Inr (replicate 32 255)) = Inr k \<and> clamped k \<and> NewKey (KeyString k) = Inr k"
  using NewPrivateKey_clamped_roundtrip [of "replicate 32 255"] by (auto simp: KeyLength_def)

text \<open>
  the validation of a key accepts exactly the strings that, without surrounding blanks, the
  key parser accepts.
\<close>

theorem ValidateKeyB64_iff_NewKey:
  "ValidateKeyB64 s = None \<longleftrightarrow> (\<exists>k. NewKey (TrimSpace s) = Inr k)"
  by (auto simp: ValidateKeyB64_def NewKey_def Let_def KeyLength_def b64_decode_def split: option.splits if_splits)

text \<open>
  C40: for an endpoint without a zone, the interface configuration has exactly the intended
  lines in the intended order: the private key, the port if any, the peer with its key, endpoint
  and keepalive, and one line per allowed prefix. No value can add a line.
\<close>

theorem BuildUAPIConfig_lines:
  assumes "BuildUAPIConfig p = Inr s" "ParseAddrPort (TrimSpace (ua_Endpoint p)) = Some ap" "Zone (fst ap) = []"
  shows "\<exists>priv pub prefixes. ua_PrivateKey p = Some priv \<and> ua_PublicKey p = Some pub \<and>
    parse_allowed (if ua_AllowedIPs p = [] then [''0.0.0.0/0'', ''::/0''] else ua_AllowedIPs p) = Inr prefixes \<and>
    uapi_pairs s =
      [(''private_key'', HexString priv)] @
      (if ua_ListenPort p > 0 then [(''listen_port'', Itoa (ua_ListenPort p))] else []) @
      [(''replace_peers'', ''true''), (''public_key'', HexString pub), (''endpoint'', AddrPortString ap)] @
      (if ua_PersistentKeepalive p > 0
       then [(''persistent_keepalive_interval'', Itoa (ua_PersistentKeepalive p))] else []) @
      [(''replace_allowed_ips'', ''true'')] @
      map (\<lambda>q. (''allowed_ip'', PrefixString q)) prefixes"
proof -
  obtain priv where priv: "ua_PrivateKey p = Some priv" using assms(1) by (cases "ua_PrivateKey p") (auto simp: BuildUAPIConfig_def)
  obtain pub where pub: "ua_PublicKey p = Some pub"
    using assms(1) priv by (cases "ua_PublicKey p") (auto simp: BuildUAPIConfig_def)
  obtain prefixes where a: "parse_allowed (if ua_AllowedIPs p = [] then [''0.0.0.0/0'', ''::/0''] else ua_AllowedIPs p) = Inr prefixes"
    using assms(1,2) priv pub by (auto simp: BuildUAPIConfig_def bind_res_eq_Inr split: if_splits)
  note allowed = uapi_pairs_allowed [OF parse_allowed_plain [OF a]]
  have "s = uapi_line ''private_key'' (HexString priv) @
       (if ua_ListenPort p > 0 then uapi_line ''listen_port'' (Itoa (ua_ListenPort p)) else []) @
       uapi_line ''replace_peers'' ''true'' @ uapi_line ''public_key'' (HexString pub) @
       uapi_line ''endpoint'' (AddrPortString ap) @
       (if ua_PersistentKeepalive p > 0
        then uapi_line ''persistent_keepalive_interval'' (Itoa (ua_PersistentKeepalive p)) else []) @
       uapi_line ''replace_allowed_ips'' ''true'' @
       concat (map (\<lambda>prefix. uapi_line ''allowed_ip'' (PrefixString prefix)) prefixes)"
    using assms(1,2) priv pub a by (simp add: BuildUAPIConfig_def split: if_splits)
  with priv pub a allowed plain_AddrPortString [OF assms(3)] show ?thesis
    by (auto simp: uapi_pairs_line)
qed

definition sample_params :: UAPIParams where
  "sample_params =
     \<lparr>ua_PrivateKey = Some (replicate 32 1), ua_PublicKey = Some (replicate 32 2), ua_Endpoint = ''162.159.192.1:2408'',
      ua_PersistentKeepalive = 25, ua_AllowedIPs = [''10.0.0.0/8''], ua_ListenPort = 0\<rparr>"

lemma sample_endpoint: "ParseAddrPort (TrimSpace ''162.159.192.1:2408'') = Some (Addr4 [162, 159, 192, 1], 2408)"
proof -
  have "TrimSpace ''162.159.192.1:2408'' = ''162.159.192.1:2408''" by code_simp
  moreover have "ParseAddr ''162.159.192.1'' = Inr (Addr4 [162, 159, 192, 1])" by code_simp
  ultimately show ?thesis
    by (simp add: ParseAddrPort_def parse_uint_max_def parse_digits_def is_digit_def digit_val_def Let_def)
qed

lemma sample_allowed: "parse_allowed [''10.0.0.0/8''] = Inr [(Addr4 [10, 0, 0, 0], 8)]"
proof -
  have "TrimSpace ''10.0.0.0/8'' = ''10.0.0.0/8''" "ParseAddr ''10.0.0.0'' = Inr (Addr4 [10, 0, 0, 0])" by code_simp+
  moreover have "Atoi ''8'' = Some 8" by (simp add: Atoi_def parse_digits_def is_digit_def digit_val_def)
  ultimately show ?thesis by (simp add: parse_allowed_def ParsePrefix_def Let_def)
qed

theorem BuildUAPIConfig_lines_witness:
  "\<exists>s. BuildUAPIConfig sample_params = Inr s \<and> length (uapi_pairs s) = 7"
proof -
  note a = sample_allowed
  obtain s where s: "BuildUAPIConfig sample_params = Inr s"
    using sample_endpoint a by (simp add: BuildUAPIConfig_def sample_params_def)
  have "uapi_pairs s = uapi_pairs s \<and> length (uapi_pairs s) = 7"
    using BuildUAPIConfig_lines [OF s, of "(Addr4 [162, 159, 192, 1], 2408)"] sample_endpoint a
    by (auto simp: sample_params_def)
  with s show ?thesis by blast
qed

text \<open>
  a zone in the endpoint is copied into the configuration unchecked: an accepted endpoint can
  carry a line break and with it a second peer key of its own.
\<close>

theorem BuildUAPIConfig_zone_injects:
  "\<exists>p s. BuildUAPIConfig p = Inr s \<and> length (filter (\<lambda>kv. fst kv = ''public_key'') (uapi_pairs s)) = 2"
proof -
  let ?z = "''x'' @ nl @ ''public_key=00'' @ nl @ ''y''"
  let ?e = "''[::1%'' @ ?z @ '']:1''"
  let ?a = "Addr6 (replicate 14 0 @ [0, 1]) ?z"
  let ?p = "sample_params\<lparr>ua_Endpoint := ?e\<rparr>"
  have t: "TrimSpace ?e = ?e" by code_simp
  have "ParseAddr (''::1%'' @ ?z) = Inr ?a"
    by (simp add: ParseAddr_def parseIPv6_def v6_loop.simps HasPrefix_def v6_step_def hex_val_def is_digit_def
        digit_val_def v6_finish_def)
  then have pa: "ParseAddrPort ?e = Some (?a, 1)"
    by (simp add: ParseAddrPort_def parse_uint_max_def parse_digits_def is_digit_def digit_val_def Let_def)
  have print: "AddrPortString (?a, 1) = ?e" by code_simp
  obtain s where s: "BuildUAPIConfig ?p = Inr s"
    "s = uapi_line ''private_key'' (HexString (replicate 32 1)) @ uapi_line ''replace_peers'' ''true'' @
       uapi_line ''public_key'' (HexString (replicate 32 2)) @ uapi_line ''endpoint'' ?e @
       uapi_line ''persistent_keepalive_interval'' (Itoa 25) @ uapi_line ''replace_allowed_ips'' ''true'' @
       uapi_line ''allowed_ip'' (PrefixString (Addr4 [10, 0, 0, 0], 8))"
    using t pa print sample_allowed by (simp add: BuildUAPIConfig_def sample_params_def)
  have split: "uapi_line ''endpoint'' ?e @ r =
      uapi_line ''endpoint'' ''[::1%x'' @ uapi_line ''public_key'' ''00'' @ ''y]:1'' @ nl @ r" for r
    by (simp add: uapi_line_def)
  have "uapi_pairs (''y]:1'' @ nl @ r) = (''y]:1'', []) # uapi_pairs r" for r
    by (simp add: uapi_pairs_def key_value_def)
  moreover have "plain (PrefixString (Addr4 [10, 0, 0, 0], 8))"
    using plain_AddrString [of "Addr4 [10, 0, 0, 0]"] by (simp add: PrefixString_def)
  ultimately have "length (filter (\<lambda>kv. fst kv = ''public_key'') (uapi_pairs s)) = 2"
    unfolding s(2) split using uapi_pairs_line [of "''allowed_ip''" "PrefixString (Addr4 [10, 0, 0, 0], 8)" "[]"]
    by (simp add: uapi_pairs_line)
  with s(1) show ?thesis by blast
qed

end
