(* ===== verification/Wg_Account.thy ===== *)
theory Wg_Account
  imports Wireguard Cloudflare_Api Config
begin

text \<open>
  The standalone WireGuard commands: \<open>src/cmd/wg_register.go\<close>, \<open>src/cmd/wg_update.go\<close> and
  \<open>src/cmd/wg_generate.go\<close>. The state is the file system and the state of the registration service;
  the functions the source keeps in variables for its tests are the real ones.
\<close>

section \<open>State and environment\<close>

record 's wgw =
  wg_fs :: fsys
  wg_srv :: 's

record 's wg_env =
  we_http :: "'s http"
  we_curve :: "byte list \<Rightarrow> byte list"
  we_key_rand :: "(gerr, byte list) result"
  we_serial_rand :: "(gerr, byte list) result"
  we_now :: civil
  we_scan :: "(gerr, string) result"

record wgRegisterOptions =
  opt_name :: string
  opt_model :: string
  opt_key :: string
  opt_license :: string
  opt_jwt :: string
  opt_acceptTOS :: bool

section \<open>wg\_register.go\<close>

definition ensureWGAcceptedTOS :: "'s wg_env \<Rightarrow> bool \<Rightarrow> gerr option" where
  "ensureWGAcceptedTOS env accepted =
     (if accepted then None
      else (case we_scan env of
              Inl e \<Rightarrow> Some (EWrap ''failed to read user input: '' e [])
            | Inr response \<Rightarrow>
                if ToLower (TrimSpace response) \<noteq> ''y'' then Some (EText ''user did not accept TOS'') else None))"

definition loadOrCreateWGPrivateKey :: "'s wg_env \<Rightarrow> string \<Rightarrow> (gerr, Key) result" where
  "loadOrCreateWGPrivateKey env keyValue0 =
     (let keyValue = TrimSpace keyValue0 in
      if keyValue = [] then
        map_err (\<lambda>e. EWrap ''generate wireguard private key: '' e []) (NewPrivateKey (we_key_rand env))
      else map_err (\<lambda>e. EWrap ''parse wireguard private key: '' e []) (NewKey keyValue))"

definition buildWGAccount :: "AccountData \<Rightarrow> string \<Rightarrow> string \<Rightarrow> string \<Rightarrow> WGAccount" where
  "buildWGAccount accountData privateKey deviceName model =
     \<lparr>wga_DeviceID = ad_ID accountData, wga_AccessToken = ad_Token accountData,
      wga_License = ac_License (ad_Account accountData), wga_PrivateKey = privateKey, wga_DeviceName = deviceName,
      wga_Model = model\<rparr>"

definition rebind_error :: "APIError option \<times> gerr \<Rightarrow> gerr" where
  "rebind_error r =
     (case r of
        (Some apiErr, e) \<Rightarrow> EWrap ''rebind wireguard license: '' e ('' (API errors: '' @ ErrorsAsString ''; '' apiErr @ '')'')
      | (None, e) \<Rightarrow> EWrap ''rebind wireguard license: '' e [])"

text \<open>The license step: the account of the answer replaces the registered one.\<close>

definition rebind_registered :: "'s wg_env \<Rightarrow> string \<Rightarrow> AccountData \<Rightarrow> 's \<Rightarrow> 's \<times> (gerr, AccountData) result" where
  "rebind_registered env license accountData s =
     (if license \<noteq> [] then
        (case RebindLicense (we_http env) accountData license s of
           (s', Inl r) \<Rightarrow> (s', Inl (rebind_error r))
         | (s', Inr (finalAccount, changed)) \<Rightarrow> (s', Inr (accountData\<lparr>ad_Account := finalAccount\<rparr>)))
      else (s, Inr accountData))"

definition save_and_name :: "'s wg_env \<Rightarrow> string \<Rightarrow> wgRegisterOptions \<Rightarrow> Key \<Rightarrow> AccountData \<Rightarrow> 's wgw
    \<Rightarrow> 's wgw \<times> (gerr, WGAccount) result" where
  "save_and_name env accountPath opts privateKey accountData w =
     (let account = buildWGAccount accountData (KeyString privateKey) (opt_name opts) (opt_model opts) in
      case WGAccount_Save (wg_fs w) account accountPath of
        (fs', Some e) \<Rightarrow> (w\<lparr>wg_fs := fs'\<rparr>, Inl (EWrap ''save wg account: '' e []))
      | (fs', None) \<Rightarrow>
          if TrimSpace (opt_name opts) \<noteq> [] then
            (case SetWireGuardDeviceName (we_http env) (ad_ID accountData) (ad_Token accountData) (opt_name opts) (wg_srv w) of
               (s', Some e) \<Rightarrow>
                 (w\<lparr>wg_fs := fs', wg_srv := s'\<rparr>,
                  Inl (EWrap ''set device name: '' e ('' (wg account already saved to '' @ accountPath @ '')'')))
             | (s', None) \<Rightarrow> (w\<lparr>wg_fs := fs', wg_srv := s'\<rparr>, Inr account))
          else (w\<lparr>wg_fs := fs'\<rparr>, Inr account))"

definition registerWGAccount :: "'s wg_env \<Rightarrow> string \<Rightarrow> wgRegisterOptions \<Rightarrow> 's wgw \<Rightarrow> 's wgw \<times> (gerr, WGAccount) result" where
  "registerWGAccount env accountPath opts w =
     (let license = TrimSpace (opt_license opts); jwt = TrimSpace (opt_jwt opts) in
      if license \<noteq> [] \<and> jwt \<noteq> [] then (w, Inl (EText ''cannot use --license and --jwt together''))
      else
        (case loadOrCreateWGPrivateKey env (opt_key opts) of
           Inl e \<Rightarrow> (w, Inl e)
         | Inr privateKey \<Rightarrow>
             (case RegisterWireGuardDevice (we_http env) (we_serial_rand env) (we_now env)
                     (KeyString (Public (we_curve env) privateKey)) (opt_model opts) jwt (wg_srv w) of
                (s1, Inl e) \<Rightarrow> (w\<lparr>wg_srv := s1\<rparr>, Inl (EWrap ''register wireguard device: '' e []))
              | (s1, Inr accountData0) \<Rightarrow>
                  (case rebind_registered env license accountData0 s1 of
                     (s2, Inl e) \<Rightarrow> (w\<lparr>wg_srv := s2\<rparr>, Inl e)
                   | (s2, Inr accountData) \<Rightarrow>
                       save_and_name env accountPath opts privateKey accountData (w\<lparr>wg_srv := s2\<rparr>)))))"

definition runWGRegisterCmd :: "'s wg_env \<Rightarrow> string \<Rightarrow> wgRegisterOptions \<Rightarrow> 's wgw \<Rightarrow> 's wgw \<times> gerr option" where
  "runWGRegisterCmd env accountPath opts w =
     (case ensureWGAcceptedTOS env (opt_acceptTOS opts) of
        Some e \<Rightarrow> (w, Some e)
      | None \<Rightarrow>
          (case registerWGAccount env accountPath opts w of
             (w', Inl e) \<Rightarrow> (w', Some e)
           | (w', Inr _) \<Rightarrow> (w', None)))"

definition ensureWGAccount :: "'s wg_env \<Rightarrow> string \<Rightarrow> wgRegisterOptions \<Rightarrow> 's wgw \<Rightarrow> 's wgw \<times> (gerr, WGAccount) result" where
  "ensureWGAccount env accountPath opts w =
     (let register =
            (case ensureWGAcceptedTOS env (opt_acceptTOS opts) of
               Some e \<Rightarrow> (w, Inl e)
             | None \<Rightarrow> registerWGAccount env accountPath opts w)
      in case LoadWGAccount (wg_fs w) accountPath of
           Inr account \<Rightarrow> if WGAccount_Validate account = None then (w, Inr account) else register
         | Inl _ \<Rightarrow> register)"

section \<open>wg\_update.go\<close>

definition runWGUpdateCmd :: "'s wg_env \<Rightarrow> string \<Rightarrow> string \<Rightarrow> 's wgw \<Rightarrow> 's wgw \<times> gerr option" where
  "runWGUpdateCmd env accountPath licenseValue0 w =
     (let licenseValue = TrimSpace licenseValue0 in
      if licenseValue = [] then (w, Some (EText ''license is required''))
      else
        (case LoadWGAccount (wg_fs w) accountPath of
           Inl e \<Rightarrow> (w, Some (EWrap ''load wg account: '' e []))
         | Inr account \<Rightarrow>
             if TrimSpace (wga_DeviceID account) = [] then
               (w, Some (EText ''invalid wg account: missing device_id in wg account''))
             else if TrimSpace (wga_AccessToken account) = [] then
               (w, Some (EText ''invalid wg account: missing access_token in wg account''))
             else if TrimSpace (wga_PrivateKey account) = [] then
               (w, Some (EText ''invalid wg account: missing private_key in wg account''))
             else
               let accountData = zeroAccountData\<lparr>ad_ID := wga_DeviceID account, ad_Token := wga_AccessToken account,
                                   ad_Account := zeroAccount\<lparr>ac_License := wga_License account\<rparr>\<rparr> in
               (case RebindLicense (we_http env) accountData licenseValue (wg_srv w) of
                  (s', Inl r) \<Rightarrow> (w\<lparr>wg_srv := s'\<rparr>, Some (rebind_error r))
                | (s', Inr (finalAccount, changed)) \<Rightarrow>
                    (case WGAccount_Save (wg_fs w) (account\<lparr>wga_License := ac_License finalAccount\<rparr>) accountPath of
                       (fs', Some e) \<Rightarrow> (\<lparr>wg_fs = fs', wg_srv = s'\<rparr>, Some (EWrap ''save wg account: '' e []))
                     | (fs', None) \<Rightarrow> (\<lparr>wg_fs = fs', wg_srv = s'\<rparr>, None)))))"

section \<open>wg\_generate.go\<close>

definition peer_ports :: "Peer \<Rightarrow> int list" where
  "peer_ports peer = (case ep_Ports (pr_Endpoint peer) of None \<Rightarrow> [] | Some ps \<Rightarrow> ps)"

definition missing_endpoint :: gerr where
  "missing_endpoint = EText ''generate wireguard profile: source device missing peer endpoint''"

definition resolveWireGuardEndpoint :: "Peer \<Rightarrow> (gerr, string) result" where
  "resolveWireGuardEndpoint peer =
     (if ep_Host (pr_Endpoint peer) \<noteq> [] then
        (case peer_ports peer of
           [] \<Rightarrow> Inr (ep_Host (pr_Endpoint peer))
         | port # _ \<Rightarrow>
             (case SplitHostPort (ep_Host (pr_Endpoint peer)) of
                Inr _ \<Rightarrow> Inr (ep_Host (pr_Endpoint peer))
              | Inl _ \<Rightarrow> Inr (JoinHostPort (ep_Host (pr_Endpoint peer)) (Itoa port))))
      else
        (case peer_ports peer of
           [] \<Rightarrow> Inl missing_endpoint
         | port # _ \<Rightarrow>
             if ep_V4 (pr_Endpoint peer) \<noteq> [] then Inr (JoinHostPort (ep_V4 (pr_Endpoint peer)) (Itoa port))
             else if ep_V6 (pr_Endpoint peer) \<noteq> [] then Inr (JoinHostPort (ep_V6 (pr_Endpoint peer)) (Itoa port))
             else Inl missing_endpoint))"

definition buildWGProfileData :: "WGAccount \<Rightarrow> AccountData \<Rightarrow> (gerr, ProfileData) result" where
  "buildWGProfileData account device =
     (let addrs = if_Addresses (dc_Interface (ad_Config device)) in
      case (case dc_Peers (ad_Config device) of None \<Rightarrow> [] | Some ps \<Rightarrow> ps) of
        [] \<Rightarrow> Inl (EText ''generate wireguard profile: source device has no peers'')
      | peer # _ \<Rightarrow>
          if ad4_V4 addrs = [] then Inl (EText ''generate wireguard profile: source device missing IPv4 address'')
          else if ad6_V6 addrs = [] then Inl (EText ''generate wireguard profile: source device missing IPv6 address'')
          else if pr_PublicKey peer = [] then
            Inl (EText ''generate wireguard profile: source device missing peer public key'')
          else
            bind_res (resolveWireGuardEndpoint peer) (\<lambda>endpoint.
              if endpoint = [] then Inl missing_endpoint
              else Inr \<lparr>pd_PrivateKey = wga_PrivateKey account, pd_Address1 = ad4_V4 addrs, pd_Address2 = ad6_V6 addrs,
                        pd_PublicKey = pr_PublicKey peer, pd_Endpoint = endpoint\<rparr>))"

definition runWGGenerateCmd :: "'s wg_env \<Rightarrow> string \<Rightarrow> string \<Rightarrow> 's wgw \<Rightarrow> 's wgw \<times> gerr option" where
  "runWGGenerateCmd env accountPath profilePath w =
     (case LoadWGAccount (wg_fs w) accountPath of
        Inl e \<Rightarrow> (w, Some (EWrap ''load wg account: '' e []))
      | Inr account \<Rightarrow>
     (case WGAccount_Validate account of
        Some e \<Rightarrow> (w, Some (EWrap ''invalid wg account: '' e []))
      | None \<Rightarrow>
     (case NewKey (wga_PrivateKey account) of
        Inl e \<Rightarrow> (w, Some (EWrap ''invalid wg account private key: '' e []))
      | Inr _ \<Rightarrow>
     (case GetWireGuardSourceDevice (we_http env) (wga_DeviceID account) (wga_AccessToken account) (wg_srv w) of
        (s', Inl e) \<Rightarrow> (w\<lparr>wg_srv := s'\<rparr>, Some (EWrap ''fetch source device: '' e []))
      | (s', Inr device) \<Rightarrow>
     (case buildWGProfileData account device of
        Inl e \<Rightarrow> (w\<lparr>wg_srv := s'\<rparr>, Some e)
      | Inr profileData \<Rightarrow>
     (case Profile_Save (wg_fs w) (NewProfile profileData) profilePath of
        (fs', Some e) \<Rightarrow> (\<lparr>wg_fs = fs', wg_srv = s'\<rparr>, Some (EWrap ''save wireguard profile: '' e []))
      | (fs', None) \<Rightarrow> (\<lparr>wg_fs = fs', wg_srv = s'\<rparr>, None)))))))"

section \<open>Lemmas\<close>

lemma WGAccount_Save_valid: "WGAccount_Save fs a p = (fs', None) \<Longrightarrow> WGAccount_Validate a = None"
  by (auto simp: WGAccount_Save_def split: option.splits)

lemma Profile_Save_ok:
  assumes "Profile_Save fs p f = (fs', None)" "\<not> fs_unreadable fs (Clean f)"
  shows "os_ReadFile fs' f = Inr (OtherText (profileString p))" "fs_mode fs' (Clean f) = 384"
proof -
  from assms(1) obtain fs1 where w: "os_WriteFile fs f (OtherText (profileString p)) 384 = Inr fs1"
    and ch: "os_Chmod fs1 f 384 = Inr fs'"
    by (auto simp: Profile_Save_def split: sum.splits)
  have "os_ReadFile fs1 f = Inr (OtherText (profileString p))" using w assms(2) by (rule os_ReadFile_WriteFile)
  moreover have "os_ReadFile fs' f = os_ReadFile fs1 f" "fs_mode fs' (Clean f) = 384"
    using ch by (auto simp: os_Chmod_def os_ReadFile_def split: if_splits option.splits)
  ultimately show "os_ReadFile fs' f = Inr (OtherText (profileString p))" "fs_mode fs' (Clean f) = 384" by simp_all
qed

lemma registerWGAccount_saved:
  assumes "registerWGAccount env p opts w = (w', Inr a)"
  shows "\<exists>priv d. loadOrCreateWGPrivateKey env (opt_key opts) = Inr priv \<and>
    a = buildWGAccount d (KeyString priv) (opt_name opts) (opt_model opts) \<and>
    WGAccount_Save (wg_fs w) a p = (wg_fs w', None)"
proof -
  obtain priv where priv: "loadOrCreateWGPrivateKey env (opt_key opts) = Inr priv"
    using assms by (cases "loadOrCreateWGPrivateKey env (opt_key opts)") (auto simp: registerWGAccount_def Let_def split: if_splits)
  obtain s1 r1 where r1: "RegisterWireGuardDevice (we_http env) (we_serial_rand env) (we_now env)
      (KeyString (Public (we_curve env) priv)) (opt_model opts) (TrimSpace (opt_jwt opts)) (wg_srv w) = (s1, r1)" by fastforce
  with assms priv obtain d0 where d0: "r1 = Inr d0"
    by (cases r1) (auto simp: registerWGAccount_def Let_def split: if_splits)
  obtain s2 r2 where r2: "rebind_registered env (TrimSpace (opt_license opts)) d0 s1 = (s2, r2)" by fastforce
  with assms priv r1 d0 obtain d where d: "r2 = Inr d"
    by (cases r2) (auto simp: registerWGAccount_def Let_def split: if_splits)
  have sn: "save_and_name env p opts priv d (w\<lparr>wg_srv := s2\<rparr>) = (w', Inr a)"
    using assms priv r1 d0 r2 d by (auto simp: registerWGAccount_def Let_def split: if_splits)
  obtain fs' e where sv: "WGAccount_Save (wg_fs w) (buildWGAccount d (KeyString priv) (opt_name opts) (opt_model opts)) p = (fs', e)"
    by fastforce
  with sn have "e = None" "a = buildWGAccount d (KeyString priv) (opt_name opts) (opt_model opts)" "wg_fs w' = fs'"
    by (auto simp: save_and_name_def Let_def split: option.splits if_splits prod.splits)
  with priv sv show ?thesis by auto
qed

section \<open>A concrete environment\<close>

definition wg_service :: "string http" where
  "wg_service =
     \<lparr>ht_text = (\<lambda>_. []), ht_parse = (\<lambda>_. None),
      ht_do = (\<lambda>req lic.
        (case rq_body req of
           Some (JObj ms) \<Rightarrow>
             (case ms ''license'' of
                Some (JStr l) \<Rightarrow> (l, Inr \<lparr>rs_StatusCode = 200, rs_Status = ''200 OK'', rs_Body = BodyOther []\<rparr>)
              | _ \<Rightarrow> (lic, Inr \<lparr>rs_StatusCode = 200, rs_Status = ''200 OK'',
                       rs_Body = BodyJson (JObj [''id'' \<mapsto> JStr ''d1'', ''token'' \<mapsto> JStr ''t1''])\<rparr>))
         | _ \<Rightarrow> (lic, Inr \<lparr>rs_StatusCode = 200, rs_Status = ''200 OK'',
                  rs_Body = BodyJson (JObj [''license'' \<mapsto> JStr lic,
                    ''config'' \<mapsto> JObj
                      [''peers'' \<mapsto> JArr [JObj [''public_key'' \<mapsto> JStr ''pk'', ''endpoint'' \<mapsto> JObj [''host'' \<mapsto> JStr ''e:1'']]],
                       ''interface'' \<mapsto> JObj [''addresses'' \<mapsto> JObj [''v4'' \<mapsto> JStr ''a4'', ''v6'' \<mapsto> JStr ''a6'']]]])\<rparr>)))\<rparr>"

definition wg_sample_env :: "string wg_env" where
  "wg_sample_env =
     \<lparr>we_http = wg_service, we_curve = (\<lambda>k. k), we_key_rand = Inr (replicate 32 1), we_serial_rand = Inr (replicate 8 2),
      we_now = \<lparr>cv_year = 2025, cv_month = 1, cv_day = 2, cv_hour = 3, cv_min = 4, cv_sec = 5, cv_nanosec = 6, cv_offset = 0\<rparr>,
      we_scan = Inr ''n''\<rparr>"

definition wg_sample_opts :: wgRegisterOptions where
  "wg_sample_opts = \<lparr>opt_name = [], opt_model = ''PC'', opt_key = [], opt_license = [], opt_jwt = [], opt_acceptTOS = True\<rparr>"

definition wg_sample_world :: "string wgw" where
  "wg_sample_world = \<lparr>wg_fs = empty_fs, wg_srv = ''old''\<rparr>"

definition wg_sample_account :: WGAccount where
  "wg_sample_account =
     \<lparr>wga_DeviceID = ''d1'', wga_AccessToken = ''t1'', wga_License = [], wga_PrivateKey = KeyString (replicate 32 1),
      wga_DeviceName = [], wga_Model = []\<rparr>"

lemma KeyString_32: "KeyString (replicate 32 b) \<noteq> []"
  by (simp add: KeyString_def)

lemma wg_sample_trims: "TrimSpace [] = []" "TrimSpace ''d1'' = ''d1''" "TrimSpace ''t1'' = ''t1''" "TrimSpace ''PC'' = ''PC''"
  by code_simp+

lemma wg_sample_save: "\<exists>fs. WGAccount_Save empty_fs wg_sample_account [] = (fs, None)"
  by (simp add: WGAccount_Save_def WGAccount_Validate_def wg_sample_account_def wg_sample_trims KeyString_32
      os_WriteFile_def os_Chmod_def empty_fs_def Let_def)

section \<open>Properties\<close>

text \<open>
  a registered WireGuard account is reused: after \<open>registerWGAccount\<close> succeeds, \<open>ensureWGAccount\<close>
  on the same path returns that account without touching the service or the files, with whatever
  options and whatever the prompt would answer; its private key is one the key parser accepts.
\<close>

theorem ensureWGAccount_reuses:
  assumes "registerWGAccount env p opts w = (w', Inr a)"
    "\<not> fs_unreadable (wg_fs w) (Clean (normalizeWGAccountPath p))"
    "\<forall>r. we_key_rand env = Inr r \<longrightarrow> length r = KeyLength"
  shows "ensureWGAccount env2 p opts2 w' = (w', Inr a) \<and> (\<exists>k. NewKey (wga_PrivateKey a) = Inr k)"
proof -
  obtain priv d where priv: "loadOrCreateWGPrivateKey env (opt_key opts) = Inr priv"
    and a: "a = buildWGAccount d (KeyString priv) (opt_name opts) (opt_model opts)"
    and sv: "WGAccount_Save (wg_fs w) a p = (wg_fs w', None)"
    using registerWGAccount_saved [OF assms(1)] by blast
  have "wf_key priv"
    using priv assms(3) NewKey_wf
    by (auto simp: loadOrCreateWGPrivateKey_def NewPrivateKey_def wf_key_def Let_def bind_res_eq_Inr KeyLength_def split: if_splits)
  then have "NewKey (wga_PrivateKey a) = Inr priv" by (simp add: a buildWGAccount_def NewKey_KeyString)
  moreover have "LoadWGAccount (wg_fs w') p = Inr a" using WGAccount_Save_Load [OF sv assms(2)] by simp
  ultimately show ?thesis using WGAccount_Save_valid [OF sv] by (simp add: ensureWGAccount_def)
qed

theorem ensureWGAccount_reuses_witness:
  "\<exists>w' a. registerWGAccount wg_sample_env [] wg_sample_opts wg_sample_world = (w', Inr a) \<and>
     ensureWGAccount wg_sample_env [] (wg_sample_opts\<lparr>opt_acceptTOS := False\<rparr>) w' = (w', Inr a)"
proof -
  let ?k = "(replicate 32 1)[0 := replicate 32 1 ! 0 AND 248, 31 := (replicate 32 1)[0 := replicate 32 1 ! 0 AND 248] ! 31 AND 127 OR (64 :: byte)]"
  have k: "loadOrCreateWGPrivateKey wg_sample_env [] = Inr ?k"
    by (simp add: loadOrCreateWGPrivateKey_def wg_sample_trims NewPrivateKey_def wg_sample_env_def Let_def)
  have ne: "KeyString ?k \<noteq> []" by (simp add: KeyString_def)
  have r: "RegisterWireGuardDevice wg_service (Inr (replicate 8 2)) now (KeyString ?k) ''PC'' [] s =
      (s, Inr (zeroAccountData\<lparr>ad_ID := ''d1'', ad_Token := ''t1''\<rparr>))" for now s
    using ne by (simp add: RegisterWireGuardDevice_def wg_sample_trims GenerateRandomAndroidSerial_def exchange_def send_def
        wg_service_def registration_doc_def account_data_fields_def field_def zeroAccountData_def Let_def)
  obtain w' a where reg: "registerWGAccount wg_sample_env [] wg_sample_opts wg_sample_world = (w', Inr a)"
    using k r ne
    by (simp add: registerWGAccount_def wg_sample_opts_def wg_sample_trims rebind_registered_def save_and_name_def
        buildWGAccount_def WGAccount_Save_def WGAccount_Validate_def os_WriteFile_def os_Chmod_def
        empty_fs_def wg_sample_world_def wg_sample_env_def Public_def Let_def)
  have "ensureWGAccount wg_sample_env [] (wg_sample_opts\<lparr>opt_acceptTOS := False\<rparr>) w' = (w', Inr a)"
    using ensureWGAccount_reuses [OF reg, of wg_sample_env "wg_sample_opts\<lparr>opt_acceptTOS := False\<rparr>"]
    by (simp add: wg_sample_world_def empty_fs_def wg_sample_env_def KeyLength_def)
  with reg show ?thesis by blast
qed

text \<open>
  an update binds the requested license and changes nothing else of the account file: against
  a service whose account resource shows what was written, \<open>runWGUpdateCmd\<close> leaves a file that loads as
  the old account with the trimmed license.
\<close>

theorem runWGUpdateCmd_binds:
  assumes "runWGUpdateCmd env p lic w = (w', None)" "LoadWGAccount (wg_fs w) p = Inr acc"
    and "account_resource (we_http env)
      (zeroAccountData\<lparr>ad_ID := wga_DeviceID acc, ad_Token := wga_AccessToken acc,
         ad_Account := zeroAccount\<lparr>ac_License := wga_License acc\<rparr>\<rparr>) stored"
    and "\<not> fs_unreadable (wg_fs w) (Clean (normalizeWGAccountPath p))"
  shows "LoadWGAccount (wg_fs w') p = Inr (acc\<lparr>wga_License := TrimSpace lic\<rparr>) \<and> stored (wg_srv w') = TrimSpace lic"
proof -
  let ?d = "zeroAccountData\<lparr>ad_ID := wga_DeviceID acc, ad_Token := wga_AccessToken acc,
         ad_Account := zeroAccount\<lparr>ac_License := wga_License acc\<rparr>\<rparr>"
  have ne: "TrimSpace lic \<noteq> []" using assms(1) by (auto simp: runWGUpdateCmd_def Let_def)
  then obtain s' fin where r: "RebindLicense (we_http env) ?d (TrimSpace lic) (wg_srv w) =
      (s', Inr (fin, stored (wg_srv w) \<noteq> TrimSpace lic))" "ac_License fin = TrimSpace lic" "stored s' = TrimSpace lic"
    using RebindLicense_ok [OF assms(3), of "TrimSpace lic" "wg_srv w"] by auto
  obtain fs' e where sv: "WGAccount_Save (wg_fs w) (acc\<lparr>wga_License := ac_License fin\<rparr>) p = (fs', e)" by fastforce
  with assms(1,2) ne r have "e = None" "w' = \<lparr>wg_fs = fs', wg_srv = s'\<rparr>"
    by (auto simp: runWGUpdateCmd_def Let_def split: if_splits option.splits)
  with WGAccount_Save_Load [of "wg_fs w" "acc\<lparr>wga_License := ac_License fin\<rparr>" p fs'] sv assms(4) r
  show ?thesis by simp
qed

lemma wg_service_resource:
  "account_resource wg_service (zeroAccountData\<lparr>ad_ID := i, ad_Token := t, ad_Account := b\<rparr>) (\<lambda>lic. lic)"
  by (simp add: account_resource_def wg_service_def account_get_def account_put_def success_def
      account_fields_def field_def zeroAccount_def)

theorem runWGUpdateCmd_binds_witness:
  "\<exists>fs w'. WGAccount_Save empty_fs wg_sample_account [] = (fs, None) \<and>
     runWGUpdateCmd wg_sample_env [] '' new '' \<lparr>wg_fs = fs, wg_srv = ''old''\<rparr> = (w', None) \<and>
     LoadWGAccount (wg_fs w') [] = Inr (wg_sample_account\<lparr>wga_License := ''new''\<rparr>)"
proof -
  obtain fs where fs: "WGAccount_Save empty_fs wg_sample_account [] = (fs, None)" using wg_sample_save by blast
  let ?w = "\<lparr>wg_fs = fs, wg_srv = ''old''\<rparr>"
  have ld: "LoadWGAccount fs [] = Inr wg_sample_account"
    using WGAccount_Save_Load [OF fs] by (simp add: empty_fs_def)
  have acc: "fs_unreadable fs = (\<lambda>_. False)" "fs_unwritable fs = (\<lambda>_. False)"
    using fs by (auto simp: WGAccount_Save_def os_WriteFile_def os_Chmod_def empty_fs_def Let_def split: option.splits if_splits)
  have t: "TrimSpace '' new '' = ''new''" "TrimSpace ''new'' = ''new''" by code_simp+
  let ?d = "zeroAccountData\<lparr>ad_ID := ''d1'', ad_Token := ''t1'', ad_Account := zeroAccount\<lparr>ac_License := []\<rparr>\<rparr>"
  obtain s' fin where rb: "RebindLicense wg_service ?d ''new'' ''old'' = (s', Inr (fin, True))" "ac_License fin = ''new''"
    using RebindLicense_ok [OF wg_service_resource [of "zeroAccount\<lparr>ac_License := []\<rparr>" "''t1''" "''d1''"], of "''new''" "''old''"]
    by (auto simp: t)
  obtain w' where run: "runWGUpdateCmd wg_sample_env [] '' new '' ?w = (w', None)"
    using ld rb acc
    by (simp add: runWGUpdateCmd_def t wg_sample_account_def wg_sample_trims KeyString_32 wg_sample_env_def
        WGAccount_Save_def WGAccount_Validate_def os_WriteFile_def os_Chmod_def Let_def)
  have "LoadWGAccount (wg_fs w') [] = Inr (wg_sample_account\<lparr>wga_License := TrimSpace '' new ''\<rparr>) \<and> wg_srv w' = TrimSpace '' new ''"
    using ld acc wg_service_resource
    by (intro runWGUpdateCmd_binds [OF run]) (simp_all add: wg_sample_env_def)
  with fs run t show ?thesis by auto
qed

text \<open>
  a generated profile holds the private key of the account, which is a valid key, the
  key of a peer and an endpoint that are not empty, in a file only its owner can read.
\<close>

theorem runWGGenerateCmd_profile:
  assumes "runWGGenerateCmd env p f w = (w', None)" "\<not> fs_unreadable (wg_fs w) (Clean f)"
  shows "\<exists>acc k peer endpoint v4 v6. LoadWGAccount (wg_fs w) p = Inr acc \<and> NewKey (wga_PrivateKey acc) = Inr k \<and>
    resolveWireGuardEndpoint peer = Inr endpoint \<and> endpoint \<noteq> [] \<and> pr_PublicKey peer \<noteq> [] \<and> v4 \<noteq> [] \<and> v6 \<noteq> [] \<and>
    os_ReadFile (wg_fs w') f = Inr (OtherText (generateProfile
      \<lparr>pd_PrivateKey = wga_PrivateKey acc, pd_Address1 = v4, pd_Address2 = v6, pd_PublicKey = pr_PublicKey peer,
       pd_Endpoint = endpoint\<rparr>)) \<and>
    fs_mode (wg_fs w') (Clean f) = 384"
proof -
  obtain acc where acc: "LoadWGAccount (wg_fs w) p = Inr acc"
    using assms(1) by (cases "LoadWGAccount (wg_fs w) p") (auto simp: runWGGenerateCmd_def)
  have v: "WGAccount_Validate acc = None"
    using assms(1) acc by (cases "WGAccount_Validate acc") (auto simp: runWGGenerateCmd_def)
  obtain k where k: "NewKey (wga_PrivateKey acc) = Inr k"
    using assms(1) acc v by (cases "NewKey (wga_PrivateKey acc)") (auto simp: runWGGenerateCmd_def)
  obtain s' r where g: "GetWireGuardSourceDevice (we_http env) (wga_DeviceID acc) (wga_AccessToken acc) (wg_srv w) = (s', r)"
    by fastforce
  obtain device where d: "r = Inr device" using assms(1) acc v k g by (cases r) (auto simp: runWGGenerateCmd_def)
  obtain pd where pd: "buildWGProfileData acc device = Inr pd"
    using assms(1) acc v k g d by (cases "buildWGProfileData acc device") (auto simp: runWGGenerateCmd_def)
  obtain fs' e where sv: "Profile_Save (wg_fs w) (NewProfile pd) f = (fs', e)" by fastforce
  with assms(1) acc v k g d pd have "e = None" "wg_fs w' = fs'"
    by (auto simp: runWGGenerateCmd_def split: option.splits)
  with Profile_Save_ok [of "wg_fs w" "NewProfile pd" f fs'] sv assms(2)
  have saved: "os_ReadFile (wg_fs w') f = Inr (OtherText (generateProfile pd))" "fs_mode (wg_fs w') (Clean f) = 384"
    by (auto simp: NewProfile_def)
  have "\<exists>peer endpoint v4 v6. resolveWireGuardEndpoint peer = Inr endpoint \<and> endpoint \<noteq> [] \<and> pr_PublicKey peer \<noteq> [] \<and>
      v4 \<noteq> [] \<and> v6 \<noteq> [] \<and> pd = \<lparr>pd_PrivateKey = wga_PrivateKey acc, pd_Address1 = v4, pd_Address2 = v6,
        pd_PublicKey = pr_PublicKey peer, pd_Endpoint = endpoint\<rparr>"
    using pd by (auto simp: buildWGProfileData_def Let_def bind_res_eq_Inr split: list.splits if_splits)
  with acc k saved show ?thesis by metis
qed

theorem runWGGenerateCmd_profile_witness:
  "\<exists>fs w'. WGAccount_Save empty_fs wg_sample_account [] = (fs, None) \<and>
     runWGGenerateCmd wg_sample_env [] ''wg.conf'' \<lparr>wg_fs = fs, wg_srv = ''old''\<rparr> = (w', None) \<and>
     fs_mode (wg_fs w') (Clean ''wg.conf'') = 384"
proof -
  obtain fs where fs: "WGAccount_Save empty_fs wg_sample_account [] = (fs, None)" using wg_sample_save by blast
  let ?w = "\<lparr>wg_fs = fs, wg_srv = ''old''\<rparr>"
  have ld: "LoadWGAccount fs [] = Inr wg_sample_account"
    using WGAccount_Save_Load [OF fs] by (simp add: empty_fs_def)
  have acc: "fs_unreadable fs = (\<lambda>_. False)" "fs_unwritable fs = (\<lambda>_. False)"
    using fs by (auto simp: WGAccount_Save_def os_WriteFile_def os_Chmod_def empty_fs_def Let_def split: option.splits if_splits)
  have v: "WGAccount_Validate wg_sample_account = None" using WGAccount_Save_valid [OF fs] .
  have k: "NewKey (wga_PrivateKey wg_sample_account) = Inr (replicate 32 1)"
    by (simp add: wg_sample_account_def NewKey_KeyString wf_key_def KeyLength_def)
  obtain dev where g: "GetWireGuardSourceDevice wg_service ''d1'' ''t1'' ''old'' = (''old'', Inr dev)"
    "buildWGProfileData wg_sample_account dev = Inr \<lparr>pd_PrivateKey = KeyString (replicate 32 1), pd_Address1 = ''a4'',
       pd_Address2 = ''a6'', pd_PublicKey = ''pk'', pd_Endpoint = ''e:1''\<rparr>"
    by (simp add: GetWireGuardSourceDevice_def exchange_def send_def wg_service_def source_device_get_def
        account_data_fields_def field_def zeroAccountData_def device_config_fields_def peer_fields_def
        peer_endpoint_fields_def addresses_fields_def zeroPeer_def zeroDeviceConfig_def buildWGProfileData_def
        resolveWireGuardEndpoint_def peer_ports_def wg_sample_account_def)
  obtain w' where run: "runWGGenerateCmd wg_sample_env [] ''wg.conf'' ?w = (w', None)"
    using ld v k g acc
    by (simp add: runWGGenerateCmd_def wg_sample_env_def) (simp add: wg_sample_account_def Profile_Save_def os_WriteFile_def os_Chmod_def)
  have "fs_mode (wg_fs w') (Clean ''wg.conf'') = 384"
    using runWGGenerateCmd_profile [OF run] acc by auto
  with fs run show ?thesis by blast
qed

end
