(* ===== verification/Wg_Supervisor.thy ===== *)
theory Wg_Supervisor
  imports Wg_Account Socks_Runtime Endpoints
begin

text \<open>
  The WireGuard transport: \<open>src/cmd/wg_transport.go\<close> and \<open>src/cmd/wg_runtime.go\<close>. The WireGuard
  device, which another package provides, is the record \<open>wg_device\<close> of its calls over a state of its
  own; \<open>net.ResolveUDPAddr\<close> is an argument (an address without a valid IP is \<open>NoAddr\<close>). The watchdog
  is a state machine: one step per tick of its timer. The readings of the clock within one
  tick before the endpoint is fetched are one reading.
\<close>

section \<open>Constants\<close>

definition defaultWGEndpointPort :: int where "defaultWGEndpointPort = 2408"
definition defaultWGRunMTU :: int where "defaultWGRunMTU = 1280"
definition defaultWGRunKeepalive :: int where "defaultWGRunKeepalive = 25"
definition defaultWGHandshakeTimeout :: duration where "defaultWGHandshakeTimeout = 10 * Second"
definition wgWedgeKeepaliveFactor :: int where "wgWedgeKeepaliveFactor = 3"
definition wgMinWedgeWindow :: duration where "wgMinWedgeWindow = 60 * Second"
definition wgMaxPollInterval :: duration where "wgMaxPollInterval = 15 * Second"
definition wgInitialRecoveryBackoff :: duration where "wgInitialRecoveryBackoff = 2 * Second"
definition wgMaxRecoveryBackoff :: duration where "wgMaxRecoveryBackoff = 5 * Minute"

lemmas wg_consts = wgWedgeKeepaliveFactor_def wgMinWedgeWindow_def wgMaxPollInterval_def
  wgInitialRecoveryBackoff_def wgMaxRecoveryBackoff_def

section \<open>Addresses\<close>

definition wgRunLocalAddresses :: "ProfileData \<Rightarrow> (gerr, addr list \<times> ip_prefix list) result" where
  "wgRunLocalAddresses profileData =
     bind_res (map_res (\<lambda>raw. map_err (\<lambda>e. EWrap ''invalid interface address: '' e []) (NormalizeInterfaceAddr raw))
                 (filter (\<lambda>raw. TrimSpace raw \<noteq> []) [pd_Address1 profileData, pd_Address2 profileData])) (\<lambda>prefixes.
       if prefixes = [] then Inl (EText ''wireguard: source device has no usable interface address'')
       else Inr (map fst prefixes, prefixes))"

definition wgRunDNSAddrs :: "Config \<Rightarrow> (gerr, addr list) result" where
  "wgRunDNSAddrs cfg =
     bind_res (map_res (\<lambda>dns. map_err (\<lambda>_. EText (''parse DNS server '' @ go_quote dns)) (ParseAddr dns))
                 (filter (\<lambda>dns. dns \<noteq> []) (map TrimSpace (slice (DNS (Socks cfg)))))) (\<lambda>dnsAddrs.
       Inr (if dnsAddrs = [] then [Addr4 [1, 1, 1, 1]] else dnsAddrs))"

type_synonym udp_resolver = "string \<Rightarrow> (gerr, addr_port) result"

definition resolveWGEndpointAddrPort :: "udp_resolver \<Rightarrow> string \<Rightarrow> (gerr, addr_port) result" where
  "resolveWGEndpointAddrPort resolve endpoint0 =
     (let endpoint = TrimSpace endpoint0 in
      if endpoint = [] then Inl (EText ''empty wireguard endpoint'')
      else case ParseAddrPort endpoint of
             Some ap \<Rightarrow> Inr ap
           | None \<Rightarrow>
               let (host, port) =
                     (case SplitHostPort endpoint of
                        Inr hp \<Rightarrow> hp
                      | Inl _ \<Rightarrow> (Trim endpoint ''[]'', Itoa defaultWGEndpointPort))
               in (case resolve (JoinHostPort host port) of
                     Inl e \<Rightarrow> Inl (EWrap (''resolve '' @ go_quote endpoint @ '': '') e [])
                   | Inr (a, p) \<Rightarrow>
                       if a = NoAddr then Inl (EText (''resolved '' @ go_quote endpoint @ '' to an invalid address''))
                       else if Is4In6 a then Inr (Unmap a, p)
                       else Inr (a, p)))"

section \<open>The device\<close>

record 'd wg_device =
  dv_IpcGet :: "'d \<Rightarrow> (gerr, string) result"
  dv_IpcSet :: "string \<Rightarrow> 'd \<Rightarrow> 'd \<times> gerr option"
  dv_Up :: "'d \<Rightarrow> 'd \<times> gerr option"
  dv_Close :: "'d \<Rightarrow> 'd"
  dv_SendKeepalives :: "'d \<Rightarrow> 'd"

definition StartWireGuardTunnel :: "'d wg_device \<Rightarrow> string \<Rightarrow> 'd \<Rightarrow> 'd \<times> gerr option" where
  "StartWireGuardTunnel dev uapiConfig d =
     (case dv_IpcSet dev uapiConfig d of
        (d1, Some e) \<Rightarrow> (dv_Close dev d1, Some (EWrap ''wireguard IpcSet: '' e []))
      | (d1, None) \<Rightarrow>
          (case dv_Up dev d1 of
             (d2, Some e) \<Rightarrow> (dv_Close dev d2, Some (EWrap ''wireguard Up: '' e []))
           | (d2, None) \<Rightarrow> (d2, None)))"

definition wgHandshakeComplete :: "'d wg_device \<Rightarrow> 'd \<Rightarrow> bool" where
  "wgHandshakeComplete dev d =
     (case dv_IpcGet dev d of
        Inl _ \<Rightarrow> False
      | Inr cfg \<Rightarrow>
          list_ex (\<lambda>line.
            HasPrefix line ''last_handshake_time_sec='' \<and>
            (case Atoi (TrimSpace (TrimPrefix line ''last_handshake_time_sec='')) of Some sec \<Rightarrow> sec > 0 | None \<Rightarrow> False))
            (split_byte CHR 0x0A cfg))"

text \<open>
  The polling loop of \<open>waitForWGHandshake\<close>: at poll \<open>k\<close> the clock shows \<open>clk k\<close> and the device is in
  state \<open>ds k\<close>. \<open>None\<close>: still polling when the fuel is used up.
\<close>

fun handshake_loop :: "'d wg_device \<Rightarrow> (nat \<Rightarrow> int) \<Rightarrow> (nat \<Rightarrow> 'd) \<Rightarrow> int \<Rightarrow> gerr \<Rightarrow> nat \<Rightarrow> nat \<Rightarrow> gerr option option" where
  "handshake_loop dev clk ds deadline err k 0 = None"
| "handshake_loop dev clk ds deadline err k (Suc fuel) =
     (if wgHandshakeComplete dev (ds k) then Some None
      else if clk k > deadline then Some (Some err)
      else handshake_loop dev clk ds deadline err (Suc k) fuel)"

definition waitForWGHandshake :: "'d wg_device \<Rightarrow> (nat \<Rightarrow> int) \<Rightarrow> (nat \<Rightarrow> 'd) \<Rightarrow> int \<Rightarrow> duration \<Rightarrow> nat \<Rightarrow> gerr option option" where
  "waitForWGHandshake dev clk ds start timeout fuel =
     (if timeout \<le> 0 then Some None
      else handshake_loop dev clk ds (start + timeout) (EText ''no wireguard handshake in time'') 0 fuel)"

section \<open>Bringing the tunnel up\<close>

record wgTransportParams =
  tp_mtu :: int
  tp_keepalive :: int
  tp_listenPort :: int
  tp_handshakeTimeout :: duration

record wg_plan =
  pl_uapi :: string
  pl_peer :: Key
  pl_addrs :: "addr list"
  pl_dns :: "addr list"
  pl_endpoint :: addr_port
  pl_mtu :: int
  pl_handshakeTimeout :: duration

text \<open>Steps 1 to 4 of \<open>runWireGuardTransport\<close>, up to the creation of the device.\<close>

definition wg_prepare :: "'s http \<Rightarrow> udp_resolver \<Rightarrow> Config \<Rightarrow> WGAccount \<Rightarrow> wgTransportParams \<Rightarrow> 's \<Rightarrow> 's \<times> (gerr, wg_plan) result" where
  "wg_prepare h resolve cfg account params s =
     (let mtu = (if tp_mtu params \<le> 0 then defaultWGRunMTU else tp_mtu params);
          handshakeTimeout = (if tp_handshakeTimeout params \<le> 0 then defaultWGHandshakeTimeout else tp_handshakeTimeout params) in
      case NewKey (wga_PrivateKey account) of
        Inl e \<Rightarrow> (s, Inl (EWrap ''invalid wg account private key: '' e []))
      | Inr privKey \<Rightarrow>
     (case GetWireGuardSourceDevice h (wga_DeviceID account) (wga_AccessToken account) s of
        (s', Inl e) \<Rightarrow> (s', Inl (EWrap ''fetch source device: '' e []))
      | (s', Inr device) \<Rightarrow>
          (s',
           bind_res (buildWGProfileData account device) (\<lambda>profileData.
           bind_res (map_err (\<lambda>e. EWrap (''resolve wg endpoint '' @ go_quote (pd_Endpoint profileData) @ '': '') e [])
                      (resolveWGEndpointAddrPort resolve (pd_Endpoint profileData))) (\<lambda>endpoint.
             case ValidatePeer (pd_PublicKey profileData) (AddrPortString endpoint) of
               Some e \<Rightarrow> Inl (EWrap ''invalid wg peer: '' e [])
             | None \<Rightarrow>
           bind_res (map_err (\<lambda>e. EWrap ''invalid wg peer public key: '' e []) (NewKey (pd_PublicKey profileData))) (\<lambda>peerKey.
           bind_res (wgRunLocalAddresses profileData) (\<lambda>(localAddresses, addrPrefixes).
           bind_res (wgRunDNSAddrs cfg) (\<lambda>dnsAddrs.
           bind_res (BuildUAPIConfig \<lparr>ua_PrivateKey = Some privKey, ua_PublicKey = Some peerKey,
                       ua_Endpoint = AddrPortString endpoint, ua_PersistentKeepalive = tp_keepalive params,
                       ua_AllowedIPs = [''0.0.0.0/0'', ''::/0''], ua_ListenPort = tp_listenPort params\<rparr>) (\<lambda>uapiConfig.
             Inr \<lparr>pl_uapi = uapiConfig, pl_peer = peerKey, pl_addrs = localAddresses, pl_dns = dnsAddrs,
                  pl_endpoint = endpoint, pl_mtu = mtu, pl_handshakeTimeout = handshakeTimeout\<rparr>)))))))))"

section \<open>Health\<close>

record wgHealth =
  hl_tx :: nat
  hl_rx :: nat
  hl_handshakeSec :: int

definition zeroHealth :: wgHealth where
  "zeroHealth = \<lparr>hl_tx = 0, hl_rx = 0, hl_handshakeSec = 0\<rparr>"

definition health_line :: "string \<Rightarrow> wgHealth \<Rightarrow> wgHealth" where
  "health_line line h =
     (if HasPrefix line ''tx_bytes='' then h\<lparr>hl_tx := ParseUint_val (TrimPrefix line ''tx_bytes='')\<rparr>
      else if HasPrefix line ''rx_bytes='' then h\<lparr>hl_rx := ParseUint_val (TrimPrefix line ''rx_bytes='')\<rparr>
      else if HasPrefix line ''last_handshake_time_sec='' then
        h\<lparr>hl_handshakeSec := ParseInt_val (TrimPrefix line ''last_handshake_time_sec='')\<rparr>
      else h)"

definition parseWGHealth :: "string \<Rightarrow> wgHealth" where
  "parseWGHealth cfg = fold health_line (split_byte CHR 0x0A cfg) zeroHealth"

definition readWGHealth :: "'d wg_device \<Rightarrow> 'd \<Rightarrow> wgHealth \<times> bool" where
  "readWGHealth dev d =
     (case dv_IpcGet dev d of Inl _ \<Rightarrow> (zeroHealth, False) | Inr cfg \<Rightarrow> (parseWGHealth cfg, True))"

definition wgWedged :: "bool \<Rightarrow> duration \<Rightarrow> duration \<Rightarrow> bool" where
  "wgWedged sent sinceProgress window = (sent \<and> sinceProgress \<ge> window)"

definition nextWGBackoff :: "duration \<Rightarrow> duration" where
  "nextWGBackoff d = (let n = d * 2 in if n > wgMaxRecoveryBackoff then wgMaxRecoveryBackoff else n)"

section \<open>Following a moved endpoint\<close>

definition repoint_text :: "Key \<Rightarrow> addr_port \<Rightarrow> string" where
  "repoint_text peerKey endpoint =
     ''public_key='' @ HexString peerKey @ nl @ ''update_only=true'' @ nl @ ''endpoint='' @ AddrPortString endpoint @ nl"

definition repointWireGuardEndpoint ::
  "'s http \<Rightarrow> udp_resolver \<Rightarrow> 'd wg_device \<Rightarrow> WGAccount \<Rightarrow> Key \<Rightarrow> 's \<times> 'd \<Rightarrow> ('s \<times> 'd) \<times> gerr option" where
  "repointWireGuardEndpoint h resolve dev account peerKey x =
     (case x of (s, d) \<Rightarrow>
     (case GetWireGuardSourceDevice h (wga_DeviceID account) (wga_AccessToken account) s of
        (s', Inl e) \<Rightarrow> ((s', d), Some (EWrap ''fetch source device: '' e []))
      | (s', Inr src) \<Rightarrow>
     (case buildWGProfileData account src of
        Inl e \<Rightarrow> ((s', d), Some e)
      | Inr profileData \<Rightarrow>
     (case resolveWGEndpointAddrPort resolve (pd_Endpoint profileData) of
        Inl e \<Rightarrow> ((s', d), Some (EWrap (''resolve endpoint '' @ go_quote (pd_Endpoint profileData) @ '': '') e []))
      | Inr endpoint \<Rightarrow>
     (case dv_IpcSet dev (repoint_text peerKey endpoint) d of
        (d', Some e) \<Rightarrow> ((s', d'), Some (EWrap ''update peer endpoint: '' e []))
      | (d', None) \<Rightarrow> ((s', d'), None))))))"

section \<open>The watchdog\<close>

text \<open>\<open>sv_wedgedAt\<close> and \<open>sv_lastAttempt\<close> are \<open>None\<close> while they are the zero time.\<close>

record supervisor_state =
  sv_prev :: wgHealth
  sv_lastProgress :: int
  sv_down :: bool
  sv_wedgedAt :: "int option"
  sv_lastAttempt :: "int option"
  sv_backoff :: duration
  sv_rt :: socksRuntime

definition wedgeWindow :: "int \<Rightarrow> duration" where
  "wedgeWindow keepalive =
     (let w = wgWedgeKeepaliveFactor * (keepalive * Second) in if w < wgMinWedgeWindow then wgMinWedgeWindow else w)"

definition pollInterval :: "int \<Rightarrow> duration" where
  "pollInterval keepalive =
     (let p = keepalive * Second in if p \<le> 0 \<or> p > wgMaxPollInterval then wgMaxPollInterval else p)"

definition supervise_start :: "'d wg_device \<Rightarrow> int \<Rightarrow> 'd \<Rightarrow> socksRuntime \<Rightarrow> supervisor_state" where
  "supervise_start dev now d rt =
     \<lparr>sv_prev = fst (readWGHealth dev d), sv_lastProgress = now, sv_down = False, sv_wedgedAt = None,
      sv_lastAttempt = None, sv_backoff = wgInitialRecoveryBackoff, sv_rt = rt\<rparr>"

text \<open>Time since the last attempt is below the backoff; the time since the zero time never is.\<close>

definition too_soon :: "int \<Rightarrow> supervisor_state \<Rightarrow> bool" where
  "too_soon now v = (case sv_lastAttempt v of None \<Rightarrow> False | Some t \<Rightarrow> now - t < sv_backoff v)"

definition supervise_tick ::
  "'s http \<Rightarrow> udp_resolver \<Rightarrow> 'd wg_device \<Rightarrow> WGAccount \<Rightarrow> Key \<Rightarrow> int \<Rightarrow> int \<Rightarrow> 's \<times> 'd \<Rightarrow> supervisor_state
    \<Rightarrow> ('s \<times> 'd) \<times> supervisor_state" where
  "supervise_tick h resolve dev account peerKey keepalive now x v =
     (case readWGHealth dev (snd x) of (cur, ok) \<Rightarrow>
      if \<not> ok then (x, v)
      else
        let progressed = (hl_rx cur > hl_rx (sv_prev v) \<or> hl_handshakeSec cur > hl_handshakeSec (sv_prev v));
            sent = (hl_tx cur > hl_tx (sv_prev v));
            v1 = v\<lparr>sv_prev := cur\<rparr>
        in if progressed then
             (let v2 = v1\<lparr>sv_lastProgress := now\<rparr>
              in if sv_down v2
                 then (x, v2\<lparr>sv_down := False, sv_backoff := wgInitialRecoveryBackoff, sv_rt := SetTunnelUp True (sv_rt v2)\<rparr>)
                 else (x, v2))
           else if \<not> wgWedged sent (now - sv_lastProgress v1) (wedgeWindow keepalive) then (x, v1)
           else
             let v2 = (if \<not> sv_down v1
                       then v1\<lparr>sv_down := True, sv_wedgedAt := Some now,
                               sv_rt := ResetTrackedConns (SetTunnelUp False (sv_rt v1))\<rparr>
                       else v1)
             in if too_soon now v2 then (x, v2)
                else
                  (let v3 = v2\<lparr>sv_lastAttempt := Some now\<rparr> in
                   case repointWireGuardEndpoint h resolve dev account peerKey x of
                     (x', Some e) \<Rightarrow> (x', v3\<lparr>sv_backoff := nextWGBackoff (sv_backoff v3)\<rparr>)
                   | ((s', d'), None) \<Rightarrow> ((s', dv_SendKeepalives dev d'), v3\<lparr>sv_backoff := nextWGBackoff (sv_backoff v3)\<rparr>)))"

text \<open>
  The loop of \<open>superviseWireGuard\<close> over a sequence of ticks: each at its time, with the service and
  the device as the world has left them by then, and with what the other goroutines did to the
  runtime since the last tick (\<open>oth\<close>, a sequence of runtime operations other than the tunnel flag).
\<close>

fun supervise_run :: "'s http \<Rightarrow> udp_resolver \<Rightarrow> 'd wg_device \<Rightarrow> WGAccount \<Rightarrow> Key \<Rightarrow> int
    \<Rightarrow> (int \<times> ('s \<times> 'd) \<times> rt_op list) list \<Rightarrow> supervisor_state \<Rightarrow> supervisor_state" where
  "supervise_run h resolve dev account peerKey keepalive [] v = v"
| "supervise_run h resolve dev account peerKey keepalive ((now, x, oth) # ticks) v =
     supervise_run h resolve dev account peerKey keepalive ticks
       (snd (supervise_tick h resolve dev account peerKey keepalive now x (v\<lparr>sv_rt := fold rt_exec oth (sv_rt v)\<rparr>)))"

section \<open>Lemmas\<close>

fun is_OpUp :: "rt_op \<Rightarrow> bool" where
  "is_OpUp (OpUp b) = True" | "is_OpUp _ = False"

lemma drain_tunnelUp: "tunnelUp (fst (fold (\<lambda>m (r, n). (fst (managed_Close m r), Suc n)) ms (r, c))) = tunnelUp r"
  by (induction ms arbitrary: r c) (simp_all add: managed_Close_frame)

lemma Reset_tunnelUp [simp]: "tunnelUp (ResetTrackedConns r) = tunnelUp r"
  by (simp add: ResetTrackedConns_def drainActiveConnections_def drain_tunnelUp)

lemma SetTunnelUp_tunnelUp [simp]: "tunnelUp (SetTunnelUp b r) = b"
  by (simp add: SetTunnelUp_def Let_def)

lemma rt_exec_tunnelUp: "\<not> is_OpUp op \<Longrightarrow> tunnelUp (rt_exec op r) = tunnelUp r"
  by (cases op) (auto simp: SignalDemand_def drainDemand_def WaitForReconnectDemand_def SetVerboseLogging_def
      accept_conn_def DropIfDisconnected_def TrackConn_def close_raw_def managed_Close_frame Let_def)

lemma others_tunnelUp: "list_all (\<lambda>op. \<not> is_OpUp op) ops \<Longrightarrow> tunnelUp (fold rt_exec ops r) = tunnelUp r"
  by (induction ops arbitrary: r) (simp_all add: rt_exec_tunnelUp)

text \<open>The watchdog gates the tunnel exactly while it holds the session for wedged; the backoff stays in range.\<close>

definition sup_inv :: "supervisor_state \<Rightarrow> bool" where
  "sup_inv v =
     (sv_down v = (\<not> tunnelUp (sv_rt v)) \<and> wgInitialRecoveryBackoff \<le> sv_backoff v \<and> sv_backoff v \<le> wgMaxRecoveryBackoff)"

lemma nextWGBackoff_range:
  "wgInitialRecoveryBackoff \<le> d \<Longrightarrow> d \<le> wgMaxRecoveryBackoff \<Longrightarrow>
     wgInitialRecoveryBackoff \<le> nextWGBackoff d \<and> nextWGBackoff d \<le> wgMaxRecoveryBackoff"
  by (auto simp: nextWGBackoff_def Let_def wg_consts)

text \<open>The effect of one tick, by what the device reports.\<close>

definition reading :: "'d wg_device \<Rightarrow> 'd \<Rightarrow> supervisor_state \<Rightarrow> bool \<times> bool" where
  "reading dev d v =
     (let cur = fst (readWGHealth dev d)
      in (hl_rx cur > hl_rx (sv_prev v) \<or> hl_handshakeSec cur > hl_handshakeSec (sv_prev v), hl_tx cur > hl_tx (sv_prev v)))"

lemma tick_cases:
  assumes v'_def: "v' = snd (supervise_tick h res dev acc key ka now x v)"
  obtains
    (unread) "\<not> snd (readWGHealth dev (snd x))" "v' = v"
  | (progress) "snd (readWGHealth dev (snd x))" "fst (reading dev (snd x) v)" "\<not> sv_down v'" "sv_lastProgress v' = now"
      "sv_rt v' = (if sv_down v then SetTunnelUp True (sv_rt v) else sv_rt v)"
      "sv_backoff v' = (if sv_down v then wgInitialRecoveryBackoff else sv_backoff v)" "sv_lastAttempt v' = sv_lastAttempt v"
      "sv_prev v' = fst (readWGHealth dev (snd x))"
  | (quiet) "snd (readWGHealth dev (snd x))" "\<not> fst (reading dev (snd x) v)"
      "\<not> (snd (reading dev (snd x) v) \<and> now - sv_lastProgress v \<ge> wedgeWindow ka)"
      "v' = v\<lparr>sv_prev := fst (readWGHealth dev (snd x))\<rparr>"
  | (wedged) "snd (readWGHealth dev (snd x))" "\<not> fst (reading dev (snd x) v)"
      "snd (reading dev (snd x) v)" "now - sv_lastProgress v \<ge> wedgeWindow ka" "sv_down v'"
      "sv_lastProgress v' = sv_lastProgress v"
      "sv_rt v' = (if sv_down v then sv_rt v else ResetTrackedConns (SetTunnelUp False (sv_rt v)))"
      "sv_lastAttempt v' = (if too_soon now v then sv_lastAttempt v else Some now)"
      "sv_backoff v' = (if too_soon now v then sv_backoff v else nextWGBackoff (sv_backoff v))"
      "sv_prev v' = fst (readWGHealth dev (snd x))"
proof -
  obtain cur ok where r: "readWGHealth dev (snd x) = (cur, ok)" by fastforce
  let ?p = "hl_rx cur > hl_rx (sv_prev v) \<or> hl_handshakeSec cur > hl_handshakeSec (sv_prev v)"
  let ?w = "hl_tx cur > hl_tx (sv_prev v) \<and> now - sv_lastProgress v \<ge> wedgeWindow ka"
  have rd: "reading dev (snd x) v = (?p, hl_tx cur > hl_tx (sv_prev v))" by (simp add: reading_def r Let_def)
  consider "\<not> ok" | "ok" "?p" | "ok" "\<not> ?p" "\<not> ?w" | "ok" "\<not> ?p" "?w" by blast
  then show ?thesis
  proof cases
    case 1
    with r show ?thesis by (intro unread) (simp_all add: v'_def supervise_tick_def)
  next
    case 2
    with r rd show ?thesis by (intro progress) (auto simp: v'_def supervise_tick_def Let_def)
  next
    case 3
    with r rd show ?thesis by (intro quiet) (auto simp: v'_def supervise_tick_def wgWedged_def Let_def)
  next
    case 4
    obtain x' e where rp: "repointWireGuardEndpoint h res dev acc key x = (x', e)" by fastforce
    have ts: "too_soon now (v\<lparr>sv_prev := cur, sv_down := True, sv_wedgedAt := w, sv_rt := q\<rparr>) = too_soon now v"
      "too_soon now (v\<lparr>sv_prev := cur\<rparr>) = too_soon now v" for w q
      by (simp_all add: too_soon_def split: option.split)
    show ?thesis
      using 4 r rd rp ts
      by (intro wedged) (auto simp: v'_def supervise_tick_def wgWedged_def Let_def split: option.splits prod.splits)
  qed
qed

lemma tick_inv:
  assumes "sup_inv v"
  shows "sup_inv (snd (supervise_tick h res dev acc key ka now x v))"
proof (cases rule: tick_cases [OF refl, case_names unread progress quiet wedged, where h = h and res = res and dev = dev and acc = acc and key = key and ka = ka and now = now and x = x and v = v])
  case unread
  with assms show ?thesis by simp
next
  case progress
  with assms show ?thesis by (auto simp: sup_inv_def wg_consts)
next
  case quiet
  with assms show ?thesis by (simp add: sup_inv_def)
next
  case wedged
  with assms nextWGBackoff_range [of "sv_backoff v"] show ?thesis by (auto simp: sup_inv_def)
qed

lemma sup_inv_others:
  "sup_inv v \<Longrightarrow> list_all (\<lambda>op. \<not> is_OpUp op) ops \<Longrightarrow> sup_inv (v\<lparr>sv_rt := fold rt_exec ops (sv_rt v)\<rparr>)"
  by (simp add: sup_inv_def others_tunnelUp)

lemma run_inv:
  "sup_inv v \<Longrightarrow> list_all (\<lambda>(now, x, ops). list_all (\<lambda>op. \<not> is_OpUp op) ops) ticks \<Longrightarrow>
     sup_inv (supervise_run h res dev acc key ka ticks v)"
proof (induction ticks arbitrary: v)
  case Nil
  then show ?case by simp
next
  case (Cons t ticks)
  obtain now x ops where t: "t = (now, x, ops)" by (metis prod_cases3)
  with Cons show ?case by (simp add: tick_inv sup_inv_others)
qed

lemma supervise_run_append:
  "supervise_run h res dev acc key ka (ts @ us) v =
     supervise_run h res dev acc key ka us (supervise_run h res dev acc key ka ts v)"
  by (induction ts arbitrary: v) auto

text \<open>The device keeps sending and receives nothing, at every tick.\<close>

fun stuck :: "'d wg_device \<Rightarrow> wgHealth \<Rightarrow> (int \<times> ('s \<times> 'd) \<times> rt_op list) list \<Rightarrow> bool" where
  "stuck dev prev [] = True"
| "stuck dev prev ((now, x, ops) # ticks) =
     (snd (readWGHealth dev (snd x)) \<and> hl_tx prev < hl_tx (fst (readWGHealth dev (snd x))) \<and>
      hl_rx (fst (readWGHealth dev (snd x))) \<le> hl_rx prev \<and>
      hl_handshakeSec (fst (readWGHealth dev (snd x))) \<le> hl_handshakeSec prev \<and>
      stuck dev (fst (readWGHealth dev (snd x))) ticks)"

lemma stuck_run:
  "stuck dev (sv_prev v) ticks \<Longrightarrow>
     sv_lastProgress (supervise_run h res dev acc key ka ticks v) = sv_lastProgress v \<and>
     (sv_down v \<longrightarrow> sv_down (supervise_run h res dev acc key ka ticks v)) \<and>
     (ticks \<noteq> [] \<and> fst (last ticks) - sv_lastProgress v \<ge> wedgeWindow ka \<longrightarrow>
        sv_down (supervise_run h res dev acc key ka ticks v))"
proof (induction ticks arbitrary: v)
  case Nil
  then show ?case by simp
next
  case (Cons t ticks)
  obtain now x ops where t: "t = (now, x, ops)" by (metis prod_cases3)
  let ?v0 = "v\<lparr>sv_rt := fold rt_exec ops (sv_rt v)\<rparr>"
  let ?v1 = "snd (supervise_tick h res dev acc key ka now x ?v0)"
  have st: "\<not> fst (reading dev (snd x) ?v0)" "snd (reading dev (snd x) ?v0)" "snd (readWGHealth dev (snd x))"
    using Cons.prems by (auto simp: t reading_def Let_def)
  have one: "sv_lastProgress ?v1 = sv_lastProgress v" "sv_prev ?v1 = fst (readWGHealth dev (snd x))"
    "sv_down v \<Longrightarrow> sv_down ?v1" "now - sv_lastProgress v \<ge> wedgeWindow ka \<Longrightarrow> sv_down ?v1"
    by (cases rule: tick_cases [OF refl, where h = h and res = res and dev = dev and acc = acc and key = key and ka = ka and now = now and x = x and v = ?v0], use st in auto)+
  have "stuck dev (sv_prev ?v1) ticks" using Cons.prems by (simp add: t one)
  note ih = Cons.IH [OF this]
  show ?case using ih one by (cases "ticks = []") (auto simp: t)
qed

text \<open>No tick shows a session that is sending without any answer.\<close>

fun answered :: "'d wg_device \<Rightarrow> wgHealth \<Rightarrow> (int \<times> ('s \<times> 'd) \<times> rt_op list) list \<Rightarrow> bool" where
  "answered dev prev [] = True"
| "answered dev prev ((now, x, ops) # ticks) =
     (if snd (readWGHealth dev (snd x)) then
        (hl_tx (fst (readWGHealth dev (snd x))) \<le> hl_tx prev \<or> hl_rx (fst (readWGHealth dev (snd x))) > hl_rx prev \<or>
         hl_handshakeSec (fst (readWGHealth dev (snd x))) > hl_handshakeSec prev) \<and>
        answered dev (fst (readWGHealth dev (snd x))) ticks
      else answered dev prev ticks)"

lemma answered_run:
  "answered dev (sv_prev v) ticks \<Longrightarrow> \<not> sv_down v \<Longrightarrow> \<not> sv_down (supervise_run h res dev acc key ka ticks v)"
proof (induction ticks arbitrary: v)
  case Nil
  then show ?case by simp
next
  case (Cons t ticks)
  obtain now x ops where t: "t = (now, x, ops)" by (metis prod_cases3)
  let ?v0 = "v\<lparr>sv_rt := fold rt_exec ops (sv_rt v)\<rparr>"
  let ?v1 = "snd (supervise_tick h res dev acc key ka now x ?v0)"
  have "\<not> sv_down ?v1 \<and> answered dev (sv_prev ?v1) ticks"
    by (cases rule: tick_cases [OF refl, where h = h and res = res and dev = dev and acc = acc and key = key and ka = ka and now = now and x = x and v = ?v0])
      (use Cons.prems in \<open>auto simp: t reading_def Let_def split: if_splits\<close>)
  with Cons.IH show ?case by (simp add: t)
qed

lemma handshake_loop_terminates:
  assumes "\<And>k. start + int k * step \<le> clk k" "0 < step" "deadline - start < int (k + fuel) * step - step"
  shows "\<exists>r. handshake_loop dev clk ds deadline err k (Suc fuel) = Some r"
  using assms(3)
proof (induction fuel arbitrary: k)
  case 0
  then have "deadline < start + int k * step" using assms(2) by simp
  with assms(1) [of k] show ?case by auto
next
  case (Suc fuel)
  have "deadline - start < int (Suc k + fuel) * step - step" using Suc.prems by simp
  from Suc.IH [OF this] show ?case by auto
qed

lemma handshake_loop_result:
  assumes "handshake_loop dev clk ds deadline err k fuel = Some r"
  shows "(r = None \<and> (\<exists>j \<ge> k. wgHandshakeComplete dev (ds j))) \<or>
    (r = Some err \<and> (\<exists>j \<ge> k. clk j > deadline \<and> (\<forall>i. k \<le> i \<and> i \<le> j \<longrightarrow> \<not> wgHandshakeComplete dev (ds i))))"
  using assms
proof (induction fuel arbitrary: k)
  case 0
  then show ?case by simp
next
  case (Suc fuel)
  show ?case
  proof (cases "wgHandshakeComplete dev (ds k) \<or> clk k > deadline")
    case True
    with Suc.prems show ?thesis by (auto split: if_splits intro: exI [of _ k])
  next
    case False
    with Suc.prems have "handshake_loop dev clk ds deadline err (Suc k) fuel = Some r" by simp
    from Suc.IH [OF this] False show ?thesis
      by (metis Suc_leD le_antisym not_less_eq_eq)
  qed
qed

section \<open>A concrete device\<close>

text \<open>A device that reports its counters: sent, received, handshake.\<close>

definition counter_device :: "(string \<times> string \<times> string) wg_device" where
  "counter_device =
     \<lparr>dv_IpcGet = (\<lambda>(t, r, hs). Inr (uapi_line ''tx_bytes'' t @ uapi_line ''rx_bytes'' r @ uapi_line ''last_handshake_time_sec'' hs)),
      dv_IpcSet = (\<lambda>_ d. (d, None)), dv_Up = (\<lambda>d. (d, None)), dv_Close = (\<lambda>d. d), dv_SendKeepalives = (\<lambda>d. d)\<rparr>"

lemma counter_readings:
  "readWGHealth counter_device (''0'', ''0'', ''0'') = (\<lparr>hl_tx = 0, hl_rx = 0, hl_handshakeSec = 0\<rparr>, True)"
  "readWGHealth counter_device (''1'', ''0'', ''0'') = (\<lparr>hl_tx = 1, hl_rx = 0, hl_handshakeSec = 0\<rparr>, True)"
  "readWGHealth counter_device (''2'', ''0'', ''0'') = (\<lparr>hl_tx = 2, hl_rx = 0, hl_handshakeSec = 0\<rparr>, True)"
  "readWGHealth counter_device (''2'', ''7'', ''9'') = (\<lparr>hl_tx = 2, hl_rx = 7, hl_handshakeSec = 9\<rparr>, True)"
  by (simp_all add: readWGHealth_def counter_device_def parseWGHealth_def uapi_line_def health_line_def HasPrefix_def
      TrimPrefix_def ParseUint_val_def ParseInt_val_def parse_digits_def is_digit_def digit_val_def zeroHealth_def)

section \<open>Properties\<close>

text \<open>
  C33: at every moment of every run of the watchdog, whatever the device and the service answer and
  whatever other goroutines do to the runtime except setting its tunnel flag, new dials are
  gated exactly while the session is held for wedged, and the backoff is between its two bounds.
\<close>

theorem supervisor_gates_exactly:
  assumes "tunnelUp rt" "list_all (\<lambda>(now, x, ops). list_all (\<lambda>op. \<not> is_OpUp op) ops) ticks"
  shows "let v = supervise_run h res dev acc key ka ticks (supervise_start dev t0 d rt)
    in (tunnelUp (sv_rt v) \<longleftrightarrow> \<not> sv_down v) \<and> wgInitialRecoveryBackoff \<le> sv_backoff v \<and> sv_backoff v \<le> wgMaxRecoveryBackoff"
proof -
  have "sup_inv (supervise_start dev t0 d rt)"
    using assms(1) by (simp add: sup_inv_def supervise_start_def wg_consts)
  from run_inv [OF this assms(2), of h res dev acc key ka] show ?thesis by (auto simp: sup_inv_def Let_def)
qed

definition wedge_ticks :: "(int \<times> (string \<times> (string \<times> string \<times> string)) \<times> rt_op list) list" where
  "wedge_ticks = [(60 * Second, (''s'', (''1'', ''0'', ''0'')), [OpSignal]), (80 * Second, (''s'', (''2'', ''0'', ''0'')), [])]"

theorem supervisor_gates_exactly_witness:
  "let v = supervise_run wg_service (\<lambda>_. Inl ECanceled) counter_device wg_sample_account [] 25 wedge_ticks
       (supervise_start counter_device 0 (''0'', ''0'', ''0'') sample_rt)
   in tunnelUp (sv_rt v) \<longleftrightarrow> \<not> sv_down v"
proof -
  have "tunnelUp sample_rt"
    by (simp add: sample_rt_def accept_conn_def newSocksRuntime_def SetTunnelUp_def DropIfDisconnected_def TrackConn_def Let_def)
  then show ?thesis
    using supervisor_gates_exactly [of sample_rt wedge_ticks wg_service "\<lambda>_. Inl ECanceled" counter_device wg_sample_account "[]" 25 0
        "(''0'', ''0'', ''0'')"]
    by (simp add: Let_def wedge_ticks_def)
qed

text \<open>
  C32: a wedged session is found: if from some moment on the device reports more bytes sent and
  nothing received at every tick, then at the first tick at least one window after the last
  progress the session is held for wedged, new dials are refused and no connection is tracked
  (the window is three keepalive intervals, at least a minute).
\<close>

theorem wedge_detected:
  assumes "stuck dev (sv_prev v) (ticks @ [(now, x, [])])" "now - sv_lastProgress v \<ge> wedgeWindow ka"
    "\<not> sv_down (supervise_run h res dev acc key ka ticks v)"
    "conns_inv (sv_rt (supervise_run h res dev acc key ka ticks v))"
  shows "let v' = supervise_run h res dev acc key ka (ticks @ [(now, x, [])]) v
    in sv_down v' \<and> \<not> tunnelUp (sv_rt v') \<and> activeConns (sv_rt v') = []"
proof -
  let ?v0 = "supervise_run h res dev acc key ka ticks v"
  let ?v1 = "snd (supervise_tick h res dev acc key ka now x ?v0)"
  have down: "sv_down (supervise_run h res dev acc key ka (ticks @ [(now, x, [])]) v)"
    using stuck_run [OF assms(1)] assms(2) by simp
  then have d1: "sv_down ?v1" by (simp add: supervise_run_append)
  have "sv_rt ?v1 = ResetTrackedConns (SetTunnelUp False (sv_rt ?v0))"
    by (cases rule: tick_cases [OF refl, where h = h and res = res and dev = dev and acc = acc and key = key
          and ka = ka and now = now and x = x and v = ?v0])
      (use d1 assms(3) in auto)
  moreover have "conns_inv (SetTunnelUp False (sv_rt ?v0))"
    using assms(4) by (rule conns_inv_frame) (simp_all add: SetTunnelUp_def Let_def)
  ultimately show ?thesis using d1 ResetTrackedConns_facts(2) by (simp add: supervise_run_append Let_def)
qed

theorem wedge_detected_witness:
  "let v' = supervise_run wg_service (\<lambda>_. Inl ECanceled) counter_device wg_sample_account [] 25
      ([] @ [(80 * Second, (''s'', (''1'', ''0'', ''0'')), [])]) (supervise_start counter_device 0 (''0'', ''0'', ''0'') sample_rt)
   in sv_down v' \<and> \<not> tunnelUp (sv_rt v') \<and> activeConns (sv_rt v') = []"
proof -
  have "conns_inv sample_rt" using rt_reach_inv [OF sample_rt_reach] by simp
  then show ?thesis
    by (intro wedge_detected)
      (simp_all add: supervise_start_def counter_readings wedgeWindow_def wg_consts Let_def)
qed

text \<open>
  a tunnel that is idle or answers is never declared dead: if at every tick that could read the
  counters nothing was sent, or something was received, or a handshake completed since the
  one before, the watchdog never gates it, however long the run.
\<close>

theorem answered_tunnel_stays_up:
  assumes "tunnelUp rt" "answered dev (fst (readWGHealth dev d)) ticks"
    "list_all (\<lambda>(now, x, ops). list_all (\<lambda>op. \<not> is_OpUp op) ops) ticks"
  shows "tunnelUp (sv_rt (supervise_run h res dev acc key ka ticks (supervise_start dev t0 d rt)))"
proof -
  let ?v = "supervise_start dev t0 d rt"
  have "sup_inv ?v" using assms(1) by (simp add: sup_inv_def supervise_start_def wg_consts)
  moreover have "\<not> sv_down (supervise_run h res dev acc key ka ticks ?v)"
    using assms(2) by (intro answered_run) (simp_all add: supervise_start_def)
  ultimately show ?thesis using run_inv [OF _ assms(3), of ?v] by (auto simp: sup_inv_def)
qed

theorem answered_tunnel_stays_up_witness:
  "tunnelUp (sv_rt (supervise_run wg_service (\<lambda>_. Inl ECanceled) counter_device wg_sample_account [] 25
     [(80 * Second, (''s'', (''0'', ''0'', ''0'')), []), (600 * Second, (''s'', (''2'', ''7'', ''9'')), [])]
     (supervise_start counter_device 0 (''0'', ''0'', ''0'') sample_rt)))"
proof -
  have "tunnelUp sample_rt"
    by (simp add: sample_rt_def accept_conn_def newSocksRuntime_def SetTunnelUp_def DropIfDisconnected_def TrackConn_def Let_def)
  then show ?thesis by (intro answered_tunnel_stays_up) (simp_all add: counter_readings)
qed

text \<open>
  waiting for the first handshake ends: the ticker delivers its \<open>k\<close>-th tick no earlier than \<open>k\<close>
  quarter seconds after the start, so a number of polls fixed by the time limit is enough;
  the wait reports success only when a poll saw a handshake, and the timeout only when the time
  is over and no poll did.
\<close>

theorem waitForWGHandshake_terminates:
  assumes "\<And>k. start + int k * (250 * Millisecond) \<le> clk k" "timeout < int n * (250 * Millisecond)"
  shows "\<exists>r. waitForWGHandshake dev clk ds start timeout (Suc (Suc n)) = Some r \<and>
    (timeout > 0 \<longrightarrow> (r = None \<longrightarrow> (\<exists>j. wgHandshakeComplete dev (ds j))) \<and>
       (r \<noteq> None \<longrightarrow> (\<exists>j. clk j > start + timeout \<and> (\<forall>i \<le> j. \<not> wgHandshakeComplete dev (ds i)))))"
proof (cases "timeout \<le> 0")
  case True
  then show ?thesis by (simp add: waitForWGHandshake_def)
next
  case False
  let ?err = "EText ''no wireguard handshake in time''"
  have "\<exists>r. handshake_loop dev clk ds (start + timeout) ?err 0 (Suc (Suc n)) = Some r"
    using assms by (intro handshake_loop_terminates [where step = "250 * Millisecond" and start = start]) (auto simp: algebra_simps)
  then obtain r where r: "handshake_loop dev clk ds (start + timeout) ?err 0 (Suc (Suc n)) = Some r" by blast
  moreover from handshake_loop_result [OF r] have
    "(r = None \<longrightarrow> (\<exists>j. wgHandshakeComplete dev (ds j))) \<and>
     (r \<noteq> None \<longrightarrow> (\<exists>j. clk j > start + timeout \<and> (\<forall>i \<le> j. \<not> wgHandshakeComplete dev (ds i))))" by auto
  ultimately show ?thesis using False by (simp add: waitForWGHandshake_def)
qed

theorem waitForWGHandshake_terminates_witness:
  "\<exists>r. waitForWGHandshake counter_device (\<lambda>k. int k * (250 * Millisecond)) (\<lambda>_. (''0'', ''0'', ''0'')) 0 Second (Suc (Suc 5)) = Some r"
  using waitForWGHandshake_terminates [of 0 "\<lambda>k. int k * (250 * Millisecond)" Second 5 counter_device
      "\<lambda>_. (''0'', ''0'', ''0'')"] by auto

text \<open>
  attempts to follow a moved endpoint are spaced: in every state a run reaches, a tick that
  fetches the endpoint again comes at least the initial backoff after the attempt before it,
  and only a wedged session makes one.
\<close>

theorem repoint_attempts_spaced:
  assumes "tunnelUp rt" "list_all (\<lambda>(now, x, ops). list_all (\<lambda>op. \<not> is_OpUp op) ops) ticks"
    "v = supervise_run h res dev acc key ka ticks (supervise_start dev t0 d rt)"
    "v' = snd (supervise_tick h res dev acc key ka now x v)" "sv_lastAttempt v' \<noteq> sv_lastAttempt v"
  shows "sv_lastAttempt v' = Some now \<and> sv_down v' \<and>
    (\<forall>t. sv_lastAttempt v = Some t \<longrightarrow> wgInitialRecoveryBackoff \<le> now - t)"
proof -
  have "sup_inv (supervise_start dev t0 d rt)"
    using assms(1) by (simp add: sup_inv_def supervise_start_def wg_consts)
  then have inv: "sup_inv v" unfolding assms(3) using assms(2) by (rule run_inv)
  show ?thesis
    by (cases rule: tick_cases [OF assms(4)]) (use assms(5) inv in \<open>auto simp: too_soon_def sup_inv_def\<close>)
qed

theorem repoint_attempts_spaced_witness:
  "let v = supervise_start counter_device 0 (''0'', ''0'', ''0'') sample_rt;
       v' = snd (supervise_tick wg_service (\<lambda>_. Inl ECanceled) counter_device wg_sample_account [] 25 (80 * Second)
              (''s'', (''1'', ''0'', ''0'')) v)
   in sv_lastAttempt v' = Some (80 * Second) \<and> sv_down v'"
proof -
  have up: "tunnelUp sample_rt"
    by (simp add: sample_rt_def accept_conn_def newSocksRuntime_def SetTunnelUp_def DropIfDisconnected_def TrackConn_def Let_def)
  let ?v = "supervise_start counter_device 0 (''0'', ''0'', ''0'') sample_rt"
  let ?t = "supervise_tick wg_service (\<lambda>_. Inl ECanceled) counter_device wg_sample_account [] 25 (80 * Second)
              (''s'', (''1'', ''0'', ''0'')) ?v"
  obtain y e where rp: "repointWireGuardEndpoint wg_service (\<lambda>_. Inl ECanceled) counter_device wg_sample_account []
      (''s'', (''1'', ''0'', ''0'')) = (y, e)" by fastforce
  have ne: "sv_lastAttempt (snd ?t) \<noteq> sv_lastAttempt ?v"
    using rp by (auto simp: supervise_tick_def supervise_start_def counter_readings wgWedged_def wedgeWindow_def wg_consts
        too_soon_def Let_def split: option.splits prod.splits)
  have start: "?v = supervise_run wg_service (\<lambda>_. Inl ECanceled) counter_device wg_sample_account [] 25 [] ?v" by simp
  have "sv_lastAttempt (snd ?t) = Some (80 * Second) \<and> sv_down (snd ?t) \<and>
      (\<forall>t. sv_lastAttempt ?v = Some t \<longrightarrow> wgInitialRecoveryBackoff \<le> 80 * Second - t)"
    by (rule repoint_attempts_spaced [OF up _ start refl ne]) simp
  then show ?thesis by (simp add: Let_def)
qed

end
