(* ===== verification/Commands.thy ===== *)
theory Commands
  imports Startup Wg_Supervisor "HOL-Library.Char_ord" "HOL-Library.List_Lexorder"
begin

text \<open>
  The command line around the proxy: \<open>src/cmd/root.go\<close> (loading the configuration before a
  command), \<open>src/cmd/socks.go\<close> (the SOCKS-only command), \<open>src/internal/logging/logging.go\<close> and the
  WireGuard mode of \<open>src/cmd/proxy.go\<close>.
\<close>

section \<open>Logging\<close>

datatype slog_level = LevelDebug | LevelInfo | LevelWarn | LevelError

definition levelFromString :: "string \<Rightarrow> slog_level" where
  "levelFromString level =
     (if level = ''debug'' then LevelDebug
      else if level = ''warn'' then LevelWarn
      else if level = ''error'' then LevelError
      else LevelInfo)"

text \<open>\<open>Setup\<close>: the handler is JSON or text; the result is the normalised block and the handler's settings.\<close>

definition logging_Setup :: "LoggingConfig \<Rightarrow> LoggingConfig \<times> slog_level \<times> bool" where
  "logging_Setup cfg =
     (let normalized = fst (NormalizeLoggingConfig cfg)
      in (normalized, levelFromString (Level normalized), Format normalized = ''json''))"

definition setup_logging :: "app \<Rightarrow> app" where
  "setup_logging a = a\<lparr>AppConfig := (AppConfig a)\<lparr>Logging := fst (logging_Setup (Logging (AppConfig a)))\<rparr>\<rparr>"

section \<open>root.go\<close>

text \<open>The names of a command and its parents, from the command up.\<close>

definition shouldSkipConfigLoad :: "string list \<Rightarrow> bool" where
  "shouldSkipConfigLoad names = list_ex (\<lambda>n. n = ''wg'' \<or> n = ''socks'') names"

text \<open>\<open>PersistentPreRunE\<close>: the state afterwards, the value of the flag \<open>config\<close>, and the error.\<close>

definition preRun :: "yaml_lib \<Rightarrow> string list \<Rightarrow> string \<Rightarrow> app \<Rightarrow> app \<times> string \<times> gerr option" where
  "preRun yl names configPath a =
     (if shouldSkipConfigLoad names then (a, configPath, None)
      else
        (case MigrateLegacyJSONConfigPath yl (app_fs a) configPath of
           (fs1, Inl e) \<Rightarrow> (a\<lparr>app_fs := fs1\<rparr>, configPath, Some (EWrap ''failed to migrate legacy config: '' e []))
         | (fs1, Inr (resolved, migrated)) \<Rightarrow>
             (case LoadConfig yl (a\<lparr>app_fs := fs1\<rparr>) resolved of
                (a2, Some e) \<Rightarrow>
                  if errors_Is e ENotExist then (a2, resolved, None)
                  else (a2, resolved,
                        Some (EWrap (''failed to load config '' @ go_quote resolved @ '': '') e ''; delete config and reinitialize''))
              | (a2, None) \<Rightarrow> (setup_logging a2, resolved, None))))"

text \<open>\<open>main\<close>: the logging defaults, then the command; the exit status.\<close>

definition main_status :: "gerr option \<Rightarrow> nat" where
  "main_status err = (case err of None \<Rightarrow> 0 | Some _ \<Rightarrow> 1)"

definition version_lines :: "string \<Rightarrow> string \<Rightarrow> string \<Rightarrow> string list" where
  "version_lines version commit date = [''uscf version: '' @ version, ''Commit: '' @ commit, ''Build Date: '' @ date]"

section \<open>socks.go\<close>

definition default_app_config :: Config where
  "default_app_config =
     (config_of_public \<lparr>pub_Socks = GetDefaultSocksConfig, pub_Registration = \<lparr>DeviceName = []\<rparr>,
        pub_Logging = GetDefaultLoggingConfig\<rparr>)"

text \<open>The command up to the start of the server.\<close>

definition runSocksCmd :: "yaml_lib \<Rightarrow> flags \<Rightarrow> app \<Rightarrow> app \<times> (gerr, duration \<times> duration \<times> string list) result" where
  "runSocksCmd yl fl a =
     (case (if \<not> ConfigLoaded a then
              (let configPath = ResolveConfigPath (app_fs a) (fl_config fl) in
               case LoadPublicConfig yl a configPath of
                 (a1, Some e) \<Rightarrow>
                   if \<not> errors_Is e ENotExist then
                     (a1, Some (EWrap (''failed to load public config '' @ go_quote configPath @ '': '') e []))
                   else (a1\<lparr>AppConfig := default_app_config\<rparr>, None)
               | (a1, None) \<Rightarrow> (a1, None))
            else (a, None)) of
        (a1, Some e) \<Rightarrow> (a1, Inl e)
      | (a1, None) \<Rightarrow>
          (let a2 = setup_logging a1 in
           case applySocksFlagOverrides fl (AppConfig a2) of
             (cfg, changed, overrides) \<Rightarrow>
               (a2\<lparr>AppConfig := cfg\<rparr>,
                Inr (fst (getTimeoutSettings cfg), snd (getTimeoutSettings cfg), overrides))))"

text \<open>The first address of the host's resolver.\<close>

definition system_Resolve :: "(string \<Rightarrow> (gerr, ip list) result) \<Rightarrow> string \<Rightarrow> (gerr, ip) result" where
  "system_Resolve lookupIP name =
     bind_res (lookupIP name) (\<lambda>ips. case ips of [] \<Rightarrow> Inl (EText (''no IP found for '' @ go_quote name)) | i # _ \<Rightarrow> Inr i)"

definition sameStringSlice :: "string list \<Rightarrow> string list \<Rightarrow> bool" where
  "sameStringSlice left right = (length left = length right \<and> list_all (\<lambda>i. left ! i = right ! i) [0..<length left])"

definition ignored_settings :: "Config \<Rightarrow> (bool \<times> string) list" where
  "ignored_settings cfg =
     (let s = Socks cfg; d = GetDefaultSocksConfig in
      [(TrimSpace (PrivateKey cfg) \<noteq> [], ''private_key''), (TrimSpace (EndpointV4 cfg) \<noteq> [], ''endpoint_v4''),
       (TrimSpace (EndpointV6 cfg) \<noteq> [], ''endpoint_v6''), (TrimSpace (EndpointPubKey cfg) \<noteq> [], ''endpoint_pub_key''),
       (TrimSpace (AccountMode cfg) \<noteq> [], ''account_mode''), (TrimSpace (License cfg) \<noteq> [], ''license''),
       (TrimSpace (ID cfg) \<noteq> [], ''id''), (TrimSpace (AccessToken cfg) \<noteq> [], ''access_token''),
       (TrimSpace (IPv4 cfg) \<noteq> [], ''ipv4''), (TrimSpace (IPv6 cfg) \<noteq> [], ''ipv6''),
       (slice (BypassDomain s) \<noteq> [], ''bypass_domain''), (slice (ProxyTCPPort s) \<noteq> [], ''proxy_tcp_port''),
       (RemoteDNS s, ''remote_dns''), (\<not> sameStringSlice (slice (DNS s)) (slice (DNS d)), ''dns''),
       (DNSTimeout s \<noteq> DNSTimeout d, ''dns_timeout''), (BlockUDP443 s, ''block_udp_443''), (UseIPv6 s, ''use_ipv6''),
       (HTTP2 s, ''http2''), (L4 s, ''l4''), (TrimSpace (L4UDP s) \<noteq> [] \<and> L4UDP s \<noteq> L4UDP d, ''l4_udp''),
       (NoTunnelIPv4 s, ''no_tunnel_ipv4''), (NoTunnelIPv6 s, ''no_tunnel_ipv6''),
       (TrimSpace (SNIAddress s) \<noteq> [], ''sni_address''), (ConnectPort s \<noteq> ConnectPort d, ''connect_port''),
       (KeepalivePeriod s \<noteq> KeepalivePeriod d, ''keepalive_period''), (MTU s \<noteq> MTU d, ''mtu''),
       (InitialPacketSize s \<noteq> InitialPacketSize d, ''initial_packet_size''),
       (ReconnectDelay s \<noteq> ReconnectDelay d, ''reconnect_delay''),
       (MaxReconnectAttempts s \<noteq> MaxReconnectAttempts d, ''max_reconnect_attempts''),
       (AlwaysReconnect s, ''always_reconnect'')])"

definition ignoredSocksOnlySettings :: "Config \<Rightarrow> string list" where
  "ignoredSocksOnlySettings cfg = sort (map snd (filter fst (ignored_settings cfg)))"

section \<open>The WireGuard mode of the proxy\<close>

text \<open>
  \<open>runProxyWGMode\<close> up to the serving of the prepared tunnel; the account file and the configuration
  file are on the one file system of the process.
\<close>

definition wg_options :: "flags \<Rightarrow> wgRegisterOptions" where
  "wg_options fl =
     \<lparr>opt_name = fl_name fl, opt_model = fl_model fl, opt_key = [], opt_license = TrimSpace (fl_license fl),
      opt_jwt = TrimSpace (fl_jwt fl), opt_acceptTOS = fl_accept_tos fl\<rparr>"

definition wg_params :: "flags \<Rightarrow> Config \<Rightarrow> wgTransportParams" where
  "wg_params fl cfg =
     \<lparr>tp_mtu = MTU (Socks cfg), tp_keepalive = fl_wg_keepalive fl, tp_listenPort = 0, tp_handshakeTimeout = 0\<rparr>"

text \<open>The account is loaded or registered, then the transport prepared.\<close>

definition wg_launch :: "'s wg_env \<Rightarrow> udp_resolver \<Rightarrow> flags \<Rightarrow> string list \<Rightarrow> app \<Rightarrow> 's
    \<Rightarrow> 's world \<times> (gerr, wg_plan \<times> string list) result" where
  "wg_launch env resolve fl overrides a s =
     (case ensureWGAccount env (fl_wg_account fl) (wg_options fl) \<lparr>wg_fs = app_fs a, wg_srv = s\<rparr> of
        (x, Inl e) \<Rightarrow> (\<lparr>w_app = a\<lparr>app_fs := wg_fs x\<rparr>, w_service = wg_srv x\<rparr>, Inl (EWrap ''prepare wg account: '' e []))
      | (x, Inr account) \<Rightarrow>
          (case wg_prepare (we_http env) resolve (AppConfig a) account (wg_params fl (AppConfig a)) (wg_srv x) of
             (s', r) \<Rightarrow>
               (\<lparr>w_app = a\<lparr>app_fs := wg_fs x\<rparr>, w_service = s'\<rparr>, bind_res r (\<lambda>plan. Inr (plan, overrides)))))"

definition runProxyWGMode :: "yaml_lib \<Rightarrow> 's wg_env \<Rightarrow> udp_resolver \<Rightarrow> flags \<Rightarrow> string \<Rightarrow> 's world
    \<Rightarrow> 's world \<times> (gerr, wg_plan \<times> string list) result" where
  "runProxyWGMode yl env resolve fl configPath w =
     (if \<not> fl_experimental fl then
        (w, Inl (EText ''`--wg` is experimental; re-run with --experimental to enable it (the stable WireGuard path is `uscf wg generate`)''))
      else
        let a = w_app w;
            a1 = (if \<not> ConfigLoaded a then setup_logging (a\<lparr>AppConfig := default_app_config\<rparr>) else a)
        in (case applySocksFlagOverrides fl (AppConfig a1) of
              (cfg, configChanged, overrides) \<Rightarrow>
                let a2 = a1\<lparr>AppConfig := cfg\<rparr> in
                (case rejectConflictingTransport cfg of
                   Some e \<Rightarrow> (w\<lparr>w_app := a2\<rparr>, Inl e)
                 | None \<Rightarrow>
                     let a3 = (if configChanged then fst (SavePublicConfig yl a2 configPath) else a2)
                     in wg_launch env resolve fl overrides a3 (w_service w))))"

section \<open>Lemmas\<close>

lemma SavePublicConfig_frame:
  assumes "q \<noteq> Clean (default_path p)"
  shows "fs_files (app_fs (fst (SavePublicConfig yl a p))) q = fs_files (app_fs a) q"
  using assms
  by (auto simp: SavePublicConfig_def writeConfigFile_def writeJSONFile_def Let_def bind_res_eq_Inr
      split: sum.splits if_splits dest: os_WriteFile_frame(3))

lemma WGAccount_Save_frame:
  assumes "q \<noteq> Clean (normalizeWGAccountPath p)"
  shows "fs_files (fst (WGAccount_Save fs a p)) q = fs_files fs q"
proof -
  have ch: "fs_files fs2 = fs_files fs1" if "os_Chmod fs1 r m = Inr fs2" for fs1 fs2 r m
    using that by (auto simp: os_Chmod_def split: if_splits)
  show ?thesis
    using assms
    by (auto simp: WGAccount_Save_def Let_def ch split: option.splits sum.splits dest: os_WriteFile_frame(3))
qed

lemma registerWGAccount_frame:
  assumes "q \<noteq> Clean (normalizeWGAccountPath p)"
  shows "fs_files (wg_fs (fst (registerWGAccount env p opts w))) q = fs_files (wg_fs w) q"
proof -
  have "fs_files (wg_fs (fst (save_and_name env p opts k d u))) q = fs_files (wg_fs u) q" for k d u
    using WGAccount_Save_frame [OF assms, of "wg_fs u" "buildWGAccount d (KeyString k) (opt_name opts) (opt_model opts)"]
    by (auto simp: save_and_name_def Let_def split: prod.splits option.splits)
  then show ?thesis
    by (auto simp: registerWGAccount_def Let_def split: sum.splits prod.splits)
qed

lemma ensureWGAccount_frame:
  assumes "q \<noteq> Clean (normalizeWGAccountPath p)"
  shows "fs_files (wg_fs (fst (ensureWGAccount env p opts w))) q = fs_files (wg_fs w) q"
  using registerWGAccount_frame [OF assms, of env opts w]
  by (auto simp: ensureWGAccount_def Let_def split: sum.splits option.splits)

lemma ensureWGAccount_frame_pair:
  "ensureWGAccount env p opts w = (x, r) \<Longrightarrow> q \<noteq> Clean (normalizeWGAccountPath p) \<Longrightarrow> fs_files (wg_fs x) q = fs_files (wg_fs w) q"
  using ensureWGAccount_frame [of q p env opts w] by simp

lemma wg_launch_frame:
  assumes "q \<noteq> Clean (normalizeWGAccountPath (fl_wg_account fl))"
  shows "fs_files (app_fs (w_app (fst (wg_launch env res fl os a s)))) q = fs_files (app_fs a) q"
  using assms by (auto simp: wg_launch_def split: prod.splits sum.splits dest: ensureWGAccount_frame_pair)

lemma setup_logging_fs [simp]: "app_fs (setup_logging a) = app_fs a"
  by (simp add: setup_logging_def)

section \<open>Properties\<close>

text \<open>
  the WireGuard mode is isolated: whatever it does, the only files it can change are the
  configuration file and the account file, so \<open>key.json\<close> stays as it was; without \<open>--experimental\<close>
  or with an effective L4 or HTTP/2 setting it fails before any file is written and any request is sent.
\<close>

theorem wg_mode_isolated:
  assumes "q \<noteq> Clean (default_path configPath)" "q \<noteq> Clean (normalizeWGAccountPath (fl_wg_account fl))"
  shows "fs_files (app_fs (w_app (fst (runProxyWGMode yl env res fl configPath w)))) q = fs_files (app_fs (w_app w)) q \<and>
    (\<not> fl_experimental fl \<or> fl_l4 fl = Some True \<or> fl_http2 fl = Some True \<longrightarrow>
       app_fs (w_app (fst (runProxyWGMode yl env res fl configPath w))) = app_fs (w_app w) \<and>
       w_service (fst (runProxyWGMode yl env res fl configPath w)) = w_service w \<and>
       \<not> is_ok (snd (runProxyWGMode yl env res fl configPath w)))"
proof (cases "fl_experimental fl")
  case False
  then show ?thesis by (simp add: runProxyWGMode_def)
next
  case True
  define a1 where "a1 = (if \<not> ConfigLoaded (w_app w) then setup_logging ((w_app w)\<lparr>AppConfig := default_app_config\<rparr>) else w_app w)"
  have fs1: "app_fs a1 = app_fs (w_app w)" by (simp add: a1_def)
  obtain cfg changed os where o: "applySocksFlagOverrides fl (AppConfig a1) = (cfg, changed, os)" by (metis prod_cases3)
  let ?a2 = "a1\<lparr>AppConfig := cfg\<rparr>"
  define a3 where "a3 = (if changed then fst (SavePublicConfig yl ?a2 configPath) else ?a2)"
  have fs3: "fs_files (app_fs a3) q = fs_files (app_fs (w_app w)) q"
    using SavePublicConfig_frame [OF assms(1)] fs1 by (simp add: a3_def)
  have conflict: "rejectConflictingTransport cfg \<noteq> None" if "fl_l4 fl = Some True \<or> fl_http2 fl = Some True"
    using that o applySocksFlagOverrides_transport [of fl "AppConfig a1"] by (auto simp: rejectConflictingTransport_def)
  show ?thesis
  proof (cases "rejectConflictingTransport cfg")
    case (Some e)
    then have "runProxyWGMode yl env res fl configPath w = (w\<lparr>w_app := ?a2\<rparr>, Inl e)"
      using True o by (simp add: runProxyWGMode_def a1_def [symmetric] Let_def)
    then show ?thesis using fs1 by simp
  next
    case None
    then have "runProxyWGMode yl env res fl configPath w = wg_launch env res fl os a3 (w_service w)"
      using True o by (simp add: runProxyWGMode_def a1_def [symmetric] a3_def Let_def)
    moreover have "fs_files (app_fs (w_app (fst (wg_launch env res fl os a3 (w_service w))))) q = fs_files (app_fs (w_app w)) q"
      using fs3 by (simp add: wg_launch_frame [OF assms(2)])
    ultimately show ?thesis using conflict None True by auto
  qed
qed

theorem wg_mode_isolated_witness:
  "fs_files (app_fs (w_app (fst (runProxyWGMode json_yaml wg_sample_env (\<lambda>_. Inl ECanceled)
       (sample_flags\<lparr>fl_experimental := True, fl_port := ''9''\<rparr>) ''config.yaml''
       \<lparr>w_app = w_app sample_world, w_service = ''old''\<rparr>)))) ''key.json'' = None"
proof -
  have "Clean (default_path ''config.yaml'') = ''config.yaml''" "Clean (normalizeWGAccountPath ''wg-account.json'') = ''wg-account.json''"
    by code_simp+
  then show ?thesis
    using wg_mode_isolated [of "''key.json''" "''config.yaml''" "sample_flags\<lparr>fl_experimental := True, fl_port := ''9''\<rparr>"
        json_yaml wg_sample_env "\<lambda>_. Inl ECanceled" "\<lparr>w_app = w_app sample_world, w_service = ''old''\<rparr>"]
    by (simp add: sample_flags_def sample_world_def empty_fs_def)
qed

text \<open>
  the SOCKS-only command reports as ignored exactly the tunnel settings that differ from what
  it would use, sorted by name and each once.
\<close>

theorem ignoredSocksOnlySettings_sorted:
  "sorted (ignoredSocksOnlySettings cfg) \<and> distinct (ignoredSocksOnlySettings cfg) \<and>
   set (ignoredSocksOnlySettings cfg) = {name. (True, name) \<in> set (ignored_settings cfg)}"
proof -
  have "distinct (map snd (ignored_settings cfg))" by (simp add: ignored_settings_def Let_def)
  then have "distinct (map snd (filter fst (ignored_settings cfg)))" by (rule distinct_map_filter)
  moreover have "set (map snd (filter fst xs)) = {name. (True, name) \<in> set xs}" for xs :: "(bool \<times> string) list"
    by force
  ultimately show ?thesis unfolding ignoredSocksOnlySettings_def by simp
qed

end
