(* ===== verification/Egress.thy ===== *)
theory Egress
  imports Socks_Runtime Route_Policy Resolver Endpoints Socks_Adapter L4_Pool
begin

text \<open>
  Where a connection of a SOCKS client leaves the process: the dialers and resolvers that
  \<open>prepareSocksRuntime\<close> (\<open>src/cmd/proxy.go\<close>), \<open>prepareL4SocksRuntime\<close> (\<open>src/cmd/l4.go\<close>) and
  \<open>prepareDirectSocksRuntime\<close> (\<open>src/cmd/socks.go\<close>) build, with the UDP leg of
  \<open>src/cmd/l3_udp_tunnel.go\<close>. The networks are arguments: \<open>net_env\<close> says what a dial on each returns
  and whether the tunnels are up when it does. Every dial on a network is logged.
\<close>

section \<open>The UDP leg of the L4 mode\<close>

text \<open>\<open>ut_started\<close> counts the runs of \<open>start\<close>, which launches the maintenance loop; \<open>ut_once\<close> is its Once.\<close>

record l3UDPTunnel =
  ut_up :: bool
  ut_demand :: bool
  ut_once :: bool
  ut_started :: nat
  ut_idleTimeout :: duration

definition new_l3UDPTunnel :: "duration \<Rightarrow> l3UDPTunnel" where
  "new_l3UDPTunnel idleTimeout =
     \<lparr>ut_up = False, ut_demand = False, ut_once = False, ut_started = 0, ut_idleTimeout = idleTimeout\<rparr>"

definition ut_signalDemand :: "l3UDPTunnel \<Rightarrow> l3UDPTunnel" where
  "ut_signalDemand t = t\<lparr>ut_demand := True\<rparr>"

definition ut_waitForReconnectDemand :: "bool \<Rightarrow> l3UDPTunnel \<Rightarrow> (l3UDPTunnel \<times> gerr option) list" where
  "ut_waitForReconnectDemand ctx_done t =
     (if ctx_done then [(t, Some ECanceled)] else []) @ (if ut_demand t then [(t\<lparr>ut_demand := False\<rparr>, None)] else [])"

definition ut_drainDemand :: "l3UDPTunnel \<Rightarrow> l3UDPTunnel" where
  "ut_drainDemand t = (if ut_demand t then t\<lparr>ut_demand := False\<rparr> else t)"

definition ut_OnConnected :: "l3UDPTunnel \<Rightarrow> l3UDPTunnel" where
  "ut_OnConnected t = ut_drainDemand (t\<lparr>ut_up := True\<rparr>)"

definition ut_OnDisconnected :: "l3UDPTunnel \<Rightarrow> l3UDPTunnel" where
  "ut_OnDisconnected t = t\<lparr>ut_up := False\<rparr>"

definition start_once :: "l3UDPTunnel \<Rightarrow> l3UDPTunnel" where
  "start_once t = (if ut_once t then t else t\<lparr>ut_once := True, ut_started := Suc (ut_started t)\<rparr>)"

section \<open>Dials\<close>

datatype egress = ViaTunnel | ViaL4 | ViaUDPLeg | ViaDirect

datatype 'c egress_conn = NetConn 'c | StreamConn nat

record dial_world = socksRuntime +
  dw_log :: "(egress \<times> string \<times> string) list"
  dw_pool :: L4Pool
  dw_udp :: l3UDPTunnel

record 'c net_env =
  ne_tun :: "string \<Rightarrow> string \<Rightarrow> (gerr, 'c) result"
  ne_direct :: "string \<Rightarrow> string \<Rightarrow> (gerr, 'c) result"
  ne_udpleg :: "string \<Rightarrow> string \<Rightarrow> (gerr, 'c) result"
  ne_l4 :: l4_env
  ne_ctx :: "client_ctx option"
  ne_up_after :: bool
  ne_leg_after :: bool

definition errUDP443Blocked :: gerr where
  "errUDP443Blocked = EText ''udp/443 blocked by config''"

definition errL4UDPUnsupported :: gerr where
  "errL4UDPUnsupported = EText ''L4 mode is TCP-only; UDP is not supported''"

definition log_dial :: "egress \<Rightarrow> string \<Rightarrow> string \<Rightarrow> dial_world \<Rightarrow> dial_world" where
  "log_dial via network addr w = w\<lparr>dw_log := dw_log w @ [(via, network, addr)]\<rparr>"

text \<open>The connection wrapped with its idle time.\<close>

definition timeout_conn :: "duration \<Rightarrow> (gerr, 'c egress_conn) result \<Rightarrow> (gerr, 'c egress_conn \<times> duration) result" where
  "timeout_conn idleTimeout r = bind_res r (\<lambda>c. Inr (c, idleTimeout))"

definition port_443 :: "string \<Rightarrow> bool" where
  "port_443 addr = (case SplitHostPort addr of Inr (_, port) \<Rightarrow> port = ''443'' | Inl _ \<Rightarrow> False)"

definition upstreamDial :: "Config \<Rightarrow> duration \<Rightarrow> 'c net_env \<Rightarrow> string \<Rightarrow> string \<Rightarrow> dial_world
    \<Rightarrow> dial_world \<times> (gerr, 'c egress_conn \<times> duration) result" where
  "upstreamDial cfg idleTimeout env network addr w =
     (if BlockUDP443 (Socks cfg) \<and> HasPrefix network ''udp'' \<and> port_443 addr then (w, Inl errUDP443Blocked)
      else ((log_dial ViaTunnel network addr w)\<lparr>tunnelUp := ne_up_after env\<rparr>,
            timeout_conn idleTimeout (bind_res (ne_tun env network addr) (\<lambda>c. Inr (NetConn c)))))"

definition directDial :: "duration \<Rightarrow> 'c net_env \<Rightarrow> string \<Rightarrow> string \<Rightarrow> dial_world
    \<Rightarrow> dial_world \<times> (gerr, 'c egress_conn \<times> duration) result" where
  "directDial idleTimeout env network addr w =
     ((log_dial ViaDirect network addr w)\<lparr>tunnelUp := ne_up_after env\<rparr>,
      timeout_conn idleTimeout (bind_res (ne_direct env network addr) (\<lambda>c. Inr (NetConn c))))"

text \<open>\<open>dialWithTarget\<close> of \<open>prepareSocksRuntime\<close>, with the gate of the runtime before the upstream dialer.\<close>

definition dialWithTarget :: "Config \<Rightarrow> routePolicy \<Rightarrow> duration \<Rightarrow> 'c net_env \<Rightarrow> string \<Rightarrow> string \<Rightarrow> socksTarget \<Rightarrow> dial_world
    \<Rightarrow> dial_world \<times> (gerr, 'c egress_conn \<times> duration) result" where
  "dialWithTarget cfg policy idleTimeout env network addr target w =
     (if \<not> selectTCPRoute (Some policy) network target then directDial idleTimeout env network addr w
      else rt_DialContext (upstreamDial cfg idleTimeout env network addr) w)"

section \<open>Dials of the L4 mode\<close>

datatype l4UDPRoute = l4UDPReject | l4UDPBlocked443 | l4UDPDirectOut | l4UDPTunnelOut

definition classifyL4UDP :: "string \<Rightarrow> bool \<Rightarrow> string \<Rightarrow> l4UDPRoute" where
  "classifyL4UDP mode blockUDP443 addr =
     (if mode \<noteq> L4UDPDirect \<and> mode \<noteq> L4UDPTunnel then l4UDPReject
      else if blockUDP443 \<and> port_443 addr then l4UDPBlocked443
      else if mode = L4UDPTunnel then l4UDPTunnelOut
      else l4UDPDirectOut)"

definition DialUDP :: "'c net_env \<Rightarrow> string \<Rightarrow> dial_world \<Rightarrow> dial_world \<times> (gerr, 'c egress_conn \<times> duration) result" where
  "DialUDP env addr w0 =
     (let t = start_once (dw_udp w0); w = w0\<lparr>dw_udp := t\<rparr> in
      if \<not> ut_up t then (w\<lparr>dw_udp := ut_signalDemand t\<rparr>, Inl ErrTunnelDisconnected)
      else
        let t1 = t\<lparr>ut_up := ne_leg_after env\<rparr>; w1 = (log_dial ViaUDPLeg ''udp'' addr w)\<lparr>dw_udp := t1\<rparr> in
        case ne_udpleg env ''udp'' addr of
          Inl e \<Rightarrow>
            if \<not> ut_up t1 then (w1\<lparr>dw_udp := ut_signalDemand t1\<rparr>, Inl ErrTunnelDisconnected)
            else (w1, Inl e)
        | Inr c \<Rightarrow> (w1, Inr (NetConn c, ut_idleTimeout t)))"

definition dialL4UDP :: "string \<Rightarrow> bool \<Rightarrow> duration \<Rightarrow> 'c net_env \<Rightarrow> string \<Rightarrow> string \<Rightarrow> dial_world
    \<Rightarrow> dial_world \<times> (gerr, 'c egress_conn \<times> duration) result" where
  "dialL4UDP mode blockUDP443 idleTimeout env network addr w =
     (case classifyL4UDP mode blockUDP443 addr of
        l4UDPDirectOut \<Rightarrow> directDial idleTimeout env network addr w
      | l4UDPTunnelOut \<Rightarrow> DialUDP env addr w
      | l4UDPBlocked443 \<Rightarrow> (w, Inl errUDP443Blocked)
      | l4UDPReject \<Rightarrow> (w, Inl errL4UDPUnsupported))"

definition l4_error_value :: "l4_error \<Rightarrow> gerr" where
  "l4_error_value e =
     (case e of
        L4Err g \<Rightarrow> g
      | L4Closed \<Rightarrow> EText ''l4 proxy closed''
      | L4Status target status \<Rightarrow> EText (''CONNECT '' @ target @ '' rejected with status '' @ Itoa status))"

definition l4_upstreamDial :: "duration \<Rightarrow> 'c net_env \<Rightarrow> string \<Rightarrow> string \<Rightarrow> dial_world
    \<Rightarrow> dial_world \<times> (gerr, 'c egress_conn \<times> duration) result" where
  "l4_upstreamDial idleTimeout env network addr w =
     (if \<not> HasPrefix network ''tcp'' then (w, Inl errL4UDPUnsupported)
      else
        (case pool_DialContext (ne_l4 env) (ne_ctx env) addr (dw_pool w) of
           (p, r) \<Rightarrow>
             ((log_dial ViaL4 network addr w)\<lparr>dw_pool := p, tunnelUp := ne_up_after env\<rparr>,
              timeout_conn idleTimeout (case r of Inl e \<Rightarrow> Inl (l4_error_value e) | Inr s \<Rightarrow> Inr (StreamConn s)))))"

definition l4_dialWithTarget :: "Config \<Rightarrow> routePolicy \<Rightarrow> duration \<Rightarrow> 'c net_env \<Rightarrow> string \<Rightarrow> string \<Rightarrow> socksTarget \<Rightarrow> dial_world
    \<Rightarrow> dial_world \<times> (gerr, 'c egress_conn \<times> duration) result" where
  "l4_dialWithTarget cfg policy idleTimeout env network addr target w =
     (if HasPrefix network ''udp'' then
        dialL4UDP (L4UDP (Socks cfg)) (BlockUDP443 (Socks cfg)) idleTimeout env network addr w
      else if \<not> selectTCPRoute (Some policy) network target then directDial idleTimeout env network addr w
      else rt_DialContext (l4_upstreamDial idleTimeout env network addr) w)"

text \<open>The SOCKS-only command dials directly, behind a gate that is opened at the start.\<close>

definition direct_dialWithTarget :: "duration \<Rightarrow> 'c net_env \<Rightarrow> string \<Rightarrow> string \<Rightarrow> dial_world
    \<Rightarrow> dial_world \<times> (gerr, 'c egress_conn \<times> duration) result" where
  "direct_dialWithTarget idleTimeout env network addr w = rt_DialContext (directDial idleTimeout env network addr) w"

section \<open>Preparing the runtimes\<close>

record socksRuntimeMeta =
  sm_dnsMode :: string
  sm_bypassDomains :: int
  sm_proxyTCPPorts :: int
  sm_blockUDP443 :: bool
  sm_udpMode :: string

definition zeroMeta :: socksRuntimeMeta where
  "zeroMeta = \<lparr>sm_dnsMode = [], sm_bypassDomains = 0, sm_proxyTCPPorts = 0, sm_blockUDP443 = False, sm_udpMode = []\<rparr>"

text \<open>The resolver below the cache: local, through the tunnel, or by the bypass list.\<close>

datatype dns_path =
    DnsLocal "string \<times> duration"
  | DnsTunnel TunnelDNSResolver
  | DnsBypass "bypassDomainMatcher option" "string \<times> duration" TunnelDNSResolver

text \<open>\<open>loc\<close> is a lookup at a local server, \<open>tun\<close> one through the tunnel.\<close>

fun path_resolver :: "(string \<Rightarrow> 'ip resolver) \<Rightarrow> (TunnelDNSResolver \<Rightarrow> 'ip resolver) \<Rightarrow> dns_path \<Rightarrow> 'ip resolver" where
  "path_resolver loc tun (DnsLocal l) = loc (fst l)"
| "path_resolver loc tun (DnsTunnel t) = tun t"
| "path_resolver loc tun (DnsBypass m l t) =
     bypass_Resolve (newBypassAwareResolver m (Some (loc (fst l))) (Some (tun t)))"

record socks_setup =
  ss_policy :: "routePolicy option"
  ss_dns :: dns_path
  ss_meta :: socksRuntimeMeta
  ss_adapter :: txthinkingAdapter
  ss_rt :: socksRuntime

definition createSocksServer :: "Config \<Rightarrow> duration \<Rightarrow> duration \<Rightarrow> bool \<Rightarrow> txthinkingAdapter" where
  "createSocksServer cfg idleTimeout halfOpenIdle tcpOnly =
     newTxthinkingAdapter (Username (Socks cfg)) (Password (Socks cfg)) idleTimeout halfOpenIdle
       (SocksVerbose (Logging cfg)) tcpOnly"

definition policy_meta :: "routePolicy \<Rightarrow> socksRuntimeMeta \<Rightarrow> socksRuntimeMeta" where
  "policy_meta policy meta =
     (if ProxyTCPPortsEnabled (Some policy) then meta\<lparr>sm_proxyTCPPorts := int (length (proxyTCPPortList policy))\<rparr>
      else if Enabled (bypassMatcher policy) then meta\<lparr>sm_bypassDomains := int (card (domains (the (bypassMatcher policy))))\<rparr>
      else meta)"

definition choose_dns :: "(gerr \<Rightarrow> string) \<Rightarrow> Config \<Rightarrow> routePolicy \<Rightarrow> (gerr, dns_path \<times> string) result" where
  "choose_dns txt cfg policy =
     (if RemoteDNS (Socks cfg) then
        bind_res (map_res (\<lambda>dns. map_err (\<lambda>_. EText (''Failed to parse DNS server '' @ dns)) (ParseAddr dns))
                    (slice (DNS (Socks cfg)))) (\<lambda>dnsAddrs.
          let tunnelResolver = NewTunnelDNSResolver dnsAddrs (DNSTimeout (Socks cfg)) in
          if Enabled (bypassMatcher policy) then
            bind_res (newLocalDNSResolver txt cfg) (\<lambda>localResolver.
              Inr (DnsBypass (bypassMatcher policy) localResolver tunnelResolver, ''remote+bypass''))
          else Inr (DnsTunnel tunnelResolver, ''remote''))
      else bind_res (newLocalDNSResolver txt cfg) (\<lambda>localResolver. Inr (DnsLocal localResolver, ''local'')))"

definition new_runtime :: "(nat \<Rightarrow> gerr option) \<Rightarrow> state_file \<Rightarrow> Config \<Rightarrow> socksRuntime" where
  "new_runtime close_err file cfg = SetVerboseLogging (SocksVerbose (Logging cfg)) (newSocksRuntime close_err file)"

definition prepareSocksRuntime :: "(gerr \<Rightarrow> string) \<Rightarrow> (nat \<Rightarrow> gerr option) \<Rightarrow> state_file \<Rightarrow> Config \<Rightarrow> duration
    \<Rightarrow> (gerr, socks_setup) result" where
  "prepareSocksRuntime txt close_err file cfg idleTimeout =
     bind_res (newRoutePolicy (BypassDomain (Socks cfg)) (ProxyTCPPort (Socks cfg))) (\<lambda>policy.
       let meta = policy_meta policy (zeroMeta\<lparr>sm_blockUDP443 := BlockUDP443 (Socks cfg)\<rparr>) in
       bind_res (choose_dns txt cfg policy) (\<lambda>(path, mode).
         Inr \<lparr>ss_policy = Some policy, ss_dns = path, ss_meta = meta\<lparr>sm_dnsMode := mode\<rparr>,
              ss_adapter = createSocksServer cfg idleTimeout 0 False, ss_rt = new_runtime close_err file cfg\<rparr>))"

definition udp_enabled :: "Config \<Rightarrow> bool" where
  "udp_enabled cfg = (L4UDP (Socks cfg) = L4UDPDirect \<or> L4UDP (Socks cfg) = L4UDPTunnel)"

definition l4_meta :: "Config \<Rightarrow> routePolicy \<Rightarrow> socksRuntimeMeta" where
  "l4_meta cfg policy =
     (let m = (policy_meta policy zeroMeta)\<lparr>sm_udpMode := L4UDP (Socks cfg)\<rparr>
      in if udp_enabled cfg then m\<lparr>sm_blockUDP443 := BlockUDP443 (Socks cfg)\<rparr> else m)"

definition prepareL4SocksRuntime :: "(gerr \<Rightarrow> string) \<Rightarrow> (nat \<Rightarrow> gerr option) \<Rightarrow> state_file \<Rightarrow> Config \<Rightarrow> l3UDPTunnel option
    \<Rightarrow> duration \<Rightarrow> (gerr, socks_setup) result" where
  "prepareL4SocksRuntime txt close_err file cfg udpTunnel idleTimeout =
     bind_res (newRoutePolicy (BypassDomain (Socks cfg)) (ProxyTCPPort (Socks cfg))) (\<lambda>policy.
       if L4UDP (Socks cfg) = L4UDPTunnel \<and> udpTunnel = None then
         Inl (EText ''l4_udp=tunnel requires an L3 UDP tunnel, but none was provided'')
       else bind_res (newLocalDNSResolver txt cfg) (\<lambda>localResolver.
         Inr \<lparr>ss_policy = Some policy, ss_dns = DnsLocal localResolver, ss_meta = (l4_meta cfg policy)\<lparr>sm_dnsMode := ''local''\<rparr>,
              ss_adapter = createSocksServer cfg idleTimeout (L4HalfOpenTimeout (Socks cfg)) (\<not> udp_enabled cfg),
              ss_rt = new_runtime close_err file cfg\<rparr>))"

text \<open>The SOCKS-only runtime: the names are looked up by the host, and the gate is open.\<close>

definition prepareDirectSocksRuntime :: "(nat \<Rightarrow> gerr option) \<Rightarrow> state_file \<Rightarrow> Config \<Rightarrow> duration \<Rightarrow> txthinkingAdapter \<times> socksRuntime" where
  "prepareDirectSocksRuntime close_err file cfg idleTimeout =
     (createSocksServer cfg idleTimeout 0 False,
      SetVerboseLogging (SocksVerbose (Logging cfg)) (SetTunnelUp True (newSocksRuntime close_err file)))"

section \<open>Settings of the L4 mode\<close>

definition selectL4Endpoint :: "Config \<Rightarrow> (gerr, net_addr) result" where
  "selectL4Endpoint cfg =
     bind_res (map_err (\<lambda>e. EWrap ''failed to select L4 endpoint: '' e [])
                (selectMasqueEndpoint cfg (ConnectPort (Socks cfg)) (UseIPv6 (Socks cfg)) False)) (\<lambda>endpoint.
       case endpoint of
         UDPAddrOf _ _ \<Rightarrow> Inr endpoint
       | TCPAddrOf _ _ \<Rightarrow> Inl (EText ''l4 mode requires a UDP endpoint, got *net.TCPAddr''))"

record quic_config =
  qc_EnableDatagrams :: bool
  qc_KeepAlivePeriod :: duration
  qc_InitialPacketSize :: "16 word"
  qc_InitialConnectionReceiveWindow :: int
  qc_MaxConnectionReceiveWindow :: int
  qc_InitialStreamReceiveWindow :: int
  qc_MaxStreamReceiveWindow :: int
  qc_MaxIncomingStreams :: int
  qc_MaxIncomingUniStreams :: int

definition l4QUICConfig :: "duration \<Rightarrow> 16 word \<Rightarrow> quic_config" where
  "l4QUICConfig keepalivePeriod initialPacketSize =
     \<lparr>qc_EnableDatagrams = False,
      qc_KeepAlivePeriod = (if keepalivePeriod \<le> 0 then DefaultKeepalivePeriod else keepalivePeriod),
      qc_InitialPacketSize = initialPacketSize,
      qc_InitialConnectionReceiveWindow = 10000000, qc_MaxConnectionReceiveWindow = 10000000,
      qc_InitialStreamReceiveWindow = 1000000, qc_MaxStreamReceiveWindow = 1000000,
      qc_MaxIncomingStreams = 100, qc_MaxIncomingUniStreams = 100\<rparr>"

definition getL4TimeoutSettings :: "Config \<Rightarrow> duration \<times> duration" where
  "getL4TimeoutSettings cfg =
     (let c = L4ConnectionTimeout (Socks cfg); i = L4IdleTimeout (Socks cfg)
      in (if c \<le> 0 then DefaultL4ConnectionTimeout else c, if i \<le> 0 then DefaultL4IdleTimeout else i))"

definition l4HighInFlightFloor :: int where "l4HighInFlightFloor = 64"

text \<open>One tick of \<open>logL4Stats\<close>: whether the line is at level info, and the marks for the next tick.\<close>

definition l4_stats_tick :: "L4Pool \<Rightarrow> 64 word \<times> int \<Rightarrow> bool \<times> 64 word \<times> int" where
  "l4_stats_tick pool marks =
     (case marks of (lastReconnects, maxInFlight) \<Rightarrow>
      case pool_Stats pool of (inFlight, reconnects) \<Rightarrow>
        let newHighWater = (inFlight > maxInFlight \<and> inFlight \<ge> l4HighInFlightFloor);
            maxInFlight' = (if inFlight > maxInFlight then inFlight else maxInFlight)
        in (reconnects > lastReconnects \<or> newHighWater, reconnects, maxInFlight'))"

section \<open>Lemmas\<close>

lemma dial_log_simps [simp]:
  "dw_log (log_dial via n a w) = dw_log w @ [(via, n, a)]" "tunnelUp (log_dial via n a w) = tunnelUp w"
  "dw_udp (log_dial via n a w) = dw_udp w" "dw_pool (log_dial via n a w) = dw_pool w"
  by (simp_all add: log_dial_def)

lemma timeout_conn_Inr: "timeout_conn i r = Inr x \<longleftrightarrow> (\<exists>c. r = Inr c \<and> x = (c, i))"
  by (cases r) (auto simp: timeout_conn_def)

interpretation ut_gate: tunnel_gate ut_signalDemand
  "\<lambda>t. case ut_waitForReconnectDemand False t of [] \<Rightarrow> None | (t1, _) # _ \<Rightarrow> Some t1" ut_drainDemand ut_demand
  ut_up "\<lambda>b t. t\<lparr>ut_up := b\<rparr>"
  by unfold_locales (auto simp: ut_signalDemand_def ut_waitForReconnectDemand_def ut_drainDemand_def)

interpretation ut_start: close_once start_once ut_once ut_started
  by unfold_locales (auto simp: start_once_def)

text \<open>What the route policy sends past the tunnel.\<close>

definition goes_direct :: "routePolicy \<Rightarrow> string \<Rightarrow> socksTarget \<Rightarrow> bool" where
  "goes_direct policy network target =
     (HasPrefix network ''tcp'' \<and> TrimSpace (Host target) \<noteq> [] \<and> TargetPort target > 0 \<and>
      \<not> ShouldUseTunTCP (Some policy) (Host target) (TargetPort target))"

lemma selectTCPRoute_direct: "\<not> selectTCPRoute (Some policy) network target \<longleftrightarrow> goes_direct policy network target"
  by (auto simp: selectTCPRoute_def goes_direct_def)

lemma udp_not_tcp: "HasPrefix network ''udp'' \<Longrightarrow> \<not> HasPrefix network ''tcp''"
  by (auto simp: HasPrefix_def)

lemma l4udp_modes: "L4UDPDirect \<noteq> L4UDPTunnel"
  by (simp add: L4UDPDirect_def L4UDPTunnel_def)

lemma newRoutePolicy_matcher: "newRoutePolicy b p = Inr policy \<Longrightarrow> bypassMatcher policy \<noteq> None"
  by (auto simp: newRoutePolicy_def bind_res_eq_Inr)

lemma DialUDP_gate:
  assumes "DialUDP env addr w = (w', r)"
  shows "dw_log w' = dw_log w @ (if ut_up (dw_udp w) then [(ViaUDPLeg, ''udp'', addr)] else [])"
    "ut_started (dw_udp w') = (if ut_once (dw_udp w) then ut_started (dw_udp w) else Suc (ut_started (dw_udp w)))"
    "ut_once (dw_udp w')"
    "r = Inl ErrTunnelDisconnected \<and> ut_demand (dw_udp w') \<or> ut_up (dw_udp w) \<and>
       r = timeout_conn (ut_idleTimeout (dw_udp w)) (bind_res (ne_udpleg env ''udp'' addr) (\<lambda>c. Inr (NetConn c)))"
  using assms
  by (auto simp: DialUDP_def start_once_def ut_signalDemand_def timeout_conn_def Let_def split: if_splits sum.splits)

definition sample_net :: "string net_env" where
  "sample_net = \<lparr>ne_tun = (\<lambda>_ a. Inr a), ne_direct = (\<lambda>_ a. Inr a), ne_udpleg = (\<lambda>_ a. Inr a), ne_l4 = ok_env, ne_ctx = None,
     ne_up_after = True, ne_leg_after = True\<rparr>"

definition sample_dial_world :: dial_world where
  "sample_dial_world =
     socksRuntime.extend ((newSocksRuntime (\<lambda>_. None) \<lparr>sf_path = [], sf_files = Map.empty, sf_fail = (\<lambda>_. False)\<rparr>)\<lparr>tunnelUp := True\<rparr>)
       \<lparr>dw_log = [], dw_pool = \<lparr>shards = []\<rparr>, dw_udp = new_l3UDPTunnel 0\<rparr>"

definition sample_policy :: routePolicy where
  "sample_policy = \<lparr>bypassMatcher = Some (newBypassDomainMatcher [''lan'']), proxyTCPPorts = {}, proxyTCPPortList = []\<rparr>"

definition quiet_config :: Config where
  "quiet_config = sample_config\<lparr>Socks := GetDefaultSocksConfig\<lparr>BlockUDP443 := True, RemoteDNS := True, BypassDomain := Some [''lan''],
     DNS := Some [''1.1.1.1'']\<rparr>\<rparr>"

lemma quiet_policy:
  "\<exists>policy. newRoutePolicy (Some [''lan'']) (ProxyTCPPort GetDefaultSocksConfig) = Inr policy \<and>
     bypassMatcher policy = Some (newBypassDomainMatcher [''lan'']) \<and> \<not> ProxyTCPPortsEnabled (Some policy)"
proof -
  have "ProxyTCPPort GetDefaultSocksConfig = Some []" by (simp add: GetDefaultSocksConfig_def)
  then show ?thesis
    by (simp add: newRoutePolicy_def NormalizeSocksConfig_eq zeroSocksConfig_def normalizeProxyTCPPorts_ok
        normalizeL4UDP_def TrimSpace_def slice_elems_def ProxyTCPPortsEnabled_def Let_def)
qed

section \<open>Properties\<close>

text \<open>
  C21: in the tunnel modes a connection leaves the process in exactly one way. It leaves directly only
  for TCP to a named target that the route policy exempts; everything else leaves through the
  tunnel, and only while the tunnel is up and, with \<open>block_udp_443\<close>, not as UDP to port 443.
  Otherwise nothing is dialled at all and the client gets the matching error.
\<close>

theorem l3_egress:
  assumes "dialWithTarget cfg policy idleTimeout env network addr target w = (w', r)"
  shows "let blocked = BlockUDP443 (Socks cfg) \<and> HasPrefix network ''udp'' \<and> port_443 addr;
             out = (if goes_direct policy network target then [ViaDirect]
                    else if tunnelUp w \<and> \<not> blocked then [ViaTunnel] else [])
         in dw_log w' = dw_log w @ map (\<lambda>via. (via, network, addr)) out \<and>
            (out = [] \<longrightarrow> r = Inl (if tunnelUp w then errUDP443Blocked else ErrTunnelDisconnected)) \<and>
            (\<forall>c i. r = Inr (c, i) \<longrightarrow> i = idleTimeout)"
  using assms
  by (auto simp: dialWithTarget_def selectTCPRoute_direct directDial_def rt_DialContext_def upstreamDial_def Let_def
      timeout_conn_Inr split: if_splits sum.splits)

theorem l3_egress_witness:
  "\<exists>w' r. dialWithTarget quiet_config sample_policy 300 sample_net ''udp'' ''1.2.3.4:443'' \<lparr>Host = ''1.2.3.4'', TargetPort = 443\<rparr>
      sample_dial_world = (w', r) \<and> r = Inl errUDP443Blocked \<and> dw_log w' = []"
proof -
  obtain w' r where d: "dialWithTarget quiet_config sample_policy 300 sample_net ''udp'' ''1.2.3.4:443''
      \<lparr>Host = ''1.2.3.4'', TargetPort = 443\<rparr> sample_dial_world = (w', r)" by fastforce
  have "port_443 ''1.2.3.4:443''" by code_simp
  then have "r = Inl errUDP443Blocked \<and> dw_log w' = []"
    using l3_egress [OF d]
    by (simp add: goes_direct_def HasPrefix_def quiet_config_def sample_dial_world_def socksRuntime.defs Let_def)
  with d show ?thesis by blast
qed

text \<open>
  C22: in the L4 mode no datagram enters the shared connection: it is refused, or leaves directly when
  the configuration says so, or takes the UDP leg, which is dialled only while it is up; UDP to
  port 443 leaves on neither when it is blocked. TCP leaves directly only where the route
  policy exempts it, and otherwise as a stream of the shared connection.
\<close>

theorem l4_egress:
  assumes "l4_dialWithTarget cfg policy idleTimeout env network addr target w = (w', r)"
  shows "let mode = L4UDP (Socks cfg); blocked = BlockUDP443 (Socks cfg) \<and> port_443 addr;
             out = (if HasPrefix network ''udp'' then
                      (if blocked then [] else if mode = L4UDPDirect then [(ViaDirect, network, addr)]
                       else if mode = L4UDPTunnel \<and> ut_up (dw_udp w) then [(ViaUDPLeg, ''udp'', addr)] else [])
                    else if goes_direct policy network target then [(ViaDirect, network, addr)]
                    else if tunnelUp w \<and> HasPrefix network ''tcp'' then [(ViaL4, network, addr)] else [])
         in dw_log w' = dw_log w @ out \<and> (out = [] \<longrightarrow> (\<exists>e. r = Inl e)) \<and>
            (HasPrefix network ''udp'' \<longrightarrow> dw_pool w' = dw_pool w)"
proof (cases "HasPrefix network ''udp''")
  case True
  then have d: "dialL4UDP (L4UDP (Socks cfg)) (BlockUDP443 (Socks cfg)) idleTimeout env network addr w = (w', r)"
    using assms by (simp add: l4_dialWithTarget_def)
  then have "dw_pool w' = dw_pool w"
    by (auto simp: dialL4UDP_def directDial_def DialUDP_def Let_def split: l4UDPRoute.splits if_splits sum.splits)
  moreover have "dw_log w' = dw_log w @
      (if BlockUDP443 (Socks cfg) \<and> port_443 addr then [] else if L4UDP (Socks cfg) = L4UDPDirect then [(ViaDirect, network, addr)]
       else if L4UDP (Socks cfg) = L4UDPTunnel \<and> ut_up (dw_udp w) then [(ViaUDPLeg, ''udp'', addr)] else [])"
    using d DialUDP_gate(1) [of env addr w w' r] l4udp_modes
    by (auto simp: dialL4UDP_def classifyL4UDP_def directDial_def split: if_splits)
  moreover have "\<exists>e. r = Inl e" if "dw_log w' = dw_log w"
    using d DialUDP_gate(1,4) [of env addr w w' r] that
    by (auto simp: dialL4UDP_def classifyL4UDP_def directDial_def split: if_splits)
  ultimately show ?thesis using True by (auto simp: Let_def)
next
  case False
  show ?thesis
  proof (cases "goes_direct policy network target")
    case True
    with False assms show ?thesis
      by (auto simp: l4_dialWithTarget_def selectTCPRoute_direct directDial_def Let_def)
  next
    case direct: False
    then have "rt_DialContext (l4_upstreamDial idleTimeout env network addr) w = (w', r)"
      using False assms by (simp add: l4_dialWithTarget_def selectTCPRoute_direct)
    then show ?thesis
      using False direct
      by (auto simp: rt_DialContext_def l4_upstreamDial_def Let_def split: if_splits sum.splits prod.splits)
  qed
qed

theorem l4_egress_witness:
  "\<exists>w' r. l4_dialWithTarget quiet_config sample_policy 300 sample_net ''udp'' ''1.2.3.4:53'' \<lparr>Host = ''1.2.3.4'', TargetPort = 53\<rparr>
      sample_dial_world = (w', r) \<and> (\<exists>e. r = Inl e) \<and> dw_log w' = []"
proof -
  obtain w' r where d: "l4_dialWithTarget quiet_config sample_policy 300 sample_net ''udp'' ''1.2.3.4:53''
      \<lparr>Host = ''1.2.3.4'', TargetPort = 53\<rparr> sample_dial_world = (w', r)" by fastforce
  have "(\<exists>e. r = Inl e) \<and> dw_log w' = []"
    using l4_egress [OF d]
    by (simp add: HasPrefix_def quiet_config_def sample_dial_world_def socksRuntime.defs config_consts new_l3UDPTunnel_def
        GetDefaultSocksConfig_def Let_def split: if_splits)
  with d show ?thesis by blast
qed



text \<open>
  the UDP leg of the L4 mode is lazy. Any number of datagrams starts its maintenance loop once; a
  datagram that meets a leg which is down, or goes down under it, is dropped with the error of
  a closed tunnel and leaves a token on which the sleeping loop wakes; once the loop has connected no
  token is left, so the end of the connection puts it to sleep again.
\<close>

theorem udp_leg_lazy:
  assumes "DialUDP env addr w = (w', r)" "ut_once (dw_udp w) \<longleftrightarrow> ut_started (dw_udp w) = 1" "ut_started (dw_udp w) \<le> 1"
  shows "ut_started (dw_udp w') = 1 \<and> ut_once (dw_udp w') \<and>
    (\<not> ut_up (dw_udp w) \<longrightarrow> r = Inl ErrTunnelDisconnected \<and> dw_log w' = dw_log w) \<and>
    (r = Inl ErrTunnelDisconnected \<longrightarrow> ut_waitForReconnectDemand False (dw_udp w') \<noteq> [] \<or>
       ne_udpleg env ''udp'' addr = Inl ErrTunnelDisconnected) \<and>
    ut_waitForReconnectDemand False (ut_OnDisconnected (ut_OnConnected (dw_udp w'))) = []"
proof -
  note g = DialUDP_gate [OF assms(1)]
  have "ut_waitForReconnectDemand False (ut_OnDisconnected (ut_OnConnected (dw_udp w'))) = []"
    by (simp add: ut_OnConnected_def ut_OnDisconnected_def ut_waitForReconnectDemand_def ut_drainDemand_def)
  moreover have "ut_waitForReconnectDemand False (dw_udp w') \<noteq> []" if "ut_demand (dw_udp w')"
    using that by (simp add: ut_waitForReconnectDemand_def)
  moreover have "ut_started (dw_udp w') = 1" using g(2) assms(2,3) by auto
  moreover have "ne_udpleg env ''udp'' addr = Inl ErrTunnelDisconnected \<or> ut_demand (dw_udp w')"
    if "r = Inl ErrTunnelDisconnected"
    using g(4) that by (cases "ne_udpleg env ''udp'' addr") (auto simp: timeout_conn_def)
  ultimately show ?thesis using g(1,3,4) by auto
qed

theorem udp_leg_lazy_witness:
  "\<exists>w' r. DialUDP sample_net ''1.2.3.4:53'' sample_dial_world = (w', r) \<and> r = Inl ErrTunnelDisconnected \<and>
     ut_started (dw_udp w') = 1"
proof -
  obtain w' r where d: "DialUDP sample_net ''1.2.3.4:53'' sample_dial_world = (w', r)" by fastforce
  with udp_leg_lazy [OF d] show ?thesis
    by (auto simp: sample_dial_world_def socksRuntime.defs new_l3UDPTunnel_def)
qed

end
