(* ===== verification/Serving.thy ===== *)
theory Serving
  imports Egress Tunnel
begin

text \<open>
  Running the proxy: \<open>startTunnel\<close>, \<open>runSocksServer\<close>, \<open>logProxyReady\<close> and the setup functions of
  \<open>src/cmd/proxy.go\<close>, the setup of the L4 mode (\<open>src/cmd/l4.go\<close>) and of its UDP leg
  (\<open>src/cmd/l3_udp_tunnel.go\<close>). The maintenance loop of the tunnel and the runtime run side by side: the
  callbacks of the loop are delivered one runtime operation at a time, the accept loop reads the
  gate in one step and refuses or tracks the connection in another, and connections end at any moment.
\<close>

section \<open>The tunnel configurations\<close>

definition tunnel_config :: "Config \<Rightarrow> endpoint \<Rightarrow> ConnectionConfig" where
  "tunnel_config cfg endpoint =
     \<lparr>cc_Endpoint = Some endpoint, cc_UseHTTP2 = HTTP2 (Socks cfg), cc_MaxReconnectAttempts = MaxReconnectAttempts (Socks cfg),
      cc_ReconnectStrategy = \<lparr>InitialDelay = ReconnectDelay (Socks cfg), MaxDelay = 5 * Minute, Factor = 2\<rparr>,
      cc_OnConnected = True, cc_OnDisconnected = True, cc_AlwaysReconnect = AlwaysReconnect (Socks cfg),
      cc_WaitForReconnectDemand = True\<rparr>"

definition udp_leg_config :: "Config \<Rightarrow> endpoint \<Rightarrow> ConnectionConfig" where
  "udp_leg_config cfg endpoint =
     \<lparr>cc_Endpoint = Some endpoint, cc_UseHTTP2 = False, cc_MaxReconnectAttempts = 0,
      cc_ReconnectStrategy = \<lparr>InitialDelay = ReconnectDelay (Socks cfg), MaxDelay = 5 * Minute, Factor = 2\<rparr>,
      cc_OnConnected = True, cc_OnDisconnected = True, cc_AlwaysReconnect = False, cc_WaitForReconnectDemand = True\<rparr>"

section \<open>The loop and the runtime together\<close>

text \<open>The calls of the callbacks \<open>OnConnected\<close> and \<open>OnDisconnected\<close>, in their order.\<close>

datatype cb = CbOp rt_op | CbReady

fun callbacks :: "tn_event \<Rightarrow> cb list" where
  "callbacks EvOnConnected = [CbOp (OpUp True), CbOp OpDrain, CbReady]"
| "callbacks (EvOnDisconnected _) = [CbOp (OpUp False), CbOp OpReset]"
| "callbacks _ = []"

text \<open>
  \<open>ts_queue\<close>: what the current attempt still has to call; \<open>ts_accept\<close>: where the accept loop is, having
  read the gate for a connection or not; \<open>ts_ready\<close>: how often the channel of readiness was closed.
\<close>

datatype accept_pc = Accepting | Refusing nat | Admitting nat

record tunnel_sys =
  ts_mt :: mt
  ts_queue :: "cb list"
  ts_rt :: socksRuntime
  ts_accept :: accept_pc
  ts_once :: bool
  ts_ready :: nat

definition startTunnel :: "socksRuntime \<Rightarrow> tunnel_sys" where
  "startTunnel rt =
     \<lparr>ts_mt = mt_start (Some \<lparr>HasConnectedOnce = False, ConnectedAt = 0, Trigger = ''backoff''\<rparr>), ts_queue = [],
      ts_rt = rt, ts_accept = Accepting, ts_once = False, ts_ready = 0\<rparr>"

fun run_cb :: "cb \<Rightarrow> tunnel_sys \<Rightarrow> tunnel_sys" where
  "run_cb (CbOp op) s = s\<lparr>ts_rt := rt_exec op (ts_rt s)\<rparr>"
| "run_cb CbReady s = (if ts_once s then s else s\<lparr>ts_once := True, ts_ready := Suc (ts_ready s)\<rparr>)"

definition fresh_conn_id :: "nat \<Rightarrow> socksRuntime \<Rightarrow> bool" where
  "fresh_conn_id c r = (rt_closes r c = 0 \<and> c \<notin> set (map mc_conn (managed r)))"

inductive sys_step :: "(gerr \<Rightarrow> string) \<Rightarrow> ConnectionConfig \<Rightarrow> tunnel_sys \<Rightarrow> tunnel_sys \<Rightarrow> bool" for qt cc where
  sys_loop: "ts_queue s = [] \<Longrightarrow> mt_phase (ts_mt s) \<noteq> MtDemand \<Longrightarrow> mt_step qt cc (ts_mt s) m
    \<Longrightarrow> mt_events m = mt_events (ts_mt s) @ evs
    \<Longrightarrow> sys_step qt cc s (s\<lparr>ts_mt := m, ts_queue := concat (map callbacks evs)\<rparr>)"
| sys_wake: "ts_queue s = [] \<Longrightarrow> mt_phase (ts_mt s) = MtDemand
    \<Longrightarrow> (rt, None) \<in> set (WaitForReconnectDemand False (ts_rt s))
    \<Longrightarrow> sys_step qt cc s (s\<lparr>ts_mt := (ts_mt s)\<lparr>mt_phase := MtLoop, mt_events := mt_events (ts_mt s) @ [EvDemand]\<rparr>, ts_rt := rt\<rparr>)"
| sys_callback: "ts_queue s = x # q \<Longrightarrow> sys_step qt cc s ((run_cb x s)\<lparr>ts_queue := q\<rparr>)"
| sys_check: "ts_accept s = Accepting \<Longrightarrow> fresh_conn_id c (ts_rt s)
    \<Longrightarrow> sys_step qt cc s (s\<lparr>ts_accept := (if tunnelUp (ts_rt s) then Admitting c else Refusing c)\<rparr>)"
| sys_refuse: "ts_accept s = Refusing c
    \<Longrightarrow> sys_step qt cc s (s\<lparr>ts_rt := close_raw c (SignalDemand (ts_rt s)), ts_accept := Accepting\<rparr>)"
| sys_track: "ts_accept s = Admitting c
    \<Longrightarrow> sys_step qt cc s (s\<lparr>ts_rt := fst (TrackConn c (ts_rt s)), ts_accept := Accepting\<rparr>)"
| sys_close: "sys_step qt cc s (s\<lparr>ts_rt := fst (managed_Close k (ts_rt s))\<rparr>)"

inductive sys_reach :: "(gerr \<Rightarrow> string) \<Rightarrow> ConnectionConfig \<Rightarrow> socksRuntime \<Rightarrow> tunnel_sys \<Rightarrow> bool" for qt cc rt where
  sys_init: "sys_reach qt cc rt (startTunnel rt)"
| sys_next: "sys_reach qt cc rt s \<Longrightarrow> sys_step qt cc s s' \<Longrightarrow> sys_reach qt cc rt s'"

section \<open>Lemmas: the runtime\<close>

lemma managed_Close_ids:
  "map mc_conn (managed (fst (managed_Close m r))) = map mc_conn (managed r)"
  "c \<notin> set (map mc_conn (managed r)) \<Longrightarrow> rt_closes (fst (managed_Close m r)) c = rt_closes r c"
proof -
  show "map mc_conn (managed (fst (managed_Close m r))) = map mc_conn (managed r)"
    by (rule nth_equalityI) (auto simp: managed_Close_def close_raw_def Let_def nth_list_update)
  show "c \<notin> set (map mc_conn (managed r)) \<Longrightarrow> rt_closes (fst (managed_Close m r)) c = rt_closes r c"
    by (auto simp: managed_Close_def close_raw_def Let_def dest: nth_mem)
qed

lemma fresh_after_close: "fresh_conn_id c r \<Longrightarrow> fresh_conn_id c (fst (managed_Close m r))"
  unfolding fresh_conn_id_def by (metis managed_Close_ids)

lemma fresh_after_reset: "fresh_conn_id c r \<Longrightarrow> fresh_conn_id c (ResetTrackedConns r)"
proof -
  have "fresh_conn_id c (fst (fold (\<lambda>m (r, n). (fst (managed_Close m r), Suc n)) ms (r, n)))" if "fresh_conn_id c r" for ms r n
    using that by (induction ms arbitrary: r n) (auto intro: fresh_after_close)
  then show "fresh_conn_id c r \<Longrightarrow> fresh_conn_id c (ResetTrackedConns r)"
    by (simp add: ResetTrackedConns_def drainActiveConnections_def)
qed

lemma TrackConn_inv:
  assumes "conns_inv r" "fresh_conn_id c r"
  shows "conns_inv (fst (TrackConn c r))"
proof -
  have "accept_conn c (r\<lparr>tunnelUp := True\<rparr>) = fst (TrackConn c (r\<lparr>tunnelUp := True\<rparr>))"
    by (simp add: accept_conn_def DropIfDisconnected_def)
  moreover have "conns_inv (accept_conn c (r\<lparr>tunnelUp := True\<rparr>))"
    by (rule accept_conn_inv) (use assms in \<open>auto simp: fresh_conn_id_def conns_inv_def\<close>)
  ultimately show ?thesis by (auto simp: conns_inv_def TrackConn_def Let_def)
qed

lemma length_active_Close: "length (activeConns (fst (managed_Close m r))) \<le> length (activeConns r)"
  by (simp add: managed_Close_def close_raw_def Let_def)

lemma rt_exec_flag: "tunnelUp (rt_exec op r) = (case op of OpUp b \<Rightarrow> b | _ \<Rightarrow> tunnelUp r)" if "conns_inv r" for op r
  using that
  by (cases op)
    (auto simp: SignalDemand_def drainDemand_def WaitForReconnectDemand_def SetTunnelUp_def SetVerboseLogging_def accept_conn_def
      DropIfDisconnected_def TrackConn_def close_raw_def ResetTrackedConns_facts managed_Close_def Let_def)

lemma DropIfDisconnected_steps:
  "DropIfDisconnected c r = (if tunnelUp r then (r, False) else (close_raw c (SignalDemand r), True))"
  by (simp add: DropIfDisconnected_def)

section \<open>Lemmas: the system\<close>

text \<open>The calls of one session, and where in them the system is with the gate open or closed.\<close>

definition session_calls :: "cb list" where
  "session_calls = [CbOp (OpUp True), CbOp OpDrain, CbReady, CbOp (OpUp False), CbOp OpReset]"

definition session_point :: "cb list \<Rightarrow> bool \<Rightarrow> bool" where
  "session_point q up =
     ((q, up) \<in> {(session_calls, False), (drop 1 session_calls, True), (drop 2 session_calls, True),
                  (drop 3 session_calls, True), (drop 4 session_calls, False), ([], False)})"

lemma session_point_Nil: "session_point [] up \<longleftrightarrow> \<not> up"
  by (auto simp: session_point_def session_calls_def)

lemma session_point_Cons:
  assumes "session_point (x # q) up"
  obtains (connected) "x = CbOp (OpUp True)" "\<not> up" "session_point q True" "CbReady \<in> set q"
  | (drained) "x = CbOp OpDrain" "up" "session_point q True" "CbReady \<in> set q"
  | (ready) "x = CbReady" "up" "session_point q True"
  | (lost) "x = CbOp (OpUp False)" "up" "session_point q False" "q = [CbOp OpReset]"
  | (reset) "x = CbOp OpReset" "\<not> up" "q = []"
  using assms that by (auto simp: session_point_def session_calls_def)

lemma mt_step_calls:
  assumes "mt_step qt cc m m'" "mt_events m' = mt_events m @ evs" "cc_OnConnected cc" "cc_OnDisconnected cc"
  shows "concat (map callbacks evs) = [] \<or> concat (map callbacks evs) = session_calls"
  using assms(1)
proof (cases rule: mt_step_events)
  case (tried ae cd r lg n err evs' ds)
  have "concat (map callbacks ds) = []" using tried(6) by (induction ds) auto
  moreover have "concat (map callbacks evs') = [] \<or> concat (map callbacks evs') = session_calls"
    using tried(3) by (cases rule: handle_cases) (auto simp: assms(3,4) session_calls_def)
  moreover have "evs = evs' @ ds" using tried(5) assms(2) by simp
  ultimately show ?thesis by auto
qed (use assms(2) in auto)

definition admitting :: "tunnel_sys \<Rightarrow> nat" where
  "admitting s = (case ts_accept s of Admitting _ \<Rightarrow> 1 | _ \<Rightarrow> 0)"

fun accept_ok :: "accept_pc \<Rightarrow> socksRuntime \<Rightarrow> bool" where
  "accept_ok Accepting r = True"
| "accept_ok (Refusing c) r = fresh_conn_id c r"
| "accept_ok (Admitting c) r = fresh_conn_id c r"

definition sys_inv :: "tunnel_sys \<Rightarrow> bool" where
  "sys_inv s =
     (conns_inv (ts_rt s) \<and> file_inv (ts_rt s) \<and> session_point (ts_queue s) (tunnelUp (ts_rt s)) \<and> accept_ok (ts_accept s) (ts_rt s) \<and>
      (tunnelUp (ts_rt s) \<or> ts_queue s = [CbOp OpReset] \<or> length (activeConns (ts_rt s)) + admitting s \<le> 1) \<and>
      (tunnelUp (ts_rt s) \<longrightarrow> ts_once s \<or> CbReady \<in> set (ts_queue s)) \<and>
      ts_ready s = (if ts_once s then 1 else 0))"

lemma accept_ok_frame:
  "managed r' = managed r \<Longrightarrow> rt_closes r' = rt_closes r \<Longrightarrow> accept_ok pc r' = accept_ok pc r"
  by (cases pc) (auto simp: fresh_conn_id_def)

lemma accept_ok_exec:
  assumes "accept_ok pc r" "op = OpUp b \<or> op = OpDrain \<or> op = OpReset \<or> op = OpClose m"
  shows "accept_ok pc (rt_exec op r)"
proof -
  have "accept_ok pc (SetTunnelUp b r) = accept_ok pc r" "accept_ok pc (drainDemand r) = accept_ok pc r"
    by (rule accept_ok_frame; simp add: SetTunnelUp_def drainDemand_def Let_def)+
  then show ?thesis using assms by (cases pc) (auto intro: fresh_after_reset fresh_after_close)
qed

lemma sys_inv_callback:
  assumes "sys_inv s" "ts_queue s = x # q"
  shows "sys_inv ((run_cb x s)\<lparr>ts_queue := q\<rparr>)"
proof -
  let ?r = "ts_rt s"
  have inv: "conns_inv ?r" "file_inv ?r" "accept_ok (ts_accept s) ?r" using assms(1) by (simp_all add: sys_inv_def)
  note keep = rt_exec_inv [OF inv(1)] rt_exec_file [OF inv(1,2)] accept_ok_exec [OF inv(3)] rt_exec_flag [OF inv(1)]
  have "session_point (x # q) (tunnelUp ?r)" using assms by (simp add: sys_inv_def)
  then show ?thesis
  proof (cases rule: session_point_Cons)
    case connected
    then show ?thesis using assms keep [of "OpUp True"] by (auto simp: sys_inv_def admitting_def)
  next
    case drained
    then show ?thesis using assms keep [of OpDrain] by (auto simp: sys_inv_def admitting_def)
  next
    case ready
    then show ?thesis using assms by (auto simp: sys_inv_def admitting_def)
  next
    case lost
    then show ?thesis using assms keep [of "OpUp False"] by (auto simp: sys_inv_def admitting_def)
  next
    case reset
    then show ?thesis using assms keep [of OpReset] ResetTrackedConns_facts(2) [OF inv(1)]
      by (auto simp: sys_inv_def admitting_def session_point_Nil split: accept_pc.splits)
  qed
qed

lemma sys_inv_step:
  assumes "sys_inv s" "sys_step qt cc s s'" "cc_OnConnected cc" "cc_OnDisconnected cc"
  shows "sys_inv s'"
proof -
  let ?r = "ts_rt s"
  have inv: "conns_inv ?r" "file_inv ?r" "accept_ok (ts_accept s) ?r" using assms(1) by (simp_all add: sys_inv_def)
  show ?thesis using assms(2)
  proof (cases rule: sys_step.cases)
    case (sys_loop m evs)
    have "\<not> tunnelUp ?r" using assms(1) sys_loop(2) by (simp add: sys_inv_def session_point_Nil)
    moreover from this have "session_point (concat (map callbacks evs)) False"
      using mt_step_calls [OF sys_loop(4,5) assms(3,4)] by (auto simp: session_point_def)
    ultimately show ?thesis using assms(1) sys_loop by (auto simp: sys_inv_def admitting_def)
  next
    case (sys_wake rt)
    have rt: "rt = rt_exec OpReceive ?r" "rt = ?r\<lparr>demand := False\<rparr>"
      using sys_wake(4) by (auto simp: WaitForReconnectDemand_def split: if_splits)
    have "accept_ok (ts_accept s) rt = accept_ok (ts_accept s) ?r" by (rule accept_ok_frame) (simp_all add: rt(2))
    then show ?thesis
      using assms(1) sys_wake rt(2) rt_exec_inv [OF inv(1), of OpReceive] rt_exec_file [OF inv(1,2), of OpReceive] rt(1)
      by (auto simp: sys_inv_def admitting_def simp del: rt_exec.simps)
  next
    case (sys_callback x q)
    with assms(1) show ?thesis by (simp add: sys_inv_callback)
  next
    case (sys_check c)
    with assms(1) show ?thesis by (auto simp: sys_inv_def admitting_def)
  next
    case (sys_refuse c)
    then have "conns_inv (close_raw c (SignalDemand ?r))"
      using inv by (auto simp: conns_inv_def close_raw_def SignalDemand_def fresh_conn_id_def image_iff)
    then show ?thesis using assms(1) sys_refuse
      by (auto simp: sys_inv_def admitting_def close_raw_def SignalDemand_def file_inv_def)
  next
    case (sys_track c)
    then have "conns_inv (fst (TrackConn c ?r))" using inv by (auto intro: TrackConn_inv)
    then show ?thesis using assms(1) sys_track
      by (auto simp: sys_inv_def admitting_def TrackConn_def Let_def file_inv_def)
  next
    case (sys_close k)
    show ?thesis
      using assms(1) sys_close length_active_Close [of k ?r] rt_exec_inv [OF inv(1), of "OpClose k"]
        rt_exec_file [OF inv(1,2), of "OpClose k"] accept_ok_exec [OF inv(3), of "OpClose k"] rt_exec_flag [OF inv(1), of "OpClose k"]
      by (auto simp: sys_inv_def admitting_def)
  qed
qed

lemma new_runtime_start: "sys_inv (startTunnel (new_runtime ce f cfg))"
proof -
  have "conns_inv (new_runtime ce f cfg) \<and> file_inv (new_runtime ce f cfg)"
    using rt_reach_inv [OF rt_step [OF rt_init, of "OpVerbose (SocksVerbose (Logging cfg))" ce f]]
    by (simp add: new_runtime_def)
  moreover have "\<not> tunnelUp (new_runtime ce f cfg)" "activeConns (new_runtime ce f cfg) = []"
    by (simp_all add: new_runtime_def newSocksRuntime_def SetVerboseLogging_def)
  ultimately show ?thesis by (simp add: sys_inv_def startTunnel_def admitting_def session_point_Nil)
qed

lemma sys_reach_inv:
  assumes "sys_reach qt (tunnel_config c ep) (new_runtime ce f cfg) s"
  shows "sys_inv s"
  using assms
proof (induction rule: sys_reach.induct)
  case sys_init
  then show ?case by (rule new_runtime_start)
next
  case (sys_next s s')
  show ?case by (rule sys_inv_step [OF sys_next.IH sys_next.hyps(2)]) (simp_all add: tunnel_config_def)
qed

section \<open>The life of a tunnel\<close>

text \<open>
  What a client of the proxy may rely on, with all detail of dials, callbacks and connections left
  out: the tunnel is being dialled, open, asleep until it is wanted, waiting for a retry, paused or
  stopped; next to it the one bit that says whether somebody wants it.
\<close>

datatype life = Dialing | Open | Dormant | Waiting | Paused | Stopped

inductive life_step :: "life \<times> bool \<Rightarrow> life \<times> bool \<Rightarrow> bool" where
  life_open: "life_step (Dialing, w) (Open, w)"
| life_serve: "life_step (Open, w) (Open, False)"
| life_lost: "life_step (Open, w) (Dialing, w)"
| life_rest: "l \<noteq> Open \<Longrightarrow> life_step (Dialing, w) (l, w)"
| life_retry: "life_step (Waiting, w) (Dialing, w)"
| life_stop: "l \<noteq> Open \<Longrightarrow> life_step (l, w) (Stopped, w)"
| life_wake: "life_step (Dormant, True) (Dialing, False)"
| life_want: "life_step (l, w) (l, True)"

fun phase_life :: "mt_phase \<Rightarrow> life" where
  "phase_life MtLoop = Dialing"
| "phase_life MtDemand = Dormant"
| "phase_life MtPaused = Paused"
| "phase_life (MtBackoff _) = Waiting"
| "phase_life MtStopped = Stopped"

definition abs_life :: "tunnel_sys \<Rightarrow> life \<times> bool" where
  "abs_life s =
     (if ts_queue s \<noteq> [] then (if tunnelUp (ts_rt s) then Open else Dialing) else phase_life (mt_phase (ts_mt s)),
      demand (ts_rt s))"

lemma demand_frames [simp]:
  "demand (SetTunnelUp b r) = demand r" "demand (close_raw c r) = demand r" "demand (fst (TrackConn c r)) = demand r"
  "demand (fst (managed_Close m r)) = demand r" "demand (SignalDemand r)" "\<not> demand (drainDemand r)"
  by (simp_all add: SetTunnelUp_def close_raw_def TrackConn_def managed_Close_def SignalDemand_def drainDemand_def Let_def)

lemma demand_reset [simp]: "demand (ResetTrackedConns r) = demand r"
proof -
  have "demand (fst (fold (\<lambda>m (r, n). (fst (managed_Close m r), Suc n)) ms (r, n))) = demand r" for ms n
    by (induction ms arbitrary: r n) auto
  then show ?thesis by (simp add: ResetTrackedConns_def drainActiveConnections_def)
qed

lemma tunnelUp_frames [simp]:
  "tunnelUp (close_raw c r) = tunnelUp r" "tunnelUp (fst (TrackConn c r)) = tunnelUp r"
  "tunnelUp (fst (managed_Close m r)) = tunnelUp r" "tunnelUp (SignalDemand r) = tunnelUp r"
  "tunnelUp (drainDemand r) = tunnelUp r" "tunnelUp (SetTunnelUp b r) = b"
  by (simp_all add: SetTunnelUp_def close_raw_def TrackConn_def managed_Close_def SignalDemand_def drainDemand_def Let_def)

lemma mt_step_life:
  assumes "mt_step qt cc m m'" "mt_phase m \<noteq> MtDemand" "mt_events m' = mt_events m @ evs"
  shows "phase_life (mt_phase m) = Dialing \<or>
    concat (map callbacks evs) = [] \<and> (phase_life (mt_phase m') = Stopped \<or>
      phase_life (mt_phase m) = Waiting \<and> phase_life (mt_phase m') = Dialing)"
  using assms(1)
proof (cases rule: mt_step_events)
  case same
  with assms(3) show ?thesis by auto
qed (use assms in auto)

lemma life_callback:
  assumes "sys_inv s" "ts_queue s = x # q"
  shows "abs_life ((run_cb x s)\<lparr>ts_queue := q\<rparr>) = abs_life s \<or> life_step (abs_life s) (abs_life ((run_cb x s)\<lparr>ts_queue := q\<rparr>))"
proof -
  have inv: "conns_inv (ts_rt s)" using assms(1) by (simp add: sys_inv_def)
  have "session_point (x # q) (tunnelUp (ts_rt s))" using assms by (simp add: sys_inv_def)
  then show ?thesis
  proof (cases rule: session_point_Cons)
    case connected
    then have "q \<noteq> []" by auto
    with connected assms(2) show ?thesis by (simp add: abs_life_def life_open)
  next
    case drained
    then have "q \<noteq> []" by auto
    with drained assms(2) show ?thesis by (simp add: abs_life_def life_serve)
  next
    case ready
    then have "q \<noteq> []" by (auto simp: session_point_Nil)
    with ready assms(2) show ?thesis by (simp add: abs_life_def)
  next
    case lost
    with assms(2) show ?thesis by (simp add: abs_life_def life_lost)
  next
    case reset
    then show ?thesis using assms(2) ResetTrackedConns_facts(3) [OF inv]
      by (cases "mt_phase (ts_mt s)") (auto simp: abs_life_def intro: life_rest)
  qed
qed

lemma life_refines_step:
  assumes "sys_inv s" "sys_step qt cc s s'"
    "cc_OnConnected cc" "cc_OnDisconnected cc"
  shows "abs_life s' = abs_life s \<or> life_step (abs_life s) (abs_life s')"
  using assms(2)
proof (cases rule: sys_step.cases)
  case (sys_loop m evs)
  have down: "\<not> tunnelUp (ts_rt s)" using assms(1) sys_loop(2) by (simp add: sys_inv_def session_point_Nil)
  have "phase_life p \<noteq> Open" for p by (cases p) auto
  then have "life_step (Dialing, w) (phase_life p, w)" "life_step (phase_life p, w) (Stopped, w)" for p w
    by (simp_all add: life_rest life_stop)
  with mt_step_life [OF sys_loop(4,3,5)] down sys_loop(1,2) show ?thesis
    by (auto simp: abs_life_def intro: life_retry)
next
  case (sys_wake rt)
  then have "demand (ts_rt s)" "\<not> demand rt" by (auto simp: WaitForReconnectDemand_def split: if_splits)
  with sys_wake show ?thesis by (simp add: abs_life_def life_wake)
next
  case (sys_callback x q)
  with assms(1) show ?thesis by (simp add: life_callback)
next
  case (sys_check c)
  then show ?thesis by (simp add: abs_life_def)
next
  case (sys_refuse c)
  then show ?thesis by (simp add: abs_life_def life_want)
next
  case (sys_track c)
  then show ?thesis by (simp add: abs_life_def)
next
  case (sys_close k)
  then show ?thesis by (simp add: abs_life_def)
qed

lemma dormant_iff: "abs_life s = (Dormant, w) \<longleftrightarrow> ts_queue s = [] \<and> mt_phase (ts_mt s) = MtDemand \<and> demand (ts_rt s) = w"
  by (cases "mt_phase (ts_mt s)") (auto simp: abs_life_def)

text \<open>A tunnel that was established and lost, at the moment its callbacks begin and after the first.\<close>

definition sample_tunnel :: ConnectionConfig where
  "sample_tunnel = tunnel_config (sample_config\<lparr>Socks := GetDefaultSocksConfig\<rparr>) (UDPEndpoint ''162.159.198.1:443'')"

definition sample_served :: socksRuntime where
  "sample_served = new_runtime (\<lambda>_. None) \<lparr>sf_path = [], sf_files = Map.empty, sf_fail = (\<lambda>_. False)\<rparr> sample_config"

definition sample_lost :: "tunnel_sys" where
  "sample_lost = (startTunnel sample_served)\<lparr>ts_mt := attempt_step (\<lambda>_. []) sample_tunnel lost_attempt False 0 (ts_mt (startTunnel sample_served)),
     ts_queue := session_calls\<rparr>"

lemma sample_lost_reach: "sys_reach (\<lambda>_. []) sample_tunnel sample_served sample_lost"
proof -
  let ?s = "startTunnel sample_served"
  let ?m = "attempt_step (\<lambda>_. []) sample_tunnel lost_attempt False 0 (ts_mt ?s)"
  let ?evs = "[EvDial, EvOnConnected, EvReleased, EvOnDisconnected (Some ENetClosed)]"
  have m: "mt_step (\<lambda>_. []) sample_tunnel (ts_mt ?s) ?m"
    by (rule mt_try) (simp_all add: startTunnel_def mt_start_def ctx_ended_def lost_attempt_def)
  have "mt_events ?m = mt_events (ts_mt ?s) @ ?evs"
    by (simp add: attempt_step_def handleConnectionWithForwarding_def endpoint_error_def sample_tunnel_def tunnel_config_def
        lost_attempt_def startTunnel_def mt_start_def after_error_def enrichWithTunnelCloseCause_def GetDefaultSocksConfig_def Let_def)
  from sys_loop [OF _ _ m this] have "sys_step (\<lambda>_. []) sample_tunnel ?s sample_lost"
    by (simp add: sample_lost_def session_calls_def) (simp add: startTunnel_def mt_start_def)
  then show ?thesis by (rule sys_next [OF sys_init])
qed

lemma sample_lost_step: "sys_step (\<lambda>_. []) sample_tunnel sample_lost ((run_cb (CbOp (OpUp True)) sample_lost)\<lparr>ts_queue := drop 1 session_calls\<rparr>)"
  by (rule sys_callback) (simp add: sample_lost_def session_calls_def)

section \<open>Properties: the tunnel and its clients\<close>

text \<open>
  C17: the maintenance loop and the runtime together implement the life of a tunnel: every step of
  the loop, of its callbacks, of the accept loop and of the connections is a step of that life or
  invisible in it, and clients are let through exactly in its open state. In particular a tunnel
  that is asleep is dialled again only after somebody wanted it.
\<close>

theorem tunnel_life_refined:
  assumes "sys_reach qt (tunnel_config c ep) (new_runtime ce f cfg) s" "sys_step qt (tunnel_config c ep) s s'"
  shows "(abs_life s' = abs_life s \<or> life_step (abs_life s) (abs_life s')) \<and> (tunnelUp (ts_rt s) \<longleftrightarrow> fst (abs_life s) = Open)"
proof -
  note inv = sys_reach_inv [OF assms(1)]
  have "phase_life p \<noteq> Open" for p by (cases p) auto
  then have "tunnelUp (ts_rt s) \<longleftrightarrow> fst (abs_life s) = Open"
    using inv by (auto simp: abs_life_def sys_inv_def session_point_Nil)
  moreover have "abs_life s' = abs_life s \<or> life_step (abs_life s) (abs_life s')"
    by (rule life_refines_step [OF inv assms(2)]) (simp_all add: tunnel_config_def)
  ultimately show ?thesis by simp
qed

theorem tunnel_life_refined_witness:
  "life_step (abs_life sample_lost) (abs_life ((run_cb (CbOp (OpUp True)) sample_lost)\<lparr>ts_queue := drop 1 session_calls\<rparr>)) \<and>
   \<not> tunnelUp (ts_rt sample_lost)"
proof -
  have "abs_life ((run_cb (CbOp (OpUp True)) sample_lost)\<lparr>ts_queue := drop 1 session_calls\<rparr>) \<noteq> abs_life sample_lost"
    by (simp add: abs_life_def sample_lost_def session_calls_def startTunnel_def sample_served_def new_runtime_def
        newSocksRuntime_def SetVerboseLogging_def)
  then show ?thesis
    using tunnel_life_refined [OF sample_lost_reach [unfolded sample_tunnel_def sample_served_def]
        sample_lost_step [unfolded sample_tunnel_def]]
    by (auto simp: sample_lost_def startTunnel_def sample_served_def new_runtime_def newSocksRuntime_def SetVerboseLogging_def)
qed

text \<open>
  C19: a sleeping tunnel wakes for a client. While it is asleep nothing but the wake-up ends the sleep;
  a refused client is closed and leaves the wish, no step takes the wish away except the wake-up,
  and from then on the wake-up is possible at every moment.
\<close>

theorem tunnel_wakes_on_demand:
  assumes "abs_life s = (Dormant, w)"
  shows "(\<forall>s'. sys_step qt cc s s' \<longrightarrow> abs_life s' = (Dormant, w) \<or> abs_life s' = (Dormant, True) \<or> w \<and> abs_life s' = (Dialing, False)) \<and>
    (\<forall>k. ts_accept s = Refusing k \<longrightarrow>
       (\<exists>s'. sys_step qt cc s s' \<and> abs_life s' = (Dormant, True) \<and> rt_closes (ts_rt s') k = Suc (rt_closes (ts_rt s) k))) \<and>
    (w \<longrightarrow> (\<exists>s'. sys_step qt cc s s' \<and> abs_life s' = (Dialing, False)))"
proof (intro conjI allI impI)
  note d = assms [unfolded dormant_iff]
  fix s'
  assume "sys_step qt cc s s'"
  then show "abs_life s' = (Dormant, w) \<or> abs_life s' = (Dormant, True) \<or> w \<and> abs_life s' = (Dialing, False)"
  proof (cases rule: sys_step.cases)
    case (sys_wake rt)
    then have "w" "\<not> demand rt" using d by (auto simp: WaitForReconnectDemand_def split: if_splits)
    with sys_wake show ?thesis by (simp add: abs_life_def)
  qed (use d in \<open>auto simp: dormant_iff\<close>)
next
  fix k
  assume "ts_accept s = Refusing k"
  then have "sys_step qt cc s (s\<lparr>ts_rt := close_raw k (SignalDemand (ts_rt s)), ts_accept := Accepting\<rparr>)" (is "sys_step qt cc s ?s'")
    by (rule sys_refuse)
  moreover have "abs_life ?s' = (Dormant, True)" "rt_closes (ts_rt ?s') k = Suc (rt_closes (ts_rt s) k)"
    using assms by (simp_all add: dormant_iff) (simp add: close_raw_def SignalDemand_def)
  ultimately show "\<exists>s'. sys_step qt cc s s' \<and> abs_life s' = (Dormant, True) \<and>
      rt_closes (ts_rt s') k = Suc (rt_closes (ts_rt s) k)" by blast
next
  assume "w"
  note d = assms [unfolded dormant_iff]
  have t: "((ts_rt s)\<lparr>demand := False\<rparr>, None) \<in> set (WaitForReconnectDemand False (ts_rt s))"
    using d \<open>w\<close> by (simp add: WaitForReconnectDemand_def)
  from sys_wake [OF _ _ t, of qt cc] d show "\<exists>s'. sys_step qt cc s s' \<and> abs_life s' = (Dialing, False)"
    by (intro exI conjI) (auto simp: abs_life_def)
qed

theorem tunnel_wakes_on_demand_witness:
  "\<exists>s'. sys_step (\<lambda>_. []) sample_tunnel (sample_lost\<lparr>ts_queue := [], ts_rt := SignalDemand sample_served\<rparr>) s' \<and> abs_life s' = (Dialing, False)"
proof -
  have "mt_phase (ts_mt sample_lost) = MtDemand"
    by (simp add: sample_lost_def attempt_step_def handleConnectionWithForwarding_def endpoint_error_def sample_tunnel_def tunnel_config_def
        lost_attempt_def startTunnel_def mt_start_def after_error_def enrichWithTunnelCloseCause_def GetDefaultSocksConfig_def Let_def)
  then have "abs_life (sample_lost\<lparr>ts_queue := [], ts_rt := SignalDemand sample_served\<rparr>) = (Dormant, True)"
    by (simp add: dormant_iff)
  from tunnel_wakes_on_demand [OF this, of "\<lambda>_. []" sample_tunnel] show ?thesis by blast
qed

text \<open>
  C20: connections do not outlive the tunnel under them. Whatever the interleaving, once the callback of a
  lost tunnel has run, at most one client connection is tracked while the tunnel stays down, the one the
  accept loop had let through when it was lost; between sessions the gate is closed, the state
  file says what the gate is, and readiness is announced at most once and with the first session.
\<close>

theorem no_stranded_connections:
  assumes "sys_reach qt (tunnel_config c ep) (new_runtime ce f cfg) s"
  shows "(tunnelUp (ts_rt s) \<or> ts_queue s = [CbOp OpReset] \<or> length (activeConns (ts_rt s)) + admitting s \<le> 1) \<and>
    (ts_queue s = [] \<longrightarrow> \<not> tunnelUp (ts_rt s)) \<and> file_inv (ts_rt s) \<and> ts_ready s \<le> 1 \<and>
    (tunnelUp (ts_rt s) \<and> CbReady \<notin> set (ts_queue s) \<longrightarrow> ts_ready s = 1)"
  using sys_reach_inv [OF assms] by (auto simp: sys_inv_def session_point_Nil)

theorem no_stranded_connections_witness:
  "let s = (run_cb (CbOp (OpUp True)) sample_lost)\<lparr>ts_queue := drop 1 session_calls\<rparr> in tunnelUp (ts_rt s) \<and> ts_ready s \<le> 1"
proof -
  let ?s = "(run_cb (CbOp (OpUp True)) sample_lost)\<lparr>ts_queue := drop 1 session_calls\<rparr>"
  have "sys_reach (\<lambda>_. []) sample_tunnel sample_served ?s" by (rule sys_next [OF sample_lost_reach sample_lost_step])
  from no_stranded_connections [OF this [unfolded sample_tunnel_def sample_served_def]] show ?thesis
    by (simp add: Let_def)
qed

end
