(* ===== verification/Proxy_Run.thy ===== *)
theory Proxy_Run
  imports Serving Cloudflare_Api
begin

text \<open>
  Running the proxy: the setup of the tunnel modes and of the L4 mode (\<open>setupAndRunSocksProxy\<close> of
  \<open>src/cmd/proxy.go\<close>, \<open>setupAndRunL4Proxy\<close> of \<open>src/cmd/l4.go\<close>, \<open>startL3UDPTunnel\<close> of
  \<open>src/cmd/l3_udp_tunnel.go\<close>), the accept loop \<open>runSocksServer\<close> and the attributes of the line
  \<open>logProxyReady\<close> logs. Keys, certificates and the virtual device are arguments.
\<close>

section \<open>TLS and the virtual device\<close>

record ('k, 'p, 'c, 't) tls_env =
  te_GetEcPrivateKey :: "Config \<Rightarrow> (gerr, 'k) result"
  te_GetEcEndpointPublicKey :: "Config \<Rightarrow> (gerr, 'p) result"
  te_GenerateCert :: "'k \<Rightarrow> (gerr, 'c) result"
  te_PrepareTlsConfig :: "'k \<Rightarrow> 'p \<Rightarrow> 'c \<Rightarrow> string \<Rightarrow> (gerr, 't) result"
  te_CreateNetTUN :: "addr list \<Rightarrow> addr list \<Rightarrow> int \<Rightarrow> gerr option"
  te_text :: "gerr \<Rightarrow> string"

definition fail_text :: "('k, 'p, 'c, 't) tls_env \<Rightarrow> string \<Rightarrow> gerr \<Rightarrow> gerr" where
  "fail_text te what e = EText (''Failed to '' @ what @ '': '' @ te_text te e)"

definition tls_with_sni :: "('k, 'p, 'c, 't) tls_env \<Rightarrow> Config \<Rightarrow> string \<Rightarrow> (gerr, 't) result" where
  "tls_with_sni te cfg sni =
     bind_res (map_err (fail_text te ''get private key'') (te_GetEcPrivateKey te cfg)) (\<lambda>privKey.
     bind_res (map_err (fail_text te ''get public key'') (te_GetEcEndpointPublicKey te cfg)) (\<lambda>peerPubKey.
     bind_res (map_err (fail_text te ''generate cert'') (te_GenerateCert te privKey)) (\<lambda>cert.
       map_err (fail_text te ''prepare TLS config'') (te_PrepareTlsConfig te privKey peerPubKey cert sni))))"

definition prepareTlsConfig :: "('k, 'p, 'c, 't) tls_env \<Rightarrow> Config \<Rightarrow> (gerr, 't) result" where
  "prepareTlsConfig te cfg =
     tls_with_sni te cfg (if SNIAddress (Socks cfg) = [] then ConnectSNI else SNIAddress (Socks cfg))"

definition prepareL4TlsConfig :: "('k, 'p, 'c, 't) tls_env \<Rightarrow> Config \<Rightarrow> (gerr, 't) result" where
  "prepareL4TlsConfig te cfg = tls_with_sni te cfg L4ConnectSNI"

definition createTunDevice :: "('k, 'p, 'c, 't) tls_env \<Rightarrow> addr list \<Rightarrow> addr list \<Rightarrow> Config \<Rightarrow> gerr option" where
  "createTunDevice te localAddresses dnsServers cfg =
     map_option (fail_text te ''create virtual TUN device'') (te_CreateNetTUN te localAddresses dnsServers (MTU (Socks cfg)))"

section \<open>The ready line\<close>

record proxyReadyInfo =
  ri_endpoint :: "net_addr option"
  ri_useHTTP2 :: bool
  ri_transport :: string
  ri_connectionTimeout :: duration
  ri_overrides :: "string list"
  ri_configSaved :: bool
  ri_socksOnly :: bool
  ri_meta :: socksRuntimeMeta

datatype attr = AString string | ADuration duration | AInt int | ABool bool

definition proxyTransportLabel :: "bool \<Rightarrow> string" where
  "proxyTransportLabel useHTTP2 = (if useHTTP2 then ''http2'' else ''http3'')"

definition resolvedTransportLabel :: "proxyReadyInfo \<Rightarrow> string" where
  "resolvedTransportLabel info = (if ri_transport info \<noteq> [] then ri_transport info else proxyTransportLabel (ri_useHTTP2 info))"

fun net_addr_string :: "net_addr \<Rightarrow> string" where
  "net_addr_string (UDPAddrOf i p) = JoinHostPort (IPString i) (Itoa p)"
| "net_addr_string (TCPAddrOf i p) = JoinHostPort (IPString i) (Itoa p)"

definition selectedProxyEndpoint :: "net_addr option \<Rightarrow> string" where
  "selectedProxyEndpoint endpoint = (case endpoint of Some a \<Rightarrow> net_addr_string a | None \<Rightarrow> [])"

definition logProxyReady :: "string \<Rightarrow> duration \<Rightarrow> proxyReadyInfo \<Rightarrow> (string \<times> attr) list" where
  "logProxyReady listenerAddr idleTimeout info =
     (let m = ri_meta info in
      [(''addr'', AString listenerAddr), (''connect_timeout'', ADuration (ri_connectionTimeout info)),
       (''idle_timeout'', ADuration idleTimeout)] @
      (if ri_socksOnly info then [(''mode'', AString ''socks''), (''dns'', AString (sm_dnsMode m))]
       else [(''endpoint'', AString (selectedProxyEndpoint (ri_endpoint info))),
             (''transport'', AString (resolvedTransportLabel info)), (''dns'', AString (sm_dnsMode m)), (''tunnel'', AString ''up'')]) @
      (if sm_blockUDP443 m then [(''block_udp_443'', ABool True)] else []) @
      (if sm_udpMode m \<noteq> [] then [(''l4_udp'', AString (sm_udpMode m))] else []) @
      (if sm_bypassDomains m > 0 then [(''bypass_domains'', AInt (sm_bypassDomains m))] else []) @
      (if sm_proxyTCPPorts m > 0 then [(''proxy_tcp_ports'', AInt (sm_proxyTCPPorts m))] else []) @
      (if ri_overrides info \<noteq> [] then [(''overrides'', AString (join_with '','' (ri_overrides info)))] else []) @
      (if ri_configSaved info then [(''config_saved'', ABool True)] else []))"

section \<open>Setting the proxy up\<close>

fun tunnel_endpoint :: "net_addr \<Rightarrow> endpoint" where
  "tunnel_endpoint (UDPAddrOf i p) = UDPEndpoint (net_addr_string (UDPAddrOf i p))"
| "tunnel_endpoint (TCPAddrOf i p) = TCPEndpoint (net_addr_string (TCPAddrOf i p))"

text \<open>What the setup has ready when it starts the tunnel and the server.\<close>

record 't proxy_plan =
  pp_tls :: 't
  pp_tunnel :: "ConnectionConfig option"
  pp_pool :: "L4Pool option"
  pp_udpTunnel :: "(l3UDPTunnel \<times> ConnectionConfig) option"
  pp_setup :: socks_setup
  pp_idle :: duration
  pp_ready :: proxyReadyInfo

definition startL3UDPTunnel :: "('k, 'p, 'c, 't) tls_env \<Rightarrow> Config \<Rightarrow> duration \<Rightarrow> (gerr, l3UDPTunnel \<times> ConnectionConfig) result" where
  "startL3UDPTunnel te cfg idleTimeout =
     bind_res (prepareTlsConfig te cfg) (\<lambda>tls.
     bind_res (prepareNetworkConfig cfg) (\<lambda>(endpoint, localAddresses, dnsServers).
       case endpoint of
         TCPAddrOf _ _ \<Rightarrow> Inl (EText ''l4_udp=tunnel requires a UDP endpoint, got *net.TCPAddr'')
       | UDPAddrOf _ _ \<Rightarrow>
           (case createTunDevice te localAddresses dnsServers cfg of
              Some e \<Rightarrow> Inl e
            | None \<Rightarrow> Inr (new_l3UDPTunnel idleTimeout, udp_leg_config cfg (tunnel_endpoint endpoint)))))"

definition setup_l4 :: "('k, 'p, 'c, 't) tls_env \<Rightarrow> (nat \<Rightarrow> gerr option) \<Rightarrow> state_file \<Rightarrow> l4_env \<Rightarrow> Config \<Rightarrow> string list \<Rightarrow> bool
    \<Rightarrow> (gerr, 't proxy_plan) result" where
  "setup_l4 te close_err file l4env cfg overrides configSaved =
     (if HTTP2 (Socks cfg) then Inl (EText ''l4 mode cannot be combined with http2: L4 requires QUIC/HTTP3'')
      else
        bind_res (prepareL4TlsConfig te cfg) (\<lambda>tls.
        bind_res (selectL4Endpoint cfg) (\<lambda>endpoint.
        let (connectionTimeout, idleTimeout) = getL4TimeoutSettings cfg;
            udp = (case endpoint of UDPAddrOf i p \<Rightarrow> \<lparr>ua_IP = i, ua_Port = p\<rparr> | TCPAddrOf i p \<Rightarrow> \<lparr>ua_IP = i, ua_Port = p\<rparr>)
        in bind_res (map_err (\<lambda>e. EWrap ''failed to create L4 proxy: '' e [])
             (NewL4Pool \<lparr>l4c_TLSConfig = True, l4c_Endpoint = Some udp, l4c_ConnectTimeout = connectionTimeout, l4c_Label = []\<rparr>
                (L4PoolSize (Socks cfg)))) (\<lambda>l4Pool.
           bind_res (if L4UDP (Socks cfg) = L4UDPTunnel then
                       bind_res (map_err (\<lambda>e. EWrap ''failed to start L3 UDP tunnel for mix mode: '' e [])
                         (startL3UDPTunnel te cfg idleTimeout)) (\<lambda>t. Inr (Some t))
                     else Inr None) (\<lambda>udpTunnel.
           bind_res (prepareL4SocksRuntime (te_text te) close_err file cfg (map_option fst udpTunnel) idleTimeout) (\<lambda>su.
             Inr \<lparr>pp_tls = tls, pp_tunnel = None, pp_pool = Some (fst (pool_Connect l4env l4Pool)), pp_udpTunnel = udpTunnel,
                  pp_setup = su\<lparr>ss_rt := SetTunnelUp True (ss_rt su)\<rparr>, pp_idle = idleTimeout,
                  pp_ready = \<lparr>ri_endpoint = Some endpoint, ri_useHTTP2 = False, ri_transport = ''l4'',
                    ri_connectionTimeout = connectionTimeout, ri_overrides = overrides, ri_configSaved = configSaved,
                    ri_socksOnly = False, ri_meta = ss_meta su\<rparr>\<rparr>))))))"

definition setupAndRunSocksProxy :: "('k, 'p, 'c, 't) tls_env \<Rightarrow> (nat \<Rightarrow> gerr option) \<Rightarrow> state_file \<Rightarrow> l4_env \<Rightarrow> Config
    \<Rightarrow> string list \<Rightarrow> bool \<Rightarrow> (gerr, 't proxy_plan) result" where
  "setupAndRunSocksProxy te close_err file l4env cfg overrides configSaved =
     (if L4 (Socks cfg) then setup_l4 te close_err file l4env cfg overrides configSaved
      else
        bind_res (prepareTlsConfig te cfg) (\<lambda>tls.
        bind_res (prepareNetworkConfig cfg) (\<lambda>(endpoint, localAddresses, dnsServers).
        let (connectionTimeout, idleTimeout) = getTimeoutSettings cfg in
        case createTunDevice te localAddresses dnsServers cfg of
          Some e \<Rightarrow> Inl e
        | None \<Rightarrow>
            bind_res (prepareSocksRuntime (te_text te) close_err file cfg idleTimeout) (\<lambda>su.
              Inr \<lparr>pp_tls = tls, pp_tunnel = Some (tunnel_config cfg (tunnel_endpoint endpoint)), pp_pool = None, pp_udpTunnel = None,
                   pp_setup = su, pp_idle = idleTimeout,
                   pp_ready = \<lparr>ri_endpoint = Some endpoint, ri_useHTTP2 = HTTP2 (Socks cfg), ri_transport = [],
                     ri_connectionTimeout = connectionTimeout, ri_overrides = overrides, ri_configSaved = configSaved,
                     ri_socksOnly = False, ri_meta = ss_meta su\<rparr>\<rparr>))))"

section \<open>The accept loop\<close>

text \<open>
  \<open>al_sleeps\<close>: the pauses made so far; \<open>al_serving\<close>: the tracked wrappers given to the server, with the
  numbers of their connections. A runtime has its server from the start; \<open>has_server\<close> is the test the
  loop makes all the same.
\<close>

record accept_loop =
  al_rt :: socksRuntime
  al_backoff :: duration
  al_seq :: nat
  al_sleeps :: "duration list"
  al_serving :: "(nat \<times> nat) list"

datatype accept_ev = AcConn nat | AcErr gerr

definition accept_start :: "socksRuntime \<Rightarrow> accept_loop" where
  "accept_start rt = \<lparr>al_rt = rt, al_backoff = 5 * Millisecond, al_seq = 0, al_sleeps = [], al_serving = []\<rparr>"

text \<open>One turn of the loop; \<open>True\<close>: the loop returns.\<close>

fun accept_turn :: "bool \<Rightarrow> accept_ev \<Rightarrow> accept_loop \<Rightarrow> accept_loop \<times> bool" where
  "accept_turn has_server (AcErr e) l =
     (if errors_Is e ENetClosed then (l, True)
      else (l\<lparr>al_sleeps := al_sleeps l @ [al_backoff l],
              al_backoff := (if al_backoff l < 1 * Second then al_backoff l * 2 else al_backoff l)\<rparr>, False))"
| "accept_turn has_server (AcConn c) l =
     (let l1 = l\<lparr>al_backoff := 5 * Millisecond, al_seq := Suc (al_seq l)\<rparr> in
      case DropIfDisconnected c (al_rt l1) of
        (r, True) \<Rightarrow> (l1\<lparr>al_rt := r\<rparr>, False)
      | (r, False) \<Rightarrow>
          (case TrackConn c r of
             (r1, m) \<Rightarrow>
               if \<not> has_server then (l1\<lparr>al_rt := fst (managed_Close m r1)\<rparr>, False)
               else (l1\<lparr>al_rt := r1, al_serving := al_serving l1 @ [(m, al_seq l1)]\<rparr>, False)))"

text \<open>Between two turns the other goroutines change the runtime.\<close>

fun accept_run :: "bool \<Rightarrow> (accept_ev \<times> rt_op list) list \<Rightarrow> accept_loop \<Rightarrow> accept_loop \<times> bool" where
  "accept_run hs [] l = (l, False)"
| "accept_run hs ((ev, ops) # evs) l =
     (case accept_turn hs ev (l\<lparr>al_rt := fold rt_exec ops (al_rt l)\<rparr>) of
        (l', True) \<Rightarrow> (l', True)
      | (l', False) \<Rightarrow> accept_run hs evs l')"

text \<open>The error is that of the listener; the deferred call marks the tunnel down when the loop returns.\<close>

definition runSocksServer :: "(gerr \<Rightarrow> string) \<Rightarrow> (string \<Rightarrow> gerr option) \<Rightarrow> Config \<Rightarrow> (accept_ev \<times> rt_op list) list \<Rightarrow> socksRuntime
    \<Rightarrow> (gerr, accept_loop \<times> bool) result" where
  "runSocksServer txt listen cfg evs rt =
     (case listen (JoinHostPort (BindAddress (Socks cfg)) (Port (Socks cfg))) of
        Some e \<Rightarrow> Inl (EText (''Failed to start SOCKS proxy: '' @ txt e))
      | None \<Rightarrow>
          (case accept_run True evs (accept_start rt) of
             (l, True) \<Rightarrow> Inr (l\<lparr>al_rt := SetTunnelUp False (al_rt l)\<rparr>, True)
           | (l, False) \<Rightarrow> Inr (l, False)))"

section \<open>Lemmas\<close>

definition backoff_steps :: "duration list" where
  "backoff_steps = map (\<lambda>k. 5 * Millisecond * 2 ^ k) [0..<9]"

lemma backoff_steps_eq:
  "backoff_steps = [5000000, 10000000, 20000000, 40000000, 80000000, 160000000, 320000000, 640000000, 1280000000]"
  by (simp add: backoff_steps_def upt_rec)

lemma next_backoff: "b \<in> set backoff_steps \<Longrightarrow> (if b < 1 * Second then b * 2 else b) \<in> set backoff_steps"
  by (auto simp: backoff_steps_eq)

definition accept_inv :: "accept_loop \<Rightarrow> bool" where
  "accept_inv l =
     (al_backoff l \<in> set backoff_steps \<and> set (al_sleeps l) \<subseteq> set backoff_steps \<and>
      sorted (map snd (al_serving l)) \<and> distinct (map snd (al_serving l)) \<and> (\<forall>n \<in> set (map snd (al_serving l)). n \<le> al_seq l))"

lemma accept_turn_inv: "accept_inv l \<Longrightarrow> accept_inv (fst (accept_turn hs ev l))"
proof (cases ev)
  case (AcErr e)
  then show "accept_inv l \<Longrightarrow> accept_inv (fst (accept_turn hs ev l))"
    using next_backoff [of "al_backoff l"] by (auto simp: accept_inv_def)
next
  case (AcConn c)
  have "5 * Millisecond \<in> set backoff_steps" by (simp add: backoff_steps_eq)
  moreover have "Suc n \<notin> set xs" "\<forall>x \<in> set xs. x \<le> Suc n" if "\<forall>x \<in> set xs. x \<le> n" for xs :: "nat list" and n
    using that by (auto simp: le_SucI)
  ultimately show "accept_inv l \<Longrightarrow> accept_inv (fst (accept_turn hs ev l))"
    using AcConn by (auto simp: accept_inv_def sorted_append le_SucI Let_def split: prod.splits bool.splits)
qed

lemma accept_run_inv: "accept_inv l \<Longrightarrow> accept_inv (fst (accept_run hs evs l))"
proof (induction hs evs l rule: accept_run.induct)
  case (2 hs ev ops evs l)
  have "accept_inv (l\<lparr>al_rt := fold rt_exec ops (al_rt l)\<rparr>)" using "2.prems" by (simp add: accept_inv_def)
  from accept_turn_inv [OF this, of hs ev] "2.IH" show ?case by (auto split: prod.splits bool.splits)
qed simp

lemma backoff_range: "d \<in> set backoff_steps \<Longrightarrow> 5 * Millisecond \<le> d \<and> d \<le> 1280 * Millisecond"
  by (auto simp: backoff_steps_eq)

definition accept_pause :: "nat \<Rightarrow> duration" where
  "accept_pause k = 5 * Millisecond * 2 ^ min k 8"

lemma accept_pause_next: "(if accept_pause k < 1 * Second then accept_pause k * 2 else accept_pause k) = accept_pause (Suc k)"
proof (cases "k < 8")
  case True
  then have "k \<in> {0, 1, 2, 3, 4, 5, 6, 7}" by auto
  then show ?thesis by (auto simp: accept_pause_def min_def)
next
  case False
  then show ?thesis by (simp add: accept_pause_def min_def)
qed

lemma accept_errors:
  assumes "\<not> errors_Is e ENetClosed" "al_backoff l = accept_pause k"
  shows "al_sleeps (fst (accept_run hs (replicate n (AcErr e, [])) l)) = al_sleeps l @ map accept_pause [k..<k + n]"
  using assms(2)
proof (induction n arbitrary: k l)
  case (Suc n)
  let ?l = "l\<lparr>al_sleeps := al_sleeps l @ [al_backoff l], al_backoff := (if al_backoff l < 1 * Second then al_backoff l * 2 else al_backoff l)\<rparr>"
  have "al_backoff ?l = accept_pause (Suc k)" using accept_pause_next [of k] Suc.prems by (simp split: if_splits)
  moreover have "[k..<k + Suc n] = k # [Suc k..<Suc k + n]" by (simp add: upt_rec)
  ultimately show ?case using assms(1) Suc.prems Suc.IH [of ?l "Suc k"] by (simp del: upt_Suc)
qed simp

fun closes_listener :: "accept_ev \<times> rt_op list \<Rightarrow> bool" where
  "closes_listener (AcErr e, _) = errors_Is e ENetClosed"
| "closes_listener (AcConn _, _) = False"

lemma accept_turn_ends: "snd (accept_turn hs ev l) = closes_listener (ev, ops)"
  by (cases ev) (auto simp: Let_def split: prod.splits bool.splits)

lemma accept_run_ends: "snd (accept_run hs evs l) = list_ex closes_listener evs"
proof (induction hs evs l rule: accept_run.induct)
  case (2 hs ev ops evs l)
  with accept_turn_ends [of hs ev "l\<lparr>al_rt := fold rt_exec ops (al_rt l)\<rparr>" ops] show ?case
    by (auto split: prod.splits bool.splits)
qed simp

lemma prepareNetworkConfig_endpoint:
  assumes "prepareNetworkConfig cfg = Inr (endpoint, las, ds)"
  shows "\<exists>i p. endpoint = (if HTTP2 (Socks cfg) then TCPAddrOf i p else UDPAddrOf i p)"
  using assms
  by (auto simp: prepareNetworkConfig_def selectMasqueEndpoint_def tcpAddrFromHost_def udpAddrFromHost_def bind_res_eq_Inr map_err_eq_Inr
      Let_def split: if_splits)

lemma startL3UDPTunnel_endpoint:
  assumes "startL3UDPTunnel te cfg idl = Inr (t, cc)"
  shows "\<exists>i p. cc = udp_leg_config cfg (tunnel_endpoint (UDPAddrOf i p)) \<and> t = new_l3UDPTunnel idl"
proof -
  obtain ep las ds where "(case ep of TCPAddrOf _ _ \<Rightarrow> Inl (EText ''l4_udp=tunnel requires a UDP endpoint, got *net.TCPAddr'')
       | UDPAddrOf _ _ \<Rightarrow> (case createTunDevice te las ds cfg of Some e \<Rightarrow> Inl e
          | None \<Rightarrow> Inr (new_l3UDPTunnel idl, udp_leg_config cfg (tunnel_endpoint ep)))) = Inr (t, cc)"
    using assms by (auto simp: startL3UDPTunnel_def bind_res_eq_Inr)
  then show ?thesis by (cases ep) (auto split: option.splits)
qed

lemma setup_l4_parts:
  assumes "setup_l4 te ce file l4env cfg overrides saved = Inr plan"
  shows "\<not> HTTP2 (Socks cfg) \<and> pp_tunnel plan = None"
    "\<exists>l4c n p. NewL4Pool l4c n = Inr p \<and> pp_pool plan = Some (fst (pool_Connect l4env p))"
    "if L4UDP (Socks cfg) = L4UDPTunnel then \<exists>t i. startL3UDPTunnel te cfg i = Inr t \<and> pp_udpTunnel plan = Some t
     else pp_udpTunnel plan = None"
proof -
  obtain ct it where t: "getL4TimeoutSettings cfg = (ct, it)" by (cases "getL4TimeoutSettings cfg")
  note unfold = assms [unfolded setup_l4_def t Let_def, simplified bind_res_eq_Inr map_err_eq_Inr]
  show "\<not> HTTP2 (Socks cfg) \<and> pp_tunnel plan = None"
    using unfold by (auto simp: bind_res_eq_Inr map_err_eq_Inr split: if_splits)
  show "\<exists>l4c n p. NewL4Pool l4c n = Inr p \<and> pp_pool plan = Some (fst (pool_Connect l4env p))"
    using unfold by (auto simp: bind_res_eq_Inr map_err_eq_Inr split: if_splits) blast+
  show "if L4UDP (Socks cfg) = L4UDPTunnel then \<exists>t i. startL3UDPTunnel te cfg i = Inr t \<and> pp_udpTunnel plan = Some t
     else pp_udpTunnel plan = None"
    using unfold by (auto simp: bind_res_eq_Inr map_err_eq_Inr split: if_splits)
qed

lemma default_policy: "\<exists>policy. newRoutePolicy (BypassDomain GetDefaultSocksConfig) (ProxyTCPPort GetDefaultSocksConfig) = Inr policy"
proof -
  have "ProxyTCPPort GetDefaultSocksConfig = Some []" by (simp add: GetDefaultSocksConfig_def)
  then show ?thesis
    by (simp add: newRoutePolicy_def NormalizeSocksConfig_eq zeroSocksConfig_def normalizeProxyTCPPorts_ok normalizeL4UDP_def
        TrimSpace_def Let_def)
qed

definition sample_tls :: "(unit, unit, unit, string) tls_env" where
  "sample_tls = \<lparr>te_GetEcPrivateKey = (\<lambda>_. Inr ()), te_GetEcEndpointPublicKey = (\<lambda>_. Inr ()), te_GenerateCert = (\<lambda>_. Inr ()),
     te_PrepareTlsConfig = (\<lambda>_ _ _ sni. Inr sni), te_CreateNetTUN = (\<lambda>_ _ _. None), te_text = (\<lambda>_. [])\<rparr>"

definition plain_config :: Config where
  "plain_config = sample_config\<lparr>PrivateKey := ''AQID'', EndpointV4 := ''162.159.198.1'', Socks := GetDefaultSocksConfig\<lparr>NoTunnelIPv4 := True, NoTunnelIPv6 := True, DNS := Some [''1.1.1.1'']\<rparr>\<rparr>"

lemma plain_setup_of:
  assumes "prepareTlsConfig te plain_config = Inr tls" "\<And>las ds. createTunDevice te las ds plain_config = None"
  shows "\<exists>plan. setupAndRunSocksProxy te ce file l4env plain_config os sv = Inr plan"
proof -
  have a: "ParseAddr ''1.1.1.1'' = Inr (Addr4 [1, 1, 1, 1])" by code_simp
  have n: "normalizeDNSServerAddress ''1.1.1.1'' = Inr ''1.1.1.1:53''" by code_simp
  have h: "string4 [162, 159, 198, 1] = ''162.159.198.1''" by code_simp
  have e: "parseEndpointHost ''162.159.198.1'' = Inr ''162.159.198.1''" by code_simp
  have "ParseIP ''162.159.198.1'' = Some (v4_in_v6_prefix @ [162, 159, 198, 1])"
    using ParseIP_string4 [of "[162, 159, 198, 1]"] by (simp add: h)
  then have net: "\<exists>ep. prepareNetworkConfig plain_config = Inr (ep, [], [Addr4 [1, 1, 1, 1]])"
    using a e by (simp add: prepareNetworkConfig_def selectMasqueEndpoint_def udpAddrFromHost_def endpoint_ip_def To4_def parse_addrs_def
        plain_config_def GetDefaultSocksConfig_def slice_def Let_def)
  obtain policy where p: "newRoutePolicy (BypassDomain GetDefaultSocksConfig) (ProxyTCPPort GetDefaultSocksConfig) = Inr policy"
    using default_policy by blast
  obtain ct it where t: "getTimeoutSettings plain_config = (ct, it)" by (cases "getTimeoutSettings plain_config")
  have "\<not> RemoteDNS GetDefaultSocksConfig" by (simp add: GetDefaultSocksConfig_def)
  then obtain su where "prepareSocksRuntime (te_text te) ce file plain_config it = Inr su"
    using a n p by (simp add: prepareSocksRuntime_def choose_dns_def newLocalDNSResolver_def plain_config_def slice_def Let_def)
  moreover have "\<not> L4 (Socks plain_config)" by (simp add: plain_config_def GetDefaultSocksConfig_def)
  ultimately show ?thesis using net t assms by (auto simp: setupAndRunSocksProxy_def)
qed

lemma plain_setup: "\<exists>plan. setupAndRunSocksProxy sample_tls ce file l4env plain_config os sv = Inr plan"
proof (rule plain_setup_of)
  show "prepareTlsConfig sample_tls plain_config = Inr (if SNIAddress (Socks plain_config) = [] then ConnectSNI else SNIAddress (Socks plain_config))"
    by (simp add: prepareTlsConfig_def tls_with_sni_def sample_tls_def)
qed (simp add: createTunDevice_def sample_tls_def)

section \<open>Properties\<close>

text \<open>
  C27: the tunnel is only ever set up for a transport its endpoint fits: a setup that succeeds hands the maintenance
  loop a configuration whose endpoint check passes, in the L4 mode a pool of one to three
  connections instead, and the lazy UDP leg exactly when datagrams are to be tunnelled; the L4 mode
  with HTTP/2 is refused.
\<close>

theorem setup_fits_transport:
  assumes "setupAndRunSocksProxy te ce file l4env cfg overrides saved = Inr plan"
  shows "(\<forall>cc. pp_tunnel plan = Some cc \<longrightarrow> endpoint_error cc = None) \<and>
    (\<forall>t cc. pp_udpTunnel plan = Some (t, cc) \<longrightarrow> endpoint_error cc = None \<and> \<not> cc_AlwaysReconnect cc \<and> \<not> ut_up t) \<and>
    (\<forall>p. pp_pool plan = Some p \<longrightarrow> 1 \<le> length (shards p) \<and> length (shards p) \<le> 3) \<and>
    (pp_tunnel plan = None \<longleftrightarrow> L4 (Socks cfg)) \<and> (pp_pool plan \<noteq> None \<longleftrightarrow> L4 (Socks cfg)) \<and>
    (pp_udpTunnel plan \<noteq> None \<longleftrightarrow> L4 (Socks cfg) \<and> L4UDP (Socks cfg) = L4UDPTunnel) \<and>
    \<not> (L4 (Socks cfg) \<and> HTTP2 (Socks cfg))"
proof (cases "L4 (Socks cfg)")
  case False
  obtain ct it where "getTimeoutSettings cfg = (ct, it)" by (cases "getTimeoutSettings cfg")
  with False obtain endpoint las ds where "prepareNetworkConfig cfg = Inr (endpoint, las, ds)"
      "pp_tunnel plan = Some (tunnel_config cfg (tunnel_endpoint endpoint))" "pp_pool plan = None" "pp_udpTunnel plan = None"
    using assms by (auto simp: setupAndRunSocksProxy_def bind_res_eq_Inr Let_def split: option.splits)
  with prepareNetworkConfig_endpoint [OF this(1)] False show ?thesis
    by (auto simp: tunnel_config_def endpoint_error_def split: if_splits)
next
  case True
  with assms have "setup_l4 te ce file l4env cfg overrides saved = Inr plan" by (simp add: setupAndRunSocksProxy_def)
  note h = setup_l4_parts [OF this]
  obtain l4c n p where p: "NewL4Pool l4c n = Inr p" "pp_pool plan = Some (fst (pool_Connect l4env p))" using h(2) by blast
  have "length (shards (fst (pool_Connect l4env p))) = nat (clamp_size n)"
    using NewL4Pool_size [OF p(1)] by (simp add: pool_Connect_def Let_def split: prod.splits)
  then have "1 \<le> length (shards (fst (pool_Connect l4env p)))" "length (shards (fst (pool_Connect l4env p))) \<le> 3"
    using clamp_size_range [of n] by (auto simp: maxL4PoolShards_def)
  moreover have "endpoint_error cc = None \<and> \<not> cc_AlwaysReconnect cc \<and> \<not> ut_up t"
    if "startL3UDPTunnel te cfg i = Inr (t, cc)" for i t cc
    using startL3UDPTunnel_endpoint [OF that]
    by (auto simp: udp_leg_config_def endpoint_error_def new_l3UDPTunnel_def)
  ultimately show ?thesis using True h(1,3) p(2) by (auto split: if_splits)
qed

theorem setup_fits_transport_witness:
  "\<exists>plan cc. setupAndRunSocksProxy sample_tls (\<lambda>_. None) \<lparr>sf_path = [], sf_files = Map.empty, sf_fail = (\<lambda>_. False)\<rparr> ok_env plain_config [] False =
     Inr plan \<and> pp_tunnel plan = Some cc \<and> endpoint_error cc = None"
proof -
  let ?file = "\<lparr>sf_path = [], sf_files = Map.empty, sf_fail = (\<lambda>_. False)\<rparr>"
  obtain plan where p: "setupAndRunSocksProxy sample_tls (\<lambda>_. None) ?file ok_env plain_config [] False = Inr plan"
    using plain_setup by blast
  have "\<not> L4 (Socks plain_config)" by (simp add: plain_config_def GetDefaultSocksConfig_def)
  with setup_fits_transport [OF p] obtain cc where "pp_tunnel plan = Some cc" "endpoint_error cc = None" by auto
  with p show ?thesis by blast
qed

text \<open>
  the accept loop keeps its pace: after the \<open>k\<close>-th failure in a row it pauses \<open>5 * 2 ^ k\<close> milliseconds and
  from the ninth on 1280, in any run no pause is shorter than 5 or longer than 1280
  milliseconds, and the connections it serves have increasing, distinct numbers.
\<close>

theorem accept_loop_paced:
  assumes "\<not> errors_Is e ENetClosed"
  shows "al_sleeps (fst (accept_run hs (replicate n (AcErr e, [])) (accept_start rt))) =
      map (\<lambda>k. 5 * Millisecond * 2 ^ min k 8) [0..<n] \<and>
    (\<forall>evs. let l = fst (accept_run hs evs (accept_start rt)) in
       (\<forall>d \<in> set (al_sleeps l). 5 * Millisecond \<le> d \<and> d \<le> 1280 * Millisecond) \<and> sorted (map snd (al_serving l)) \<and>
       distinct (map snd (al_serving l)))"
proof -
  have "accept_inv (accept_start rt)" by (simp add: accept_inv_def accept_start_def backoff_steps_eq)
  then have "accept_inv (fst (accept_run hs evs (accept_start rt)))" for evs by (rule accept_run_inv)
  then have "(\<forall>d \<in> set (al_sleeps l). 5 * Millisecond \<le> d \<and> d \<le> 1280 * Millisecond) \<and> sorted (map snd (al_serving l)) \<and>
      distinct (map snd (al_serving l))" if "l = fst (accept_run hs evs (accept_start rt))" for evs l
    using that backoff_range unfolding accept_inv_def by (meson subsetD)
  moreover have "al_sleeps (fst (accept_run hs (replicate n (AcErr e, [])) (accept_start rt))) =
      map (\<lambda>k. 5 * Millisecond * 2 ^ min k 8) [0..<n]"
    using accept_errors [OF assms, of "accept_start rt" 0 hs n]
    by (simp add: accept_start_def accept_pause_def [abs_def])
  ultimately show ?thesis by (simp add: Let_def)
qed

theorem accept_loop_paced_witness:
  "al_sleeps (fst (accept_run True (replicate 3 (AcErr ECanceled, [])) (accept_start sample_served))) = [5000000, 10000000, 20000000]"
  using accept_loop_paced [of ECanceled True 3 sample_served] by (simp add: upt_rec min_def)

text \<open>
  the server serves until its listener is closed, and then it returns: it ends exactly when an accept
  reports the closed listener, however many other errors come before, and when it has ended
  the tunnel is marked down.
\<close>

theorem server_runs_until_closed:
  assumes "listen (JoinHostPort (BindAddress (Socks cfg)) (Port (Socks cfg))) = None"
  shows "\<exists>l fin. runSocksServer txt listen cfg evs rt = Inr (l, fin) \<and> (fin \<longleftrightarrow> list_ex closes_listener evs) \<and>
    (fin \<longrightarrow> \<not> tunnelUp (al_rt l))"
  using assms accept_run_ends [of True evs "accept_start rt"]
  by (auto simp: runSocksServer_def split: prod.splits bool.splits)

theorem server_runs_until_closed_witness:
  "\<exists>l. runSocksServer (\<lambda>_. []) (\<lambda>_. None) sample_config [(AcErr ECanceled, []), (AcConn 1, [OpUp True]), (AcErr ENetClosed, [])] sample_served
     = Inr (l, True) \<and> \<not> tunnelUp (al_rt l)"
proof -
  have "list_ex closes_listener [(AcErr ECanceled, []), (AcConn 1, [OpUp True]), (AcErr ENetClosed, [])]" by simp
  then show ?thesis
    using server_runs_until_closed [of "\<lambda>_. None" sample_config "\<lambda>_. []" "[(AcErr ECanceled, []), (AcConn 1, [OpUp True]), (AcErr ENetClosed, [])]"
        sample_served] by auto
qed

end
