(* ===== verification/Wg_Run.thy ===== *)
theory Wg_Run
  imports Commands Proxy_Run
begin

text \<open>
  Serving over WireGuard, steps 4 to 7 of \<open>runWireGuardTransport\<close> in \<open>src/cmd/wg_transport.go\<close>: the
  virtual device, the WireGuard device, the runtime, the watchdog beside the server, and the
  calls deferred on the way. What happens while the server runs is the sequence of the
  watchdog's ticks; the device afterwards is an argument.
\<close>

record wg_served =
  wv_rt :: socksRuntime
  wv_meta :: socksRuntimeMeta
  wv_ready :: proxyReadyInfo
  wv_sup :: supervisor_state

text \<open>\<open>wv_rt\<close> is the runtime when the function returns, \<open>wv_sup\<close> the watchdog when it is stopped.\<close>

definition serve_wireguard ::
  "'s http \<Rightarrow> udp_resolver \<Rightarrow> ('k, 'p, 'c, 't) tls_env \<Rightarrow> 'd wg_device \<Rightarrow> (nat \<Rightarrow> gerr option) \<Rightarrow> state_file \<Rightarrow> Config \<Rightarrow> WGAccount
    \<Rightarrow> string list \<Rightarrow> wgTransportParams \<Rightarrow> wg_plan \<Rightarrow> int \<Rightarrow> (int \<times> ('s \<times> 'd) \<times> rt_op list) list \<Rightarrow> 'd \<Rightarrow> 'd \<Rightarrow> 'd
    \<Rightarrow> 'd \<times> (gerr, wg_served) result" where
  "serve_wireguard h resolve te dev close_err file cfg account overrides params plan now ticks d d_shake d_end =
     (case te_CreateNetTUN te (pl_addrs plan) (pl_dns plan) (pl_mtu plan) of
        Some e \<Rightarrow> (d, Inl (EWrap ''create virtual TUN device: '' e []))
      | None \<Rightarrow>
          (case StartWireGuardTunnel dev (pl_uapi plan) d of
             (d1, Some e) \<Rightarrow> (d1, Inl e)
           | (d1, None) \<Rightarrow>
               let (connectionTimeout, idleTimeout) = getTimeoutSettings cfg in
               (case prepareSocksRuntime (te_text te) close_err file cfg idleTimeout of
                  Inl e \<Rightarrow> (dv_Close dev d_shake, Inl e)
                | Inr su \<Rightarrow>
                    let rt = SetTunnelUp True (ss_rt su);
                        v = supervise_run h resolve dev account (pl_peer plan) (tp_keepalive params) ticks
                              (supervise_start dev now d_shake rt)
                    in (dv_Close dev d_end,
                        Inr \<lparr>wv_rt = SetTunnelUp False (SetTunnelUp False (sv_rt v)), wv_meta = ss_meta su,
                             wv_ready = \<lparr>ri_endpoint = None, ri_useHTTP2 = False, ri_transport = [],
                               ri_connectionTimeout = connectionTimeout, ri_overrides = overrides, ri_configSaved = False,
                               ri_socksOnly = True, ri_meta = ss_meta su\<rparr>,
                             wv_sup = v\<rparr>))))"

text \<open>The whole function: preparation, then serving.\<close>

definition runWireGuardTransport ::
  "'s http \<Rightarrow> udp_resolver \<Rightarrow> ('k, 'p, 'c, 't) tls_env \<Rightarrow> 'd wg_device \<Rightarrow> (nat \<Rightarrow> gerr option) \<Rightarrow> state_file \<Rightarrow> Config \<Rightarrow> WGAccount
    \<Rightarrow> string list \<Rightarrow> wgTransportParams \<Rightarrow> int \<Rightarrow> (int \<times> ('s \<times> 'd) \<times> rt_op list) list \<Rightarrow> 'd \<Rightarrow> 'd \<Rightarrow> 'd \<Rightarrow> 's
    \<Rightarrow> 'd \<times> (gerr, wg_served) result" where
  "runWireGuardTransport h resolve te dev close_err file cfg account overrides params now ticks d d_shake d_end s =
     (case wg_prepare h resolve cfg account params s of
        (s', Inl e) \<Rightarrow> (d, Inl e)
      | (s', Inr plan) \<Rightarrow>
          serve_wireguard h resolve te dev close_err file cfg account overrides params plan now ticks d d_shake d_end)"

section \<open>The startup line\<close>

definition octet_bits :: "octet list \<Rightarrow> bool list" where
  "octet_bits b = concat (map (\<lambda>x. map (bit x) (rev [0..<8])) b)"

text \<open>\<open>netip.Prefix.Contains\<close>: the same family, no zone, and the same leading bits.\<close>

fun PrefixContains :: "ip_prefix \<Rightarrow> addr \<Rightarrow> bool" where
  "PrefixContains (Addr4 p, n) (Addr4 a) = (take (nat n) (octet_bits a) = take (nat n) (octet_bits p))"
| "PrefixContains (Addr6 p _, n) (Addr6 a z) = (z = [] \<and> take (nat n) (octet_bits a) = take (nat n) (octet_bits p))"
| "PrefixContains _ _ = False"

definition teamCGNATPrefix :: ip_prefix where "teamCGNATPrefix = (Addr4 [100, 64, 0, 0], 10)"
definition consumerWARPPrefix :: ip_prefix where "consumerWARPPrefix = (Addr4 [172, 16, 0, 0], 12)"

fun wg_tier :: "string \<Rightarrow> ip_prefix list \<Rightarrow> string" where
  "wg_tier tier [] = tier"
| "wg_tier tier (p # ps) =
     wg_tier (if Is4 (fst p) \<and> PrefixContains teamCGNATPrefix (fst p) then ''team(cgnat)''
              else if Is4 (fst p) \<and> PrefixContains consumerWARPPrefix (fst p) then ''consumer'' else tier) ps"

text \<open>The attributes of the line, in order.\<close>

definition logWGRunStartup :: "ip_prefix list \<Rightarrow> addr_port \<Rightarrow> int \<Rightarrow> int \<Rightarrow> (string \<times> string) list" where
  "logWGRunStartup prefixes endpoint mtu keepalive =
     [(''addresses'', join_with '','' (map PrefixString prefixes)), (''tier'', wg_tier ''unknown'' prefixes),
      (''endpoint'', AddrPortString endpoint), (''mtu'', Itoa mtu), (''keepalive'', Itoa keepalive)]"

section \<open>Lemmas\<close>

lemma reset_file: "rt_file (ResetTrackedConns r) = rt_file r \<and> tunnelUp (ResetTrackedConns r) = tunnelUp r"
proof -
  let ?f = "\<lambda>m (r, n). (fst (managed_Close m r), Suc n)"
  have "rt_file (fst (fold ?f ms (r, n))) = rt_file r \<and> tunnelUp (fst (fold ?f ms (r, n))) = tunnelUp r" for ms n
    by (induction ms arbitrary: r n) (auto simp: managed_Close_def close_raw_def Let_def)
  then show ?thesis by (simp add: ResetTrackedConns_def drainActiveConnections_def)
qed

lemma file_inv_frame: "file_inv r \<Longrightarrow> rt_file s = rt_file r \<Longrightarrow> tunnelUp s = tunnelUp r \<Longrightarrow> file_inv s"
  by (simp add: file_inv_def)

lemma file_inv_up: "file_inv r \<Longrightarrow> file_inv (SetTunnelUp b r)"
  by (auto simp: file_inv_def SetTunnelUp_def Let_def publishTunnelState_written)

lemma file_inv_reset: "file_inv r \<Longrightarrow> file_inv (ResetTrackedConns r)"
  using reset_file [of r] by (auto elim: file_inv_frame)

text \<open>Every operation of the runtime keeps the state file mirroring the gate.\<close>

lemma rt_exec_file_any: "file_inv r \<Longrightarrow> file_inv (rt_exec op r)"
proof (cases op)
  case (OpUp b)
  then show "file_inv r \<Longrightarrow> file_inv (rt_exec op r)" by (simp add: file_inv_up)
next
  case OpReset
  then show "file_inv r \<Longrightarrow> file_inv (rt_exec op r)" by (simp add: file_inv_reset)
qed (auto simp: file_inv_def SignalDemand_def drainDemand_def WaitForReconnectDemand_def SetVerboseLogging_def accept_conn_def
    DropIfDisconnected_def TrackConn_def close_raw_def managed_Close_def Let_def)

lemma others_file: "file_inv r \<Longrightarrow> file_inv (fold rt_exec ops r)"
  by (induction ops arbitrary: r) (auto intro: rt_exec_file_any)

lemma tick_file:
  assumes "file_inv (sv_rt v)"
  shows "file_inv (sv_rt (snd (supervise_tick h res dev acc key ka now x v)))"
proof -
  let ?t = "snd (supervise_tick h res dev acc key ka now x v)"
  have "sv_rt ?t = sv_rt v \<or> sv_rt ?t = SetTunnelUp True (sv_rt v) \<or> sv_rt ?t = ResetTrackedConns (SetTunnelUp False (sv_rt v))"
    by (auto simp: supervise_tick_def Let_def split: prod.splits option.splits)
  then show ?thesis using assms by (auto simp: file_inv_up file_inv_reset)
qed

lemma run_file: "file_inv (sv_rt v) \<Longrightarrow> file_inv (sv_rt (supervise_run h res dev acc key ka ticks v))"
proof (induction h res dev acc key ka ticks v rule: supervise_run.induct)
  case (2 h res dev acc key ka now x oth ticks v)
  then show ?case by (simp add: tick_file others_file)
qed simp

lemma prepared_file:
  assumes "prepareSocksRuntime tx ce f cfg idl = Inr su"
  shows "file_inv (ss_rt su)"
proof -
  have "ss_rt su = new_runtime ce f cfg" using assms by (auto simp: prepareSocksRuntime_def bind_res_eq_Inr Let_def)
  then show ?thesis using new_runtime_start [of ce f cfg] by (simp add: sys_inv_def startTunnel_def)
qed

lemma StartWireGuardTunnel_failed: "StartWireGuardTunnel dev u d = (d1, Some e) \<Longrightarrow> \<exists>d0. d1 = dv_Close dev d0"
  by (auto simp: StartWireGuardTunnel_def split: prod.splits option.splits)

section \<open>Properties\<close>

text \<open>
  the WireGuard mode leaves nothing behind. Whenever the function returns after the WireGuard
  device was made, with an error or after serving, the device is closed; and after serving,
  whatever the watchdog was doing, the gate is closed and the state file says so.
\<close>

theorem wireguard_cleans_up:
  assumes "serve_wireguard h res te dev ce f cfg acc os params plan now ticks d d_shake d_end = (d', r)"
    "te_CreateNetTUN te (pl_addrs plan) (pl_dns plan) (pl_mtu plan) = None" "\<And>d. gone (dv_Close dev d)"
  shows "gone d' \<and> (\<forall>served. r = Inr served \<longrightarrow> \<not> tunnelUp (wv_rt served) \<and> file_inv (wv_rt served))"
proof -
  obtain d1 e where st: "StartWireGuardTunnel dev (pl_uapi plan) d = (d1, e)" by fastforce
  show ?thesis
  proof (cases e)
    case (Some x)
    with assms st StartWireGuardTunnel_failed [of dev "pl_uapi plan" d d1] show ?thesis by (auto simp: serve_wireguard_def)
  next
    case None
    obtain ct it where t: "getTimeoutSettings cfg = (ct, it)" by (cases "getTimeoutSettings cfg")
    show ?thesis
    proof (cases "prepareSocksRuntime (te_text te) ce f cfg it")
      case (Inl x)
      with assms st None t show ?thesis by (auto simp: serve_wireguard_def Let_def)
    next
      case (Inr su)
      let ?v = "supervise_run h res dev acc (pl_peer plan) (tp_keepalive params) ticks (supervise_start dev now d_shake (SetTunnelUp True (ss_rt su)))"
      have "file_inv (sv_rt (supervise_start dev now d_shake (SetTunnelUp True (ss_rt su))))"
        using prepared_file [OF Inr] by (simp add: supervise_start_def file_inv_up)
      from run_file [OF this] have "file_inv (SetTunnelUp False (SetTunnelUp False (sv_rt ?v)))" by (intro file_inv_up)
      with assms st None t Inr show ?thesis by (auto simp: serve_wireguard_def Let_def)
    qed
  qed
qed

definition flag_device :: "bool wg_device" where
  "flag_device =
     \<lparr>dv_IpcGet = (\<lambda>_. Inr []), dv_IpcSet = (\<lambda>_ d. (d, None)), dv_Up = (\<lambda>d. (d, None)), dv_Close = (\<lambda>_. True), dv_SendKeepalives = (\<lambda>d. d)\<rparr>"

definition sample_plan :: wg_plan where
  "sample_plan = \<lparr>pl_uapi = [], pl_peer = replicate 32 1, pl_addrs = [], pl_dns = [], pl_endpoint = (Addr4 [162, 159, 192, 1], 2408),
     pl_mtu = 1280, pl_handshakeTimeout = 0\<rparr>"

theorem wireguard_cleans_up_witness:
  "fst (serve_wireguard wg_service (\<lambda>_. Inl ECanceled) sample_tls flag_device (\<lambda>_. None)
     \<lparr>sf_path = [], sf_files = Map.empty, sf_fail = (\<lambda>_. False)\<rparr> plain_config wg_sample_account [] (wg_params sample_flags plain_config)
     sample_plan 0 [(15 * Second, (''s'', False), [OpSignal])] False False False)"
proof -
  let ?t = "serve_wireguard wg_service (\<lambda>_. Inl ECanceled) sample_tls flag_device (\<lambda>_. None)
     \<lparr>sf_path = [], sf_files = Map.empty, sf_fail = (\<lambda>_. False)\<rparr> plain_config wg_sample_account [] (wg_params sample_flags plain_config)
     sample_plan 0 [(15 * Second, (''s'', False), [OpSignal])] False False False"
  obtain d' r where s: "?t = (d', r)" by fastforce
  from wireguard_cleans_up [OF s, of "\<lambda>d. d"] s show ?thesis by (simp add: sample_tls_def flag_device_def)
qed

end
