(* ===== verification/Netstack.thy ===== *)
theory Netstack
  imports Go_Netip
begin

text \<open>
  The virtual device, \<open>src/internal/netstack/tun.go\<close>: its creation on the network stack, the packet queue
  between the stack and the reader, injected packets, the addresses handed to the stack by the dialers,
  and the ICMP sockets. The network stack is other code: what its calls return are arguments, the stack's
  errors are their texts. The name lookups of the same file are in \<open>Net_Dns\<close>.
\<close>

section \<open>The device\<close>

datatype net_proto = ProtoNone | ProtoV4 | ProtoV6

text \<open>
  \<open>netTun\<close>: the channel from the stack to the reader and whether it is open, the same for the channel of
  events, whether the stack notifies the device, and the settings.
\<close>

record net_tun =
  nt_queue :: "octet list list"
  nt_open :: bool
  nt_events_open :: bool
  nt_notify :: bool
  nt_mtu :: int
  nt_dns :: "addr list"
  nt_hasV4 :: bool
  nt_hasV6 :: bool
  nt_routes :: "net_proto list"

definition incomingPacketQueueDepth :: nat where "incomingPacketQueueDepth = 512"
definition batchSize :: nat where "batchSize = 128"
definition tcpMinBufferSize :: int where "tcpMinBufferSize = 4 * 2 ^ 10"
definition tcpDefaultBufferSize :: int where "tcpDefaultBufferSize = 1 * 2 ^ 20"
definition tcpMaxBufferSize :: int where "tcpMaxBufferSize = 8 * 2 ^ 20"

datatype tcp_option =
    TCPSACKEnabled bool
  | TCPSendBufferSizeRange int int int
  | TCPReceiveBufferSizeRange int int int
  | TCPModerateReceiveBuffer bool
  | CongestionControl string
  | TCPDelayEnabled bool

text \<open>The options in the order they are set, each with the text of its error.\<close>

definition tcp_options :: "(tcp_option \<times> string) list" where
  "tcp_options =
     [(TCPSACKEnabled True, ''could not enable TCP SACK''),
      (TCPSendBufferSizeRange tcpMinBufferSize tcpDefaultBufferSize tcpMaxBufferSize, ''could not set TCP send buffer range''),
      (TCPReceiveBufferSizeRange tcpMinBufferSize tcpDefaultBufferSize tcpMaxBufferSize, ''could not set TCP receive buffer range''),
      (TCPModerateReceiveBuffer True, ''could not enable TCP receive buffer moderation''),
      (CongestionControl ''cubic'', ''could not set TCP congestion control''),
      (TCPDelayEnabled False, ''could not disable TCP delay'')]"

record stack_env =
  se_SetOption :: "tcp_option \<Rightarrow> string option"
  se_CreateNIC :: "string option"
  se_AddProtocolAddress :: "net_proto \<Rightarrow> octet list \<Rightarrow> string option"

fun AsSlice :: "addr \<Rightarrow> octet list" where
  "AsSlice NoAddr = []"
| "AsSlice (Addr4 b) = b"
| "AsSlice (Addr6 b z) = b"

fun set_options :: "stack_env \<Rightarrow> (tcp_option \<times> string) list \<Rightarrow> gerr option" where
  "set_options se [] = None"
| "set_options se ((opt, what) # opts) =
     (case se_SetOption se opt of
        Some e \<Rightarrow> Some (EText (what @ '': '' @ e))
      | None \<Rightarrow> set_options se opts)"

fun add_addresses :: "stack_env \<Rightarrow> addr list \<Rightarrow> net_tun \<Rightarrow> (gerr, net_tun) result" where
  "add_addresses se [] dev = Inr dev"
| "add_addresses se (ip # ips) dev =
     (let protoNumber = (if Is4 ip then ProtoV4 else if Is6 ip then ProtoV6 else ProtoNone) in
      case se_AddProtocolAddress se protoNumber (AsSlice ip) of
        Some e \<Rightarrow> Inl (EText (''AddProtocolAddress('' @ AddrString ip @ ''): '' @ e))
      | None \<Rightarrow>
          add_addresses se ips
            (if Is4 ip then dev\<lparr>nt_hasV4 := True\<rparr> else if Is6 ip then dev\<lparr>nt_hasV6 := True\<rparr> else dev))"

definition CreateNetTUN :: "stack_env \<Rightarrow> addr list \<Rightarrow> addr list \<Rightarrow> int \<Rightarrow> (gerr, net_tun) result" where
  "CreateNetTUN se localAddresses dnsServers mtu =
     (let dev = \<lparr>nt_queue = [], nt_open = True, nt_events_open = True, nt_notify = False, nt_mtu = mtu,
                 nt_dns = dnsServers, nt_hasV4 = False, nt_hasV6 = False, nt_routes = []\<rparr> in
      case set_options se tcp_options of
        Some e \<Rightarrow> Inl e
      | None \<Rightarrow>
          let dev1 = dev\<lparr>nt_notify := True\<rparr> in
          (case se_CreateNIC se of
             Some e \<Rightarrow> Inl (EText (''CreateNIC: '' @ e))
           | None \<Rightarrow>
               bind_res (add_addresses se localAddresses dev1) (\<lambda>dev2.
               Inr (dev2\<lparr>nt_routes := (if nt_hasV4 dev2 then [ProtoV4] else []) @ (if nt_hasV6 dev2 then [ProtoV6] else [])\<rparr>))))"

section \<open>The packet queue\<close>

datatype tun_read = ReadBlocked | ReadPanic | ReadResult "octet list list" "gerr option"

text \<open>
  \<open>rd room view\<close> is \<open>view.Read\<close> into a buffer with \<open>room\<close> bytes: the bytes it copies. The drain takes what
  is queued, at most one packet per buffer; the packet of a failed read is gone.
\<close>

type_synonym view_read = "nat \<Rightarrow> octet list \<Rightarrow> (gerr, octet list) result"

fun read_drain :: "view_read \<Rightarrow> nat list \<Rightarrow> octet list list \<Rightarrow> octet list list \<times> gerr option \<times> octet list list" where
  "read_drain rd (room # rooms) (view # q) =
     (case rd room view of
        Inl e \<Rightarrow> ([], Some e, q)
      | Inr d \<Rightarrow> (case read_drain rd rooms q of (ds, e, q') \<Rightarrow> (d # ds, e, q')))"
| "read_drain rd rooms q = ([], None, q)"

text \<open>\<open>rooms\<close>: the lengths of the buffers after the offset. Without a packet the call waits.\<close>

definition tun_Read :: "view_read \<Rightarrow> nat list \<Rightarrow> net_tun \<Rightarrow> net_tun \<times> tun_read" where
  "tun_Read rd rooms t =
     (if nt_queue t = [] then (t, if nt_open t then ReadBlocked else ReadResult [] (Some (EText ''file already closed'')))
      else if rooms = [] then (t\<lparr>nt_queue := tl (nt_queue t)\<rparr>, ReadPanic)
      else (case read_drain rd rooms (nt_queue t) of
              (ds, e, q) \<Rightarrow> (t\<lparr>nt_queue := q\<rparr>, ReadResult ds e)))"

datatype notify_result = NotifyNothing | NotifySent | NotifyBlocked | NotifyPanic

text \<open>\<open>pkt\<close> is what the link endpoint holds; the send waits for room, and panics once the channel is closed.\<close>

definition WriteNotify :: "octet list option \<Rightarrow> net_tun \<Rightarrow> net_tun \<times> notify_result" where
  "WriteNotify pkt t =
     (case pkt of
        None \<Rightarrow> (t, NotifyNothing)
      | Some view \<Rightarrow>
          if \<not> nt_open t then (t, NotifyPanic)
          else if length (nt_queue t) < incomingPacketQueueDepth then (t\<lparr>nt_queue := nt_queue t @ [view]\<rparr>, NotifySent)
          else (t, NotifyBlocked))"

text \<open>\<open>None\<close>: a second close panics.\<close>

definition tun_Close :: "net_tun \<Rightarrow> net_tun option" where
  "tun_Close t =
     (if \<not> nt_events_open t \<or> \<not> nt_open t then None
      else Some (t\<lparr>nt_notify := False, nt_events_open := False, nt_open := False\<rparr>))"

text \<open>\<open>Write\<close>: the packets injected into the stack, then the number of buffers or the error.\<close>

fun write_loop :: "nat \<Rightarrow> octet list list \<Rightarrow> (net_proto \<times> octet list) list \<times> bool" where
  "write_loop offset [] = ([], True)"
| "write_loop offset (buf # bufs) =
     (case drop offset buf of
        [] \<Rightarrow> write_loop offset bufs
      | b # packet \<Rightarrow>
          if drop_bit 4 b = 4 then apfst ((#) (ProtoV4, b # packet)) (write_loop offset bufs)
          else if drop_bit 4 b = 6 then apfst ((#) (ProtoV6, b # packet)) (write_loop offset bufs)
          else ([], False))"

definition tun_Write :: "nat \<Rightarrow> octet list list \<Rightarrow> (net_proto \<times> octet list) list \<times> (gerr, nat) result" where
  "tun_Write offset bufs =
     (case write_loop offset bufs of
        (pkts, ok) \<Rightarrow> (pkts, if ok then Inr (length bufs) else Inl (EText ''address family not supported by protocol'')))"

text \<open>One call on the device, as the stack, the reader and the owner make them in any order.\<close>

datatype dev_op = OpNotify "octet list option" | OpRead "nat list" | OpClose

text \<open>What a run has accepted from the stack and handed to the reader; a call that waits changes nothing.\<close>

record dev_log =
  dl_sent :: "octet list list"
  dl_read :: "octet list list"
  dl_panic :: bool

definition dev_step :: "view_read \<Rightarrow> dev_op \<Rightarrow> net_tun \<times> dev_log \<Rightarrow> net_tun \<times> dev_log" where
  "dev_step rd opn s =
     (case s of (t, l) \<Rightarrow>
        case opn of
          OpNotify pkt \<Rightarrow>
            (case WriteNotify pkt t of
               (t', NotifySent) \<Rightarrow> (t', l\<lparr>dl_sent := dl_sent l @ [the pkt]\<rparr>)
             | (t', NotifyPanic) \<Rightarrow> (t', l\<lparr>dl_panic := True\<rparr>)
             | (t', _) \<Rightarrow> (t', l))
        | OpRead rooms \<Rightarrow>
            (case tun_Read rd rooms t of
               (t', ReadResult ds e) \<Rightarrow> (t', l\<lparr>dl_read := dl_read l @ ds\<rparr>)
             | (t', ReadPanic) \<Rightarrow> (t', l\<lparr>dl_panic := True\<rparr>)
             | (t', ReadBlocked) \<Rightarrow> (t', l))
        | OpClose \<Rightarrow> (case tun_Close t of None \<Rightarrow> (t, l\<lparr>dl_panic := True\<rparr>) | Some t' \<Rightarrow> (t', l)))"

fun dev_run :: "view_read \<Rightarrow> dev_op list \<Rightarrow> net_tun \<times> dev_log \<Rightarrow> net_tun \<times> dev_log" where
  "dev_run rd [] s = s"
| "dev_run rd (opn # ops) s = dev_run rd ops (dev_step rd opn s)"

section \<open>Addresses for the stack\<close>

record full_address =
  fa_NIC :: nat
  fa_Addr :: "octet list"
  fa_Port :: nat

definition convertToFullAddr :: "addr_port \<Rightarrow> full_address \<times> net_proto" where
  "convertToFullAddr endpoint =
     (\<lparr>fa_NIC = 1, fa_Addr = AsSlice (fst endpoint), fa_Port = snd endpoint\<rparr>,
      if Is4 (fst endpoint) then ProtoV4 else ProtoV6)"

definition AddrFromSlice :: "ip \<Rightarrow> addr" where
  "AddrFromSlice b = (if length b = 4 then Addr4 b else if length b = 16 then Addr6 b [] else NoAddr)"

text \<open>A \<open>*net.TCPAddr\<close> or \<open>*net.UDPAddr\<close>, its port cut to 16 bits; nil is the zero endpoint.\<close>

definition addr_port_of :: "(ip \<times> int) option \<Rightarrow> addr_port" where
  "addr_port_of a = (case a of None \<Rightarrow> (NoAddr, 0) | Some (b, port) \<Rightarrow> (AddrFromSlice b, nat (port mod 65536)))"

text \<open>The sockets of the stack adapter, by the number of the call and, for a dial, the deadline of its context.\<close>

record ('e, 'c) gonet =
  gn_DialContextTCP :: "nat \<Rightarrow> int option \<Rightarrow> full_address \<Rightarrow> net_proto \<Rightarrow> ('e, 'c) result"
  gn_DialTCP :: "nat \<Rightarrow> full_address \<Rightarrow> net_proto \<Rightarrow> ('e, 'c) result"
  gn_ListenTCP :: "nat \<Rightarrow> full_address \<Rightarrow> net_proto \<Rightarrow> ('e, 'c) result"
  gn_DialUDP :: "nat \<Rightarrow> full_address option \<Rightarrow> full_address option \<Rightarrow> net_proto \<Rightarrow> ('e, 'c) result"

definition DialContextTCPAddrPort :: "('e, 'c) gonet \<Rightarrow> nat \<Rightarrow> int option \<Rightarrow> addr_port \<Rightarrow> ('e, 'c) result" where
  "DialContextTCPAddrPort gn k dl a = (case convertToFullAddr a of (fa, pn) \<Rightarrow> gn_DialContextTCP gn k dl fa pn)"

definition DialContextTCP :: "('e, 'c) gonet \<Rightarrow> nat \<Rightarrow> int option \<Rightarrow> (ip \<times> int) option \<Rightarrow> ('e, 'c) result" where
  "DialContextTCP gn k dl a = DialContextTCPAddrPort gn k dl (addr_port_of a)"

definition DialTCPAddrPort :: "('e, 'c) gonet \<Rightarrow> nat \<Rightarrow> addr_port \<Rightarrow> ('e, 'c) result" where
  "DialTCPAddrPort gn k a = (case convertToFullAddr a of (fa, pn) \<Rightarrow> gn_DialTCP gn k fa pn)"

definition DialTCP :: "('e, 'c) gonet \<Rightarrow> nat \<Rightarrow> (ip \<times> int) option \<Rightarrow> ('e, 'c) result" where
  "DialTCP gn k a = DialTCPAddrPort gn k (addr_port_of a)"

definition ListenTCPAddrPort :: "('e, 'c) gonet \<Rightarrow> nat \<Rightarrow> addr_port \<Rightarrow> ('e, 'c) result" where
  "ListenTCPAddrPort gn k a = (case convertToFullAddr a of (fa, pn) \<Rightarrow> gn_ListenTCP gn k fa pn)"

definition ListenTCP :: "('e, 'c) gonet \<Rightarrow> nat \<Rightarrow> (ip \<times> int) option \<Rightarrow> ('e, 'c) result" where
  "ListenTCP gn k a = ListenTCPAddrPort gn k (addr_port_of a)"

definition DialUDPAddrPort :: "('e, 'c) gonet \<Rightarrow> nat \<Rightarrow> addr_port \<Rightarrow> addr_port \<Rightarrow> ('e, 'c) result" where
  "DialUDPAddrPort gn k laddr raddr =
     (let given = (\<lambda>a :: addr_port. fst a \<noteq> NoAddr \<or> snd a > 0);
          lfa = (if given laddr then Some (fst (convertToFullAddr laddr)) else None);
          rfa = (if given raddr then Some (fst (convertToFullAddr raddr)) else None);
          pn = (if given raddr then snd (convertToFullAddr raddr)
                else if given laddr then snd (convertToFullAddr laddr) else ProtoNone) in
      gn_DialUDP gn k lfa rfa pn)"

definition ListenUDPAddrPort :: "('e, 'c) gonet \<Rightarrow> nat \<Rightarrow> addr_port \<Rightarrow> ('e, 'c) result" where
  "ListenUDPAddrPort gn k laddr = DialUDPAddrPort gn k laddr (NoAddr, 0)"

definition net_DialUDP :: "('e, 'c) gonet \<Rightarrow> nat \<Rightarrow> (ip \<times> int) option \<Rightarrow> (ip \<times> int) option \<Rightarrow> ('e, 'c) result" where
  "net_DialUDP gn k laddr raddr = DialUDPAddrPort gn k (addr_port_of laddr) (addr_port_of raddr)"

definition ListenUDP :: "('e, 'c) gonet \<Rightarrow> nat \<Rightarrow> (ip \<times> int) option \<Rightarrow> ('e, 'c) result" where
  "ListenUDP gn k laddr = net_DialUDP gn k laddr None"

section \<open>ICMP sockets\<close>

text \<open>
  \<open>PingConn\<close>: its addresses, whether its endpoint speaks IPv6, and its timer: stopped, set to an instant, or
  fired with the tick still unread. The endpoint's calls return the stack's error text.
\<close>

datatype ping_timer = TimerStopped | TimerAt int | TimerFired

record ping_conn =
  pc_laddr :: addr
  pc_raddr :: addr
  pc_v6 :: bool
  pc_timer :: ping_timer
  pc_open :: bool

record ping_env =
  pe_NewEndpoint :: "net_proto \<Rightarrow> string option"
  pe_Bind :: "full_address \<Rightarrow> string option"
  pe_Connect :: "full_address \<Rightarrow> string option"

fun ping_Network :: "addr \<Rightarrow> string" where
  "ping_Network (Addr4 _) = ''ping4''"
| "ping_Network (Addr6 _ _) = ''ping6''"
| "ping_Network NoAddr = ''ping''"

definition ping_String :: "addr \<Rightarrow> string" where "ping_String ia = AddrString ia"

text \<open>The first component is the number of endpoints the call created.\<close>

definition DialPingAddr :: "ping_env \<Rightarrow> addr \<Rightarrow> addr \<Rightarrow> nat \<times> (gerr, ping_conn) result" where
  "DialPingAddr pe laddr raddr =
     (if laddr = NoAddr \<and> raddr = NoAddr then (0, Inl (EText ''ping dial: invalid address''))
      else
        let v6 = (Is6 laddr \<or> Is6 raddr); bound = (laddr \<noteq> NoAddr);
            la = (if bound then laddr else if v6 then Addr6 (replicate 16 0) [] else Addr4 (replicate 4 0));
            pc = \<lparr>pc_laddr = la, pc_raddr = NoAddr, pc_v6 = v6, pc_timer = TimerStopped, pc_open = True\<rparr> in
        case pe_NewEndpoint pe (if v6 then ProtoV6 else ProtoV4) of
          Some e \<Rightarrow> (0, Inl (EText (''ping socket: endpoint: '' @ e)))
        | None \<Rightarrow>
            (1, case (if bound then pe_Bind pe (fst (convertToFullAddr (la, 0))) else None) of
                  Some e \<Rightarrow> Inl (EText (''ping bind: '' @ e))
                | None \<Rightarrow>
                    if raddr \<noteq> NoAddr then
                      (case pe_Connect pe (fst (convertToFullAddr (raddr, 0))) of
                         Some e \<Rightarrow> Inl (EText (''ping connect: '' @ e))
                       | None \<Rightarrow> Inr (pc\<lparr>pc_raddr := raddr\<rparr>))
                    else Inr pc))"

definition ListenPingAddr :: "ping_env \<Rightarrow> addr \<Rightarrow> nat \<times> (gerr, ping_conn) result" where
  "ListenPingAddr pe laddr = DialPingAddr pe laddr NoAddr"

definition DialPing :: "ping_env \<Rightarrow> addr option \<Rightarrow> addr option \<Rightarrow> nat \<times> (gerr, ping_conn) result" where
  "DialPing pe laddr raddr =
     DialPingAddr pe (case laddr of None \<Rightarrow> NoAddr | Some a \<Rightarrow> a) (case raddr of None \<Rightarrow> NoAddr | Some a \<Rightarrow> a)"

definition ListenPing :: "ping_env \<Rightarrow> addr option \<Rightarrow> nat \<times> (gerr, ping_conn) result" where
  "ListenPing pe laddr = ListenPingAddr pe (case laddr of None \<Rightarrow> NoAddr | Some a \<Rightarrow> a)"

text \<open>Resetting the timer to now fires it.\<close>

definition ping_Close :: "ping_conn \<Rightarrow> ping_conn" where
  "ping_Close pc = pc\<lparr>pc_timer := TimerFired, pc_open := False\<rparr>"

definition ping_SetReadDeadline :: "int \<Rightarrow> int \<Rightarrow> ping_conn \<Rightarrow> ping_conn" where
  "ping_SetReadDeadline now t pc = pc\<lparr>pc_timer := (if t \<le> now then TimerFired else TimerAt t)\<rparr>"

definition ping_SetDeadline :: "int \<Rightarrow> int \<Rightarrow> ping_conn \<Rightarrow> ping_conn" where
  "ping_SetDeadline now t pc = ping_SetReadDeadline now t pc"

definition ping_SetWriteDeadline :: "int \<Rightarrow> gerr option" where
  "ping_SetWriteDeadline t = Some (EText ''not implemented'')"

text \<open>The dynamic type of the \<open>net.Addr\<close> of a write.\<close>

datatype ping_target = TargetPing addr | TargetIP ip | TargetOther

text \<open>\<open>ep_write\<close>: the endpoint's write, the bytes it took and its error.\<close>

definition ping_WriteTo :: "(octet list \<Rightarrow> full_address \<Rightarrow> nat \<times> string option) \<Rightarrow> ping_conn \<Rightarrow> octet list \<Rightarrow> ping_target \<Rightarrow> nat \<times> gerr option" where
  "ping_WriteTo ep_write pc p target =
     (let send = (\<lambda>na.
        if \<not> (Is4 na \<and> Is4 (pc_laddr pc) \<or> Is6 na \<and> Is6 (pc_laddr pc))
        then (0, Some (EText ''ping write: mismatched protocols''))
        else (case ep_write p (fst (convertToFullAddr (na, 0))) of
                (n, Some e) \<Rightarrow> (n, Some (EText (''ping write: '' @ e)))
              | (n, None) \<Rightarrow> (n, None))) in
      case target of
        TargetPing a \<Rightarrow> send a
      | TargetIP b \<Rightarrow> send (AddrFromSlice b)
      | TargetOther \<Rightarrow> (0, Some (EText ''ping write: wrong net.Addr type'')))"

definition ping_Write :: "(octet list \<Rightarrow> full_address \<Rightarrow> nat \<times> string option) \<Rightarrow> ping_conn \<Rightarrow> octet list \<Rightarrow> nat \<times> gerr option" where
  "ping_Write ep_write pc p = ping_WriteTo ep_write pc p (TargetPing (pc_raddr pc))"

text \<open>
  \<open>ReadFrom\<close> at time \<open>now\<close>: \<open>arrived\<close> is the endpoint's notification with what its read returns. Both ready,
  either case of the select is taken (\<open>timer_first\<close>); \<open>None\<close>: the call waits. The tick is read once.
\<close>

definition ping_ReadFrom :: "bool \<Rightarrow> int \<Rightarrow> (string, nat \<times> octet list) result option \<Rightarrow> ping_conn
    \<Rightarrow> (ping_conn \<times> (gerr, nat \<times> addr) result) option" where
  "ping_ReadFrom timer_first now arrived pc =
     (let due = (case pc_timer pc of TimerStopped \<Rightarrow> False | TimerAt t \<Rightarrow> t \<le> now | TimerFired \<Rightarrow> True) in
      if due \<and> (timer_first \<or> arrived = None) then Some (pc\<lparr>pc_timer := TimerStopped\<rparr>, Inl (EText ''i/o timeout''))
      else (case arrived of
              None \<Rightarrow> None
            | Some (Inl e) \<Rightarrow> Some (pc, Inl (EText (''ping read: '' @ e)))
            | Some (Inr (n, a)) \<Rightarrow> Some (pc, Inr (n, AddrFromSlice a))))"

definition ping_Read :: "bool \<Rightarrow> int \<Rightarrow> (string, nat \<times> octet list) result option \<Rightarrow> ping_conn
    \<Rightarrow> (ping_conn \<times> (gerr, nat) result) option" where
  "ping_Read timer_first now arrived pc =
     map_option (\<lambda>(pc', r). (pc', case r of Inl e \<Rightarrow> Inl e | Inr (n, _) \<Rightarrow> Inr n)) (ping_ReadFrom timer_first now arrived pc)"

section \<open>Lemmas\<close>

lemma add_addresses_flags:
  assumes "add_addresses se ips dev = Inr dev'"
  shows "dev' = dev\<lparr>nt_hasV4 := nt_hasV4 dev \<or> list_ex Is4 ips, nt_hasV6 := nt_hasV6 dev \<or> list_ex Is6 ips\<rparr>"
  using assms
proof (induction ips arbitrary: dev)
  case (Cons ip ips)
  then show ?case
    by (cases ip) (auto simp: Let_def dest!: Cons.IH split: option.splits)
qed simp


text \<open>\<open>View.Read\<close> copies a packet whole when the buffer has room for it.\<close>

definition whole_views :: "view_read \<Rightarrow> bool" where
  "whole_views rd \<longleftrightarrow> (\<forall>room v. v \<noteq> [] \<and> length v \<le> room \<longrightarrow> rd room v = Inr v)"

text \<open>The packets of the stack are not empty and at most \<open>m\<close> bytes long, the reader's buffers have that room.\<close>

fun op_fits :: "nat \<Rightarrow> dev_op \<Rightarrow> bool" where
  "op_fits m (OpNotify None) = True"
| "op_fits m (OpNotify (Some v)) = (v \<noteq> [] \<and> length v \<le> m)"
| "op_fits m (OpRead rooms) = (rooms \<noteq> [] \<and> (\<forall>r \<in> set rooms. m \<le> r))"
| "op_fits m OpClose = True"

definition fifo_inv :: "nat \<Rightarrow> net_tun \<times> dev_log \<Rightarrow> bool" where
  "fifo_inv m s =
     (case s of (t, l) \<Rightarrow>
        dl_sent l = dl_read l @ nt_queue t \<and> length (nt_queue t) \<le> incomingPacketQueueDepth
        \<and> list_all (\<lambda>v. v \<noteq> [] \<and> length v \<le> m) (nt_queue t) \<and> (dl_panic l \<longrightarrow> \<not> nt_open t)
        \<and> nt_events_open t = nt_open t)"

lemma read_drain_whole:
  assumes "whole_views rd" "\<forall>r \<in> set rooms. m \<le> r" "list_all (\<lambda>v. v \<noteq> [] \<and> length v \<le> m) q"
  shows "read_drain rd rooms q = (take (length rooms) q, None, drop (length rooms) q)"
  using assms
  by (induction rd rooms q rule: read_drain.induct) (auto simp: whole_views_def)

lemma notify_fifo:
  assumes "fifo_inv m (t, l)" "op_fits m (OpNotify pkt)"
  shows "fifo_inv m (dev_step rd (OpNotify pkt) (t, l))"
  using assms
  by (cases pkt) (auto simp: fifo_inv_def dev_step_def WriteNotify_def incomingPacketQueueDepth_def)

lemma read_fifo:
  assumes inv: "fifo_inv m (t, l)" and fits: "op_fits m (OpRead rooms)" and rd: "whole_views rd"
  shows "fifo_inv m (dev_step rd (OpRead rooms) (t, l))"
proof (cases "nt_queue t = []")
  case True
  then show ?thesis
    using inv by (auto simp: fifo_inv_def dev_step_def tun_Read_def)
next
  case False
  have drain: "read_drain rd rooms (nt_queue t) = (take (length rooms) (nt_queue t), None, drop (length rooms) (nt_queue t))"
    using inv fits rd by (intro read_drain_whole [of rd rooms m]) (auto simp: fifo_inv_def)
  have "list_all (\<lambda>v. v \<noteq> [] \<and> length v \<le> m) (drop (length rooms) (nt_queue t))"
    using inv by (auto simp: fifo_inv_def list_all_iff dest: in_set_dropD)
  then show ?thesis
    using inv fits False by (auto simp: fifo_inv_def dev_step_def tun_Read_def drain)
qed

lemma dev_step_fifo:
  assumes "fifo_inv m s" "op_fits m opn" "whole_views rd"
  shows "fifo_inv m (dev_step rd opn s)"
proof (cases opn)
  case OpClose
  then show ?thesis
    using assms(1) by (cases s) (auto simp: fifo_inv_def dev_step_def tun_Close_def)
qed (use assms notify_fifo read_fifo in \<open>cases s; simp\<close>)+

lemma dev_run_fifo:
  "fifo_inv m s \<Longrightarrow> list_all (op_fits m) ops \<Longrightarrow> whole_views rd \<Longrightarrow> fifo_inv m (dev_run rd ops s)"
  by (induction rd ops s rule: dev_run.induct) (simp_all add: dev_step_fifo)

lemma dev_step_open:
  "opn \<noteq> OpClose \<Longrightarrow> nt_open (fst s) \<Longrightarrow> nt_open (fst (dev_step rd opn s))"
  by (cases s; cases opn)
    (auto simp: dev_step_def WriteNotify_def tun_Read_def split: option.splits prod.splits)

lemma dev_run_open: "OpClose \<notin> set ops \<Longrightarrow> nt_open (fst s) \<Longrightarrow> nt_open (fst (dev_run rd ops s))"
  by (induction rd ops s rule: dev_run.induct) (auto intro: dev_step_open)

lemma CreateNetTUN_shape:
  assumes "CreateNetTUN se localAddresses dnsServers mtu = Inr t"
  shows "t = \<lparr>nt_queue = [], nt_open = True, nt_events_open = True, nt_notify = True, nt_mtu = mtu, nt_dns = dnsServers,
      nt_hasV4 = list_ex Is4 localAddresses, nt_hasV6 = list_ex Is6 localAddresses,
      nt_routes = (if list_ex Is4 localAddresses then [ProtoV4] else []) @ (if list_ex Is6 localAddresses then [ProtoV6] else [])\<rparr>"
  using assms
  by (auto simp: CreateNetTUN_def Let_def bind_res_eq_Inr dest!: add_addresses_flags split: option.splits)

text \<open>The protocol the first nibble of a packet names.\<close>

definition packet_proto :: "octet list \<Rightarrow> net_proto" where
  "packet_proto p = (if drop_bit 4 (hd p) = 4 then ProtoV4 else if drop_bit 4 (hd p) = 6 then ProtoV6 else ProtoNone)"

definition injectable :: "nat \<Rightarrow> octet list list \<Rightarrow> octet list list" where
  "injectable offset bufs = filter (\<lambda>p. p \<noteq> []) (map (drop offset) bufs)"

lemma injectable_Cons:
  "injectable offset (buf # bufs) = (if drop offset buf = [] then injectable offset bufs else drop offset buf # injectable offset bufs)"
  by (simp add: injectable_def)

lemma write_loop_takeWhile:
  "write_loop offset bufs =
     (map (\<lambda>p. (packet_proto p, p)) (takeWhile (\<lambda>p. packet_proto p \<noteq> ProtoNone) (injectable offset bufs)),
      list_all (\<lambda>p. packet_proto p \<noteq> ProtoNone) (injectable offset bufs))"
proof (induction offset bufs rule: write_loop.induct)
  case (2 offset buf bufs)
  then show ?case
    by (cases "drop offset buf") (simp_all add: injectable_Cons packet_proto_def del: drop_eq_Nil)
qed (simp add: injectable_def)

definition sample_stack :: stack_env where
  "sample_stack = \<lparr>se_SetOption = (\<lambda>_. None), se_CreateNIC = None, se_AddProtocolAddress = (\<lambda>_ _. None)\<rparr>"

section \<open>Properties\<close>

text \<open>
  The packet queue between the stack and the reader. Whatever the order of the stack's notifications, the
  reader's batched reads and the close, when no packet exceeds the reader's buffers, the packets the reader has got
  followed by the packets in the queue are exactly the packets the stack handed over, in that order: nothing is lost,
  doubled or reordered, also after the close. The queue never holds more than its depth, and before a close nothing panics.
\<close>

theorem device_fifo:
  assumes "CreateNetTUN se localAddresses dnsServers mtu = Inr t" "whole_views rd" "list_all (op_fits m) ops"
    "dev_run rd ops (t, \<lparr>dl_sent = [], dl_read = [], dl_panic = False\<rparr>) = (t', l)"
  shows "dl_sent l = dl_read l @ nt_queue t' \<and> length (nt_queue t') \<le> incomingPacketQueueDepth
    \<and> (OpClose \<notin> set ops \<longrightarrow> \<not> dl_panic l)"
proof -
  let ?s = "(t, \<lparr>dl_sent = [], dl_read = [], dl_panic = False\<rparr>)"
  have shape: "nt_queue t = []" "nt_open t" "nt_events_open t"
    using CreateNetTUN_shape [OF assms(1)] by simp_all
  then have "fifo_inv m (dev_run rd ops ?s)"
    using assms(2,3) by (intro dev_run_fifo) (simp_all add: fifo_inv_def)
  moreover have "OpClose \<notin> set ops \<Longrightarrow> nt_open t'"
    using dev_run_open [of ops ?s rd] assms(4) shape by simp
  ultimately show ?thesis
    using assms(4) by (auto simp: fifo_inv_def)
qed

theorem device_fifo_witness:
  "\<exists>t t' l. CreateNetTUN sample_stack [Addr4 [10, 0, 0, 1]] [] 1280 = Inr t
     \<and> dev_run (\<lambda>n v. Inr (take n v)) [OpNotify (Some [69]), OpNotify (Some [96, 1]), OpRead [2], OpClose]
         (t, \<lparr>dl_sent = [], dl_read = [], dl_panic = False\<rparr>) = (t', l)
     \<and> dl_sent l = [[69], [96, 1]] \<and> dl_sent l = dl_read l @ nt_queue t'"
proof -
  let ?rd = "\<lambda>n v. Inr (take n v)" and ?l = "\<lparr>dl_sent = [], dl_read = [], dl_panic = False\<rparr>"
  let ?ops = "[OpNotify (Some [69]), OpNotify (Some [96, 1]), OpRead [2], OpClose]"
  obtain t where t: "CreateNetTUN sample_stack [Addr4 [10, 0, 0, 1]] [] 1280 = Inr t"
    by (simp add: CreateNetTUN_def sample_stack_def tcp_options_def)
  obtain t' l where run: "dev_run ?rd ?ops (t, ?l) = (t', l)"
    by fastforce
  have "whole_views ?rd" "list_all (op_fits 2) ?ops"
    by (simp_all add: whole_views_def)
  from device_fifo [OF t this run] have "dl_sent l = dl_read l @ nt_queue t'"
    by simp
  moreover have "dl_sent l = [[69], [96, 1]]"
    using run CreateNetTUN_shape [OF t]
    by (auto simp: dev_step_def WriteNotify_def tun_Read_def tun_Close_def incomingPacketQueueDepth_def)
  ultimately show ?thesis
    using t run by blast
qed

text \<open>
  Packets of the tunnel are injected by their version nibble: a write hands the non-empty packets to the stack in order,
  each as the protocol its first nibble names, up to the first one of neither version. It reports all the
  buffers as written when there is none, else the error EAFNOSUPPORT.
\<close>

theorem tun_Write_classifies:
  "tun_Write offset bufs =
     (map (\<lambda>p. (packet_proto p, p)) (takeWhile (\<lambda>p. packet_proto p \<noteq> ProtoNone) (injectable offset bufs)),
      if \<exists>p \<in> set (injectable offset bufs). packet_proto p = ProtoNone
      then Inl (EText ''address family not supported by protocol'') else Inr (length bufs))"
  by (auto simp: tun_Write_def write_loop_takeWhile list_all_iff)

text \<open>
  A device that was created knows its address families: lookups ask for, and routes exist for, IPv4 exactly when a local
  address is IPv4, and IPv6 exactly when a local address is IPv6; its queue is empty and open.
\<close>

theorem CreateNetTUN_families:
  assumes "CreateNetTUN se localAddresses dnsServers mtu = Inr t"
  shows "nt_hasV4 t = (\<exists>a \<in> set localAddresses. Is4 a) \<and> nt_hasV6 t = (\<exists>a \<in> set localAddresses. Is6 a)
    \<and> (ProtoV4 \<in> set (nt_routes t)) = nt_hasV4 t \<and> (ProtoV6 \<in> set (nt_routes t)) = nt_hasV6 t
    \<and> nt_dns t = dnsServers \<and> nt_queue t = [] \<and> nt_open t"
  using CreateNetTUN_shape [OF assms] by (auto simp: list_ex_iff)

theorem CreateNetTUN_families_witness:
  "\<exists>t. CreateNetTUN sample_stack [Addr4 [10, 0, 0, 1]] [Addr4 [1, 1, 1, 1]] 1280 = Inr t \<and> nt_hasV4 t \<and> \<not> nt_hasV6 t"
proof -
  obtain t where "CreateNetTUN sample_stack [Addr4 [10, 0, 0, 1]] [Addr4 [1, 1, 1, 1]] 1280 = Inr t"
    by (simp add: CreateNetTUN_def sample_stack_def tcp_options_def)
  then show ?thesis
    using CreateNetTUN_families [of sample_stack "[Addr4 [10, 0, 0, 1]]" "[Addr4 [1, 1, 1, 1]]" 1280 t] by auto
qed

end
