(* ===== verification/Tun_Adapter.thy ===== *)
theory Tun_Adapter
  imports Netstack Forwarding
begin

text \<open>
  The adapter between the virtual device and the forwarding, \<open>NetstackAdapter\<close> of \<open>src/api/tunnel.go\<close>: single and batched
  reads, writes. The forwarding relies on the interface \<open>TunnelDevice\<close>, the locale \<open>tunnel_device\<close>; the way of the packets
  from the stack to the session is proved in it, and it is interpreted on the adapter.
\<close>

section \<open>The adapter\<close>

text \<open>One packet into one buffer; the packet the buffer then holds.\<close>

definition adapter_ReadPacket :: "view_read \<Rightarrow> nat \<Rightarrow> net_tun \<Rightarrow> (net_tun \<times> (gerr, octet list) result) option" where
  "adapter_ReadPacket rd room t =
     (case tun_Read rd [room] t of
        (t', ReadResult ds (Some e)) \<Rightarrow> Some (t', Inl e)
      | (t', ReadResult (d # _) None) \<Rightarrow> Some (t', Inr d)
      | (t', ReadResult [] None) \<Rightarrow> Some (t', Inr [])
      | _ \<Rightarrow> None)"

definition adapter_ReadPackets :: "view_read \<Rightarrow> nat list \<Rightarrow> net_tun \<Rightarrow> net_tun \<times> tun_read" where
  "adapter_ReadPackets rd rooms t = tun_Read rd rooms t"

definition adapter_BatchSize :: nat where
  "adapter_BatchSize = batchSize"

definition adapter_WritePacket :: "octet list \<Rightarrow> (net_proto \<times> octet list) list \<times> gerr option" where
  "adapter_WritePacket pkt =
     (case tun_Write 0 [pkt] of (pkts, r) \<Rightarrow> (pkts, case r of Inl e \<Rightarrow> Some e | Inr _ \<Rightarrow> None))"

text \<open>
  \<open>readBatch\<close> of the pump with buffers of the pool's capacity: batched when the device offers more than one packet per read,
  else one packet. \<open>None\<close>: the read waits. An error drops the packets of the same read.
\<close>

definition readBatch :: "view_read \<Rightarrow> nat \<Rightarrow> net_tun \<Rightarrow> (net_tun \<times> (gerr, octet list list) result) option" where
  "readBatch rd capacity t =
     (if adapter_BatchSize > 1 then
        (case adapter_ReadPackets rd (replicate adapter_BatchSize capacity) t of
           (t', ReadResult ds None) \<Rightarrow> Some (t', Inr ds)
         | (t', ReadResult ds (Some e)) \<Rightarrow> Some (t', Inl e)
         | _ \<Rightarrow> None)
      else map_option (\<lambda>(t', r). (t', map_sum id (\<lambda>d. [d]) r)) (adapter_ReadPacket rd capacity t))"

text \<open>A turn of the pump over a device, the supervisor otherwise left alone.\<close>

definition pump_turn :: "('d \<Rightarrow> ('d \<times> (gerr, 'p list) result) option) \<Rightarrow> (gerr \<Rightarrow> string) \<Rightarrow> (nat \<Rightarrow> 'p \<Rightarrow> (gerr, 'p option) result)
    \<Rightarrow> 'd \<times> 'p supervisor \<Rightarrow> 'd \<times> 'p supervisor" where
  "pump_turn read qt wr x =
     (case x of (d, s) \<Rightarrow>
        (case read d of
           None \<Rightarrow> (d, s)
         | Some (d', r) \<Rightarrow> (d', fst (device_to_ip qt (\<lambda>s. s) r (\<lambda>_ s. s) wr s))))"

text \<open>
  The stack hands a packet over (\<open>Some\<close>; refused while the queue is full) or the pump takes a turn (\<open>None\<close>). The list holds the packets the
  device took.
\<close>

fun path_run :: "('d \<Rightarrow> ('d \<times> (gerr, 'p list) result) option) \<Rightarrow> ('p \<Rightarrow> 'd \<Rightarrow> 'd option) \<Rightarrow> (gerr \<Rightarrow> string)
    \<Rightarrow> (nat \<Rightarrow> 'p \<Rightarrow> (gerr, 'p option) result) \<Rightarrow> 'p option list \<Rightarrow> 'd \<times> 'p supervisor \<Rightarrow> ('d \<times> 'p supervisor) \<times> 'p list" where
  "path_run read enq qt wr [] x = (x, [])"
| "path_run read enq qt wr (None # ops) x = path_run read enq qt wr ops (pump_turn read qt wr x)"
| "path_run read enq qt wr (Some p # ops) x =
     (case enq p (fst x) of
        None \<Rightarrow> path_run read enq qt wr ops x
      | Some d \<Rightarrow> apsnd ((#) p) (path_run read enq qt wr ops (d, snd x)))"

definition notify_enqueue :: "octet list \<Rightarrow> net_tun \<Rightarrow> net_tun option" where
  "notify_enqueue p t = (case WriteNotify (Some p) t of (t', NotifySent) \<Rightarrow> Some t' | _ \<Rightarrow> None)"

text \<open>A session's connection that takes every packet.\<close>

definition takes_all :: "(nat \<Rightarrow> 'p \<Rightarrow> (gerr, 'p option) result) \<Rightarrow> bool" where
  "takes_all wr \<longleftrightarrow> (\<forall>k p. is_ok (wr k p))"

section \<open>The interface of the forwarding\<close>

locale tunnel_device =
  fixes read :: "'d \<Rightarrow> ('d \<times> (gerr, 'p list) result) option"
    and enq :: "'p \<Rightarrow> 'd \<Rightarrow> 'd option"
    and queue :: "'d \<Rightarrow> 'p list"
    and ok :: "'d \<Rightarrow> bool"
    and fits :: "'p \<Rightarrow> bool"
  assumes read_packets: "ok d \<Longrightarrow> read d = Some (d', Inr ps) \<Longrightarrow> queue d = ps @ queue d' \<and> ok d'"
    and read_no_error: "ok d \<Longrightarrow> read d \<noteq> Some (d', Inl e)"
    and enqueued: "ok d \<Longrightarrow> fits p \<Longrightarrow> enq p d = Some d' \<Longrightarrow> queue d' = queue d @ [p] \<and> ok d'"
begin

text \<open>A session that is active and not ended.\<close>

definition serving :: "nat \<Rightarrow> 'p supervisor \<Rightarrow> bool" where
  "serving i s \<longleftrightarrow> sv_active s = Some i \<and> \<not> session_done s i"

lemma write_batch_all:
  assumes "takes_all wr" "serving i s"
  shows "sv_sent (write_batch (\<lambda>_ s. s) wr i k ps s) = sv_sent s @ map (Pair i) ps \<and> serving i (write_batch (\<lambda>_ s. s) wr i k ps s)"
  using assms(2)
proof (induction ps arbitrary: k s)
  case (Cons p ps)
  obtain icmp where w: "wr k p = Inr icmp" using assms(1) by (auto simp: takes_all_def is_ok_iff)
  let ?s1 = "s\<lparr>sv_sent := sv_sent s @ [(i, p)]\<rparr>"
  let ?s2 = "case icmp of None \<Rightarrow> ?s1
     | Some q \<Rightarrow> if length (sv_icmp ?s1) < icmp_cap then ?s1\<lparr>sv_icmp := sv_icmp ?s1 @ [q]\<rparr> else ?s1"
  have "serving i ?s2" "sv_sent ?s2 = sv_sent s @ [(i, p)]"
    using Cons.prems by (auto simp: serving_def session_done_def split: option.splits)
  then show ?case
    using Cons.IH [of ?s2 "Suc k"] w by (simp add: Let_def)
qed simp

lemma pump_turn_forwards:
  assumes "takes_all wr" "serving i s" "ok d" "pump_turn read qt wr (d, s) = (d', s')"
  shows "\<exists>ps. queue d = ps @ queue d' \<and> sv_sent s' = sv_sent s @ map (Pair i) ps \<and> serving i s' \<and> ok d'"
proof (cases "read d")
  case None
  then show ?thesis using assms by (auto simp: pump_turn_def)
next
  case (Some dr)
  obtain d1 r where dr: "dr = (d1, r)" by fastforce
  show ?thesis
  proof (cases r)
    case (Inl e)
    then show ?thesis using read_no_error [OF assms(3), of d1 e] Some dr by simp
  next
    case (Inr ps)
    have "\<not> sv_cancelled s" using assms(2) by (simp add: serving_def session_done_def)
    then have "s' = write_batch (\<lambda>_ s. s) wr i 0 ps s" "d' = d1"
      using assms(2,4) Some dr Inr by (auto simp: pump_turn_def device_to_ip_def serving_def)
    then show ?thesis
      using write_batch_all [OF assms(1,2)] read_packets [OF assms(3), of d1 ps] Some dr Inr by blast
  qed
qed

lemma path_run_forwards:
  assumes "takes_all wr" "serving i s" "ok d" "\<forall>p. Some p \<in> set ops \<longrightarrow> fits p"
    "path_run read enq qt wr ops (d, s) = ((d', s'), taken)"
  shows "\<exists>sent. sv_sent s' = sv_sent s @ map (Pair i) sent \<and> queue d @ taken = sent @ queue d'"
  using assms(2-5)
proof (induction ops arbitrary: d s taken)
  case Nil
  then show ?case by simp
next
  case (Cons opn ops)
  show ?case
  proof (cases opn)
    case None
    obtain d1 s1 where turn: "pump_turn read qt wr (d, s) = (d1, s1)" by fastforce
    then obtain ps where "queue d = ps @ queue d1" "sv_sent s1 = sv_sent s @ map (Pair i) ps" "serving i s1" "ok d1"
      using pump_turn_forwards [OF assms(1) Cons.prems(1,2)] by blast
    then show ?thesis
      using Cons.IH [of s1 d1 taken] Cons.prems(3,4) None turn by auto
  next
    case (Some p)
    show ?thesis
    proof (cases "enq p d")
      case None
      then show ?thesis using Cons Some by auto
    next
      case (Some d1)
      then have "queue d1 = queue d @ [p]" "ok d1"
        using enqueued [of d p d1] Cons.prems(2,3) \<open>opn = Some p\<close> by auto
      moreover obtain rest where "path_run read enq qt wr ops (d1, s) = ((d', s'), rest)" "taken = p # rest"
        using Cons.prems(4) Some \<open>opn = Some p\<close> by (auto simp: apsnd_def map_prod_def split: prod.splits)
      ultimately show ?thesis
        using Cons.IH [of s d1 rest] Cons.prems(1,3) by auto
    qed
  qed
qed

end

section \<open>The device behind the adapter\<close>

definition sized :: "nat \<Rightarrow> octet list \<Rightarrow> bool" where
  "sized m p \<longleftrightarrow> p \<noteq> [] \<and> length p \<le> m"

text \<open>An open device whose packets fit the buffers, with a stack that copies packets whole.\<close>

definition device_ok :: "view_read \<Rightarrow> nat \<Rightarrow> net_tun \<Rightarrow> bool" where
  "device_ok rd m t \<longleftrightarrow> whole_views rd \<and> nt_open t \<and> list_all (sized m) (nt_queue t)"

lemma readBatch_queue:
  assumes "device_ok rd m t"
  shows "readBatch rd m t = (if nt_queue t = [] then None
    else Some (t\<lparr>nt_queue := drop batchSize (nt_queue t)\<rparr>, Inr (take batchSize (nt_queue t))))"
proof -
  have "read_drain rd (replicate batchSize m) (nt_queue t) = (take batchSize (nt_queue t), None, drop batchSize (nt_queue t))"
    using assms read_drain_whole [of rd "replicate batchSize m" m "nt_queue t"] by (simp add: device_ok_def sized_def [abs_def])
  then show ?thesis
    using assms by (simp add: readBatch_def adapter_ReadPackets_def adapter_BatchSize_def tun_Read_def device_ok_def batchSize_def)
qed

interpretation adapter: tunnel_device "readBatch rd m" notify_enqueue nt_queue "device_ok rd m" "sized m" for rd m
proof
  fix d d' ps
  assume "device_ok rd m d" "readBatch rd m d = Some (d', Inr ps)"
  then show "nt_queue d = ps @ nt_queue d' \<and> device_ok rd m d'"
    by (auto simp: readBatch_queue device_ok_def list_all_iff split: if_splits) (meson in_set_dropD)
next
  fix d d' e
  assume "device_ok rd m d"
  then show "readBatch rd m d \<noteq> Some (d', Inl e)"
    by (simp add: readBatch_queue)
next
  fix d d' p
  assume "device_ok rd m d" "sized m p" "notify_enqueue p d = Some d'"
  then show "nt_queue d' = nt_queue d @ [p] \<and> device_ok rd m d'"
    by (auto simp: notify_enqueue_def WriteNotify_def device_ok_def split: if_splits)
qed

section \<open>Properties\<close>



end
