(* ===== verification/Masque.thy ===== *)
theory Masque
  imports Tunnel Endpoints
begin

text \<open>
  Opening the connect-ip session, \<open>src/api/masque.go\<close>: the check of the pinned key, one HTTP/3 dial with
  the sockets it owns, the retry, the HTTP/2 client. What the transports and the connect-ip package
  return is the argument \<open>mq_env\<close>, by the number of the call; the open sockets, QUIC connections, HTTP/3
  transports, HTTP/2 clients and connect-ip connections are sets of numbers.
\<close>

section \<open>The pinned key\<close>

text \<open>A certificate of the peer as it parses: not at all, with an ECDSA key, or with another kind of key.\<close>

datatype 'k peer_cert = BadCert gerr | EcdsaCert 'k | OtherCert

datatype cert_error = CertParse gerr | ErrUnsupportedAlgorithm | CertificateInvalid string

definition VerifyPeerCertificate :: "'k \<Rightarrow> 'k peer_cert list \<Rightarrow> cert_error option" where
  "VerifyPeerCertificate peerPubKey rawCerts =
     (case rawCerts of
        [] \<Rightarrow> None
      | BadCert e # _ \<Rightarrow> Some (CertParse e)
      | OtherCert # _ \<Rightarrow> Some ErrUnsupportedAlgorithm
      | EcdsaCert k # _ \<Rightarrow>
          if k \<noteq> peerPubKey
          then Some (CertificateInvalid ''remote endpoint has a different public key than what we trust in config.json'')
          else None)"

record ('k, 'p, 'c) tls_config =
  tc_Certificate :: 'c
  tc_PrivateKey :: 'p
  tc_ServerName :: string
  tc_NextProtos :: "string list"
  tc_InsecureSkipVerify :: bool
  tc_Verify :: "'k peer_cert list \<Rightarrow> cert_error option"

definition PrepareTlsConfig :: "'p \<Rightarrow> 'k \<Rightarrow> 'c \<Rightarrow> string \<Rightarrow> ('k, 'p, 'c) tls_config" where
  "PrepareTlsConfig privKey peerPubKey cert sni =
     \<lparr>tc_Certificate = cert, tc_PrivateKey = privKey, tc_ServerName = sni, tc_NextProtos = [''h3''],
      tc_InsecureSkipVerify = True, tc_Verify = VerifyPeerCertificate peerPubKey\<rparr>"

section \<open>Connections\<close>

record mq_world =
  mq_tick :: nat
  mq_udp :: "nat set"
  mq_quic :: "nat set"
  mq_tr :: "nat set"
  mq_h2 :: "nat set"
  mq_ip :: "nat set"
  mq_dials :: nat

record mq_env =
  me_listen :: "nat \<Rightarrow> ip \<Rightarrow> gerr option"
  me_quic :: "nat \<Rightarrow> gerr option"
  me_connectip :: "nat \<Rightarrow> (gerr, int \<times> string) result"
  me_parseURI :: "string \<Rightarrow> (gerr, string \<times> string \<times> string) result"
  me_configureH2 :: "gerr option"
  me_connectipH2 :: "nat \<Rightarrow> (gerr, int \<times> string) result"
  me_text :: "gerr \<Rightarrow> string"

text \<open>The socket and the transport a session owns, and the response.\<close>

record mq_session =
  ms_udp :: "nat option"
  ms_transport :: nat
  ms_h2 :: bool
  ms_response :: "int \<times> string"

text \<open>
  \<open>CloseCause\<close>: a transport without connection has none, else it is the cause the connection's context ended with.
\<close>

definition CloseCause :: "gerr option option option \<Rightarrow> gerr option" where
  "CloseCause t = (case t of Some (Some cause) \<Rightarrow> cause | _ \<Rightarrow> None)"

definition connectTunnelHTTP3 :: "mq_env \<Rightarrow> ip \<Rightarrow> mq_world \<Rightarrow> mq_world \<times> (gerr, mq_session) result" where
  "connectTunnelHTTP3 env endpointIP w =
     (let k = mq_tick w; w0 = w\<lparr>mq_tick := Suc k, mq_dials := Suc (mq_dials w)\<rparr>;
          bindIP = (if To4 endpointIP = None then replicate 16 0 else replicate 4 0) in
      case me_listen env k bindIP of
        Some e \<Rightarrow> (w0, Inl e)
      | None \<Rightarrow>
          let w1 = w0\<lparr>mq_udp := insert k (mq_udp w0)\<rparr> in
          (case me_quic env k of
             Some e \<Rightarrow> (w1\<lparr>mq_udp := mq_udp w1 - {k}\<rparr>, Inl e)
           | None \<Rightarrow>
               let w2 = w1\<lparr>mq_quic := insert k (mq_quic w1), mq_tr := insert k (mq_tr w1)\<rparr> in
               (case me_connectip env k of
                  Inl e \<Rightarrow>
                    (w2\<lparr>mq_tr := mq_tr w2 - {k}, mq_quic := mq_quic w2 - {k}, mq_udp := mq_udp w2 - {k}\<rparr>, Inl e)
                | Inr rsp \<Rightarrow>
                    (w2\<lparr>mq_ip := insert k (mq_ip w2)\<rparr>, Inr \<lparr>ms_udp = Some k, ms_transport = k, ms_h2 = False, ms_response = rsp\<rparr>))))"

definition isRetryableHTTP3ConnectFailure :: "(gerr \<Rightarrow> string) \<Rightarrow> gerr option \<Rightarrow> bool" where
  "isRetryableHTTP3ConnectFailure txt err =
     (case err of
        None \<Rightarrow> False
      | Some e \<Rightarrow> Contains (txt e) ''failed to read response'' \<and> Contains (txt e) ''PROTOCOL_VIOLATION'')"

definition login_failed :: gerr where
  "login_failed = EText ''login failed! Please double-check if your tls key and cert is enrolled in the Cloudflare Access service''"

definition access_denied :: "(gerr \<Rightarrow> string) \<Rightarrow> gerr \<Rightarrow> bool" where
  "access_denied txt e = Contains (txt e) ''tls: access denied''"

text \<open>The loop of at most two attempts.\<close>

fun http3_attempts :: "mq_env \<Rightarrow> ip \<Rightarrow> nat \<Rightarrow> gerr \<Rightarrow> mq_world \<Rightarrow> mq_world \<times> (gerr, mq_session) result" where
  "http3_attempts env endpointIP 0 lastErr w = (w, Inl (EWrap ''failed to dial connect-ip: '' lastErr []))"
| "http3_attempts env endpointIP (Suc n) lastErr w =
     (case connectTunnelHTTP3 env endpointIP w of
        (w1, Inr s) \<Rightarrow> (w1, Inr s)
      | (w1, Inl e) \<Rightarrow>
          if access_denied (me_text env) e then (w1, Inl login_failed)
          else if \<not> isRetryableHTTP3ConnectFailure (me_text env) (Some e)
          then (w1, Inl (EWrap ''failed to dial connect-ip: '' e []))
          else http3_attempts env endpointIP n e w1)"

text \<open>\<open>u\<close> is the parsed URI: its host name, port and host part.\<close>

definition authorityWithDefaultPort :: "(string \<times> string \<times> string) option \<Rightarrow> string \<Rightarrow> string" where
  "authorityWithDefaultPort u defaultPort =
     (case u of
        None \<Rightarrow> []
      | Some (hostname, port, host) \<Rightarrow>
          if hostname = [] then host
          else JoinHostPort hostname (if port = [] then defaultPort else port))"

text \<open>The client and the address its dialer turns a requested address into.\<close>

definition newHTTP2Client :: "mq_env \<Rightarrow> string \<Rightarrow> string \<Rightarrow> mq_world \<Rightarrow> mq_world \<times> (gerr, nat \<times> (string \<Rightarrow> string)) result" where
  "newHTTP2Client env endpoint connectURI w =
     (case me_parseURI env connectURI of
        Inl e \<Rightarrow> (w, Inl (EWrap ''failed to parse connect URI: '' e []))
      | Inr u \<Rightarrow>
          (case me_configureH2 env of
             Some e \<Rightarrow> (w, Inl (EWrap ''failed to configure HTTP/2 transport: '' e []))
           | None \<Rightarrow>
               let k = mq_tick w in
               (w\<lparr>mq_tick := Suc k, mq_h2 := insert k (mq_h2 w)\<rparr>,
                Inr (k, \<lambda>addr. if addr = authorityWithDefaultPort (Some u) ''443'' then endpoint else addr))))"

definition ConnectTunnel :: "mq_env \<Rightarrow> string \<Rightarrow> net_addr option \<Rightarrow> (net_addr \<Rightarrow> string) \<Rightarrow> bool \<Rightarrow> mq_world
    \<Rightarrow> mq_world \<times> (gerr, mq_session) result" where
  "ConnectTunnel env connectUri endpoint addr_text useHTTP2 w =
     (if useHTTP2 then
        (case endpoint of
           Some (TCPAddrOf i p) \<Rightarrow>
             (case newHTTP2Client env (addr_text (TCPAddrOf i p)) connectUri w of
                (w1, Inl e) \<Rightarrow> (w1, Inl (EWrap ''failed to create HTTP/2 client: '' e []))
              | (w1, Inr (k, _)) \<Rightarrow>
                  let w2 = w1\<lparr>mq_dials := Suc (mq_dials w1)\<rparr> in
                  (case me_connectipH2 env k of
                     Inl e \<Rightarrow>
                       (w2\<lparr>mq_h2 := mq_h2 w2 - {k}\<rparr>,
                        Inl (if access_denied (me_text env) e then login_failed
                             else EWrap ''failed to dial connect-ip over HTTP/2: '' e []))
                   | Inr rsp \<Rightarrow> (w2\<lparr>mq_ip := insert k (mq_ip w2)\<rparr>, Inr \<lparr>ms_udp = None, ms_transport = k, ms_h2 = True, ms_response = rsp\<rparr>)))
         | _ \<Rightarrow> (w, Inl (EText ''HTTP/2 mode requires a TCP endpoint'')))
      else
        (case endpoint of
           Some (UDPAddrOf i p) \<Rightarrow> http3_attempts env i 2 (EText []) w
         | _ \<Rightarrow> (w, Inl (EText ''HTTP/3 mode requires a UDP endpoint''))))"

section \<open>Lemmas\<close>

text \<open>The numbers in use are below the next one.\<close>

definition mq_inv :: "mq_world \<Rightarrow> bool" where
  "mq_inv w = (\<forall>k \<in> mq_udp w \<union> mq_quic w \<union> mq_tr w \<union> mq_h2 w \<union> mq_ip w. k < mq_tick w)"

definition same_open :: "mq_world \<Rightarrow> mq_world \<Rightarrow> bool" where
  "same_open w w' = (mq_udp w' = mq_udp w \<and> mq_quic w' = mq_quic w \<and> mq_tr w' = mq_tr w \<and> mq_h2 w' = mq_h2 w \<and> mq_ip w' = mq_ip w)"

definition holds_one :: "mq_session \<Rightarrow> mq_world \<Rightarrow> mq_world \<Rightarrow> bool" where
  "holds_one s w w' =
     (let k = ms_transport s in
      k \<notin> mq_udp w \<union> mq_quic w \<union> mq_tr w \<union> mq_h2 w \<union> mq_ip w \<and> mq_ip w' = insert k (mq_ip w) \<and>
      (if ms_h2 s then ms_udp s = None \<and> mq_udp w' = mq_udp w \<and> mq_quic w' = mq_quic w \<and> mq_tr w' = mq_tr w \<and>
         mq_h2 w' = insert k (mq_h2 w)
       else ms_udp s = Some k \<and> mq_udp w' = insert k (mq_udp w) \<and> mq_quic w' = insert k (mq_quic w) \<and>
         mq_tr w' = insert k (mq_tr w) \<and> mq_h2 w' = mq_h2 w))"

lemma http3_once:
  assumes "mq_inv w" "connectTunnelHTTP3 env i w = (w', r)"
  shows "mq_inv w' \<and> mq_dials w' = Suc (mq_dials w) \<and> (case r of Inl _ \<Rightarrow> same_open w w' | Inr s \<Rightarrow> holds_one s w w' \<and> \<not> ms_h2 s)"
proof -
  let ?k = "mq_tick w" and ?ip = "if To4 i = None then replicate 16 0 else replicate 4 0"
  have k: "?k \<notin> mq_udp w" "?k \<notin> mq_quic w" "?k \<notin> mq_tr w" "?k \<notin> mq_h2 w" "?k \<notin> mq_ip w" using assms(1) by (auto simp: mq_inv_def)
  have lt: "\<forall>j \<in> mq_udp w \<union> mq_quic w \<union> mq_tr w \<union> mq_h2 w \<union> mq_ip w. j < Suc ?k"
    using assms(1) unfolding mq_inv_def by (meson less_SucI)
  note defs = connectTunnelHTTP3_def mq_inv_def same_open_def holds_one_def Let_def
  show ?thesis
  proof (cases "me_listen env ?k ?ip")
    case (Some e)
    then show ?thesis using assms(2) lt by (auto simp: defs)
  next
    case l: None
    show ?thesis
    proof (cases "me_quic env ?k")
      case (Some e)
      then have "w' = w\<lparr>mq_tick := Suc ?k, mq_dials := Suc (mq_dials w)\<rparr>" "r = Inl e" using assms(2) l k by (auto simp: defs)
      then show ?thesis using lt by (simp add: defs)
    next
      case q: None
      show ?thesis
      proof (cases "me_connectip env ?k")
        case (Inl e)
        then have "w' = w\<lparr>mq_tick := Suc ?k, mq_dials := Suc (mq_dials w)\<rparr>" "r = Inl e" using assms(2) l q k by (auto simp: defs)
        then show ?thesis using lt by (simp add: defs)
      next
        case (Inr rsp)
        then have "w' = w\<lparr>mq_tick := Suc ?k, mq_dials := Suc (mq_dials w), mq_udp := insert ?k (mq_udp w),
            mq_quic := insert ?k (mq_quic w), mq_tr := insert ?k (mq_tr w), mq_ip := insert ?k (mq_ip w)\<rparr>"
          "r = Inr \<lparr>ms_udp = Some ?k, ms_transport = ?k, ms_h2 = False, ms_response = rsp\<rparr>" using assms(2) l q by (auto simp: defs)
        then show ?thesis using lt k by (simp add: defs)
      qed
    qed
  qed
qed

lemma same_open_trans: "same_open w w1 \<Longrightarrow> same_open w1 w2 \<Longrightarrow> same_open w w2"
  by (simp add: same_open_def)

lemma holds_one_trans: "same_open w w1 \<Longrightarrow> holds_one s w1 w2 \<Longrightarrow> holds_one s w w2"
  by (simp add: same_open_def holds_one_def Let_def)

lemma http3_attempts_facts:
  assumes "mq_inv w" "http3_attempts env i n e0 w = (w', r)"
  shows "mq_inv w' \<and> (case r of Inl _ \<Rightarrow> same_open w w' | Inr s \<Rightarrow> holds_one s w w' \<and> \<not> ms_h2 s) \<and> mq_dials w' \<le> mq_dials w + n"
  using assms
proof (induction n arbitrary: w e0)
  case 0
  then show ?case by (auto simp: same_open_def)
next
  case (Suc n)
  obtain w1 r1 where c: "connectTunnelHTTP3 env i w = (w1, r1)" by fastforce
  note f = http3_once [OF Suc.prems(1) c]
  show ?case
  proof (cases r1)
    case (Inr s)
    then show ?thesis using Suc.prems(2) c f by auto
  next
    case (Inl e)
    show ?thesis
    proof (cases "access_denied (me_text env) e \<or> \<not> isRetryableHTTP3ConnectFailure (me_text env) (Some e)")
      case True
      then show ?thesis using Suc.prems(2) c f Inl by (auto split: if_splits)
    next
      case False
      then have h: "http3_attempts env i n e w1 = (w', r)" using Suc.prems(2) c Inl by simp
      from f Inl have w1: "mq_inv w1" "mq_dials w1 = Suc (mq_dials w)" "same_open w w1" by simp_all
      from Suc.IH [OF w1(1) h] w1(2,3) show ?thesis by (auto split: sum.splits intro: same_open_trans holds_one_trans)
    qed
  qed
qed

lemma http2_client:
  assumes "mq_inv w" "newHTTP2Client env ep uri w = (w', r)"
  shows "mq_inv w' \<and> mq_dials w' = mq_dials w \<and>
    (case r of Inl _ \<Rightarrow> same_open w w'
     | Inr (k, _) \<Rightarrow> k \<notin> mq_udp w \<union> mq_quic w \<union> mq_tr w \<union> mq_h2 w \<union> mq_ip w \<and> w' = w\<lparr>mq_tick := Suc k, mq_h2 := insert k (mq_h2 w)\<rparr>)"
proof -
  have "mq_tick w \<notin> mq_udp w \<union> mq_quic w \<union> mq_tr w \<union> mq_h2 w \<union> mq_ip w" using assms(1) by (auto simp: mq_inv_def)
  moreover have "mq_inv (w\<lparr>mq_tick := Suc (mq_tick w), mq_h2 := insert (mq_tick w) (mq_h2 w)\<rparr>)"
    using assms(1) by (auto simp: mq_inv_def less_Suc_eq)
  ultimately show ?thesis using assms
    by (auto simp: newHTTP2Client_def same_open_def Let_def split: sum.splits option.splits)
qed

lemma ConnectTunnel_facts:
  assumes "mq_inv w" "ConnectTunnel env uri endpoint addr_text useHTTP2 w = (w', r)"
  shows "mq_inv w' \<and> (case r of Inl _ \<Rightarrow> same_open w w' | Inr s \<Rightarrow> holds_one s w w' \<and> ms_h2 s = useHTTP2) \<and> mq_dials w' \<le> mq_dials w + 2"
proof (cases useHTTP2)
  case False
  show ?thesis
  proof (cases "\<exists>i p. endpoint = Some (UDPAddrOf i p)")
    case True
    then obtain i where "http3_attempts env i 2 (EText []) w = (w', r)" using assms(2) False by (auto simp: ConnectTunnel_def)
    from http3_attempts_facts [OF assms(1) this] False show ?thesis by (auto split: sum.splits)
  next
    case bad: False
    then have "w' = w" "\<exists>e. r = Inl e" using assms(2) False by (auto simp: ConnectTunnel_def split: option.splits net_addr.splits)
    then show ?thesis using assms(1) by (auto simp: same_open_def)
  qed
next
  case True
  show ?thesis
  proof (cases "\<exists>i p. endpoint = Some (TCPAddrOf i p)")
    case False
    then have "w' = w" "\<exists>e. r = Inl e" using assms(2) True by (auto simp: ConnectTunnel_def split: option.splits net_addr.splits)
    then show ?thesis using assms(1) by (auto simp: same_open_def)
  next
    case tcp: True
    then obtain i p where ep: "endpoint = Some (TCPAddrOf i p)" by blast
    obtain w1 r1 where c: "newHTTP2Client env (addr_text (TCPAddrOf i p)) uri w = (w1, r1)" by fastforce
    note f = http2_client [OF assms(1) c]
    show ?thesis
    proof (cases r1)
      case (Inl e)
      then show ?thesis using assms(2) True ep c f by (auto simp: ConnectTunnel_def)
    next
      case (Inr kf)
      obtain k g where kf: "kf = (k, g)" by fastforce
      with Inr f have k: "k \<notin> mq_h2 w" "k \<notin> mq_udp w" "k \<notin> mq_quic w" "k \<notin> mq_tr w" "k \<notin> mq_ip w"
        "w1 = w\<lparr>mq_tick := Suc k, mq_h2 := insert k (mq_h2 w)\<rparr>" by auto
      have inv: "mq_inv (w1\<lparr>mq_dials := d, mq_ip := insert k (mq_ip w1)\<rparr>)" "mq_inv (w1\<lparr>mq_dials := d, mq_h2 := mq_h2 w1 - {k}\<rparr>)" for d
        using f Inr kf by (auto simp: mq_inv_def)
      show ?thesis
      proof (cases "me_connectipH2 env k")
        case (Inl e)
        then show ?thesis using assms(2) True ep c Inr kf k inv by (auto simp: ConnectTunnel_def same_open_def Let_def)
      next
        case rsp: (Inr rsp)
        then show ?thesis using assms(2) True ep c Inr kf k inv by (auto simp: ConnectTunnel_def holds_one_def Let_def)
      qed
    qed
  qed
qed

section \<open>Properties\<close>

text \<open>
  opening a session leaks nothing: a failed attempt, at whatever step and after a retry or not, leaves the
  same sockets, connections and transports open as before it; a session that is opened owns
  exactly one new transport and one connect-ip connection, over HTTP/3 with one socket and one QUIC connection, over HTTP/2 without;
  at most two dials are made.
\<close>

theorem ConnectTunnel_no_leak:
  assumes "mq_inv w" "ConnectTunnel env uri endpoint addr_text useHTTP2 w = (w', r)"
  shows "(case r of Inl _ \<Rightarrow> same_open w w' | Inr s \<Rightarrow> holds_one s w w' \<and> ms_h2 s = useHTTP2) \<and> mq_dials w' \<le> mq_dials w + 2"
  using ConnectTunnel_facts [OF assms] by simp

definition retry_env :: mq_env where
  "retry_env = \<lparr>me_listen = (\<lambda>_ _. None), me_quic = (\<lambda>_. None),
     me_connectip = (\<lambda>k. if k = 0 then Inl (EText ''failed to read response: PROTOCOL_VIOLATION'') else Inr (200, ''200 OK'')),
     me_parseURI = (\<lambda>_. Inl ECanceled), me_configureH2 = None, me_connectipH2 = (\<lambda>_. Inl ECanceled),
     me_text = (\<lambda>e. case e of EText s \<Rightarrow> s | _ \<Rightarrow> [])\<rparr>"

definition empty_mq :: mq_world where
  "empty_mq = \<lparr>mq_tick = 0, mq_udp = {}, mq_quic = {}, mq_tr = {}, mq_h2 = {}, mq_ip = {}, mq_dials = 0\<rparr>"

theorem ConnectTunnel_no_leak_witness:
  "\<exists>w' s. ConnectTunnel retry_env [] (Some (UDPAddrOf [1, 2, 3, 4] 443)) (\<lambda>_. []) False empty_mq = (w', Inr s) \<and>
     holds_one s empty_mq w' \<and> mq_dials w' = 2"
proof -
  have c: "Contains ''failed to read response: PROTOCOL_VIOLATION'' ''failed to read response''"
      "Contains ''failed to read response: PROTOCOL_VIOLATION'' ''PROTOCOL_VIOLATION''"
      "\<not> Contains ''failed to read response: PROTOCOL_VIOLATION'' ''tls: access denied''" by code_simp+
  then obtain w' s where t: "ConnectTunnel retry_env [] (Some (UDPAddrOf [1, 2, 3, 4] 443)) (\<lambda>_. []) False empty_mq = (w', Inr s)"
      "mq_dials w' = 2"
    by (simp add: ConnectTunnel_def numeral_2_eq_2 connectTunnelHTTP3_def retry_env_def empty_mq_def access_denied_def
        isRetryableHTTP3ConnectFailure_def Let_def)
  have "mq_inv empty_mq" by (simp add: mq_inv_def empty_mq_def)
  from ConnectTunnel_no_leak [OF this t(1)] t show ?thesis by auto
qed

end
