(* ===== verification/Ec_Keys.thy ===== *)
theory Ec_Keys
  imports Proxy_Run Startup Masque Netstack
begin

text \<open>
  The ECDSA keys and the TLS setup: \<open>GenerateEcKeyPair\<close>, \<open>GenerateCert\<close> and \<open>DefaultQuicConfig\<close> of
  \<open>src/internal/utils.go\<close>, \<open>GetEcPrivateKey\<close> and \<open>GetEcEndpointPublicKey\<close> of \<open>src/config/config.go\<close>, and the setup
  of the proxy on them. The packages \<open>crypto/ecdsa\<close>, \<open>crypto/x509\<close> and \<open>encoding/pem\<close> are the argument \<open>x509_env\<close>.
\<close>

section \<open>Keys\<close>

text \<open>\<open>xe_ParsePKIX\<close> gives \<open>None\<close> for a public key of another kind; \<open>xe_now\<close> the clock at the two readings of it.\<close>

record ('k, 'p, 'c) x509_env =
  xe_GenerateKey :: "(gerr, 'k) result"
  xe_Public :: "'k \<Rightarrow> 'p"
  xe_MarshalEC :: "'k \<Rightarrow> (gerr, byte list) result"
  xe_MarshalPKIX :: "'p \<Rightarrow> (gerr, byte list) result"
  xe_ParseEC :: "byte list \<Rightarrow> (gerr, 'k) result"
  xe_pem :: "string \<Rightarrow> byte list option"
  xe_ParsePKIX :: "byte list \<Rightarrow> (gerr, 'p option) result"
  xe_CreateCertificate :: "int \<Rightarrow> int \<Rightarrow> 'p \<Rightarrow> 'k \<Rightarrow> (gerr, 'c) result"
  xe_now :: "nat \<Rightarrow> int"
  xe_text :: "gerr \<Rightarrow> string"
  xe_b64_error :: "string \<Rightarrow> gerr"

definition GetEcPrivateKey :: "('k, 'p, 'c) x509_env \<Rightarrow> Config \<Rightarrow> (gerr, 'k) result" where
  "GetEcPrivateKey x cfg =
     (case b64_decode (PrivateKey cfg) of
        None \<Rightarrow> Inl (EText (''failed to decode private key: '' @ xe_text x (xe_b64_error x (PrivateKey cfg))))
      | Some privKeyB64 \<Rightarrow> map_err (\<lambda>e. EText (''failed to parse private key: '' @ xe_text x e)) (xe_ParseEC x privKeyB64))"

definition GetEcEndpointPublicKey :: "('k, 'p, 'c) x509_env \<Rightarrow> Config \<Rightarrow> (gerr, 'p) result" where
  "GetEcEndpointPublicKey x cfg =
     (case xe_pem x (EndpointPubKey cfg) of
        None \<Rightarrow> Inl (EText ''failed to decode endpoint public key'')
      | Some b \<Rightarrow>
          (case xe_ParsePKIX x b of
             Inl e \<Rightarrow> Inl (EText (''failed to parse public key: '' @ xe_text x e))
           | Inr None \<Rightarrow> Inl (EText ''failed to assert public key as ECDSA'')
           | Inr (Some ecPubKey) \<Rightarrow> Inr ecPubKey))"

definition GenerateEcKeyPair :: "('k, 'p, 'c) x509_env \<Rightarrow> (gerr, byte list \<times> byte list) result" where
  "GenerateEcKeyPair x =
     bind_res (xe_GenerateKey x) (\<lambda>privKey.
     bind_res (xe_MarshalEC x privKey) (\<lambda>marshalledPrivKey.
     bind_res (xe_MarshalPKIX x (xe_Public x privKey)) (\<lambda>marshalledPubKey.
       Inr (marshalledPrivKey, marshalledPubKey))))"

text \<open>The certificate is for the public half of the private key, whatever the second argument.\<close>

definition GenerateCert :: "('k, 'p, 'c) x509_env \<Rightarrow> 'k \<Rightarrow> 'p \<Rightarrow> (gerr, 'c list) result" where
  "GenerateCert x privKey pubKey =
     bind_res (xe_CreateCertificate x (xe_now x 0) (xe_now x 1 + 1 * 24 * (60 * Minute)) (xe_Public x privKey) privKey) (\<lambda>cert. Inr [cert])"

record masque_quic_config =
  qc_EnableDatagrams :: bool
  qc_InitialPacketSize :: nat
  qc_KeepAlivePeriod :: duration

definition DefaultQuicConfig :: "duration \<Rightarrow> nat \<Rightarrow> masque_quic_config" where
  "DefaultQuicConfig keepalivePeriod initialPacketSize =
     \<lparr>qc_EnableDatagrams = True, qc_InitialPacketSize = initialPacketSize, qc_KeepAlivePeriod = keepalivePeriod\<rparr>"

section \<open>The setup on the modelled parts\<close>

definition real_tls :: "('k, 'p, 'c) x509_env \<Rightarrow> stack_env \<Rightarrow> ('k, 'p, 'c list, ('p, 'k, 'c list) tls_config) tls_env" where
  "real_tls x se =
     \<lparr>te_GetEcPrivateKey = GetEcPrivateKey x, te_GetEcEndpointPublicKey = GetEcEndpointPublicKey x,
      te_GenerateCert = (\<lambda>k. GenerateCert x k (xe_Public x k)),
      te_PrepareTlsConfig = (\<lambda>k p c sni. Inr (PrepareTlsConfig k p c sni)),
      te_CreateNetTUN = (\<lambda>las ds mtu. case CreateNetTUN se las ds mtu of Inl e \<Rightarrow> Some e | Inr _ \<Rightarrow> None),
      te_text = xe_text x\<rparr>"

section \<open>Lemmas\<close>

lemma VerifyPeerCertificate_iff: "VerifyPeerCertificate p certs = None \<longleftrightarrow> certs = [] \<or> hd certs = EcdsaCert p"
  by (cases certs) (auto simp: VerifyPeerCertificate_def split: peer_cert.splits)

lemma tls_with_sni_pins:
  assumes "tls_with_sni (real_tls x se) cfg sni = Inr t"
  shows "\<exists>k p. GetEcPrivateKey x cfg = Inr k \<and> GetEcEndpointPublicKey x cfg = Inr p \<and> tc_PrivateKey t = k
    \<and> tc_ServerName t = sni \<and> (\<forall>certs. tc_Verify t certs = None \<longleftrightarrow> certs = [] \<or> hd certs = EcdsaCert p)"
  using assms
  by (auto simp: tls_with_sni_def real_tls_def bind_res_eq_Inr PrepareTlsConfig_def VerifyPeerCertificate_iff)

lemma setup_tls:
  assumes "setupAndRunSocksProxy te ce file l4env cfg overrides saved = Inr plan"
  shows "\<exists>sni. tls_with_sni te cfg sni = Inr (pp_tls plan)"
proof (cases "L4 (Socks cfg)")
  case False
  obtain ct it where "getTimeoutSettings cfg = (ct, it)" by (cases "getTimeoutSettings cfg")
  then have "prepareTlsConfig te cfg = Inr (pp_tls plan)"
    using assms False by (auto simp: setupAndRunSocksProxy_def bind_res_eq_Inr Let_def split: option.splits)
  then show ?thesis by (auto simp: prepareTlsConfig_def)
next
  case True
  obtain ct it where "getL4TimeoutSettings cfg = (ct, it)" by (cases "getL4TimeoutSettings cfg")
  then have "prepareL4TlsConfig te cfg = Inr (pp_tls plan)"
    using assms True by (auto simp: setupAndRunSocksProxy_def setup_l4_def bind_res_eq_Inr Let_def split: if_splits)
  then show ?thesis by (auto simp: prepareL4TlsConfig_def)
qed

lemma register_account_key:
  assumes "register_account y fl mode lic jwt s = (s', Inr cfg)"
  shows "\<exists>priv pub. sy_keypair y = Inr (priv, pub) \<and> PrivateKey cfg = b64_encode priv"
  using assms
  by (auto simp: register_account_def registered_config_def InitNewConfig_def Let_def bind_res_eq_Inr
      split: sum.splits prod.splits list.splits)

definition sample_x509 :: "(nat, nat, nat) x509_env" where
  "sample_x509 = \<lparr>xe_GenerateKey = Inr 7, xe_Public = (\<lambda>k. k + 1), xe_MarshalEC = (\<lambda>k. if k = 7 then Inr [1, 2, 3] else Inl (EText [])),
     xe_MarshalPKIX = (\<lambda>_. Inr [4, 5, 6]), xe_ParseEC = (\<lambda>b. Inr 7), xe_pem = (\<lambda>_. Some []),
     xe_ParsePKIX = (\<lambda>_. Inr (Some 9)), xe_CreateCertificate = (\<lambda>_ _ _ _. Inr 0), xe_now = (\<lambda>_. 0), xe_text = (\<lambda>_. []),
     xe_b64_error = (\<lambda>_. EText [])\<rparr>"

lemma sample_b64: "b64_decode ''key'' = None" "b64_encode [1, 2, 3] = ''AQID''"
  by code_simp+

lemma sample_decode: "b64_decode ''AQID'' = Some [1, 2, 3]"
  using b64_roundtrip [of "[1, 2, 3]"] by (simp only: sample_b64)

lemma sample_create: "\<exists>t. CreateNetTUN sample_stack las ds mtu = Inr t"
proof -
  have "\<exists>t. add_addresses sample_stack las dev = Inr t" for dev
    by (induction las arbitrary: dev) (auto simp: sample_stack_def Let_def)
  then show ?thesis
    by (auto simp: CreateNetTUN_def sample_stack_def tcp_options_def Let_def bind_res_def split: sum.splits) (metis sum.distinct(1))
qed

lemma sample_setup:
  "\<exists>tls. prepareTlsConfig (real_tls sample_x509 sample_stack) plain_config = Inr tls"
  "createTunDevice (real_tls sample_x509 sample_stack) las ds plain_config = None"
  using sample_create [of las ds "MTU (Socks plain_config)"]
  by (auto simp: prepareTlsConfig_def tls_with_sni_def real_tls_def GetEcPrivateKey_def GetEcEndpointPublicKey_def GenerateCert_def
      sample_x509_def plain_config_def sample_decode createTunDevice_def)

section \<open>Properties\<close>

text \<open>
  C15: The proxy talks to the pinned server with the registered key. In every mode, a setup that succeeds has a TLS configuration that authenticates with the
  private key of the configuration and, of the certificate chains a peer can present, accepts exactly those whose first certificate carries
  the ECDSA public key of the configuration; every other certificate, also one that does not parse or has another kind of key, fails the handshake.
\<close>

theorem proxy_pins_endpoint_key:
  assumes "setupAndRunSocksProxy (real_tls x se) ce file l4env cfg overrides saved = Inr plan"
  shows "\<exists>k p. GetEcPrivateKey x cfg = Inr k \<and> GetEcEndpointPublicKey x cfg = Inr p \<and> tc_PrivateKey (pp_tls plan) = k
    \<and> (\<forall>c certs. tc_Verify (pp_tls plan) (c # certs) = None \<longleftrightarrow> c = EcdsaCert p)"
proof -
  obtain sni where "tls_with_sni (real_tls x se) cfg sni = Inr (pp_tls plan)"
    using setup_tls [OF assms] by blast
  from tls_with_sni_pins [OF this] show ?thesis by fastforce
qed

theorem proxy_pins_endpoint_key_witness:
  "\<exists>plan. setupAndRunSocksProxy (real_tls sample_x509 sample_stack) (\<lambda>_. None) \<lparr>sf_path = [], sf_files = Map.empty, sf_fail = (\<lambda>_. False)\<rparr> ok_env
       plain_config [] False = Inr plan
     \<and> tc_PrivateKey (pp_tls plan) = 7 \<and> tc_Verify (pp_tls plan) [OtherCert] \<noteq> None"
proof -
  let ?te = "real_tls sample_x509 sample_stack" and ?file = "\<lparr>sf_path = [], sf_files = Map.empty, sf_fail = (\<lambda>_. False)\<rparr>"
  obtain plan where plan: "setupAndRunSocksProxy ?te (\<lambda>_. None) ?file ok_env plain_config [] False = Inr plan"
    using plain_setup_of sample_setup by metis
  have "GetEcPrivateKey sample_x509 plain_config = Inr 7"
    by (simp add: GetEcPrivateKey_def plain_config_def sample_x509_def sample_decode)
  then show ?thesis
    using proxy_pins_endpoint_key [OF plan] plan by fastforce
qed



text \<open>
  The errors of the key files are told apart: reading the private key fails exactly when the text is no Base64 or the bytes are no
  EC key, reading the pinned key exactly when the text is no PEM, the bytes are no public key or the key is not ECDSA, each
  with its own message.
\<close>

theorem key_errors:
  "(GetEcPrivateKey x cfg = Inl e \<longleftrightarrow>
      b64_decode (PrivateKey cfg) = None \<and> e = EText (''failed to decode private key: '' @ xe_text x (xe_b64_error x (PrivateKey cfg)))
      \<or> (\<exists>b e'. b64_decode (PrivateKey cfg) = Some b \<and> xe_ParseEC x b = Inl e' \<and> e = EText (''failed to parse private key: '' @ xe_text x e')))
   \<and> (GetEcEndpointPublicKey x cfg = Inl e \<longleftrightarrow>
      xe_pem x (EndpointPubKey cfg) = None \<and> e = EText ''failed to decode endpoint public key''
      \<or> (\<exists>b e'. xe_pem x (EndpointPubKey cfg) = Some b \<and> xe_ParsePKIX x b = Inl e' \<and> e = EText (''failed to parse public key: '' @ xe_text x e'))
      \<or> (\<exists>b. xe_pem x (EndpointPubKey cfg) = Some b \<and> xe_ParsePKIX x b = Inr None \<and> e = EText ''failed to assert public key as ECDSA''))"
  by (auto simp: GetEcPrivateKey_def GetEcEndpointPublicKey_def map_err_def split: option.splits sum.splits)

end
