(* ===== verification/Tunnel_Sessions.thy ===== *)
theory Tunnel_Sessions
  imports Masque Proxy_Run Forwarding
begin

text \<open>
  The maintenance loop of \<open>src/api/tunnel.go\<close> over the sessions \<open>ConnectTunnel\<close> of \<open>src/api/masque.go\<close> opens: what
  each attempt acquires, what the deferred functions of \<open>handleConnectionWithForwarding\<close> give back, and
  what is held while a session is up. The loop without its sockets is \<open>mt_step\<close> of \<open>Tunnel\<close>.
\<close>

section \<open>Sessions\<close>

text \<open>
  The deferred release: the connect-ip connection, the socket when there is one, then the transport. The QUIC
  connection itself is not closed on this path; it ends with its socket.
\<close>

definition session_release :: "mq_session \<Rightarrow> mq_world \<Rightarrow> mq_world" where
  "session_release s w =
     (let w0 = w\<lparr>mq_ip := mq_ip w - {ms_transport s}\<rparr>;
          w1 = (case ms_udp s of Some u \<Rightarrow> w0\<lparr>mq_udp := mq_udp w0 - {u}\<rparr> | None \<Rightarrow> w0) in
      if ms_h2 s then w1\<lparr>mq_h2 := mq_h2 w1 - {ms_transport s}\<rparr>
      else w1\<lparr>mq_tr := mq_tr w1 - {ms_transport s}\<rparr>)"

text \<open>The configuration of a loop whose endpoint is \<open>ep\<close>.\<close>

definition at_endpoint :: "net_addr option \<Rightarrow> ConnectionConfig \<Rightarrow> ConnectionConfig" where
  "at_endpoint ep cfg = cfg\<lparr>cc_Endpoint := map_option tunnel_endpoint ep\<rparr>"

text \<open>
  What an attempt sees of a session: the response, how the session ended and, over HTTP/3 only, the
  cause its QUIC connection was closed with.
\<close>

definition session_env :: "mq_session \<Rightarrow> session_end \<Rightarrow> gerr option \<Rightarrow> int \<Rightarrow> attempt_env" where
  "session_env s en cause now =
     \<lparr>ae_connect = Inr (ms_response s), ae_end = en,
      ae_cause = (if ms_h2 s then None else Some (CloseCause (Some (Some cause)))), ae_now = now\<rparr>"

definition refused_env :: "gerr \<Rightarrow> int \<Rightarrow> attempt_env" where
  "refused_env e now = \<lparr>ae_connect = Inl e, ae_end = FwdEnded None, ae_cause = None, ae_now = now\<rparr>"

definition open_session :: "mq_env \<Rightarrow> net_addr option \<Rightarrow> ConnectionConfig \<Rightarrow> mq_world \<Rightarrow> mq_world \<times> (gerr, mq_session) result" where
  "open_session env ep cfg w = ConnectTunnel env ConnectURI ep net_addr_string (cc_UseHTTP2 cfg) w"

section \<open>The loop\<close>

record tw =
  tw_mt :: mt
  tw_live :: "mq_session option"
  tw_world :: mq_world

definition tw_start :: "TunnelReconnectLog option \<Rightarrow> mq_world \<Rightarrow> tw" where
  "tw_start lg w = \<lparr>tw_mt = mt_start lg, tw_live = None, tw_world = w\<rparr>"

text \<open>
  An attempt stops at the check of the endpoint, at the dial, or at a response other than 200; or it brings a
  session up, which lives until the forwarding or the context ends. The other steps are those of the
  loop between attempts.
\<close>

inductive tw_step :: "mq_env \<Rightarrow> (gerr \<Rightarrow> string) \<Rightarrow> net_addr option \<Rightarrow> ConnectionConfig \<Rightarrow> tw \<Rightarrow> tw \<Rightarrow> bool" for env qt ep cfg where
  tw_between: "tw_live t = None \<Longrightarrow> mt_phase (tw_mt t) \<noteq> MtLoop \<or> m' = (tw_mt t)\<lparr>mt_phase := MtStopped\<rparr>
    \<Longrightarrow> mt_step qt (at_endpoint ep cfg) (tw_mt t) m' \<Longrightarrow> tw_step env qt ep cfg t (t\<lparr>tw_mt := m'\<rparr>)"
| tw_misconfigured: "tw_live t = None \<Longrightarrow> mt_phase (tw_mt t) = MtLoop \<Longrightarrow> endpoint_error (at_endpoint ep cfg) = Some e \<Longrightarrow> 0 \<le> rnd \<Longrightarrow> rnd < 1
    \<Longrightarrow> tw_step env qt ep cfg t (t\<lparr>tw_mt := attempt_step qt (at_endpoint ep cfg) (refused_env e now) cd rnd (tw_mt t)\<rparr>)"
| tw_refused: "tw_live t = None \<Longrightarrow> mt_phase (tw_mt t) = MtLoop \<Longrightarrow> endpoint_error (at_endpoint ep cfg) = None
    \<Longrightarrow> open_session env ep cfg (tw_world t) = (w, Inl e) \<Longrightarrow> 0 \<le> rnd \<Longrightarrow> rnd < 1
    \<Longrightarrow> tw_step env qt ep cfg t (t\<lparr>tw_mt := attempt_step qt (at_endpoint ep cfg) (refused_env e now) cd rnd (tw_mt t), tw_world := w\<rparr>)"
| tw_rejected: "tw_live t = None \<Longrightarrow> mt_phase (tw_mt t) = MtLoop \<Longrightarrow> endpoint_error (at_endpoint ep cfg) = None
    \<Longrightarrow> open_session env ep cfg (tw_world t) = (w, Inr s) \<Longrightarrow> fst (ms_response s) \<noteq> 200 \<Longrightarrow> 0 \<le> rnd \<Longrightarrow> rnd < 1
    \<Longrightarrow> tw_step env qt ep cfg t (t\<lparr>tw_mt := attempt_step qt (at_endpoint ep cfg) (session_env s (FwdEnded None) None now) cd rnd (tw_mt t),
          tw_world := session_release s w\<rparr>)"
| tw_connected: "tw_live t = None \<Longrightarrow> mt_phase (tw_mt t) = MtLoop \<Longrightarrow> endpoint_error (at_endpoint ep cfg) = None
    \<Longrightarrow> open_session env ep cfg (tw_world t) = (w, Inr s) \<Longrightarrow> fst (ms_response s) = 200
    \<Longrightarrow> tw_step env qt ep cfg t (t\<lparr>tw_live := Some s, tw_world := w\<rparr>)"
| tw_ended: "tw_live t = Some s \<Longrightarrow> mt_phase (tw_mt t) = MtLoop
    \<Longrightarrow> ctx_ended (session_env s en cause now) \<longrightarrow> cd \<Longrightarrow> 0 \<le> rnd \<Longrightarrow> rnd < 1
    \<Longrightarrow> tw_step env qt ep cfg t (t\<lparr>tw_mt := attempt_step qt (at_endpoint ep cfg) (session_env s en cause now) cd rnd (tw_mt t),
          tw_live := None, tw_world := session_release s (tw_world t)\<rparr>)"

inductive tw_reach :: "mq_env \<Rightarrow> (gerr \<Rightarrow> string) \<Rightarrow> net_addr option \<Rightarrow> ConnectionConfig \<Rightarrow> mq_world \<Rightarrow> tw \<Rightarrow> bool" for env qt ep cfg w0 where
  tw_init: "tw_reach env qt ep cfg w0 (tw_start lg w0)"
| tw_next: "tw_reach env qt ep cfg w0 t \<Longrightarrow> tw_step env qt ep cfg t t' \<Longrightarrow> tw_reach env qt ep cfg w0 t'"

section \<open>Lemmas\<close>

text \<open>What is held: the sockets, the QUIC connections over an open socket, the transports, the HTTP/2 clients, the connect-ip connections.\<close>

definition held :: "mq_world \<Rightarrow> nat set \<times> nat set \<times> nat set \<times> nat set \<times> nat set" where
  "held w = (mq_udp w, mq_quic w \<inter> mq_udp w, mq_tr w, mq_h2 w, mq_ip w)"

definition held_with :: "mq_session \<Rightarrow> mq_world \<Rightarrow> nat set \<times> nat set \<times> nat set \<times> nat set \<times> nat set" where
  "held_with s w =
     (let k = ms_transport s in
      if ms_h2 s then (mq_udp w, mq_quic w \<inter> mq_udp w, mq_tr w, insert k (mq_h2 w), insert k (mq_ip w))
      else (insert k (mq_udp w), insert k (mq_quic w \<inter> mq_udp w), insert k (mq_tr w), mq_h2 w, insert k (mq_ip w)))"

text \<open>The session is the only thing held beyond \<open>w0\<close>, and nothing of \<open>w0\<close> is part of it.\<close>

definition owns :: "mq_session \<Rightarrow> mq_world \<Rightarrow> mq_world \<Rightarrow> bool" where
  "owns s w0 w =
     (let k = ms_transport s in
      ms_udp s = (if ms_h2 s then None else Some k) \<and> k \<notin> mq_udp w0 \<union> mq_tr w0 \<union> mq_h2 w0 \<union> mq_ip w0 \<and> held w = held_with s w0)"

definition dials :: "tn_event list \<Rightarrow> nat" where
  "dials evs = length (filter (\<lambda>e. e = EvDial) evs)"

lemma same_open_held: "same_open w w' \<Longrightarrow> held w' = held w"
  by (simp add: same_open_def held_def)

lemma holds_one_owns: "held w = held w0 \<Longrightarrow> holds_one s w w' \<Longrightarrow> owns s w0 w'"
  by (cases "ms_h2 s") (auto simp: holds_one_def owns_def held_def held_with_def Let_def)

lemma inter_released:
  assumes "A \<inter> insert k B = insert k (C \<inter> B)" "k \<notin> B"
  shows "A \<inter> B = C \<inter> B"
proof -
  have "A \<inter> B = A \<inter> insert k B - {k}" using assms(2) by auto
  also have "\<dots> = C \<inter> B" using assms by auto
  finally show ?thesis .
qed

lemma owns_released:
  assumes "owns s w0 w"
  shows "held (session_release s w) = held w0"
proof (cases "ms_h2 s")
  case True
  with assms show ?thesis by (auto simp: owns_def held_def held_with_def session_release_def Let_def)
next
  case False
  have fresh: "ms_transport s \<notin> mq_udp w0" using assms by (simp add: owns_def Let_def)
  have "held w = held_with s w0" using assms by (simp add: owns_def Let_def)
  with False have k: "mq_udp w = insert (ms_transport s) (mq_udp w0)"
    "mq_quic w \<inter> mq_udp w = insert (ms_transport s) (mq_quic w0 \<inter> mq_udp w0)"
    unfolding held_def held_with_def Let_def if_not_P [OF False] prod.inject by blast+
  have "mq_quic w \<inter> mq_udp w0 = mq_quic w0 \<inter> mq_udp w0" by (rule inter_released [OF k(2) [unfolded k(1)] fresh])
  with assms False k(1) fresh show ?thesis by (simp add: owns_def held_def held_with_def session_release_def Let_def)
qed

lemma session_release_inv: "mq_inv w \<Longrightarrow> mq_inv (session_release s w)"
  by (auto simp: mq_inv_def session_release_def Let_def split: option.split)

lemma session_release_dials [simp]: "mq_dials (session_release s w) = mq_dials w"
  by (simp add: session_release_def Let_def split: option.split)

lemma open_session_facts:
  assumes "mq_inv w" "held w = held w0" "open_session env ep cfg w = (w', r)"
  shows "mq_inv w'" "mq_dials w' \<le> mq_dials w + 2"
    "r = Inl e \<Longrightarrow> held w' = held w0" "r = Inr s \<Longrightarrow> owns s w0 w' \<and> ms_h2 s = cc_UseHTTP2 cfg"
  using ConnectTunnel_facts [OF assms(1), of env ConnectURI ep net_addr_string "cc_UseHTTP2 cfg" w' r] assms(2,3)
  by (auto simp: open_session_def same_open_held holds_one_owns)

lemma delays_no_dials: "set ds \<subseteq> range EvDelay \<Longrightarrow> dials ds = 0"
  by (induction ds) (auto simp: dials_def)

lemma dials_append [simp]: "dials (xs @ ys) = dials xs + dials ys"
  by (simp add: dials_def)

text \<open>An attempt that passes the check of the endpoint dials once, any other step does not.\<close>

lemma attempt_step_dials:
  "dials (mt_events (attempt_step qt cfg ae cd r m)) = dials (mt_events m) + (if endpoint_error cfg = None then 1 else 0)"
proof -
  obtain lg n err evs where h: "handleConnectionWithForwarding qt cfg ae (mt_log m) (mt_attempt m) = (lg, n, err, evs)"
    by (cases "handleConnectionWithForwarding qt cfg ae (mt_log m) (mt_attempt m)") auto
  have "dials evs = (if endpoint_error cfg = None then 1 else 0)"
  proof (cases "endpoint_error cfg")
    case None
    with h show ?thesis by (auto simp: handleConnectionWithForwarding_def dials_def Let_def split: sum.splits if_splits prod.splits)
  next
    case (Some e)
    with h have "evs = []" by (simp add: handleConnectionWithForwarding_def)
    with Some show ?thesis by (simp add: dials_def)
  qed
  with attempt_step_facts(2) [OF h, of cd r] show ?thesis by (auto simp: delays_no_dials)
qed

lemma mt_try_at: "mt_reach qt cfg m \<Longrightarrow> mt_phase m = MtLoop \<Longrightarrow> (ctx_ended ae \<Longrightarrow> cd) \<Longrightarrow> 0 \<le> rnd \<Longrightarrow> rnd < 1
    \<Longrightarrow> mt_reach qt cfg (attempt_step qt cfg ae cd rnd m)"
  by (rule mt_next, assumption, rule mt_try)

definition tw_inv :: "(gerr \<Rightarrow> string) \<Rightarrow> net_addr option \<Rightarrow> ConnectionConfig \<Rightarrow> mq_world \<Rightarrow> tw \<Rightarrow> bool" where
  "tw_inv qt ep cfg w0 t =
     (mt_reach qt (at_endpoint ep cfg) (tw_mt t) \<and> mq_inv (tw_world t) \<and>
      (case tw_live t of
         None \<Rightarrow> held (tw_world t) = held w0 \<and> mq_dials (tw_world t) \<le> mq_dials w0 + 2 * dials (mt_events (tw_mt t))
       | Some s \<Rightarrow> owns s w0 (tw_world t) \<and> ms_h2 s = cc_UseHTTP2 cfg \<and> fst (ms_response s) = 200 \<and>
           mt_phase (tw_mt t) = MtLoop \<and> endpoint_error (at_endpoint ep cfg) = None \<and>
           mq_dials (tw_world t) \<le> mq_dials w0 + 2 * Suc (dials (mt_events (tw_mt t)))))"

lemma tw_step_inv:
  assumes "tw_step env qt ep cfg t t'" "tw_inv qt ep cfg w0 t"
  shows "tw_inv qt ep cfg w0 t'"
  using assms(1)
proof (cases rule: tw_step.cases)
  case (tw_between m')
  have "dials (mt_events m') = dials (mt_events (tw_mt t))"
    using tw_between(4,3) by (cases rule: mt_step.cases) (auto simp: dials_def)
  with tw_between assms(2) show ?thesis by (auto simp: tw_inv_def intro: mt_next)
next
  case (tw_misconfigured e rnd now cd)
  with assms(2) show ?thesis
    by (auto simp: tw_inv_def attempt_step_dials refused_env_def ctx_ended_def intro!: mt_try_at)
next
  case (tw_refused w e rnd now cd)
  with assms(2) have i: "mq_inv (tw_world t)" "held (tw_world t) = held w0" by (simp_all add: tw_inv_def)
  from open_session_facts(1-3) [OF i tw_refused(5)] tw_refused assms(2) show ?thesis
    by (auto simp: tw_inv_def attempt_step_dials refused_env_def ctx_ended_def intro!: mt_try_at)
next
  case (tw_rejected w s rnd now cd)
  with assms(2) have i: "mq_inv (tw_world t)" "held (tw_world t) = held w0" by (simp_all add: tw_inv_def)
  from open_session_facts(1,2,4) [OF i tw_rejected(5)] tw_rejected assms(2) show ?thesis
    by (auto simp: tw_inv_def attempt_step_dials session_env_def ctx_ended_def session_release_inv owns_released intro!: mt_try_at)
next
  case (tw_connected w s)
  with assms(2) have i: "mq_inv (tw_world t)" "held (tw_world t) = held w0" by (simp_all add: tw_inv_def)
  from open_session_facts(1,2,4) [OF i tw_connected(5)] tw_connected assms(2) show ?thesis by (auto simp: tw_inv_def)
next
  case (tw_ended s en cause now cd rnd)
  with assms(2) show ?thesis
    by (auto simp: tw_inv_def attempt_step_dials session_release_inv owns_released intro!: mt_try_at)
qed

lemma tw_reach_inv: "tw_reach env qt ep cfg w0 t \<Longrightarrow> mq_inv w0 \<Longrightarrow> tw_inv qt ep cfg w0 t"
proof (induction rule: tw_reach.induct)
  case (tw_init lg)
  then show ?case by (simp add: tw_inv_def tw_start_def mt_init)
next
  case (tw_next t t')
  then show ?case by (blast intro: tw_step_inv)
qed

text \<open>
  \<open>handleConnection\<close> runs one attempt with a supervisor of its own, \<open>fwd\<close> being what the forwarding does to it, and
  closes it when the attempt returns.
\<close>

definition handleConnection ::
  "(gerr \<Rightarrow> string) \<Rightarrow> ConnectionConfig \<Rightarrow> attempt_env \<Rightarrow> ('p supervisor \<Rightarrow> 'p supervisor) \<Rightarrow> TunnelReconnectLog option \<Rightarrow> int
     \<Rightarrow> 'p supervisor \<times> TunnelReconnectLog option \<times> int \<times> gerr option \<times> tn_event list" where
  "handleConnection qt cfg ae fwd lg attempt =
     (sup_Close (fwd newForwardingSupervisor), handleConnectionWithForwarding qt cfg ae lg attempt)"

lemma handleConnection_closes:
  assumes "sv_reach (fwd newForwardingSupervisor)" "handleConnection qt cfg ae fwd lg n = (sv, r)" "se \<in> set (sv_sessions sv)"
  shows "sv_cancelled sv" "se_closeOnce se" "se_connCloses se = 1"
proof -
  have sv: "sv = sup_Close (fwd newForwardingSupervisor)" using assms(2) by (simp add: handleConnection_def)
  then have inv: "sv_inv sv" using sup_Close_inv [OF sv_reach_inv [OF assms(1)]] by simp
  show "sv_cancelled sv" by (simp add: sv sup_Close_def close_session_def Let_def split: option.split)
  have "sv_active sv = None" by (simp add: sv sup_Close_def close_session_def Let_def split: option.split)
  with inv assms(3) have "se_closeOnce se \<and> session_ok se" by (auto simp: sv_inv_def in_set_conv_nth list_all_length)
  then show "se_closeOnce se" "se_connCloses se = 1" by (auto simp: session_ok_def)
qed

section \<open>Properties\<close>

text \<open>
  C14: The maintenance loop over real sessions behaves as the loop alone, and owns at most one session
  at any time: between attempts exactly what was open before the loop is open, however
  the attempts ended (refused, retried, rejected by the response, lost, shut down); while a session is up it
  answered 200, has the transport of the mode and is all that is open in addition. No attempt dials more
  than twice.
\<close>

theorem maintained_tunnel_owns_one_session:
  assumes "mq_inv w0" "tw_reach env qt ep cfg w0 t"
  shows "mt_reach qt (at_endpoint ep cfg) (tw_mt t) \<and>
    (case tw_live t of
       None \<Rightarrow> held (tw_world t) = held w0
     | Some s \<Rightarrow> owns s w0 (tw_world t) \<and> ms_h2 s = cc_UseHTTP2 cfg \<and> fst (ms_response s) = 200) \<and>
    mq_dials (tw_world t) \<le> mq_dials w0 + 2 * (dials (mt_events (tw_mt t)) + (if tw_live t = None then 0 else 1))"
  using tw_reach_inv [OF assms(2,1)] by (auto simp: tw_inv_def split: option.splits)

text \<open>A run: the first answer is aborted, the retry brings the session up, then it is lost.\<close>

definition sample_ep :: net_addr where "sample_ep = UDPAddrOf [1, 2, 3, 4] 443"

definition sample_session :: mq_session where
  "sample_session = \<lparr>ms_udp = Some 1, ms_transport = 1, ms_h2 = False, ms_response = (200, ''200 OK'')\<rparr>"

definition up_world :: mq_world where
  "up_world = \<lparr>mq_tick = 2, mq_udp = {1}, mq_quic = {1}, mq_tr = {1}, mq_h2 = {}, mq_ip = {1}, mq_dials = 2\<rparr>"

lemma sample_open: "open_session retry_env (Some sample_ep) sample_conn empty_mq = (up_world, Inr sample_session)"
proof -
  have "Contains ''failed to read response: PROTOCOL_VIOLATION'' ''failed to read response''"
      "Contains ''failed to read response: PROTOCOL_VIOLATION'' ''PROTOCOL_VIOLATION''"
      "\<not> Contains ''failed to read response: PROTOCOL_VIOLATION'' ''tls: access denied''" by code_simp+
  then show ?thesis
    by (simp add: open_session_def ConnectTunnel_def numeral_2_eq_2 connectTunnelHTTP3_def retry_env_def empty_mq_def access_denied_def
        isRetryableHTTP3ConnectFailure_def sample_ep_def sample_conn_def up_world_def sample_session_def Let_def)
qed

abbreviation "up_state \<equiv> (tw_start None empty_mq)\<lparr>tw_live := Some sample_session, tw_world := up_world\<rparr>"

lemma sample_up: "tw_reach retry_env qt (Some sample_ep) sample_conn empty_mq up_state"
proof (rule tw_next [OF tw_init], rule tw_connected)
  show "open_session retry_env (Some sample_ep) sample_conn (tw_world (tw_start None empty_mq)) = (up_world, Inr sample_session)"
    by (simp add: tw_start_def sample_open)
qed (simp_all add: tw_start_def mt_start_def at_endpoint_def endpoint_error_def sample_ep_def sample_conn_def sample_session_def)

theorem maintained_tunnel_owns_one_session_witness:
  "owns sample_session empty_mq up_world \<and> mt_reach (\<lambda>_. []) (at_endpoint (Some sample_ep) sample_conn) (mt_start None)"
  using maintained_tunnel_owns_one_session [OF _ sample_up [of "\<lambda>_. []"]]
  by (simp add: tw_start_def mq_inv_def empty_mq_def)

end
