(* ===== verification/Net_Dns.thy ===== *)
theory Net_Dns
  imports Netstack "HOL-Library.Multiset"
begin

text \<open>
  Name lookups inside the tunnel, \<open>src/internal/netstack/tun.go\<close>: the check of domain names,
  requests, the checks of an answer, the exchange with one server, retries and the collection of the
  addresses of both families. The DNS message package is other code: its parser and
  builder are the argument \<open>dns_pkg\<close>, with the parser's state a type parameter. The sockets are the
  argument \<open>gonet\<close> of \<open>Netstack\<close>.
\<close>

section \<open>Errors\<close>

datatype sentinel =
    ErrNoSuchHost | ErrLameReferral | ErrCannotUnmarshalDNSMessage | ErrCannotMarshalDNSMessage
  | ErrServerMisbehaving | ErrInvalidDNSResponse | ErrNoAnswerFromDNSServer
  | ErrServerTemporarilyMisbehaving | ErrCanceled | ErrTimeout | ErrNumericPort
  | ErrNoSuitableAddress | ErrMissingAddress

fun sentinel_text :: "sentinel \<Rightarrow> string" where
  "sentinel_text ErrNoSuchHost = ''no such host''"
| "sentinel_text ErrLameReferral = ''lame referral''"
| "sentinel_text ErrCannotUnmarshalDNSMessage = ''cannot unmarshal DNS message''"
| "sentinel_text ErrCannotMarshalDNSMessage = ''cannot marshal DNS message''"
| "sentinel_text ErrServerMisbehaving = ''server misbehaving''"
| "sentinel_text ErrInvalidDNSResponse = ''invalid DNS response''"
| "sentinel_text ErrNoAnswerFromDNSServer = ''no answer from DNS server''"
| "sentinel_text ErrServerTemporarilyMisbehaving = ''server misbehaving''"
| "sentinel_text ErrCanceled = ''operation was canceled''"
| "sentinel_text ErrTimeout = ''i/o timeout''"
| "sentinel_text ErrNumericPort = ''port must be numeric''"
| "sentinel_text ErrNoSuitableAddress = ''no suitable address found''"
| "sentinel_text ErrMissingAddress = ''missing address''"

record dns_error =
  de_Err :: string
  de_Name :: string
  de_Server :: string
  de_IsTimeout :: bool
  de_IsTemporary :: bool
  de_IsNotFound :: bool

text \<open>
  Errors of an exchange as the code tells them apart: its own sentinels, the two errors of a context, a
  \<open>*net.OpError\<close> of a socket with its text and whether it is a timeout, another error of a socket likewise.
\<close>

datatype net_err =
    Sentinel sentinel
  | CtxCanceled
  | CtxDeadline
  | OpErr string bool
  | OtherErr string bool

fun err_string :: "net_err \<Rightarrow> string" where
  "err_string (Sentinel s) = sentinel_text s"
| "err_string CtxCanceled = ''context canceled''"
| "err_string CtxDeadline = ''context deadline exceeded''"
| "err_string (OpErr t _) = t"
| "err_string (OtherErr t _) = t"

text \<open>Whether the error is a \<open>net.Error\<close> with \<open>Timeout()\<close>, and whether it is a \<open>*net.OpError\<close>.\<close>

fun is_timeout :: "net_err \<Rightarrow> bool" where
  "is_timeout CtxDeadline = True"
| "is_timeout (OpErr _ t) = t"
| "is_timeout (OtherErr _ t) = t"
| "is_timeout _ = False"

fun is_op_error :: "net_err \<Rightarrow> bool" where
  "is_op_error (OpErr _ _) = True"
| "is_op_error _ = False"

text \<open>Errors of a lookup: a \<open>*net.DNSError\<close>, or the sentinel itself.\<close>

datatype lookup_err = LookupDNS dns_error | LookupErr sentinel

section \<open>Domain names\<close>

definition is_name_letter :: "char \<Rightarrow> bool" where
  "is_name_letter c = (is_lower c \<or> is_upper c \<or> c = CHR ''_'')"

fun domain_loop :: "string \<Rightarrow> char \<Rightarrow> bool \<Rightarrow> nat \<Rightarrow> bool" where
  "domain_loop [] prev nonNumeric partlen = (if prev = CHR ''-'' \<or> partlen > 63 then False else nonNumeric)"
| "domain_loop (c # s) prev nonNumeric partlen =
     (if is_name_letter c then domain_loop s c True (Suc partlen)
      else if is_digit c then domain_loop s c nonNumeric (Suc partlen)
      else if c = CHR ''-'' then (if prev = CHR ''.'' then False else domain_loop s c True (Suc partlen))
      else if c = CHR ''.'' then
        (if prev = CHR ''.'' \<or> prev = CHR ''-'' then False
         else if partlen > 63 \<or> partlen = 0 then False
         else domain_loop s c nonNumeric 0)
      else False)"

definition isDomainName :: "string \<Rightarrow> bool" where
  "isDomainName s =
     (let l = length s in
      if l = 0 \<or> l > 254 \<or> l = 254 \<and> s ! (l - 1) \<noteq> CHR ''.'' then False
      else domain_loop s CHR ''.'' False 0)"

section \<open>Messages\<close>

datatype rcode = RCodeSuccess | RCodeNameError | RCodeServerFailure | RCodeOther nat
datatype dns_type = TypeA | TypeAAAA | TypeOther nat
datatype dns_class = ClassINET | ClassOther nat

record dns_header =
  dh_ID :: "16 word"
  dh_Response :: bool
  dh_Authoritative :: bool
  dh_RecursionAvailable :: bool
  dh_Truncated :: bool
  dh_RCode :: rcode

record dns_question =
  dq_Name :: string
  dq_Type :: dns_type
  dq_Class :: dns_class

text \<open>What a parser call returns: a value, \<open>ErrSectionDone\<close>, or another error.\<close>

datatype 'a parsed = SectionDone | ParseFailed | Parsed 'a

text \<open>
  The package: the zero parser, \<open>Start\<close>, \<open>Question\<close>, \<open>SkipQuestion\<close>, \<open>AnswerHeader\<close> (the type of the answer),
  \<open>SkipAnswer\<close>, \<open>AResource\<close>, \<open>AAAAResource\<close>, \<open>NewName\<close>, and the builder: the message of one question with two
  bytes in front, or an error.
\<close>

record 'p dns_pkg =
  dp_zero :: 'p
  dp_Start :: "octet list \<Rightarrow> (dns_header \<times> 'p) option"
  dp_Question :: "'p \<Rightarrow> (dns_question \<times> 'p) option"
  dp_SkipQuestion :: "'p \<Rightarrow> unit parsed \<times> 'p"
  dp_AnswerHeader :: "'p \<Rightarrow> dns_type parsed \<times> 'p"
  dp_SkipAnswer :: "'p \<Rightarrow> bool \<times> 'p"
  dp_AResource :: "'p \<Rightarrow> octet list option \<times> 'p"
  dp_AAAAResource :: "'p \<Rightarrow> octet list option \<times> 'p"
  dp_NewName :: "string \<Rightarrow> string option"
  dp_build :: "16 word \<Rightarrow> dns_question \<Rightarrow> octet list option"

text \<open>\<open>binary.LittleEndian.Uint16\<close> of two random bytes.\<close>

definition randU16 :: "octet \<Rightarrow> octet \<Rightarrow> 16 word" where
  "randU16 b0 b1 = or (ucast b0) (push_bit 8 (ucast b1))"

definition newRequest :: "'p dns_pkg \<Rightarrow> octet \<times> octet \<Rightarrow> dns_question \<Rightarrow> (16 word \<times> octet list \<times> octet list) option" where
  "newRequest P rnd q =
     (let i = randU16 (fst rnd) (snd rnd) in
      case dp_build P i q of
        None \<Rightarrow> None
      | Some msg \<Rightarrow>
          let udpReq = drop 2 msg; l = length msg - 2 in
          Some (i, udpReq, [of_nat (l div 256), of_nat l] @ udpReq))"

text \<open>The bytes of two names in step; a byte of \<open>A-Z\<close> counts as its lower case.\<close>

definition fold_byte :: "char \<Rightarrow> char" where
  "fold_byte a = (if 65 \<le> code a \<and> code a \<le> 90 then char_of (code a + 32) else a)"

fun ascii_loop :: "string \<Rightarrow> string \<Rightarrow> bool" where
  "ascii_loop (a # x) (b # y) = (if fold_byte a \<noteq> fold_byte b then False else ascii_loop x y)"
| "ascii_loop _ _ = True"

definition equalASCIIName :: "string \<Rightarrow> string \<Rightarrow> bool" where
  "equalASCIIName x y = (if length x \<noteq> length y then False else ascii_loop x y)"

definition checkResponse :: "16 word \<Rightarrow> dns_question \<Rightarrow> dns_header \<Rightarrow> dns_question \<Rightarrow> bool" where
  "checkResponse reqID reqQues respHdr respQues =
     (if \<not> dh_Response respHdr then False
      else if reqID \<noteq> dh_ID respHdr then False
      else if dq_Type reqQues \<noteq> dq_Type respQues \<or> dq_Class reqQues \<noteq> dq_Class respQues
              \<or> \<not> equalASCIIName (dq_Name reqQues) (dq_Name respQues) then False
      else True)"

section \<open>Round trips\<close>

text \<open>
  A socket as the client sees it: the errors of \<open>SetDeadline\<close> and \<open>Write\<close>, the datagrams it reads, cut to the
  buffer, or the bytes of the stream, and the error of the read that gets nothing more.
\<close>

record dns_conn =
  dc_SetDeadline :: "int \<Rightarrow> net_err option"
  dc_Write :: "octet list \<Rightarrow> net_err option"
  dc_datagrams :: "octet list list"
  dc_stream :: "octet list"
  dc_late :: net_err

fun packet_loop :: "'p dns_pkg \<Rightarrow> 16 word \<Rightarrow> dns_question \<Rightarrow> net_err \<Rightarrow> octet list list \<Rightarrow> (net_err, 'p \<times> dns_header) result" where
  "packet_loop P i query late [] = Inl late"
| "packet_loop P i query late (b # bs) =
     (case dp_Start P (take 512 b) of
        None \<Rightarrow> packet_loop P i query late bs
      | Some (h, p) \<Rightarrow>
          (case dp_Question P p of
             None \<Rightarrow> packet_loop P i query late bs
           | Some (q, p1) \<Rightarrow>
               if \<not> checkResponse i query h q then packet_loop P i query late bs else Inr (p1, h)))"

definition dnsPacketRoundTrip :: "'p dns_pkg \<Rightarrow> dns_conn \<Rightarrow> 16 word \<Rightarrow> dns_question \<Rightarrow> octet list \<Rightarrow> (net_err, 'p \<times> dns_header) result" where
  "dnsPacketRoundTrip P c i query b =
     (case dc_Write c b of
        Some e \<Rightarrow> Inl e
      | None \<Rightarrow> packet_loop P i query (dc_late c) (dc_datagrams c))"

text \<open>The two reads of a length and of that many bytes; \<open>None\<close> when the stream ends before.\<close>

definition read_frame :: "octet list \<Rightarrow> octet list option" where
  "read_frame s =
     (case s of
        b0 # b1 # rest \<Rightarrow>
          let l = unat b0 * 256 + unat b1 in
          if length rest < l then None else Some (take l rest)
      | _ \<Rightarrow> None)"

definition dnsStreamRoundTrip :: "'p dns_pkg \<Rightarrow> dns_conn \<Rightarrow> 16 word \<Rightarrow> dns_question \<Rightarrow> octet list \<Rightarrow> (net_err, 'p \<times> dns_header) result" where
  "dnsStreamRoundTrip P c i query b =
     (case dc_Write c b of
        Some e \<Rightarrow> Inl e
      | None \<Rightarrow>
          (case read_frame (dc_stream c) of
             None \<Rightarrow> Inl (dc_late c)
           | Some m \<Rightarrow>
               (case dp_Start P m of
                  None \<Rightarrow> Inl (Sentinel ErrCannotUnmarshalDNSMessage)
                | Some (h, p) \<Rightarrow>
                    (case dp_Question P p of
                       None \<Rightarrow> Inl (Sentinel ErrCannotUnmarshalDNSMessage)
                     | Some (q, p1) \<Rightarrow>
                         if \<not> checkResponse i query h q then Inl (Sentinel ErrInvalidDNSResponse) else Inr (p1, h)))))"

section \<open>The exchange with one server\<close>

text \<open>
  The environment of a lookup: the package, the sockets, the random bytes, the clock and the deadline of the
  context. The world counts the dials and holds the open sockets and the dials made.
\<close>

record 'p dns_env =
  dx_pkg :: "'p dns_pkg"
  dx_net :: "(net_err, dns_conn) gonet"
  dx_rand :: "nat \<Rightarrow> octet \<times> octet"
  dx_now :: "nat \<Rightarrow> int"
  dx_deadline :: "int option"

record dns_world =
  dw_tick :: nat
  dw_open :: "nat set"
  dw_dials :: "(bool \<times> addr) list"

definition ctx_error :: "net_err \<Rightarrow> net_err" where
  "ctx_error e = (if e = CtxCanceled then Sentinel ErrCanceled else if e = CtxDeadline then Sentinel ErrTimeout else e)"

text \<open>\<open>context.WithDeadline\<close>: the earlier of the two.\<close>

definition with_deadline :: "int option \<Rightarrow> int \<Rightarrow> int" where
  "with_deadline dl t = (case dl of None \<Rightarrow> t | Some d \<Rightarrow> min d t)"

text \<open>One pass of the loop over UDP and TCP.\<close>

definition dns_exchange_leg :: "'p dns_env \<Rightarrow> addr \<Rightarrow> dns_question \<Rightarrow> 16 word \<Rightarrow> octet list \<Rightarrow> duration \<Rightarrow> bool \<Rightarrow> dns_world
    \<Rightarrow> dns_world \<times> (net_err, 'p \<times> dns_header) result" where
  "dns_exchange_leg E server q i req timeout useUDP w =
     (let k = dw_tick w;
          w0 = w\<lparr>dw_tick := Suc k, dw_dials := dw_dials w @ [(useUDP, server)]\<rparr>;
          d = with_deadline (dx_deadline E) (dx_now E k + timeout) in
      case (if useUDP then DialUDPAddrPort (dx_net E) k (NoAddr, 0) (server, 53)
            else DialContextTCPAddrPort (dx_net E) k (Some d) (server, 53)) of
        Inl e \<Rightarrow> (w0, Inl e)
      | Inr c \<Rightarrow>
          let w1 = w0\<lparr>dw_open := insert k (dw_open w0)\<rparr> in
          (case dc_SetDeadline c d of
             Some e \<Rightarrow> (w1, Inl e)
           | None \<Rightarrow>
               let r = (if useUDP then dnsPacketRoundTrip (dx_pkg E) c i q req else dnsStreamRoundTrip (dx_pkg E) c i q req);
                   w2 = w1\<lparr>dw_open := dw_open w1 - {k}\<rparr> in
               (case r of
                  Inl e \<Rightarrow> (w2, Inl (ctx_error e))
                | Inr (p, h) \<Rightarrow>
                    (case dp_SkipQuestion (dx_pkg E) p of
                       (SectionDone, p1) \<Rightarrow> (w2, Inr (p1, h))
                     | _ \<Rightarrow> (w2, Inl (Sentinel ErrInvalidDNSResponse))))))"

definition dns_exchange :: "'p dns_env \<Rightarrow> addr \<Rightarrow> dns_question \<Rightarrow> duration \<Rightarrow> dns_world \<Rightarrow> dns_world \<times> (net_err, 'p \<times> dns_header) result" where
  "dns_exchange E server q0 timeout w =
     (let q = q0\<lparr>dq_Class := ClassINET\<rparr> in
      case newRequest (dx_pkg E) (dx_rand E (dw_tick w)) q of
        None \<Rightarrow> (w, Inl (Sentinel ErrCannotMarshalDNSMessage))
      | Some (i, udpReq, tcpReq) \<Rightarrow>
          (case dns_exchange_leg E server q i udpReq timeout True w of
             (w1, Inl e) \<Rightarrow> (w1, Inl e)
           | (w1, Inr (p, h)) \<Rightarrow>
               if \<not> dh_Truncated h then (w1, Inr (p, h))
               else (case dns_exchange_leg E server q i tcpReq timeout False w1 of
                       (w2, Inl e) \<Rightarrow> (w2, Inl e)
                     | (w2, Inr (p, h)) \<Rightarrow>
                         if \<not> dh_Truncated h then (w2, Inr (p, h)) else (w2, Inl (Sentinel ErrNoAnswerFromDNSServer)))))"

definition checkHeader :: "'p dns_pkg \<Rightarrow> 'p \<Rightarrow> dns_header \<Rightarrow> 'p \<times> sentinel option" where
  "checkHeader P p h =
     (if dh_RCode h = RCodeNameError then (p, Some ErrNoSuchHost)
      else case dp_AnswerHeader P p of
        (ParseFailed, p1) \<Rightarrow> (p1, Some ErrCannotUnmarshalDNSMessage)
      | (r, p1) \<Rightarrow>
          (p1, if dh_RCode h = RCodeSuccess \<and> \<not> dh_Authoritative h \<and> \<not> dh_RecursionAvailable h \<and> r = SectionDone
               then Some ErrLameReferral
               else if dh_RCode h \<noteq> RCodeSuccess
               then (if dh_RCode h = RCodeServerFailure then Some ErrServerTemporarilyMisbehaving else Some ErrServerMisbehaving)
               else None))"

text \<open>The loop ends when the parser advances; a parser that does not makes it run forever, the value \<open>None\<close>.\<close>

partial_function (option) skipToAnswer :: "'p dns_pkg \<Rightarrow> dns_type \<Rightarrow> 'p \<Rightarrow> ('p \<times> sentinel option) option" where
  "skipToAnswer P qtype p =
     (case dp_AnswerHeader P p of
        (SectionDone, p1) \<Rightarrow> Some (p1, Some ErrNoSuchHost)
      | (ParseFailed, p1) \<Rightarrow> Some (p1, Some ErrCannotUnmarshalDNSMessage)
      | (Parsed ty, p1) \<Rightarrow>
          if ty = qtype then Some (p1, None)
          else (case dp_SkipAnswer P p1 of
                  (ok, p2) \<Rightarrow>
                    if \<not> ok then Some (p2, Some ErrCannotUnmarshalDNSMessage) else skipToAnswer P qtype p2))"

definition dns_err :: "string \<Rightarrow> string \<Rightarrow> string \<Rightarrow> dns_error" where
  "dns_err e name server =
     \<lparr>de_Err = e, de_Name = name, de_Server = server, de_IsTimeout = False, de_IsTemporary = False, de_IsNotFound = False\<rparr>"

text \<open>The servers still to be asked, in order; the last error so far.\<close>

fun try_loop :: "'p dns_env \<Rightarrow> string \<Rightarrow> dns_question \<Rightarrow> addr list \<Rightarrow> lookup_err option \<Rightarrow> dns_world
    \<Rightarrow> (dns_world \<times> (lookup_err, 'p \<times> string) result) option" where
  "try_loop E name q [] lastErr w =
     Some (w, case lastErr of None \<Rightarrow> Inr (dp_zero (dx_pkg E), []) | Some e \<Rightarrow> Inl e)"
| "try_loop E name q (server # servers) lastErr w =
     (case dns_exchange E server q (5 * Second) w of
        (w1, Inl err) \<Rightarrow>
          try_loop E name q servers
            (Some (LookupDNS ((dns_err (err_string err) name (AddrString server))
               \<lparr>de_IsTimeout := is_timeout err, de_IsTemporary := is_op_error err\<rparr>))) w1
      | (w1, Inr (p, h)) \<Rightarrow>
          (case checkHeader (dx_pkg E) p h of
             (p1, Some s) \<Rightarrow>
               let e = (dns_err (sentinel_text s) name (AddrString server))
                         \<lparr>de_IsTemporary := (s = ErrServerTemporarilyMisbehaving), de_IsNotFound := (s = ErrNoSuchHost)\<rparr> in
               if s = ErrNoSuchHost then Some (w1, Inl (LookupDNS e))
               else try_loop E name q servers (Some (LookupDNS e)) w1
           | (p1, None) \<Rightarrow>
               (case skipToAnswer (dx_pkg E) (dq_Type q) p1 of
                  None \<Rightarrow> None
                | Some (p2, None) \<Rightarrow> Some (w1, Inr (p2, AddrString server))
                | Some (p2, Some s) \<Rightarrow>
                    let e = (dns_err (sentinel_text s) name (AddrString server))\<lparr>de_IsNotFound := (s = ErrNoSuchHost)\<rparr> in
                    if s = ErrNoSuchHost then Some (w1, Inl (LookupDNS e))
                    else try_loop E name q servers (Some (LookupDNS e)) w1)))"

definition tryOneName :: "'p dns_env \<Rightarrow> addr list \<Rightarrow> string \<Rightarrow> dns_type \<Rightarrow> dns_world
    \<Rightarrow> (dns_world \<times> (lookup_err, 'p \<times> string) result) option" where
  "tryOneName E servers name qtype w =
     (case dp_NewName (dx_pkg E) name of
        None \<Rightarrow> Some (w, Inl (LookupErr ErrCannotMarshalDNSMessage))
      | Some n \<Rightarrow>
          try_loop E name \<lparr>dq_Name = n, dq_Type = qtype, dq_Class = ClassINET\<rparr> (concat (replicate 2 servers)) None w)"

section \<open>Looking a host up\<close>

text \<open>The loop over the answers of one lane: the addresses of both families and the last error.\<close>

partial_function (option) collect_loop :: "'p dns_pkg \<Rightarrow> dns_error \<Rightarrow> 'p \<Rightarrow> addr list \<Rightarrow> addr list \<Rightarrow> lookup_err option
    \<Rightarrow> (addr list \<times> addr list \<times> lookup_err option) option" where
  "collect_loop P bad p addrsV4 addrsV6 lastErr =
     (case dp_AnswerHeader P p of
        (SectionDone, p1) \<Rightarrow> Some (addrsV4, addrsV6, lastErr)
      | (ParseFailed, p1) \<Rightarrow> Some (addrsV4, addrsV6, Some (LookupDNS bad))
      | (Parsed ty, p1) \<Rightarrow>
          (case ty of
             TypeA \<Rightarrow>
               (case dp_AResource P p1 of
                  (r, p2) \<Rightarrow>
                    (case r of
                       None \<Rightarrow> Some (addrsV4, addrsV6, Some (LookupDNS bad))
                     | Some b \<Rightarrow> collect_loop P bad p2 (addrsV4 @ [Addr4 b]) addrsV6 lastErr))
           | TypeAAAA \<Rightarrow>
               (case dp_AAAAResource P p1 of
                  (r, p2) \<Rightarrow>
                    (case r of
                       None \<Rightarrow> Some (addrsV4, addrsV6, Some (LookupDNS bad))
                     | Some b \<Rightarrow> collect_loop P bad p2 addrsV4 (addrsV6 @ [Addr6 b []]) lastErr))
           | TypeOther n \<Rightarrow>
               (case dp_SkipAnswer P p1 of
                  (ok, p2) \<Rightarrow>
                    if \<not> ok then Some (addrsV4, addrsV6, Some (LookupDNS bad))
                    else collect_loop P bad p2 addrsV4 addrsV6 lastErr)))"

text \<open>The lanes in the order their results arrive.\<close>

fun collect_lanes :: "'p dns_pkg \<Rightarrow> string \<Rightarrow> (lookup_err, 'p \<times> string) result list \<Rightarrow> addr list \<Rightarrow> addr list \<Rightarrow> lookup_err option
    \<Rightarrow> (addr list \<times> addr list \<times> lookup_err option) option" where
  "collect_lanes P host [] addrsV4 addrsV6 lastErr = Some (addrsV4, addrsV6, lastErr)"
| "collect_lanes P host (Inl e # lanes) addrsV4 addrsV6 lastErr =
     collect_lanes P host lanes addrsV4 addrsV6 (if lastErr = None then Some e else lastErr)"
| "collect_lanes P host (Inr (p, server) # lanes) addrsV4 addrsV6 lastErr =
     (case collect_loop P (dns_err (sentinel_text ErrCannotMarshalDNSMessage) host server) p addrsV4 addrsV6 lastErr of
        None \<Rightarrow> None
      | Some (v4, v6, le) \<Rightarrow> collect_lanes P host lanes v4 v6 le)"

definition lookup_literal :: "string \<Rightarrow> addr option" where
  "lookup_literal host =
     (let zlen = (if IndexByte host CHR '':'' \<noteq> None
                  then (case LastIndexByte host CHR ''%'' of Some zidx \<Rightarrow> zidx | None \<Rightarrow> length host)
                  else length host) in
      case ParseAddr (take zlen host) of Inr a \<Rightarrow> Some a | Inl _ \<Rightarrow> None)"

text \<open>What follows once the lanes have returned, in their order of arrival.\<close>

definition lookup_result :: "'p dns_pkg \<Rightarrow> bool \<Rightarrow> string \<Rightarrow> (lookup_err, 'p \<times> string) result list \<Rightarrow> (lookup_err, string list) result option" where
  "lookup_result P hasV6 host lanes =
     (case collect_lanes P host lanes [] [] None of
        None \<Rightarrow> None
      | Some (addrsV4, addrsV6, lastErr) \<Rightarrow>
          let addrs = (if hasV6 then addrsV6 @ addrsV4 else addrsV4 @ addrsV6) in
          Some (if addrs = [] \<and> lastErr \<noteq> None then Inl (the lastErr) else Inr (map AddrString addrs)))"

text \<open>A lane: the lookup of one type, none when the device has no address of the family.\<close>

definition lane_of :: "bool \<Rightarrow> 'p dns_env \<Rightarrow> addr list \<Rightarrow> string \<Rightarrow> dns_type \<Rightarrow> dns_world
    \<Rightarrow> (dns_world \<times> (lookup_err, 'p \<times> string) result list) option" where
  "lane_of has E servers name qtype w =
     (if has then map_option (apsnd (\<lambda>r. [r])) (tryOneName E servers name qtype w) else Some (w, []))"

text \<open>
  Each lane has its own sockets and world. \<open>v6_arrives_first\<close>: the order in which the lanes deliver.
\<close>

definition LookupContextHost :: "net_tun \<Rightarrow> 'p dns_env \<Rightarrow> 'p dns_env \<Rightarrow> bool \<Rightarrow> string \<Rightarrow> dns_world \<times> dns_world
    \<Rightarrow> ((dns_world \<times> dns_world) \<times> (lookup_err, string list) result) option" where
  "LookupContextHost t E4 E6 v6_arrives_first host w =
     (let notFound = LookupDNS ((dns_err (sentinel_text ErrNoSuchHost) host [])\<lparr>de_IsNotFound := True\<rparr>) in
      if host = [] \<or> \<not> nt_hasV6 t \<and> \<not> nt_hasV4 t then Some (w, Inl notFound)
      else case lookup_literal host of
        Some a \<Rightarrow> Some (w, Inr [AddrString a])
      | None \<Rightarrow>
          if \<not> isDomainName host then Some (w, Inl notFound)
          else
            (case lane_of (nt_hasV4 t) E4 (nt_dns t) (host @ ''.'') TypeA (fst w) of
               None \<Rightarrow> None
             | Some (w4, lane4) \<Rightarrow>
                 (case lane_of (nt_hasV6 t) E6 (nt_dns t) (host @ ''.'') TypeAAAA (snd w) of
                    None \<Rightarrow> None
                  | Some (w6, lane6) \<Rightarrow>
                      map_option (Pair (w4, w6))
                        (lookup_result (dx_pkg E4) (nt_hasV6 t) host (if v6_arrives_first then lane6 @ lane4 else lane4 @ lane6)))))"

text \<open>\<open>LookupHost\<close> is the lookup with the background context, which has no deadline.\<close>

definition LookupHost :: "net_tun \<Rightarrow> 'p dns_env \<Rightarrow> 'p dns_env \<Rightarrow> bool \<Rightarrow> string \<Rightarrow> dns_world \<times> dns_world
    \<Rightarrow> ((dns_world \<times> dns_world) \<times> (lookup_err, string list) result) option" where
  "LookupHost t E4 E6 v6_arrives_first host w =
     LookupContextHost t (E4\<lparr>dx_deadline := None\<rparr>) (E6\<lparr>dx_deadline := None\<rparr>) v6_arrives_first host w"

section \<open>Names\<close>

lemma fold_byte_lower: "fold_byte = lower_char"
  by (rule ext) (simp add: fold_byte_def lower_char_def is_upper_def)

lemma ascii_loop_iff: "length x = length y \<Longrightarrow> ascii_loop x y \<longleftrightarrow> ToLower x = ToLower y"
  by (induction x y rule: ascii_loop.induct) (auto simp: fold_byte_lower)

lemma equalASCIIName_ToLower: "equalASCIIName x y \<longleftrightarrow> ToLower x = ToLower y"
  using ascii_loop_iff [of x y] by (auto simp: equalASCIIName_def dest: arg_cong [where f = length])

text \<open>The syntax of a label, and a reference definition of domain names over the labels.\<close>

definition label_char :: "char \<Rightarrow> bool" where
  "label_char c \<longleftrightarrow> is_name_letter c \<or> is_digit c \<or> c = CHR ''-''"

definition label_ok :: "string \<Rightarrow> bool" where
  "label_ok l \<longleftrightarrow> l \<noteq> [] \<and> length l \<le> 63 \<and> list_all label_char l \<and> hd l \<noteq> CHR ''-'' \<and> last l \<noteq> CHR ''-''"

definition labels_ok :: "string list \<Rightarrow> bool" where
  "labels_ok ls \<longleftrightarrow> list_all label_ok (butlast ls) \<and> (last ls = [] \<or> label_ok (last ls))"

definition non_numeric :: "string \<Rightarrow> bool" where
  "non_numeric s \<longleftrightarrow> (\<exists>c \<in> set s. is_name_letter c \<or> c = CHR ''-'')"

definition prev_of :: "string \<Rightarrow> char" where
  "prev_of cur = (if cur = [] then CHR ''.'' else last cur)"

definition prefix_ok :: "string \<Rightarrow> bool" where
  "prefix_ok cur \<longleftrightarrow> list_all label_char cur \<and> (cur \<noteq> [] \<longrightarrow> hd cur \<noteq> CHR ''-'')"

definition with_prefix :: "string \<Rightarrow> string list \<Rightarrow> string list" where
  "with_prefix cur ls = (cur @ hd ls) # tl ls"

lemma split_byte_not_Nil [simp]: "split_byte c s \<noteq> []"
  by (cases s) (auto split: list.splits)

lemma with_prefix_Cons:
  "c \<noteq> CHR ''.'' \<Longrightarrow> with_prefix cur (split_byte CHR ''.'' (c # s)) = with_prefix (cur @ [c]) (split_byte CHR ''.'' s)"
  by (auto simp: with_prefix_def split: list.splits)

lemma with_prefix_dot:
  "labels_ok (with_prefix cur (split_byte CHR ''.'' (CHR ''.'' # s))) \<longleftrightarrow>
     label_ok cur \<and> labels_ok (with_prefix [] (split_byte CHR ''.'' s))"
  by (simp add: with_prefix_def labels_ok_def)

lemma dot_not_label [simp]: "\<not> label_char CHR ''.''" "\<not> is_name_letter CHR ''.''" "\<not> is_digit CHR ''.''"
    "\<not> is_name_letter CHR ''-''"
  by (simp_all add: label_char_def is_name_letter_def is_digit_def is_lower_def is_upper_def)

lemma prefix_ok_last: "prefix_ok cur \<Longrightarrow> cur \<noteq> [] \<Longrightarrow> last cur \<noteq> CHR ''.''"
  by (metis dot_not_label(1) last_in_set list_all_iff prefix_ok_def)

lemma label_ok_prefix:
  "prefix_ok cur \<Longrightarrow> label_ok cur \<longleftrightarrow> prev_of cur \<noteq> CHR ''.'' \<and> prev_of cur \<noteq> CHR ''-'' \<and> length cur \<noteq> 0 \<and> length cur \<le> 63"
  using prefix_ok_last [of cur] by (auto simp: label_ok_def prefix_ok_def prev_of_def)

lemma bad_label:
  assumes "\<not> prefix_ok cur" "cur \<noteq> []"
  shows "\<not> labels_ok (with_prefix cur ls)"
proof -
  have "\<not> label_ok (cur @ hd ls)"
    using assms by (auto simp: label_ok_def prefix_ok_def)
  then show ?thesis
    using assms(2) by (cases "tl ls = []") (auto simp: labels_ok_def with_prefix_def)
qed

lemma domain_loop_labels:
  "prefix_ok cur \<Longrightarrow>
   domain_loop s (prev_of cur) nn (length cur) \<longleftrightarrow>
     (nn \<or> non_numeric s) \<and> labels_ok (with_prefix cur (split_byte CHR ''.'' s))"
proof (induction s arbitrary: cur nn)
  case Nil
  then show ?case
    using label_ok_prefix [of cur] prefix_ok_last [of cur]
    by (cases "cur = []") (auto simp: with_prefix_def labels_ok_def non_numeric_def prev_of_def)
next
  case (Cons c s)
  have step: "domain_loop s c b (Suc (length cur)) \<longleftrightarrow>
      (b \<or> non_numeric s) \<and> labels_ok (with_prefix cur (split_byte CHR ''.'' (c # s)))"
    if "label_char c" "cur \<noteq> [] \<or> c \<noteq> CHR ''-''" for b
  proof -
    have "prefix_ok (cur @ [c])" "c \<noteq> CHR ''.''"
      using Cons.prems that by (auto simp: prefix_ok_def hd_append split: if_splits)
    then show ?thesis
      using Cons.IH [of "cur @ [c]" b] with_prefix_Cons [of c cur s] by (simp add: prev_of_def)
  qed
  have nn: "non_numeric (c # s) \<longleftrightarrow> is_name_letter c \<or> c = CHR ''-'' \<or> non_numeric s"
    by (auto simp: non_numeric_def)
  consider "is_name_letter c" | "is_digit c" "\<not> is_name_letter c" | "c = CHR ''-''" "cur = []" | "c = CHR ''-''" "cur \<noteq> []"
    | "c = CHR ''.''" | "\<not> label_char c" "c \<noteq> CHR ''.''"
    by (auto simp: label_char_def)
  then show ?case
  proof cases
    case 1
    moreover have "c \<noteq> CHR ''-''" using 1 by auto
    ultimately show ?thesis using step [of True] nn by (simp add: label_char_def del: split_byte.simps)
  next
    case 2
    moreover have "c \<noteq> CHR ''-''" using 2 by auto
    ultimately show ?thesis using step [of nn] nn by (simp add: label_char_def del: split_byte.simps)
  next
    case 3
    then show ?thesis
      using bad_label [of "[c]" "split_byte CHR ''.'' s"] with_prefix_Cons [of c cur s]
      by (simp add: prev_of_def prefix_ok_def is_digit_def)
  next
    case 4
    then show ?thesis
      using step [of True] nn prefix_ok_last [OF Cons.prems]
      by (simp add: label_char_def prev_of_def is_digit_def del: split_byte.simps)
  next
    case 5
    then show ?thesis
      using Cons.IH [of "[]" nn] nn label_ok_prefix [OF Cons.prems]
      by (auto simp: with_prefix_dot prev_of_def prefix_ok_def simp del: split_byte.simps)
  next
    case 6
    then have "\<not> prefix_ok (cur @ [c])"
      by (simp add: prefix_ok_def)
    then show ?thesis
      using 6 bad_label [of "cur @ [c]" "split_byte CHR ''.'' s"] with_prefix_Cons [of c cur s]
      by (simp add: label_char_def)
  qed
qed

section \<open>Exchanges\<close>

lemma checkResponse_iff:
  "checkResponse i q h q' \<longleftrightarrow> dh_Response h \<and> dh_ID h = i \<and> dq_Type q' = dq_Type q \<and> dq_Class q' = dq_Class q
     \<and> ToLower (dq_Name q') = ToLower (dq_Name q)"
  by (auto simp: checkResponse_def equalASCIIName_ToLower)

text \<open>A message that answers the request.\<close>

definition answers :: "'p dns_pkg \<Rightarrow> 16 word \<Rightarrow> dns_question \<Rightarrow> octet list \<Rightarrow> dns_header \<Rightarrow> 'p \<Rightarrow> bool" where
  "answers P i q m h p \<longleftrightarrow> (\<exists>p0 q'. dp_Start P m = Some (h, p0) \<and> dp_Question P p0 = Some (q', p) \<and> checkResponse i q h q')"

lemma packet_loop_answers:
  "packet_loop P i q late bs = Inr (p, h) \<Longrightarrow> \<exists>b \<in> set bs. answers P i q (take 512 b) h p"
proof (induction bs)
  case (Cons b bs)
  show ?case
  proof (cases "packet_loop P i q late bs = Inr (p, h)")
    case False
    then have "answers P i q (take 512 b) h p"
      using Cons.prems by (auto simp: answers_def split: option.splits if_splits)
    then show ?thesis by simp
  qed (use Cons.IH in simp)
qed simp

lemma dnsPacketRoundTrip_answers:
  "dnsPacketRoundTrip P c i q b = Inr (p, h) \<Longrightarrow> \<exists>d \<in> set (dc_datagrams c). answers P i q (take 512 d) h p"
  by (auto simp: dnsPacketRoundTrip_def dest: packet_loop_answers split: option.splits)

lemma dnsStreamRoundTrip_answers:
  "dnsStreamRoundTrip P c i q b = Inr (p, h) \<Longrightarrow> \<exists>m. read_frame (dc_stream c) = Some m \<and> answers P i q m h p"
  by (auto simp: dnsStreamRoundTrip_def answers_def split: option.splits if_splits)

text \<open>A message received on a socket to the server, over UDP or TCP.\<close>

definition received :: "'p dns_env \<Rightarrow> addr \<Rightarrow> bool \<Rightarrow> octet list \<Rightarrow> bool" where
  "received E server useUDP m \<longleftrightarrow> (\<exists>c.
     if useUDP then (\<exists>k. DialUDPAddrPort (dx_net E) k (NoAddr, 0) (server, 53) = Inr c) \<and> (\<exists>d \<in> set (dc_datagrams c). m = take 512 d)
     else (\<exists>k d. DialContextTCPAddrPort (dx_net E) k (Some d) (server, 53) = Inr c) \<and> read_frame (dc_stream c) = Some m)"

lemma dns_exchange_leg_answers:
  assumes "dns_exchange_leg E server q i req timeout useUDP w = (w', Inr (p, h))"
  shows "\<exists>m p0. received E server useUDP m \<and> answers (dx_pkg E) i q m h p0"
proof (cases useUDP)
  case True
  then show ?thesis
    using assms
    by (auto simp: dns_exchange_leg_def Let_def received_def dest!: dnsPacketRoundTrip_answers
        split: sum.splits option.splits prod.splits parsed.splits)
next
  case False
  then show ?thesis
    using assms
    by (auto simp: dns_exchange_leg_def Let_def received_def dest!: dnsStreamRoundTrip_answers
        split: sum.splits option.splits prod.splits parsed.splits)
qed

lemma dns_exchange_answers:
  assumes "dns_exchange E server q timeout w = (w', Inr (p, h))"
  shows "\<not> dh_Truncated h \<and> (\<exists>m p0 useUDP. received E server useUDP m
      \<and> answers (dx_pkg E) (randU16 (fst (dx_rand E (dw_tick w))) (snd (dx_rand E (dw_tick w)))) (q\<lparr>dq_Class := ClassINET\<rparr>) m h p0)"
proof -
  obtain i u v where req: "newRequest (dx_pkg E) (dx_rand E (dw_tick w)) (q\<lparr>dq_Class := ClassINET\<rparr>) = Some (i, u, v)"
    using assms by (auto simp: dns_exchange_def Let_def split: option.splits)
  then have i: "i = randU16 (fst (dx_rand E (dw_tick w))) (snd (dx_rand E (dw_tick w)))"
    by (auto simp: newRequest_def Let_def split: option.splits)
  have legs: "\<not> dh_Truncated h \<and> (\<exists>useUDP req w1 w2.
      dns_exchange_leg E server (q\<lparr>dq_Class := ClassINET\<rparr>) i req timeout useUDP w1 = (w2, Inr (p, h)))"
    using assms req
    by (auto simp: dns_exchange_def Let_def split: prod.splits sum.splits if_splits)
  then show ?thesis
    using dns_exchange_leg_answers [of E server] unfolding i by blast
qed

text \<open>The sockets stay within the world's count.\<close>

definition dns_world_ok :: "dns_world \<Rightarrow> bool" where
  "dns_world_ok w \<longleftrightarrow> (\<forall>k \<in> dw_open w. k < dw_tick w)"

text \<open>\<open>SetDeadline\<close> of the stack's sockets does not fail.\<close>

definition deadlines_set :: "'p dns_env \<Rightarrow> bool" where
  "deadlines_set E \<longleftrightarrow> (\<forall>k l r dl fa pn c d.
     gn_DialUDP (dx_net E) k l r pn = Inr c \<or> gn_DialContextTCP (dx_net E) k dl fa pn = Inr c \<longrightarrow> dc_SetDeadline c d = None)"

text \<open>\<open>w'\<close> comes after \<open>w\<close> with at most \<open>n\<close> further dials, all to the servers, and the same sockets open.\<close>

definition dials_after :: "addr set \<Rightarrow> nat \<Rightarrow> dns_world \<Rightarrow> dns_world \<Rightarrow> bool" where
  "dials_after servers n w w' \<longleftrightarrow> (\<exists>ds. dw_dials w' = dw_dials w @ ds \<and> length ds \<le> n \<and> snd ` set ds \<subseteq> servers)
     \<and> dw_open w' = dw_open w \<and> dw_tick w \<le> dw_tick w'"

lemma dials_after_refl: "dials_after S n w w"
  by (simp add: dials_after_def)

lemma dials_after_trans:
  assumes "dials_after S m w w'" "dials_after S n w' w''"
  shows "dials_after S (m + n) w w''"
proof -
  obtain ds es where "dw_dials w' = dw_dials w @ ds" "length ds \<le> m" "snd ` set ds \<subseteq> S"
    "dw_dials w'' = dw_dials w' @ es" "length es \<le> n" "snd ` set es \<subseteq> S"
    using assms by (auto simp: dials_after_def)
  then show ?thesis
    using assms by (auto simp: dials_after_def image_Un intro!: exI [of _ "ds @ es"])
qed

lemma dials_after_mono: "dials_after S m w w' \<Longrightarrow> m \<le> n \<Longrightarrow> S \<subseteq> T \<Longrightarrow> dials_after T n w w'"
  by (fastforce simp: dials_after_def)

lemma dials_after_ok: "dials_after S n w w' \<Longrightarrow> dns_world_ok w \<Longrightarrow> dns_world_ok w'"
  by (fastforce simp: dials_after_def dns_world_ok_def)

lemma dns_exchange_leg_world:
  assumes "dns_exchange_leg E server q i req timeout useUDP w = (w', r)" "dns_world_ok w" "deadlines_set E"
  shows "dials_after {server} 1 w w'"
proof -
  let ?d = "with_deadline (dx_deadline E) (dx_now E (dw_tick w) + timeout)"
  let ?dial = "if useUDP then DialUDPAddrPort (dx_net E) (dw_tick w) (NoAddr, 0) (server, 53)
     else DialContextTCPAddrPort (dx_net E) (dw_tick w) (Some ?d) (server, 53)"
  have fresh: "dw_tick w \<notin> dw_open w"
    using assms(2) by (auto simp: dns_world_ok_def)
  show ?thesis
  proof (cases ?dial)
    case (Inl e)
    then show ?thesis using assms(1) by (auto simp: dns_exchange_leg_def Let_def dials_after_def)
  next
    case (Inr c)
    moreover have "dc_SetDeadline c ?d = None"
      using assms(3) Inr unfolding deadlines_set_def
      by (auto simp: DialUDPAddrPort_def DialContextTCPAddrPort_def Let_def split: if_splits prod.splits)
    ultimately have "w' = w\<lparr>dw_tick := Suc (dw_tick w), dw_dials := dw_dials w @ [(useUDP, server)]\<rparr>"
      using assms(1) fresh
      by (auto simp: dns_exchange_leg_def Let_def split: sum.splits prod.splits parsed.splits)
    then show ?thesis by (auto simp: dials_after_def)
  qed
qed

lemma dns_exchange_world:
  assumes "dns_exchange E server q timeout w = (w', r)" "dns_world_ok w" "deadlines_set E"
  shows "dials_after {server} 2 w w'"
proof (cases "newRequest (dx_pkg E) (dx_rand E (dw_tick w)) (q\<lparr>dq_Class := ClassINET\<rparr>)")
  case None
  then show ?thesis using assms(1) by (auto simp: dns_exchange_def dials_after_refl)
next
  case (Some req)
  obtain i u v where req: "req = (i, u, v)" by (cases req)
  obtain w1 r1 where leg1: "dns_exchange_leg E server (q\<lparr>dq_Class := ClassINET\<rparr>) i u timeout True w = (w1, r1)"
    by fastforce
  obtain w2 r2 where leg2: "dns_exchange_leg E server (q\<lparr>dq_Class := ClassINET\<rparr>) i v timeout False w1 = (w2, r2)"
    by fastforce
  note d1 = dns_exchange_leg_world [OF leg1 assms(2,3)]
  note d2 = dns_exchange_leg_world [OF leg2 dials_after_ok [OF d1 assms(2)] assms(3)]
  have "w' = w1 \<or> w' = w2"
    using assms(1) Some req leg1 leg2 by (auto simp: dns_exchange_def split: sum.splits if_splits prod.splits)
  then show ?thesis
    using d1 dials_after_trans [OF d1 d2] by (auto intro: dials_after_mono)
qed

lemma try_loop_world:
  "try_loop E name q servers lastErr w = Some (w', r) \<Longrightarrow> dns_world_ok w \<Longrightarrow> deadlines_set E \<Longrightarrow>
   dials_after (set servers) (2 * length servers) w w'"
proof (induction servers arbitrary: lastErr w)
  case Nil
  then show ?case by (auto simp: dials_after_refl)
next
  case (Cons server servers)
  obtain w1 x where ex: "dns_exchange E server q (5 * Second) w = (w1, x)"
    by fastforce
  note d = dns_exchange_world [OF ex Cons.prems(2,3)]
  have "w' = w1 \<or> (\<exists>le. try_loop E name q servers le w1 = Some (w', r))"
    using Cons.prems(1) ex
    by (auto simp: Let_def split: sum.splits prod.splits option.splits if_splits)
  then show ?case
  proof
    assume "w' = w1"
    then show ?thesis using d by (auto intro: dials_after_mono)
  next
    assume "\<exists>le. try_loop E name q servers le w1 = Some (w', r)"
    then have "dials_after (set servers) (2 * length servers) w1 w'"
      using Cons.IH dials_after_ok [OF d Cons.prems(2)] Cons.prems(3) by blast
    then have "dials_after (set (server # servers)) (2 * length servers) w1 w'" "dials_after (set (server # servers)) 2 w w1"
      using d by (auto intro: dials_after_mono)
    then show ?thesis
      using dials_after_trans [of "set (server # servers)" 2 w w1] by fastforce
  qed
qed

section \<open>Lookups\<close>

text \<open>
  What the package documents of its parser: the calls that consume an answer leave fewer answers (\<open>left\<close>), reading
  the header of an answer does not consume it, and a parser that was not started fails.
\<close>

definition dns_parser_laws :: "'p dns_pkg \<Rightarrow> ('p \<Rightarrow> nat) \<Rightarrow> bool" where
  "dns_parser_laws P left \<longleftrightarrow>
     (\<forall>p. left (snd (dp_AnswerHeader P p)) \<le> left p
        \<and> (fst (dp_SkipAnswer P p) \<longrightarrow> left (snd (dp_SkipAnswer P p)) < left p)
        \<and> (fst (dp_AResource P p) \<noteq> None \<longrightarrow> left (snd (dp_AResource P p)) < left p)
        \<and> (fst (dp_AAAAResource P p) \<noteq> None \<longrightarrow> left (snd (dp_AAAAResource P p)) < left p)
        \<and> fst (dp_AnswerHeader P (snd (dp_AnswerHeader P p))) = fst (dp_AnswerHeader P p))
     \<and> fst (dp_AnswerHeader P (dp_zero P)) = ParseFailed"

lemma dns_parser_lawsD:
  assumes "dns_parser_laws P left"
  shows "dp_AnswerHeader P p = (h, p1) \<Longrightarrow> left p1 \<le> left p \<and> fst (dp_AnswerHeader P p1) = h"
    and "dp_SkipAnswer P p = (True, p1) \<Longrightarrow> left p1 < left p"
    and "dp_AResource P p = (Some b, p1) \<Longrightarrow> left p1 < left p"
    and "dp_AAAAResource P p = (Some b, p1) \<Longrightarrow> left p1 < left p"
    and "fst (dp_AnswerHeader P (dp_zero P)) = ParseFailed"
  using assms unfolding dns_parser_laws_def by (metis fst_conv snd_conv option.distinct(1))+

lemma skipToAnswer_total:
  assumes "dns_parser_laws P left"
  shows "\<exists>p' e. skipToAnswer P qtype p = Some (p', e) \<and> (e = None \<longrightarrow> fst (dp_AnswerHeader P p') = Parsed qtype)"
proof (induction "left p" arbitrary: p rule: less_induct)
  case less
  obtain h p1 where h: "dp_AnswerHeader P p = (h, p1)" by fastforce
  note laws = dns_parser_lawsD [OF assms]
  show ?case
  proof (cases h)
    case (Parsed ty)
    obtain ok p2 where skip: "dp_SkipAnswer P p1 = (ok, p2)" by fastforce
    have "ok \<Longrightarrow> left p2 < left p"
      using laws(2) skip laws(1) [OF h] by fastforce
    then show ?thesis
      using h Parsed skip less laws(1) [OF h] by (subst skipToAnswer.simps) auto
  qed (subst skipToAnswer.simps, simp add: h)+
qed

text \<open>What the loop over one lane adds: addresses of both families, and whether it met an answer it cannot parse.\<close>

definition lane_adds :: "'p dns_pkg \<Rightarrow> dns_error \<Rightarrow> 'p \<Rightarrow> addr list \<Rightarrow> addr list \<Rightarrow> bool \<Rightarrow> bool" where
  "lane_adds P bad p a4 a6 f \<longleftrightarrow>
     (\<forall>v4 v6 le. collect_loop P bad p v4 v6 le = Some (v4 @ a4, v6 @ a6, if f then Some (LookupDNS bad) else le))"

lemma lane_adds_intros:
  "dp_AnswerHeader P p = (SectionDone, p1) \<Longrightarrow> lane_adds P bad p [] [] False"
  "dp_AnswerHeader P p = (ParseFailed, p1) \<Longrightarrow> lane_adds P bad p [] [] True"
  "dp_AnswerHeader P p = (Parsed TypeA, p1) \<Longrightarrow> dp_AResource P p1 = (None, p2) \<Longrightarrow> lane_adds P bad p [] [] True"
  "dp_AnswerHeader P p = (Parsed TypeA, p1) \<Longrightarrow> dp_AResource P p1 = (Some b, p2) \<Longrightarrow>
   lane_adds P bad p2 a4 a6 f \<Longrightarrow> lane_adds P bad p (Addr4 b # a4) a6 f"
  "dp_AnswerHeader P p = (Parsed TypeAAAA, p1) \<Longrightarrow> dp_AAAAResource P p1 = (None, p2) \<Longrightarrow> lane_adds P bad p [] [] True"
  "dp_AnswerHeader P p = (Parsed TypeAAAA, p1) \<Longrightarrow> dp_AAAAResource P p1 = (Some b, p2) \<Longrightarrow>
   lane_adds P bad p2 a4 a6 f \<Longrightarrow> lane_adds P bad p a4 (Addr6 b [] # a6) f"
  "dp_AnswerHeader P p = (Parsed (TypeOther n), p1) \<Longrightarrow> dp_SkipAnswer P p1 = (False, p2) \<Longrightarrow> lane_adds P bad p [] [] True"
  "dp_AnswerHeader P p = (Parsed (TypeOther n), p1) \<Longrightarrow> dp_SkipAnswer P p1 = (True, p2) \<Longrightarrow>
   lane_adds P bad p2 a4 a6 f \<Longrightarrow> lane_adds P bad p a4 a6 f"
  unfolding lane_adds_def by (subst collect_loop.simps, simp)+

lemma collect_loop_total:
  assumes "dns_parser_laws P left"
  shows "\<exists>a4 a6 f. lane_adds P bad p a4 a6 f
    \<and> (fst (dp_AnswerHeader P p) \<in> {Parsed TypeA, Parsed TypeAAAA, ParseFailed} \<longrightarrow> a4 @ a6 \<noteq> [] \<or> f)"
proof (induction "left p" arbitrary: p rule: less_induct)
  case less
  obtain h p1 where h: "dp_AnswerHeader P p = (h, p1)" by fastforce
  note laws = dns_parser_lawsD [OF assms]
  have go: "\<exists>a4 a6 f. lane_adds P bad p2 a4 a6 f" if "left p2 < left p1" for p2
    using less.hyps [of p2] that laws(1) [OF h] by (meson order_less_le_trans)
  show ?case
  proof (cases h)
    case (Parsed ty)
    show ?thesis
    proof (cases ty)
      case TypeA
      obtain r p2 where "dp_AResource P p1 = (r, p2)" by fastforce
      then show ?thesis
        using h Parsed TypeA lane_adds_intros(3,4) [of P p p1] go [of p2] laws(3) [of p1 _ p2] by (cases r) fastforce+
    next
      case TypeAAAA
      obtain r p2 where "dp_AAAAResource P p1 = (r, p2)" by fastforce
      then show ?thesis
        using h Parsed TypeAAAA lane_adds_intros(5,6) [of P p p1] go [of p2] laws(4) [of p1 _ p2] by (cases r) fastforce+
    next
      case (TypeOther n)
      obtain ok p2 where "dp_SkipAnswer P p1 = (ok, p2)" by fastforce
      then show ?thesis
        using h Parsed TypeOther lane_adds_intros(7,8) [of P p n p1] go [of p2] laws(2) [of p1 p2] by (cases ok) fastforce+
    qed
  qed (use h lane_adds_intros(1,2) [of P p p1] in fastforce)+
qed

text \<open>A lane's result: an error, or a parser in front of an address or of an answer that does not parse.\<close>

definition lane_ready :: "'p dns_pkg \<Rightarrow> (lookup_err, 'p \<times> string) result \<Rightarrow> bool" where
  "lane_ready P r = (case r of Inl _ \<Rightarrow> True | Inr (p, _) \<Rightarrow> fst (dp_AnswerHeader P p) \<in> {Parsed TypeA, Parsed TypeAAAA, ParseFailed})"

lemma try_loop_total:
  assumes "dns_parser_laws (dx_pkg E) left" "dq_Type q \<in> {TypeA, TypeAAAA}"
  shows "\<exists>w' r. try_loop E name q servers lastErr w = Some (w', r) \<and> lane_ready (dx_pkg E) r"
proof (induction servers arbitrary: lastErr w)
  case Nil
  then show ?case
    using dns_parser_lawsD(5) [OF assms(1)] by (auto simp: lane_ready_def split: option.splits)
next
  case (Cons server servers)
  obtain w1 x where ex: "dns_exchange E server q (5 * Second) w = (w1, x)" by fastforce
  show ?case
  proof (cases x)
    case (Inl e)
    then show ?thesis using Cons.IH ex by simp
  next
    case (Inr ph)
    obtain p h where ph: "ph = (p, h)" by fastforce
    obtain p1 s where ch: "checkHeader (dx_pkg E) p h = (p1, s)" by fastforce
    obtain p2 e where sk: "skipToAnswer (dx_pkg E) (dq_Type q) p1 = Some (p2, e)"
        "e = None \<longrightarrow> fst (dp_AnswerHeader (dx_pkg E) p2) = Parsed (dq_Type q)"
      using skipToAnswer_total [OF assms(1)] by blast
    show ?thesis
      using Cons.IH ex Inr ph ch sk assms(2)
      by (cases s; cases e) (auto simp: Let_def lane_ready_def)
  qed
qed

lemma tryOneName_total:
  assumes "dns_parser_laws (dx_pkg E) left" "qtype \<in> {TypeA, TypeAAAA}"
  shows "\<exists>w' r. tryOneName E servers name qtype w = Some (w', r) \<and> lane_ready (dx_pkg E) r"
  using try_loop_total [OF assms(1), of "\<lparr>dq_Name = _, dq_Type = qtype, dq_Class = ClassINET\<rparr>"] assms(2)
  by (cases "dp_NewName (dx_pkg E) name") (simp_all add: tryOneName_def lane_ready_def)

text \<open>One lane, whatever came before it: the addresses it adds and what becomes of the last error.\<close>

definition lane_effect :: "'p dns_pkg \<Rightarrow> string \<Rightarrow> (lookup_err, 'p \<times> string) result \<Rightarrow> addr list \<Rightarrow> addr list
    \<Rightarrow> (lookup_err option \<Rightarrow> lookup_err option) \<Rightarrow> bool" where
  "lane_effect P host r a4 a6 g \<longleftrightarrow>
     (\<forall>lanes v4 v6 le. collect_lanes P host (r # lanes) v4 v6 le = collect_lanes P host lanes (v4 @ a4) (v6 @ a6) (g le))
     \<and> (\<forall>e. g (Some e) \<noteq> None) \<and> (a4 @ a6 \<noteq> [] \<or> g None \<noteq> None)"

lemma collect_lane:
  assumes "dns_parser_laws P left" "lane_ready P r"
  shows "\<exists>a4 a6 g. lane_effect P host r a4 a6 g"
proof (cases r)
  case (Inl e)
  then have "lane_effect P host r [] [] (\<lambda>le. if le = None then Some e else le)"
    by (simp add: lane_effect_def)
  then show ?thesis by blast
next
  case (Inr ps)
  obtain p server where ps: "ps = (p, server)" by fastforce
  let ?bad = "dns_err (sentinel_text ErrCannotMarshalDNSMessage) host server"
  obtain a4 a6 f where adds: "lane_adds P ?bad p a4 a6 f" "a4 @ a6 \<noteq> [] \<or> f"
    using collect_loop_total [OF assms(1), of ?bad p] assms(2) Inr ps by (auto simp: lane_ready_def)
  have "collect_loop P ?bad p v4 v6 le = Some (v4 @ a4, v6 @ a6, if f then Some (LookupDNS ?bad) else le)" for v4 v6 le
    using adds(1) by (simp only: lane_adds_def)
  then have "lane_effect P host r a4 a6 (\<lambda>le. if f then Some (LookupDNS ?bad) else le)"
    using Inr ps adds(2) by (auto simp: lane_effect_def)
  then show ?thesis by blast
qed

lemma collect_two_lanes:
  assumes "lane_effect P host r1 a4 a6 g" "lane_effect P host r2 b4 b6 g'"
  shows "collect_lanes P host [r1, r2] [] [] None = Some (a4 @ b4, a6 @ b6, g' (g None))"
    "g' (g None) = None \<longleftrightarrow> g None = None \<and> g' None = None"
  using assms by (simp_all add: lane_effect_def) (cases "g None"; simp)

text \<open>The lanes of a lookup: one or two.\<close>

lemma lookup_result_total:
  assumes "dns_parser_laws P left" "list_all (lane_ready P) lanes" "lanes = [r1] \<or> lanes = [r1, r2]"
  shows "\<exists>r. lookup_result P v host lanes = Some r \<and> (\<forall>as. r = Inr as \<longrightarrow> as \<noteq> [])"
proof -
  obtain a4 a6 g where one: "lane_effect P host r1 a4 a6 g"
    using collect_lane [OF assms(1)] assms(2,3) by fastforce
  show ?thesis
    using assms(3)
  proof
    assume "lanes = [r1]"
    then show ?thesis
      using one by (auto simp: lookup_result_def lane_effect_def Let_def)
  next
    assume two: "lanes = [r1, r2]"
    then obtain b4 b6 g' where "lane_effect P host r2 b4 b6 g'"
      using collect_lane [OF assms(1)] assms(2) by fastforce
    note eff = collect_two_lanes [OF one this]
    have "a4 @ a6 \<noteq> [] \<or> g None \<noteq> None"
      using one by (simp add: lane_effect_def)
    then show ?thesis
      using eff two by (auto simp: lookup_result_def Let_def)
  qed
qed

text \<open>Results that differ in the order of the addresses or in the error.\<close>

fun same_answer :: "('e, 'a list) result \<Rightarrow> ('e, 'a list) result \<Rightarrow> bool" where
  "same_answer (Inr x) (Inr y) \<longleftrightarrow> mset x = mset y"
| "same_answer (Inl _) (Inl _) \<longleftrightarrow> True"
| "same_answer _ _ \<longleftrightarrow> False"

lemma lookup_result_swap:
  assumes "dns_parser_laws P left" "lane_ready P r1" "lane_ready P r2"
    "lookup_result P v host [r1, r2] = Some x" "lookup_result P v host [r2, r1] = Some y"
  shows "same_answer x y"
proof -
  obtain a4 a6 g b4 b6 g' where one: "lane_effect P host r1 a4 a6 g" and two: "lane_effect P host r2 b4 b6 g'"
    using collect_lane [OF assms(1,2)] collect_lane [OF assms(1,3)] by blast
  show ?thesis
    using assms(4,5) collect_two_lanes [OF one two] collect_two_lanes [OF two one]
    by (auto simp: lookup_result_def Let_def split: if_splits)
qed

lemma lane_of_total:
  assumes "dns_parser_laws (dx_pkg E) left" "qtype \<in> {TypeA, TypeAAAA}"
  shows "\<exists>w' rs. lane_of has E servers name qtype w = Some (w', rs) \<and> list_all (lane_ready (dx_pkg E)) rs
    \<and> (if has then \<exists>r. rs = [r] else rs = [] \<and> w' = w)"
  using tryOneName_total [OF assms, of servers name w] by (auto simp: lane_of_def)

lemma tryOneName_world:
  assumes "tryOneName E servers name qtype w = Some (w', r)" "dns_world_ok w" "deadlines_set E"
  shows "dials_after (set servers) (4 * length servers) w w'"
proof (cases "dp_NewName (dx_pkg E) name")
  case None
  then show ?thesis using assms(1) by (auto simp: tryOneName_def dials_after_refl)
next
  case (Some n)
  have two: "concat (replicate 2 servers) = servers @ servers" by (simp add: numeral_2_eq_2)
  show ?thesis
    using assms Some try_loop_world [of E name _ "servers @ servers" None w w' r] by (auto simp: tryOneName_def two)
qed

lemma lane_of_world:
  assumes "lane_of has E servers name qtype w = Some (w', rs)" "dns_world_ok w" "deadlines_set E"
  shows "dials_after (set servers) (4 * length servers) w w'"
  using assms tryOneName_world [of E servers name qtype w w'] by (auto simp: lane_of_def dials_after_refl split: if_splits)

text \<open>A host that needs no query.\<close>

definition needs_query :: "net_tun \<Rightarrow> string \<Rightarrow> bool" where
  "needs_query t host \<longleftrightarrow> host \<noteq> [] \<and> (nt_hasV4 t \<or> nt_hasV6 t) \<and> lookup_literal host = None \<and> isDomainName host"

lemma LookupContextHost_query:
  assumes "needs_query t host"
  shows "LookupContextHost t E4 E6 first host w =
    (case lane_of (nt_hasV4 t) E4 (nt_dns t) (host @ ''.'') TypeA (fst w) of
       None \<Rightarrow> None
     | Some (w4, lane4) \<Rightarrow>
         (case lane_of (nt_hasV6 t) E6 (nt_dns t) (host @ ''.'') TypeAAAA (snd w) of
            None \<Rightarrow> None
          | Some (w6, lane6) \<Rightarrow>
              map_option (Pair (w4, w6))
                (lookup_result (dx_pkg E4) (nt_hasV6 t) host (if first then lane6 @ lane4 else lane4 @ lane6))))"
  using assms by (auto simp: LookupContextHost_def needs_query_def Let_def)

lemma LookupContextHost_no_query:
  assumes "\<not> needs_query t host"
  shows "LookupContextHost t E4 E6 first host w =
    Some (w, if host \<noteq> [] \<and> (nt_hasV4 t \<or> nt_hasV6 t) \<and> lookup_literal host \<noteq> None
             then Inr [AddrString (the (lookup_literal host))]
             else Inl (LookupDNS ((dns_err (sentinel_text ErrNoSuchHost) host [])\<lparr>de_IsNotFound := True\<rparr>)))"
  using assms by (auto simp: LookupContextHost_def needs_query_def Let_def split: option.splits)

lemma lookup_lanes:
  assumes "needs_query t host" "dns_parser_laws (dx_pkg E4) left" "dx_pkg E6 = dx_pkg E4"
  obtains w4 lane4 w6 lane6 where
    "lane_of (nt_hasV4 t) E4 (nt_dns t) (host @ ''.'') TypeA (fst w) = Some (w4, lane4)"
    "lane_of (nt_hasV6 t) E6 (nt_dns t) (host @ ''.'') TypeAAAA (snd w) = Some (w6, lane6)"
    "list_all (lane_ready (dx_pkg E4)) (lane4 @ lane6)"
    "(\<exists>r. lane4 @ lane6 = [r] \<and> lane6 @ lane4 = [r]) \<or> (\<exists>r1 r2. lane4 = [r1] \<and> lane6 = [r2])"
proof -
  obtain w4 lane4 where l4: "lane_of (nt_hasV4 t) E4 (nt_dns t) (host @ ''.'') TypeA (fst w) = Some (w4, lane4)"
      "list_all (lane_ready (dx_pkg E4)) lane4" "if nt_hasV4 t then \<exists>r. lane4 = [r] else lane4 = [] \<and> w4 = fst w"
    using lane_of_total [OF assms(2), of TypeA "nt_hasV4 t" "nt_dns t" "host @ ''.''" "fst w"] by blast
  obtain w6 lane6 where l6: "lane_of (nt_hasV6 t) E6 (nt_dns t) (host @ ''.'') TypeAAAA (snd w) = Some (w6, lane6)"
      "list_all (lane_ready (dx_pkg E4)) lane6" "if nt_hasV6 t then \<exists>r. lane6 = [r] else lane6 = [] \<and> w6 = snd w"
    using lane_of_total [of E6 left TypeAAAA "nt_hasV6 t" "nt_dns t" "host @ ''.''" "snd w"] assms(2,3) by auto
  have "nt_hasV4 t \<or> nt_hasV6 t" using assms(1) by (simp add: needs_query_def)
  then show ?thesis
    using that [OF l4(1) l6(1)] l4(2,3) l6(2,3) by (auto split: if_splits)
qed

lemma LookupContextHost_total:
  assumes "dns_parser_laws (dx_pkg E4) left" "dx_pkg E6 = dx_pkg E4"
  shows "\<exists>w' r. LookupContextHost t E4 E6 first host w = Some (w', r) \<and> (\<forall>as. r = Inr as \<longrightarrow> as \<noteq> [])"
proof (cases "needs_query t host")
  case False
  then show ?thesis by (simp add: LookupContextHost_no_query)
next
  case True
  obtain w4 lane4 w6 lane6 where l4: "lane_of (nt_hasV4 t) E4 (nt_dns t) (host @ ''.'') TypeA (fst w) = Some (w4, lane4)"
    and l6: "lane_of (nt_hasV6 t) E6 (nt_dns t) (host @ ''.'') TypeAAAA (snd w) = Some (w6, lane6)"
    and ready: "list_all (lane_ready (dx_pkg E4)) (lane4 @ lane6)"
    and some: "(\<exists>r. lane4 @ lane6 = [r] \<and> lane6 @ lane4 = [r]) \<or> (\<exists>r1 r2. lane4 = [r1] \<and> lane6 = [r2])"
    using lookup_lanes [OF True assms] by metis
  let ?ls = "if first then lane6 @ lane4 else lane4 @ lane6"
  have "list_all (lane_ready (dx_pkg E4)) ?ls" "\<exists>r1 r2. ?ls = [r1] \<or> ?ls = [r1, r2]"
    using ready some by auto
  then show ?thesis
    using lookup_result_total [OF assms(1), of ?ls _ _ "nt_hasV6 t" host]
    by (fastforce simp: LookupContextHost_query [OF True] l4 l6)
qed

section \<open>A small instance\<close>

text \<open>
  A package over lists for the witnesses: a started parser is the list of answers left, each \<open>None\<close> when it does not parse; a
  message of one byte is a response with that id to the question for \<open>a.\<close>, with the given answers.
\<close>

type_synonym sample_parser = "((dns_type \<times> octet list) option list) option"

definition sample_header :: "octet \<Rightarrow> dns_header" where
  "sample_header i = \<lparr>dh_ID = ucast i, dh_Response = True, dh_Authoritative = True, dh_RecursionAvailable = True,
     dh_Truncated = False, dh_RCode = RCodeSuccess\<rparr>"

definition sample_pkg :: "dns_type \<Rightarrow> (dns_type \<times> octet list) option list \<Rightarrow> sample_parser dns_pkg" where
  "sample_pkg ty ans = \<lparr>
     dp_zero = None,
     dp_Start = (\<lambda>m. case m of [i] \<Rightarrow> Some (sample_header i, Some ans) | _ \<Rightarrow> None),
     dp_Question = (\<lambda>p. Some (\<lparr>dq_Name = ''a.'', dq_Type = ty, dq_Class = ClassINET\<rparr>, p)),
     dp_SkipQuestion = (\<lambda>p. (SectionDone, p)),
     dp_AnswerHeader = (\<lambda>p. (case p of None \<Rightarrow> ParseFailed | Some [] \<Rightarrow> SectionDone
        | Some (None # _) \<Rightarrow> ParseFailed | Some (Some (ty, _) # _) \<Rightarrow> Parsed ty, p)),
     dp_SkipAnswer = (\<lambda>p. case p of Some (_ # as) \<Rightarrow> (True, Some as) | _ \<Rightarrow> (False, p)),
     dp_AResource = (\<lambda>p. case p of Some (Some (TypeA, b) # as) \<Rightarrow> (Some b, Some as) | _ \<Rightarrow> (None, p)),
     dp_AAAAResource = (\<lambda>p. case p of Some (Some (TypeAAAA, b) # as) \<Rightarrow> (Some b, Some as) | _ \<Rightarrow> (None, p)),
     dp_NewName = Some,
     dp_build = (\<lambda>i q. Some [0, 0, 7])\<rparr>"

definition sample_left :: "sample_parser \<Rightarrow> nat" where
  "sample_left p = (case p of None \<Rightarrow> 0 | Some as \<Rightarrow> length as)"

lemma sample_laws: "dns_parser_laws (sample_pkg ty ans) sample_left"
  by (auto simp: dns_parser_laws_def sample_pkg_def sample_left_def split: option.splits list.splits dns_type.splits)

definition sample_dns_conn :: dns_conn where
  "sample_dns_conn = \<lparr>dc_SetDeadline = (\<lambda>_. None), dc_Write = (\<lambda>_. None), dc_datagrams = [[3, 3], [5], [0]], dc_stream = [],
     dc_late = OpErr ''i/o timeout'' True\<rparr>"

definition sample_env :: "dns_type \<Rightarrow> (dns_type \<times> octet list) option list \<Rightarrow> sample_parser dns_env" where
  "sample_env ty ans = \<lparr>dx_pkg = sample_pkg ty ans,
     dx_net = \<lparr>gn_DialContextTCP = (\<lambda>_ _ _ _. Inr sample_dns_conn), gn_DialTCP = (\<lambda>_ _ _. Inr sample_dns_conn),
       gn_ListenTCP = (\<lambda>_ _ _. Inr sample_dns_conn), gn_DialUDP = (\<lambda>_ _ _ _. Inr sample_dns_conn)\<rparr>,
     dx_rand = (\<lambda>_. (0, 0)), dx_now = (\<lambda>_. 0), dx_deadline = None\<rparr>"

lemma sample_deadlines: "deadlines_set (sample_env ty ans)"
  by (simp add: deadlines_set_def sample_env_def sample_dns_conn_def)

definition sample_dns_world :: dns_world where
  "sample_dns_world = \<lparr>dw_tick = 0, dw_open = {}, dw_dials = []\<rparr>"

definition sample_tun :: net_tun where
  "sample_tun = \<lparr>nt_queue = [], nt_open = True, nt_events_open = True, nt_notify = True, nt_mtu = 1280,
     nt_dns = [Addr4 [1, 1, 1, 1]], nt_hasV4 = True, nt_hasV6 = False, nt_routes = [ProtoV4]\<rparr>"

section \<open>Properties\<close>

text \<open>
  C8: Anti-spoofing of the DNS client. An answer that the exchange with a server returns was received on a socket
  dialed to that server at port 53, is a response, carries the random id of this request and repeats its
  question: the same type, class INET, and the same name up to the case of ASCII letters. It is not truncated.
  Everything else that arrives is ignored or an error.
\<close>

theorem dns_answer_authentic:
  assumes "dns_exchange E server q timeout w = (w', Inr (p, h))"
  shows "\<exists>m p0 q' p1 useUDP. received E server useUDP m \<and> dp_Start (dx_pkg E) m = Some (h, p0) \<and> dp_Question (dx_pkg E) p0 = Some (q', p1)
    \<and> dh_Response h \<and> dh_ID h = randU16 (fst (dx_rand E (dw_tick w))) (snd (dx_rand E (dw_tick w))) \<and> \<not> dh_Truncated h
    \<and> dq_Type q' = dq_Type q \<and> dq_Class q' = ClassINET \<and> ToLower (dq_Name q') = ToLower (dq_Name q)"
  using dns_exchange_answers [OF assms] by (fastforce simp: answers_def checkResponse_iff)

theorem dns_answer_authentic_witness:
  "\<exists>w' p h. dns_exchange (sample_env TypeA [Some (TypeA, [9, 9, 9, 9])]) (Addr4 [1, 1, 1, 1]) \<lparr>dq_Name = ''a.'', dq_Type = TypeA, dq_Class = ClassINET\<rparr>
       (5 * Second) sample_dns_world = (w', Inr (p, h)) \<and> dh_ID h = 0 \<and> dh_Response h"
proof -
  let ?E = "sample_env TypeA [Some (TypeA, [9, 9, 9, 9])]" and ?q = "\<lparr>dq_Name = ''a.'', dq_Type = TypeA, dq_Class = ClassINET\<rparr>"
  have "\<exists>w' p h. dns_exchange ?E (Addr4 [1, 1, 1, 1]) ?q (5 * Second) sample_dns_world = (w', Inr (p, h))"
    by (simp add: dns_exchange_def newRequest_def dns_exchange_leg_def dnsPacketRoundTrip_def DialUDPAddrPort_def sample_env_def sample_pkg_def
        sample_dns_conn_def sample_header_def sample_dns_world_def checkResponse_iff randU16_def Let_def lower_char_def is_upper_def)
  then obtain w' p h where ex: "dns_exchange ?E (Addr4 [1, 1, 1, 1]) ?q (5 * Second) sample_dns_world = (w', Inr (p, h))"
    by blast
  show ?thesis
    using dns_answer_authentic [OF ex] ex by (fastforce simp: sample_env_def randU16_def)
qed

text \<open>
  C39: Which strings are looked up. A host passes \<open>isDomainName\<close> exactly when it is at most 253 bytes, or 254 with a dot at
  the end, its labels between the dots (an empty one only after a final dot) have 1 to 63 letters, digits, underscores or inner hyphens, and some
  byte is not a digit or a dot.
\<close>

theorem isDomainName_labels:
  "isDomainName s \<longleftrightarrow> s \<noteq> [] \<and> (length s < 254 \<or> length s = 254 \<and> last s = CHR ''.'')
     \<and> labels_ok (split_byte CHR ''.'' s) \<and> non_numeric s"
proof -
  have "with_prefix [] (split_byte CHR ''.'' s) = split_byte CHR ''.'' s"
    by (cases "split_byte CHR ''.'' s") (simp_all add: with_prefix_def)
  then have "domain_loop s CHR ''.'' False 0 \<longleftrightarrow> non_numeric s \<and> labels_ok (split_byte CHR ''.'' s)"
    using domain_loop_labels [of "[]" s False] by (simp add: prefix_ok_def prev_of_def)
  then show ?thesis
    by (auto simp: isDomainName_def Let_def last_conv_nth)
qed

text \<open>
  C11: A lookup always returns, with an error or with at least one address: with a parser that behaves as documented, the loops over the answers of
  both lanes end, and a lookup never succeeds with an empty list. This also holds when no server is configured.
\<close>

theorem lookup_returns:
  assumes "dns_parser_laws (dx_pkg E4) left" "dx_pkg E6 = dx_pkg E4"
  shows "\<exists>w' r. LookupContextHost t E4 E6 first host w = Some (w', r) \<and> (\<forall>as. r = Inr as \<longrightarrow> as \<noteq> [])"
  by (rule LookupContextHost_total [OF assms])

theorem lookup_returns_witness:
  "\<exists>w' r. LookupContextHost sample_tun (sample_env TypeA [Some (TypeOther 5, []), Some (TypeA, [9, 9, 9, 9])])
      (sample_env TypeA [Some (TypeOther 5, []), Some (TypeA, [9, 9, 9, 9])]) True ''a''
      (sample_dns_world, sample_dns_world) = Some (w', r) \<and> (\<forall>as. r = Inr as \<longrightarrow> as \<noteq> [])"
  by (rule lookup_returns [where left = sample_left]) (simp_all add: sample_laws sample_env_def)



text \<open>
  The two lanes of a lookup race, but the race does not change the answer: whichever family's result arrives first, the lookup succeeds with the same
  addresses (up to their order) or fails in both cases, and sends the same queries.
\<close>

theorem lookup_order_irrelevant:
  assumes "dns_parser_laws (dx_pkg E4) left" "dx_pkg E6 = dx_pkg E4"
    "LookupContextHost t E4 E6 True host w = Some (w1, x)" "LookupContextHost t E4 E6 False host w = Some (w2, y)"
  shows "w1 = w2 \<and> same_answer x y"
proof (cases "needs_query t host")
  case False
  then show ?thesis
    using assms(3,4) by (auto simp: LookupContextHost_no_query split: if_splits)
next
  case True
  obtain w4 lane4 w6 lane6 where lanes:
    "lane_of (nt_hasV4 t) E4 (nt_dns t) (host @ ''.'') TypeA (fst w) = Some (w4, lane4)"
    "lane_of (nt_hasV6 t) E6 (nt_dns t) (host @ ''.'') TypeAAAA (snd w) = Some (w6, lane6)"
    and ready: "list_all (lane_ready (dx_pkg E4)) (lane4 @ lane6)"
    and some: "(\<exists>r. lane4 @ lane6 = [r] \<and> lane6 @ lane4 = [r]) \<or> (\<exists>r1 r2. lane4 = [r1] \<and> lane6 = [r2])"
    using lookup_lanes [OF True assms(1,2)] by metis
  have res: "lookup_result (dx_pkg E4) (nt_hasV6 t) host (lane6 @ lane4) = Some x" "w1 = (w4, w6)"
    "lookup_result (dx_pkg E4) (nt_hasV6 t) host (lane4 @ lane6) = Some y" "w2 = (w4, w6)"
    using assms(3,4) by (auto simp: LookupContextHost_query [OF True] lanes)
  from some have "same_answer x y"
  proof (elim disjE exE conjE)
    fix r assume "lane4 @ lane6 = [r]" "lane6 @ lane4 = [r]"
    then have "x = y" using res by simp
    then show ?thesis by (cases y) simp_all
  next
    fix r1 r2 assume "lane4 = [r1]" "lane6 = [r2]"
    then show ?thesis using lookup_result_swap [OF assms(1), of r2 r1] res ready by simp
  qed
  then show ?thesis using res by simp
qed

theorem lookup_order_irrelevant_witness:
  "\<exists>w1 w2 x y. LookupContextHost sample_tun (sample_env TypeA []) (sample_env TypeA []) True ''a'' (sample_dns_world, sample_dns_world) = Some (w1, x)
     \<and> LookupContextHost sample_tun (sample_env TypeA []) (sample_env TypeA []) False ''a'' (sample_dns_world, sample_dns_world) = Some (w2, y)
     \<and> same_answer x y"
proof -
  let ?look = "\<lambda>first. LookupContextHost sample_tun (sample_env TypeA []) (sample_env TypeA []) first ''a'' (sample_dns_world, sample_dns_world)"
  have laws: "dns_parser_laws (dx_pkg (sample_env TypeA [])) sample_left"
    by (simp add: sample_env_def sample_laws)
  obtain w1 w2 x y where looks: "?look True = Some (w1, x)" "?look False = Some (w2, y)"
    using LookupContextHost_total [OF laws refl] by metis
  show ?thesis
    using lookup_order_irrelevant [OF laws refl looks] looks by blast
qed

text \<open>
  The length prefix of DNS over TCP. A request framed for TCP is the request for UDP behind its length: reading the stream the way an
  answer is read gives it back, whatever follows, as long as the message has fewer than 65536 bytes.
\<close>

theorem tcp_request_roundtrip:
  assumes "newRequest P rnd q = Some (i, udpReq, tcpReq)" "length udpReq < 65536"
  shows "read_frame (tcpReq @ rest) = Some udpReq"
proof -
  have req: "tcpReq = of_nat (length udpReq div 256) # of_nat (length udpReq) # udpReq"
    using assms(1) by (auto simp: newRequest_def Let_def split: option.splits)
  have "unat (of_nat (length udpReq div 256) :: octet) = length udpReq div 256" "unat (of_nat (length udpReq) :: octet) = length udpReq mod 256"
    using assms(2) by (simp_all add: unat_of_nat)
  then show ?thesis
    by (simp add: req read_frame_def Let_def)
qed

theorem tcp_request_roundtrip_witness:
  "newRequest (sample_pkg TypeA []) (1, 2) \<lparr>dq_Name = ''a.'', dq_Type = TypeA, dq_Class = ClassINET\<rparr> = Some (513, [7], [0, 1, 7])
   \<and> read_frame ([0, 1, 7] @ [9]) = Some [7]"
proof -
  have req: "newRequest (sample_pkg TypeA []) (1, 2) \<lparr>dq_Name = ''a.'', dq_Type = TypeA, dq_Class = ClassINET\<rparr> = Some (513, [7], [0, 1, 7])"
    by (simp add: newRequest_def sample_pkg_def randU16_def Let_def)
  show ?thesis
    using req tcp_request_roundtrip [OF req] by simp
qed

end
