(* ===== verification/Net_Dial.thy ===== *)
theory Net_Dial
  imports Net_Dns
begin

text \<open>
  The dialer of the virtual device, \<open>src/internal/netstack/tun.go\<close>: the network and the address, the lookup, the
  share of the deadline of each address, and the attempts in order. The lookup is that of \<open>Net_Dns\<close>, the
  sockets are arguments.
\<close>

section \<open>The dialer\<close>

text \<open>Errors: the dialer's own \<open>*net.OpError\<close> around a cause, or what the socket returned.\<close>

datatype dial_err =
    OpUnknownNetwork string
  | OpBadAddress addr_error
  | OpDial sentinel
  | OpLookup lookup_err
  | DialFailed net_err
  | PingFailed gerr

text \<open>A zero deadline is \<open>None\<close>. The remaining time is positive where it is divided.\<close>

definition partialDeadline :: "int \<Rightarrow> int option \<Rightarrow> int \<Rightarrow> (sentinel, int option) result" where
  "partialDeadline now deadline addrsRemaining =
     (case deadline of
        None \<Rightarrow> Inr None
      | Some d \<Rightarrow>
          let timeRemaining = d - now in
          if timeRemaining \<le> 0 then Inl ErrTimeout
          else
            let timeout = timeRemaining div addrsRemaining; saneMinimum = 2 * Second;
                timeout' = (if timeout < saneMinimum
                            then (if timeRemaining < saneMinimum then timeRemaining else saneMinimum) else timeout) in
            Inr (Some (now + timeout')))"

datatype dial_proto = NetTcp | NetUdp | NetPing

text \<open>The regular expression \<open>^(tcp|udp|ping)(4|6)?$\<close>: the two groups.\<close>

definition protoSplitter :: "string \<Rightarrow> (dial_proto \<times> string) option" where
  "protoSplitter network =
     (let rest = (\<lambda>pr t. if t = [] \<or> t = ''4'' \<or> t = ''6'' then Some (pr, t) else None) in
      if HasPrefix network ''tcp'' then rest NetTcp (drop 3 network)
      else if HasPrefix network ''udp'' then rest NetUdp (drop 3 network)
      else if HasPrefix network ''ping'' then rest NetPing (drop 4 network)
      else None)"

datatype 'c net_conn = TCPConn 'c | UDPConn 'c | PingConn ping_conn

text \<open>
  The environment of one dial: the sockets, the deadline of the context, its error at the check before the
  \<open>i\<close>-th address (\<open>True\<close>: cancelled, \<open>False\<close>: past its deadline) and the clock there.
\<close>

record 'c dial_env =
  dv_net :: "(net_err, 'c) gonet"
  dv_ping :: "nat \<Rightarrow> ping_env"
  dv_deadline :: "int option"
  dv_done :: "nat \<Rightarrow> bool option"
  dv_now :: "nat \<Rightarrow> int"

definition dial_one :: "'c dial_env \<Rightarrow> dial_proto \<Rightarrow> nat \<Rightarrow> int option \<Rightarrow> addr_port \<Rightarrow> (dial_err, 'c net_conn) result" where
  "dial_one V pr i dl a =
     (case pr of
        NetTcp \<Rightarrow> (case DialContextTCPAddrPort (dv_net V) i dl a of Inl e \<Rightarrow> Inl (DialFailed e) | Inr c \<Rightarrow> Inr (TCPConn c))
      | NetUdp \<Rightarrow> (case DialUDPAddrPort (dv_net V) i (NoAddr, 0) a of Inl e \<Rightarrow> Inl (DialFailed e) | Inr c \<Rightarrow> Inr (UDPConn c))
      | NetPing \<Rightarrow> (case snd (DialPingAddr (dv_ping V i) NoAddr (fst a)) of Inl e \<Rightarrow> Inl (PingFailed e) | Inr c \<Rightarrow> Inr (PingConn c)))"

definition first_error :: "dial_err option \<Rightarrow> dial_err \<Rightarrow> dial_err" where
  "first_error firstErr e = (case firstErr of None \<Rightarrow> e | Some f \<Rightarrow> f)"

text \<open>The deadline of the context of the \<open>i\<close>-th attempt with \<open>n\<close> addresses left.\<close>

definition attempt_deadline :: "'c dial_env \<Rightarrow> nat \<Rightarrow> nat \<Rightarrow> (sentinel, int option) result" where
  "attempt_deadline V i n =
     (case dv_deadline V of
        None \<Rightarrow> Inr None
      | Some d \<Rightarrow>
          (case partialDeadline (dv_now V i) (Some d) (int n) of
             Inl e \<Rightarrow> Inl e
           | Inr pd \<Rightarrow> Inr (Some (case pd of Some t \<Rightarrow> min t d | None \<Rightarrow> d))))"

fun dial_loop :: "'c dial_env \<Rightarrow> dial_proto \<Rightarrow> addr_port list \<Rightarrow> nat \<Rightarrow> dial_err option \<Rightarrow> (dial_err, 'c net_conn) result" where
  "dial_loop V pr [] i firstErr = Inl (first_error firstErr (OpDial ErrMissingAddress))"
| "dial_loop V pr (a # as) i firstErr =
     (case dv_done V i of
        Some canceled \<Rightarrow> Inl (OpDial (if canceled then ErrCanceled else ErrTimeout))
      | None \<Rightarrow>
          (case attempt_deadline V i (length (a # as)) of
             Inl e \<Rightarrow> Inl (first_error firstErr (OpDial e))
           | Inr dl \<Rightarrow>
               (case dial_one V pr i dl a of
                  Inr c \<Rightarrow> Inr c
                | Inl e \<Rightarrow> dial_loop V pr as (Suc i) (Some (first_error firstErr e)))))"

text \<open>The addresses of a lookup the network accepts, with the port.\<close>

definition suitable_addrs :: "bool \<Rightarrow> bool \<Rightarrow> nat \<Rightarrow> string list \<Rightarrow> addr_port list" where
  "suitable_addrs acceptV4 acceptV6 port allAddr =
     List.map_filter (\<lambda>s. case ParseAddr s of
         Inl _ \<Rightarrow> None
       | Inr a \<Rightarrow> if Is4 a \<and> acceptV4 \<or> Is6 a \<and> acceptV6 then Some (a, port) else None) allAddr"

text \<open>Host and port of the address of a dial.\<close>

definition dial_target :: "dial_proto \<Rightarrow> string \<Rightarrow> (dial_err, string \<times> nat) result" where
  "dial_target pr address =
     (if pr = NetPing then Inr (address, 0)
      else case SplitHostPort address of
             Inl e \<Rightarrow> Inl (OpBadAddress e)
           | Inr (host, sport) \<Rightarrow>
               (case Atoi sport of
                  None \<Rightarrow> Inl (OpDial ErrNumericPort)
                | Some port \<Rightarrow> if port < 0 \<or> port > 65535 then Inl (OpDial ErrNumericPort) else Inr (host, nat port)))"

text \<open>\<open>look host\<close> is the lookup with the context of the dial; \<open>None\<close> when it does not return.\<close>

definition DialContext :: "(string \<Rightarrow> (lookup_err, string list) result option) \<Rightarrow> 'c dial_env \<Rightarrow> string \<Rightarrow> string
    \<Rightarrow> (dial_err, 'c net_conn) result option" where
  "DialContext look V network address =
     (case protoSplitter network of
        None \<Rightarrow> Some (Inl (OpUnknownNetwork network))
      | Some (pr, ver) \<Rightarrow>
          let acceptV4 = (ver = [] \<or> ver = ''4''); acceptV6 = (ver = [] \<or> ver \<noteq> ''4'') in
          (case dial_target pr address of
             Inl e \<Rightarrow> Some (Inl e)
           | Inr (host, port) \<Rightarrow>
               (case look host of
                  None \<Rightarrow> None
                | Some (Inl e) \<Rightarrow> Some (Inl (OpLookup e))
                | Some (Inr allAddr) \<Rightarrow>
                    let addrs = suitable_addrs acceptV4 acceptV6 port allAddr in
                    if addrs = [] \<and> allAddr \<noteq> [] then Some (Inl (OpDial ErrNoSuitableAddress))
                    else Some (dial_loop V pr addrs 0 None))))"

definition net_Dial :: "(string \<Rightarrow> (lookup_err, string list) result option) \<Rightarrow> 'c dial_env \<Rightarrow> string \<Rightarrow> string
    \<Rightarrow> (dial_err, 'c net_conn) result option" where
  "net_Dial look V network address = DialContext look (V\<lparr>dv_deadline := None, dv_done := (\<lambda>_. None)\<rparr>) network address"


section \<open>Lemmas\<close>

lemma dial_loop_ok:
  assumes "dial_loop V pr as i fe = Inr c"
  shows "\<exists>n < length as. (\<exists>dl. dial_one V pr (i + n) dl (as ! n) = Inr c)
    \<and> (\<forall>m < n. \<exists>dl e. dial_one V pr (i + m) dl (as ! m) = Inl e)"
  using assms
proof (induction as arbitrary: i fe)
  case (Cons a as)
  obtain dl where dl: "dv_done V i = None"
    "dial_one V pr i dl a = Inr c \<or> (\<exists>e. dial_one V pr i dl a = Inl e \<and> dial_loop V pr as (Suc i) (Some (first_error fe e)) = Inr c)"
    using Cons.prems by (auto split: option.splits sum.splits)
  then show ?case
  proof (elim disjE)
    assume "dial_one V pr i dl a = Inr c"
    then show ?thesis by (intro exI [of _ 0]) auto
  next
    assume "\<exists>e. dial_one V pr i dl a = Inl e \<and> dial_loop V pr as (Suc i) (Some (first_error fe e)) = Inr c"
    then obtain e n where "dial_one V pr i dl a = Inl e" "n < length as" "\<exists>dl. dial_one V pr (Suc i + n) dl (as ! n) = Inr c"
      "\<forall>m < n. \<exists>dl e. dial_one V pr (Suc i + m) dl (as ! m) = Inl e"
      using Cons.IH by blast
    then show ?thesis
      by (intro exI [of _ "Suc n"]) (auto simp: nth_Cons less_Suc_eq_0_disj split: nat.splits)
  qed
qed simp

text \<open>Without a deadline and with a live context: the first success, or else the first error.\<close>

lemma dial_loop_live:
  assumes "dv_deadline V = None" "\<And>i. dv_done V i = None"
  shows "dial_loop V pr as i fe = Inl e \<longleftrightarrow>
    (\<forall>n < length as. \<exists>e'. dial_one V pr (i + n) None (as ! n) = Inl e')
    \<and> e = first_error fe (if as = [] then OpDial ErrMissingAddress else projl (dial_one V pr i None (hd as)))"
proof (induction as arbitrary: i fe)
  case Nil
  then show ?case by auto
next
  case (Cons a as)
  show ?case
  proof (cases "dial_one V pr i None a")
    case (Inr c)
    then show ?thesis using assms by (auto simp: All_less_Suc2 attempt_deadline_def)
  next
    case (Inl e')
    then have "dial_loop V pr (a # as) i fe = dial_loop V pr as (Suc i) (Some (first_error fe e'))"
      using assms by (simp add: attempt_deadline_def)
    moreover have "first_error (Some x) y = x" for x y by (simp add: first_error_def)
    ultimately show ?thesis
      using Cons.IH [of "Suc i" "Some (first_error fe e')"] Inl by (simp add: All_less_Suc2 del: dial_loop.simps)
  qed
qed

lemma suitable_addrs_sound:
  "(a, port') \<in> set (suitable_addrs v4 v6 port ss) \<Longrightarrow>
   port' = port \<and> (Is4 a \<and> v4 \<or> Is6 a \<and> v6) \<and> (\<exists>s \<in> set ss. ParseAddr s = Inr a)"
  by (induction ss) (auto simp: suitable_addrs_def map_filter_simps split: sum.splits if_splits)

definition conn_proto :: "'c net_conn \<Rightarrow> dial_proto" where
  "conn_proto c = (case c of TCPConn _ \<Rightarrow> NetTcp | UDPConn _ \<Rightarrow> NetUdp | PingConn _ \<Rightarrow> NetPing)"

lemma dial_one_proto: "dial_one V pr i dl a = Inr c \<Longrightarrow> conn_proto c = pr"
  by (cases pr) (auto simp: dial_one_def conn_proto_def split: sum.splits)


lemma DialContext_ok:
  assumes "protoSplitter network = Some (pr, ver)" "dial_target pr address = Inr (host, port)" "look host = Some (Inr allAddr)"
    "suitable_addrs (ver = [] \<or> ver = ''4'') (ver = [] \<or> ver \<noteq> ''4'') port allAddr \<noteq> []"
  shows "DialContext look V network address =
    Some (dial_loop V pr (suitable_addrs (ver = [] \<or> ver = ''4'') (ver = [] \<or> ver \<noteq> ''4'') port allAddr) 0 None)"
  using assms by (simp add: DialContext_def)

lemma DialContext_InrD:
  assumes "DialContext look V network address = Some (Inr c)"
  obtains pr ver host port allAddr where
    "protoSplitter network = Some (pr, ver)" "dial_target pr address = Inr (host, port)" "look host = Some (Inr allAddr)"
    "dial_loop V pr (suitable_addrs (ver = [] \<or> ver = ''4'') (ver = [] \<or> ver \<noteq> ''4'') port allAddr) 0 None = Inr c"
  using assms by (auto simp: DialContext_def Let_def split: option.splits sum.splits if_splits)

text \<open>The dialer on the lookup of its own device.\<close>

definition tunnel_dial :: "net_tun \<Rightarrow> 'p dns_env \<Rightarrow> 'p dns_env \<Rightarrow> bool \<Rightarrow> dns_world \<times> dns_world \<Rightarrow> 'c dial_env \<Rightarrow> string \<Rightarrow> string
    \<Rightarrow> (dial_err, 'c net_conn) result option" where
  "tunnel_dial t E4 E6 first w V network address =
     DialContext (\<lambda>host. map_option snd (LookupContextHost t E4 E6 first host w)) V network address"

lemma dial_one_error: "dial_one V pr i dl a = Inl e \<Longrightarrow> e \<noteq> OpDial s"
  by (cases pr) (auto simp: dial_one_def split: sum.splits)

lemma dial_loop_not_missing:
  "as \<noteq> [] \<or> fe \<noteq> None \<Longrightarrow> fe \<noteq> Some (OpDial ErrMissingAddress) \<Longrightarrow> dial_loop V pr as i fe \<noteq> Inl (OpDial ErrMissingAddress)"
proof (induction as arbitrary: i fe)
  case Nil
  then show ?case by (auto simp: first_error_def)
next
  case (Cons a as)
  let ?dl = "attempt_deadline V i (length (a # as))"
  have part: "?dl \<noteq> Inl ErrMissingAddress"
    by (auto simp: attempt_deadline_def partialDeadline_def Let_def split: option.splits)
  have first: "first_error fe e \<noteq> OpDial ErrMissingAddress" if "e \<noteq> OpDial ErrMissingAddress" for e
    using Cons.prems(2) that by (auto simp: first_error_def split: option.splits)
  show ?case
  proof (cases "dv_done V i")
    case None
    show ?thesis
    proof (cases ?dl)
      case (Inl e)
      then show ?thesis using None part first [of "OpDial e"] by auto
    next
      case (Inr dl)
      then show ?thesis
        using None Cons.IH first dial_one_error [of V pr i dl a] by (cases "dial_one V pr i dl a") auto
    qed
  qed simp
qed

definition sample_dial :: "nat dial_env" where
  "sample_dial = \<lparr>dv_net = \<lparr>gn_DialContextTCP = (\<lambda>k _ fa _. if fa_Addr fa = [2, 2, 2, 2] then Inr k else Inl (OpErr ''connection was refused'' False)),
       gn_DialTCP = (\<lambda>k _ _. Inr k), gn_ListenTCP = (\<lambda>k _ _. Inr k), gn_DialUDP = (\<lambda>k _ _ _. Inr k)\<rparr>,
     dv_ping = (\<lambda>_. \<lparr>pe_NewEndpoint = (\<lambda>_. None), pe_Bind = (\<lambda>_. None), pe_Connect = (\<lambda>_. None)\<rparr>),
     dv_deadline = None, dv_done = (\<lambda>_. None), dv_now = (\<lambda>_. 0)\<rparr>"

lemma sample_split: "SplitHostPort ''h:80'' = Inr (''h'', ''80'')"
  by code_simp

lemma sample_atoi: "Atoi ''80'' = Some 80"
  by (simp add: Atoi_def parse_digits_def is_digit_def digit_val_def)

lemma sample_targets:
  "protoSplitter ''tcp4'' = Some (NetTcp, ''4'')" "dial_target NetTcp ''h:80'' = Inr (''h'', 80)"
  by (simp_all add: protoSplitter_def HasPrefix_def Let_def dial_target_def sample_split sample_atoi)

lemma sample_suitable:
  "suitable_addrs True False 80 [''1.1.1.1''] = [(Addr4 [1, 1, 1, 1], 80)]"
  "suitable_addrs True False 80 [''1.1.1.1'', ''2.2.2.2''] = [(Addr4 [1, 1, 1, 1], 80), (Addr4 [2, 2, 2, 2], 80)]"
  by code_simp+

section \<open>Properties\<close>

text \<open>
  The share of the deadline. While time remains, the attempt for the first of \<open>n\<close> remaining addresses ends after now and not after the deadline; it gets at least an equal share of
  the time left, at least two seconds unless less is left, and the last address gets everything. Once the deadline is over, the attempt is a timeout.
\<close>

theorem partialDeadline_bounds:
  assumes "n \<ge> 1"
  shows "if deadline \<le> now then partialDeadline now (Some deadline) n = Inl ErrTimeout
    else \<exists>t. partialDeadline now (Some deadline) n = Inr (Some t) \<and> now < t \<and> t \<le> deadline
      \<and> (deadline - now) div n \<le> t - now \<and> (t = deadline \<or> 2 * Second \<le> t - now) \<and> (n = 1 \<longrightarrow> t = deadline)"
proof (cases "deadline \<le> now")
  case True
  then show ?thesis by (simp add: partialDeadline_def)
next
  case False
  have "(deadline - now) div n \<le> deadline - now"
    using zdiv_mono2 [of "deadline - now" 1 n] False assms by simp
  then show ?thesis
    using False assms by (auto simp: partialDeadline_def Let_def)
qed

theorem partialDeadline_bounds_witness:
  "\<exists>t. partialDeadline 0 (Some (10 * Second)) 4 = Inr (Some t) \<and> 0 < t \<and> t \<le> 10 * Second"
  using partialDeadline_bounds [of 4 "10 * Second" 0] by auto

text \<open>
  What a successful dial connects to. The connection is of the protocol the network names; it goes to an address the lookup of the
  host returned and whose family the network accepts, at the given port, and every suitable address before it was tried and failed.
\<close>

theorem DialContext_first_reachable:
  assumes "DialContext look V network address = Some (Inr c)"
  shows "\<exists>pr ver host port allAddr addrs n.
    protoSplitter network = Some (pr, ver) \<and> conn_proto c = pr \<and> dial_target pr address = Inr (host, port)
    \<and> look host = Some (Inr allAddr) \<and> n < length addrs
    \<and> (\<forall>(a, p) \<in> set addrs. p = port \<and> (Is4 a \<and> ver \<noteq> ''6'' \<or> Is6 a \<and> ver \<noteq> ''4'') \<and> (\<exists>s \<in> set allAddr. ParseAddr s = Inr a))
    \<and> (\<exists>dl. dial_one V pr n dl (addrs ! n) = Inr c) \<and> (\<forall>m < n. \<exists>dl e. dial_one V pr m dl (addrs ! m) = Inl e)"
proof -
  obtain pr ver host port allAddr where net: "protoSplitter network = Some (pr, ver)" "dial_target pr address = Inr (host, port)"
      "look host = Some (Inr allAddr)"
    and loop: "dial_loop V pr (suitable_addrs (ver = [] \<or> ver = ''4'') (ver = [] \<or> ver \<noteq> ''4'') port allAddr) 0 None = Inr c"
    using assms by (rule DialContext_InrD)
  let ?addrs = "suitable_addrs (ver = [] \<or> ver = ''4'') (ver = [] \<or> ver \<noteq> ''4'') port allAddr"
  have "ver = [] \<or> ver = ''4'' \<or> ver = ''6''"
    using net(1) by (auto simp: protoSplitter_def Let_def split: if_splits)
  then have fits: "\<forall>(a, p) \<in> set ?addrs. p = port \<and> (Is4 a \<and> ver \<noteq> ''6'' \<or> Is6 a \<and> ver \<noteq> ''4'') \<and> (\<exists>s \<in> set allAddr. ParseAddr s = Inr a)"
    using suitable_addrs_sound by fastforce
  obtain n dl where n: "n < length ?addrs" "dial_one V pr n dl (?addrs ! n) = Inr c"
      "\<forall>m < n. \<exists>dl e. dial_one V pr m dl (?addrs ! m) = Inl e"
    using dial_loop_ok [OF loop] by auto
  show ?thesis
    using net fits n dial_one_proto [OF n(2)] by blast
qed

theorem DialContext_first_reachable_witness:
  "DialContext (\<lambda>_. Some (Inr [''1.1.1.1'', ''2.2.2.2''])) sample_dial ''tcp4'' ''h:80'' = Some (Inr (TCPConn 1))
   \<and> conn_proto (TCPConn (1 :: nat)) = NetTcp"
proof -
  have dial: "DialContext (\<lambda>_. Some (Inr [''1.1.1.1'', ''2.2.2.2''])) sample_dial ''tcp4'' ''h:80'' = Some (Inr (TCPConn 1))"
    by (simp add: DialContext_def sample_targets sample_suitable sample_dial_def attempt_deadline_def dial_one_def DialContextTCPAddrPort_def convertToFullAddr_def)
  show ?thesis
    using dial DialContext_first_reachable [OF dial] by (auto simp: sample_targets)
qed



text \<open>
  A dial through the virtual device always returns, and never with the error \<open>missing address\<close>: its lookup ends with an error or with at least one
  address, so that the list of addresses to try is empty only when none is of a suitable family, which has its own error.
\<close>

theorem tunnel_dial_returns:
  assumes "dns_parser_laws (dx_pkg E4) left" "dx_pkg E6 = dx_pkg E4"
  shows "\<exists>r. tunnel_dial t E4 E6 first w V network address = Some r \<and> r \<noteq> Inl (OpDial ErrMissingAddress)"
proof (cases "protoSplitter network")
  case None
  then show ?thesis by (simp add: tunnel_dial_def DialContext_def)
next
  case (Some pv)
  obtain pr ver where pv: "pv = (pr, ver)" by fastforce
  show ?thesis
  proof (cases "dial_target pr address")
    case (Inl e)
    then have "e \<noteq> OpDial ErrMissingAddress"
      by (auto simp: dial_target_def split: if_splits sum.splits option.splits prod.splits)
    then show ?thesis using Some pv Inl by (simp add: tunnel_dial_def DialContext_def)
  next
    case (Inr hp)
    obtain host port where hp: "hp = (host, port)" by fastforce
    obtain w' r where look: "LookupContextHost t E4 E6 first host w = Some (w', r)" "\<forall>as. r = Inr as \<longrightarrow> as \<noteq> []"
      using LookupContextHost_total [OF assms] by blast
    then show ?thesis
      using Some pv Inr hp dial_loop_not_missing [where fe = None]
      by (cases r) (auto simp: tunnel_dial_def DialContext_def Let_def)
  qed
qed

theorem tunnel_dial_returns_witness:
  "\<exists>r. tunnel_dial sample_tun (sample_env TypeA []) (sample_env TypeA []) True (sample_dns_world, sample_dns_world) sample_dial ''tcp'' ''h:80'' = Some r
     \<and> r \<noteq> Inl (OpDial ErrMissingAddress)"
  by (rule tunnel_dial_returns [where left = sample_left]) (simp_all add: sample_env_def sample_laws)

end
