(* ===== verification/Connect_Path.thy ===== *)
theory Connect_Path
  imports Egress Net_Dial
begin

text \<open>
  The way of one CONNECT in a tunnel mode, from the request of the client to the socket of the virtual
  device: \<open>handleConnect\<close> and \<open>resolveDialAddr\<close> of \<open>src/cmd/socks_adapter.go\<close>, the dialer \<open>prepareSocksRuntime\<close> of
  \<open>src/cmd/proxy.go\<close> builds, and \<open>DialContext\<close> with its lookup of \<open>src/internal/netstack/tun.go\<close>.
\<close>

section \<open>The device behind the runtime\<close>

text \<open>The device with what its lookups and sockets meet.\<close>

record ('p, 'c) device =
  dc_tun :: net_tun
  dc_dns4 :: "'p dns_env"
  dc_dns6 :: "'p dns_env"
  dc_v6_first :: bool
  dc_worlds :: "dns_world \<times> dns_world"
  dc_dial :: "'c dial_env"

definition device_dial :: "('p, 'c) device \<Rightarrow> string \<Rightarrow> string \<Rightarrow> (dial_err, 'c net_conn) result option" where
  "device_dial D network addr =
     tunnel_dial (dc_tun D) (dc_dns4 D) (dc_dns6 D) (dc_v6_first D) (dc_worlds D) (dc_dial D) network addr"

text \<open>
  \<open>tunNet\<close> of the dialers is the device: what \<open>DialContext\<close> returns is what the upstream dialer gets;
  \<open>errv\<close> is the error value of an error of the dialer.
\<close>

definition device_behind :: "(dial_err \<Rightarrow> gerr) \<Rightarrow> ('p, 'c) device \<Rightarrow> 'c net_conn net_env \<Rightarrow> bool" where
  "device_behind errv D env =
     (\<forall>network addr r. device_dial D network addr = Some r \<longrightarrow> ne_tun env network addr = map_err errv r)"

text \<open>The address a client asked for: the literal it sent, or what the resolver knows for the name.\<close>

definition requested_addr :: "ip resolver \<Rightarrow> socksTarget \<Rightarrow> addr" where
  "requested_addr resolve t =
     (if ParseIP (Host t) = None
      then (case resolve (Host t) of Inr b \<Rightarrow> ip_addr b | Inl _ \<Rightarrow> NoAddr)
      else (case ParseAddr (Host t) of Inr a \<Rightarrow> a | Inl _ \<Rightarrow> NoAddr))"

text \<open>What the package \<open>net\<close> documents of a lookup: the addresses have four or sixteen bytes.\<close>

definition gives_addresses :: "ip resolver \<Rightarrow> bool" where
  "gives_addresses resolve = (\<forall>h b. resolve h = Inr b \<longrightarrow> length b = 4 \<or> length b = 16)"

section \<open>Lemmas\<close>

lemma lookup_literal_address:
  assumes "ParseAddr h = Inr a" "Zone a = []"
  shows "lookup_literal h = Some a"
proof -
  have "\<not> addr_char CHR ''%''" by (simp add: addr_char_def hex_val_def is_digit_def)
  with ParseAddr_chars [OF assms] have "CHR ''%'' \<notin> set h" by (auto simp: list_all_iff)
  then show ?thesis using assms(1) by (simp add: lookup_literal_def LastIndexByte_None [THEN iffD2])
qed

lemma ParseAddr_nonempty: "ParseAddr h = Inr a \<Longrightarrow> h \<noteq> []"
  by (auto simp: ParseAddr_def)

text \<open>A literal needs no query: the worlds of both lanes are as before.\<close>

lemma literal_lookup:
  assumes "ParseAddr h = Inr a" "Zone a = []" "nt_hasV4 t \<or> nt_hasV6 t"
  shows "LookupContextHost t E4 E6 first h w = Some (w, Inr [AddrString a])"
  using assms lookup_literal_address ParseAddr_nonempty by (auto simp: LookupContextHost_def Let_def)

lemma ip_addr_wf: "length b = 4 \<or> length b = 16 \<Longrightarrow> wf_addr (ip_addr b) \<and> ip_addr b \<noteq> NoAddr \<and> Zone (ip_addr b) = []"
  by (auto simp: ip_addr_def To4_def)

lemma dial_address:
  assumes "resolveDialAddr resolve t = Inr addr" "0 \<le> TargetPort t" "TargetPort t < 65536" "gives_addresses resolve"
  obtains h p where "SplitHostPort addr = Inr (h, p)" "Atoi p = Some (TargetPort t)"
    "ParseAddr h = Inr (requested_addr resolve t)" "Zone (requested_addr resolve t) = []"
    "wf_addr (requested_addr resolve t)" "requested_addr resolve t \<noteq> NoAddr"
  using assms(1-3)
proof (rule resolveDialAddr_host)
  fix h p
  assume hp: "SplitHostPort addr = Inr (h, p)" "Atoi p = Some (TargetPort t)"
    "case ParseIP (Host t) of Some _ \<Rightarrow> h = Host t | None \<Rightarrow> \<exists>a. resolve (Host t) = Inr a \<and> h = IPString a"
  show ?thesis
  proof (cases "ParseIP (Host t)")
    case None
    with hp(3) obtain b where b: "resolve (Host t) = Inr b" "h = IPString b" by auto
    then have "length b = 4 \<or> length b = 16" using assms(4) by (auto simp: gives_addresses_def)
    with that [OF hp(1,2)] None b show ?thesis by (simp add: requested_addr_def ParseAddr_IPString ip_addr_wf)
  next
    case (Some b)
    with that [OF hp(1,2)] hp(3) ParseIP_ParseAddr [OF Some] show ?thesis by (auto simp: requested_addr_def)
  qed
qed

lemma suitable_single:
  assumes "wf_addr a" "a \<noteq> NoAddr"
  shows "suitable_addrs True True port [AddrString a] = [(a, port)]"
  using ParseAddr_AddrString [OF assms] assms(2) by (cases a) (simp_all add: suitable_addrs_def List.map_filter_def)

lemma proto_tcp_udp:
  "protoSplitter ''tcp'' = Some (NetTcp, [])" "protoSplitter ''udp'' = Some (NetUdp, [])"
  by (simp_all add: protoSplitter_def HasPrefix_def Let_def)

text \<open>TCP and UDP alike: the address the adapter resolved makes one attempt at the address asked for.\<close>

lemma device_dial_resolved:
  assumes "resolveDialAddr resolve t = Inr addr" "0 \<le> TargetPort t" "TargetPort t < 65536" "gives_addresses resolve"
    and "nt_hasV4 (dc_tun D) \<or> nt_hasV6 (dc_tun D)"
    and "(network, pr) \<in> {(''tcp'', NetTcp), (''udp'', NetUdp)}"
  shows "device_dial D network addr = Some (dial_loop (dc_dial D) pr [(requested_addr resolve t, nat (TargetPort t))] 0 None)"
  using assms(1-4)
proof (rule dial_address)
  fix h p
  assume h: "SplitHostPort addr = Inr (h, p)" "Atoi p = Some (TargetPort t)"
    "ParseAddr h = Inr (requested_addr resolve t)" "Zone (requested_addr resolve t) = []"
    "wf_addr (requested_addr resolve t)" "requested_addr resolve t \<noteq> NoAddr"
  have "dial_target pr addr = Inr (h, nat (TargetPort t))" using assms(2,3,6) h(1,2) by (auto simp: dial_target_def)
  moreover have "LookupContextHost (dc_tun D) (dc_dns4 D) (dc_dns6 D) (dc_v6_first D) h (dc_worlds D) =
      Some (dc_worlds D, Inr [AddrString (requested_addr resolve t)])" by (rule literal_lookup [OF h(3,4) assms(5)])
  ultimately show ?thesis
    using assms(6) suitable_single [OF h(5,6)] proto_tcp_udp
    by (auto simp: device_dial_def tunnel_dial_def DialContext_def Let_def simp del: dial_loop.simps)
qed

lemma gated_tunnel_dial:
  assumes "\<not> goes_direct policy ''tcp'' target" "tunnelUp w"
  shows "dialWithTarget cfg policy idleTimeout env ''tcp'' addr target w =
    ((log_dial ViaTunnel ''tcp'' addr w)\<lparr>tunnelUp := ne_up_after env\<rparr>,
     case ne_tun env ''tcp'' addr of
       Inr c \<Rightarrow> Inr (NetConn c, idleTimeout)
     | Inl e \<Rightarrow> Inl (if ne_up_after env then e else ErrTunnelDisconnected))"
  using assms
  by (auto simp: dialWithTarget_def selectTCPRoute_direct [symmetric] rt_DialContext_def upstreamDial_def timeout_conn_def
      HasPrefix_def split: sum.splits)

section \<open>Properties\<close>

text \<open>
  C9: A client that asks for an address or a name gets a connection to exactly that address. When a
  CONNECT is routed to the tunnel and the tunnel is up, one dial leaves through the device; the device
  makes one attempt, at the address the client sent or the configured resolver gave for its name, and at the port
  of the request, and asks no DNS server of its own; its outcome is the outcome of the dial.
\<close>

theorem connect_reaches_requested_address:
  assumes "handleConnect ad resolve ce req = Some (acts, err)" "Dial addr target client \<in> set acts"
    and "gives_addresses resolve" "nt_hasV4 (dc_tun D) \<or> nt_hasV6 (dc_tun D)" "device_behind errv D env"
    and "\<not> goes_direct policy ''tcp'' target" "tunnelUp w"
    and "dialWithTarget cfg policy idleTimeout env ''tcp'' addr target w = (w', r)"
  shows "let attempt = dial_loop (dc_dial D) NetTcp [(requested_addr resolve target, nat (TargetPort target))] 0 None
     in dw_log w' = dw_log w @ [(ViaTunnel, ''tcp'', addr)] \<and>
        (\<exists>host port. SplitHostPort addr = Inr (host, port) \<and>
           LookupContextHost (dc_tun D) (dc_dns4 D) (dc_dns6 D) (dc_v6_first D) host (dc_worlds D) =
             Some (dc_worlds D, Inr [AddrString (requested_addr resolve target)])) \<and>
        device_dial D ''tcp'' addr = Some attempt \<and>
        r = (case attempt of
               Inr c \<Rightarrow> Inr (NetConn c, idleTimeout)
             | Inl e \<Rightarrow> Inl (if ne_up_after env then errv e else ErrTunnelDisconnected))"
proof -
  note rq = handleConnect_Dial [OF assms(1,2)]
  note port = targetFromRequest_port [OF rq(1)]
  have "\<exists>host port. SplitHostPort addr = Inr (host, port) \<and>
      LookupContextHost (dc_tun D) (dc_dns4 D) (dc_dns6 D) (dc_v6_first D) host (dc_worlds D) =
        Some (dc_worlds D, Inr [AddrString (requested_addr resolve target)])"
    using dial_address [OF rq(2) port [THEN conjunct1] port [THEN conjunct2] assms(3)] literal_lookup [OF _ _ assms(4)] by metis
  moreover have d: "device_dial D ''tcp'' addr = Some (dial_loop (dc_dial D) NetTcp [(requested_addr resolve target, nat (TargetPort target))] 0 None)"
    using device_dial_resolved [OF rq(2) _ _ assms(3,4), of "''tcp''" NetTcp] port by simp
  moreover have "ne_tun env ''tcp'' addr = map_err errv (dial_loop (dc_dial D) NetTcp [(requested_addr resolve target, nat (TargetPort target))] 0 None)"
    using assms(5) d by (simp add: device_behind_def del: dial_loop.simps)
  ultimately show ?thesis
    using assms(8) gated_tunnel_dial [OF assms(6,7), of cfg idleTimeout env addr]
    by (auto simp: Let_def simp del: dial_loop.simps split: sum.splits)
qed

text \<open>A client asks for a name that resolves to 2.2.2.2, where something answers.\<close>

definition two_resolve :: "ip resolver" where "two_resolve _ = Inr [2, 2, 2, 2]"

definition sample_device :: "(sample_parser, nat) device" where
  "sample_device = \<lparr>dc_tun = sample_tun, dc_dns4 = sample_env TypeA [], dc_dns6 = sample_env TypeA [], dc_v6_first = False,
     dc_worlds = (sample_dns_world, sample_dns_world), dc_dial = sample_dial\<rparr>"

definition device_net :: "nat net_conn net_env" where
  "device_net = \<lparr>ne_tun = (\<lambda>network addr. case device_dial sample_device network addr of
       Some r \<Rightarrow> map_err (\<lambda>_. EText ''dial'') r | None \<Rightarrow> Inl ECanceled),
     ne_direct = (\<lambda>_ _. Inl ECanceled), ne_udpleg = (\<lambda>_ _. Inl ECanceled), ne_l4 = ok_env, ne_ctx = None,
     ne_up_after = True, ne_leg_after = True\<rparr>"

theorem connect_reaches_requested_address_witness:
  "\<exists>w'. dialWithTarget quiet_config sample_policy 300 device_net ''tcp'' ''2.2.2.2:443'' \<lparr>Host = ''a'', TargetPort = 443\<rparr> sample_dial_world =
     (w', Inr (NetConn (TCPConn 0), 300)) \<and> dw_log w' = [(ViaTunnel, ''tcp'', ''2.2.2.2:443'')]"
proof -
  let ?t = "\<lparr>Host = ''a'', TargetPort = 443\<rparr>"
  obtain acts err where h: "handleConnect (newTxthinkingAdapter [] [] 0 30 False True) two_resolve sample_ce sample_req = Some (acts, err)"
      "Dial ''2.2.2.2:443'' ?t None \<in> set acts"
  proof -
    have "resolveDialAddr two_resolve ?t = Inr ''2.2.2.2:443''" by code_simp
    with that show ?thesis
      by (simp add: handleConnect_def sample_target relayTCP_def newTxthinkingAdapter_def sample_ce_def clientIP_def Let_def)
  qed
  obtain w' r where d: "dialWithTarget quiet_config sample_policy 300 device_net ''tcp'' ''2.2.2.2:443'' ?t sample_dial_world = (w', r)"
    by fastforce
  have req: "requested_addr two_resolve ?t = Addr4 [2, 2, 2, 2]" by code_simp
  have hyps: "gives_addresses two_resolve" "nt_hasV4 (dc_tun sample_device) \<or> nt_hasV6 (dc_tun sample_device)"
    "device_behind (\<lambda>_. EText ''dial'') sample_device device_net" "tunnelUp sample_dial_world"
    by (simp_all add: gives_addresses_def two_resolve_def sample_device_def sample_tun_def device_behind_def device_net_def
        sample_dial_world_def socksRuntime.defs)
  have pol: "\<not> goes_direct sample_policy ''tcp'' ?t" by code_simp
  have "dial_loop (dc_dial sample_device) NetTcp [(Addr4 [2, 2, 2, 2], 443)] 0 None = Inr (TCPConn 0)"
    by (simp add: sample_device_def sample_dial_def attempt_deadline_def dial_one_def DialContextTCPAddrPort_def convertToFullAddr_def)
  then have "dw_log w' = dw_log sample_dial_world @ [(ViaTunnel, ''tcp'', ''2.2.2.2:443'')]" "r = Inr (NetConn (TCPConn 0), 300)"
    using connect_reaches_requested_address [OF h hyps(1-3) pol hyps(4) d] req
    by (simp_all add: Let_def del: dial_loop.simps)
  with d show ?thesis by (simp add: sample_dial_world_def socksRuntime.defs)
qed

end
