(* ===== verification/Command_Line.thy ===== *)
theory Command_Line
  imports Commands
begin

text \<open>
  The command tables: the commands of \<open>src/cmd/\<close> with their flags and defaults, which flags a command
  sees, and the reads of the flags by the commands. The command library (cobra, pflag) is an argument:
  \<open>flag_set\<close> is what its lookups return after parsing, and \<open>parsed\<close> what its documentation says of them.
\<close>

section \<open>Tables\<close>

datatype flag_value = FlagString string | FlagBool bool | FlagInt int

record flag =
  fg_name :: string
  fg_short :: string
  fg_default :: flag_value

abbreviation flag_of :: "string \<Rightarrow> string \<Rightarrow> flag_value \<Rightarrow> flag" where
  "flag_of n sh d \<equiv> \<lparr>fg_name = n, fg_short = sh, fg_default = d\<rparr>"

datatype command = Command (cm_use: string) (cm_persistent: "flag list") (cm_flags: "flag list") (cm_sub: "command list")

definition auth_flags :: "flag list" where
  "auth_flags =
     [flag_of ''bind-address'' ''b'' (FlagString []), flag_of ''port'' ''p'' (FlagString []),
      flag_of ''username'' ''u'' (FlagString []), flag_of ''password'' ''w'' (FlagString [])]"

definition proxyCmd :: command where
  "proxyCmd = Command ''proxy'' []
     ([flag_of ''locale'' [] (FlagString DefaultLocale), flag_of ''model'' [] (FlagString DefaultModel),
       flag_of ''name'' [] (FlagString []), flag_of ''accept-tos'' [] (FlagBool True),
       flag_of ''jwt'' [] (FlagString []), flag_of ''license'' [] (FlagString []),
       flag_of ''reset-config'' [] (FlagBool False)] @ auth_flags @
      [flag_of ''use-ipv6'' [] (FlagBool False), flag_of ''http2'' [] (FlagBool False),
       flag_of ''l4'' [] (FlagBool False), flag_of ''l4-udp'' [] (FlagString []),
       flag_of ''wg'' [] (FlagBool False), flag_of ''experimental'' [] (FlagBool False),
       flag_of ''wg-account'' [] (FlagString ''wg-account.json''),
       flag_of ''wg-keepalive'' [] (FlagInt defaultWGRunKeepalive)]) []"

definition socksCmd :: command where
  "socksCmd = Command ''socks'' [] auth_flags []"

definition newWGRegisterCmd :: command where
  "newWGRegisterCmd = Command ''register'' []
     [flag_of ''wg-account'' [] (FlagString ''wg-account.json''), flag_of ''name'' [] (FlagString []),
      flag_of ''model'' [] (FlagString DefaultModel), flag_of ''key'' [] (FlagString []),
      flag_of ''license'' [] (FlagString []), flag_of ''jwt'' [] (FlagString []),
      flag_of ''accept-tos'' [] (FlagBool False)] []"

definition newWGGenerateCmd :: command where
  "newWGGenerateCmd = Command ''generate'' []
     [flag_of ''wg-account'' [] (FlagString ''wg-account.json''), flag_of ''profile'' [] (FlagString ''wg-profile.conf'')] []"

definition newWGUpdateCmd :: command where
  "newWGUpdateCmd = Command ''update'' []
     [flag_of ''wg-account'' [] (FlagString ''wg-account.json''), flag_of ''license'' [] (FlagString [])] []"

definition wgCmd :: command where
  "wgCmd = Command ''wg'' [] [] [newWGRegisterCmd, newWGGenerateCmd, newWGUpdateCmd]"

definition versionCmd :: command where
  "versionCmd = Command ''version'' [] [] []"

definition rootCmd :: command where
  "rootCmd = Command ''uscf'' [flag_of ''config'' ''c'' (FlagString [])] [] [proxyCmd, socksCmd, versionCmd, wgCmd]"

text \<open>
  Every command of a tree with the names from the command up to the root, and the flags it sees:
  its own and the persistent ones of its parents.
\<close>

fun command_paths :: "string list \<Rightarrow> flag list \<Rightarrow> command \<Rightarrow> (string list \<times> flag list) list" where
  "command_paths up inherited (Command use pers own sub) =
     (use # up, own @ pers @ inherited) # concat (map (command_paths (use # up) (pers @ inherited)) sub)"

definition flags_of :: "string list \<Rightarrow> flag list" where
  "flags_of names = (case map_of (command_paths [] [] rootCmd) names of Some fs \<Rightarrow> fs | None \<Rightarrow> [])"

section \<open>Parsed flags\<close>

record flag_set =
  fs_GetString :: "string \<Rightarrow> (gerr, string) result"
  fs_GetBool :: "string \<Rightarrow> (gerr, bool) result"
  fs_GetInt :: "string \<Rightarrow> (gerr, int) result"
  fs_Changed :: "string \<Rightarrow> bool"

text \<open>The value of a flag: the one given, else the default; nothing for a flag that is not declared.\<close>

definition flag_lookup :: "flag list \<Rightarrow> (string \<rightharpoonup> flag_value) \<Rightarrow> string \<Rightarrow> flag_value option" where
  "flag_lookup decls given n =
     (case map_of (map (\<lambda>f. (fg_name f, fg_default f)) decls) n of
        None \<Rightarrow> None
      | Some d \<Rightarrow> (case given n of Some v \<Rightarrow> Some v | None \<Rightarrow> Some d))"

fun same_kind :: "flag_value \<Rightarrow> flag_value \<Rightarrow> bool" where
  "same_kind (FlagString _) (FlagString _) = True"
| "same_kind (FlagBool _) (FlagBool _) = True"
| "same_kind (FlagInt _) (FlagInt _) = True"
| "same_kind _ _ = False"

definition well_given :: "flag list \<Rightarrow> (string \<rightharpoonup> flag_value) \<Rightarrow> bool" where
  "well_given decls given =
     (\<forall>n v. given n = Some v \<longrightarrow> (\<exists>d. map_of (map (\<lambda>f. (fg_name f, fg_default f)) decls) n = Some d \<and> same_kind v d))"

text \<open>
  What pflag documents: a lookup returns the value of a declared flag of that type and an error otherwise,
  and \<open>Changed\<close> says whether the flag was given.
\<close>

definition parsed :: "flag list \<Rightarrow> (string \<rightharpoonup> flag_value) \<Rightarrow> flag_set \<Rightarrow> bool" where
  "parsed decls given fs =
     ((\<forall>n. case flag_lookup decls given n of Some (FlagString s) \<Rightarrow> fs_GetString fs n = Inr s | _ \<Rightarrow> \<exists>e. fs_GetString fs n = Inl e) \<and>
      (\<forall>n. case flag_lookup decls given n of Some (FlagBool b) \<Rightarrow> fs_GetBool fs n = Inr b | _ \<Rightarrow> \<exists>e. fs_GetBool fs n = Inl e) \<and>
      (\<forall>n. case flag_lookup decls given n of Some (FlagInt i) \<Rightarrow> fs_GetInt fs n = Inr i | _ \<Rightarrow> \<exists>e. fs_GetInt fs n = Inl e) \<and>
      (\<forall>n. fs_Changed fs n = (given n \<noteq> None)))"

section \<open>Reading the flags\<close>

text \<open>A read that drops the error: the zero value then.\<close>

definition or_zero :: "'a \<Rightarrow> (gerr, 'a) result \<Rightarrow> 'a" where
  "or_zero z r = (case r of Inr v \<Rightarrow> v | Inl _ \<Rightarrow> z)"

definition when_changed :: "flag_set \<Rightarrow> string \<Rightarrow> 'a \<Rightarrow> 'a option" where
  "when_changed fs n v = (if fs_Changed fs n then Some v else None)"

text \<open>The reads of the proxy and the SOCKS command; \<open>config\<close> is the one read whose error is reported.\<close>

definition read_flags :: "flag_set \<Rightarrow> (gerr, flags) result" where
  "read_flags fs =
     bind_res (map_err (\<lambda>e. EWrap ''failed to get config path: '' e []) (fs_GetString fs ''config'')) (\<lambda>configPath.
       let str = (\<lambda>n. or_zero [] (fs_GetString fs n)); bool = (\<lambda>n. or_zero False (fs_GetBool fs n)) in
       Inr \<lparr>fl_config = configPath, fl_license = str ''license'', fl_jwt = str ''jwt'', fl_reset_config = bool ''reset-config'',
            fl_name = str ''name'', fl_locale = str ''locale'', fl_model = str ''model'', fl_accept_tos = bool ''accept-tos'',
            fl_bind_address = str ''bind-address'', fl_port = str ''port'', fl_username = str ''username'', fl_password = str ''password'',
            fl_use_ipv6 = when_changed fs ''use-ipv6'' (bool ''use-ipv6''), fl_http2 = when_changed fs ''http2'' (bool ''http2''),
            fl_l4 = when_changed fs ''l4'' (bool ''l4''), fl_wg = when_changed fs ''wg'' (bool ''wg''),
            fl_l4_udp = when_changed fs ''l4-udp'' (str ''l4-udp''), fl_experimental = bool ''experimental'',
            fl_wg_account = str ''wg-account'', fl_wg_keepalive = or_zero 0 (fs_GetInt fs ''wg-keepalive'')\<rparr>)"

definition read_wg_register :: "flag_set \<Rightarrow> string \<times> wgRegisterOptions" where
  "read_wg_register fs =
     (let str = (\<lambda>n. or_zero [] (fs_GetString fs n)) in
      (str ''wg-account'',
       \<lparr>opt_name = str ''name'', opt_model = str ''model'', opt_key = str ''key'', opt_license = str ''license'', opt_jwt = str ''jwt'',
        opt_acceptTOS = or_zero False (fs_GetBool fs ''accept-tos'')\<rparr>))"

definition read_wg_generate :: "flag_set \<Rightarrow> string \<times> string" where
  "read_wg_generate fs = (or_zero [] (fs_GetString fs ''wg-account''), or_zero [] (fs_GetString fs ''profile''))"

definition read_wg_update :: "flag_set \<Rightarrow> string \<times> string" where
  "read_wg_update fs = (or_zero [] (fs_GetString fs ''wg-account''), or_zero [] (fs_GetString fs ''license''))"

section \<open>Lemmas\<close>

text \<open>The value given for a flag of a type, or else \<open>d\<close>.\<close>

definition string_value :: "(string \<rightharpoonup> flag_value) \<Rightarrow> string \<Rightarrow> string \<Rightarrow> string" where
  "string_value given n d = (case given n of Some (FlagString s) \<Rightarrow> s | _ \<Rightarrow> d)"

definition bool_value :: "(string \<rightharpoonup> flag_value) \<Rightarrow> string \<Rightarrow> bool \<Rightarrow> bool" where
  "bool_value given n d = (case given n of Some (FlagBool b) \<Rightarrow> b | _ \<Rightarrow> d)"

definition int_value :: "(string \<rightharpoonup> flag_value) \<Rightarrow> string \<Rightarrow> int \<Rightarrow> int" where
  "int_value given n d = (case given n of Some (FlagInt i) \<Rightarrow> i | _ \<Rightarrow> d)"

definition default_of :: "flag list \<Rightarrow> string \<Rightarrow> flag_value option" where
  "default_of decls n = map_of (map (\<lambda>f. (fg_name f, fg_default f)) decls) n"

lemma same_kind_simps [simp]:
  "same_kind v (FlagString s) = (\<exists>t. v = FlagString t)" "same_kind v (FlagBool b) = (\<exists>c. v = FlagBool c)"
  "same_kind v (FlagInt i) = (\<exists>j. v = FlagInt j)"
  by (cases v; simp)+

lemma given_kind:
  assumes "well_given decls given" "given n = Some v" "default_of decls n = Some d"
  shows "same_kind v d"
  using assms unfolding well_given_def default_of_def by force

lemma parsed_reads:
  assumes "parsed decls given fs" "well_given decls given"
  shows "default_of decls n = Some (FlagString s) \<Longrightarrow> fs_GetString fs n = Inr (string_value given n s)"
    "default_of decls n = Some (FlagBool b) \<Longrightarrow> fs_GetBool fs n = Inr (bool_value given n b)"
    "default_of decls n = Some (FlagInt i) \<Longrightarrow> fs_GetInt fs n = Inr (int_value given n i)"
    "fs_Changed fs n = (given n \<noteq> None)"
proof -
  note laws = assms(1) [unfolded parsed_def]
  show "fs_GetString fs n = Inr (string_value given n s)" if d: "default_of decls n = Some (FlagString s)"
    using laws [THEN conjunct1, THEN spec, of n] given_kind [OF assms(2) _ d] d
    by (cases "given n") (auto simp: flag_lookup_def default_of_def string_value_def)
  show "fs_GetBool fs n = Inr (bool_value given n b)" if d: "default_of decls n = Some (FlagBool b)"
    using laws [THEN conjunct2, THEN conjunct1, THEN spec, of n] given_kind [OF assms(2) _ d] d
    by (cases "given n") (auto simp: flag_lookup_def default_of_def bool_value_def)
  show "fs_GetInt fs n = Inr (int_value given n i)" if d: "default_of decls n = Some (FlagInt i)"
    using laws [THEN conjunct2, THEN conjunct2, THEN conjunct1, THEN spec, of n] given_kind [OF assms(2) _ d] d
    by (cases "given n") (auto simp: flag_lookup_def default_of_def int_value_def)
  show "fs_Changed fs n = (given n \<noteq> None)" using laws by blast
qed

lemma or_zero_simps [simp]: "or_zero z (Inr v) = v" "or_zero z (Inl e) = z"
  by (simp_all add: or_zero_def)

abbreviation proxy_path :: "string list" where "proxy_path \<equiv> [''proxy'', ''uscf'']"
abbreviation socks_path :: "string list" where "socks_path \<equiv> [''socks'', ''uscf'']"
abbreviation register_path :: "string list" where "register_path \<equiv> [''register'', ''wg'', ''uscf'']"
abbreviation generate_path :: "string list" where "generate_path \<equiv> [''generate'', ''wg'', ''uscf'']"
abbreviation update_path :: "string list" where "update_path \<equiv> [''update'', ''wg'', ''uscf'']"

lemma command_flags:
  "flags_of proxy_path = cm_flags proxyCmd @ cm_persistent rootCmd"
  "flags_of socks_path = cm_flags socksCmd @ cm_persistent rootCmd"
  "flags_of register_path = cm_flags newWGRegisterCmd @ cm_persistent rootCmd"
  "flags_of generate_path = cm_flags newWGGenerateCmd @ cm_persistent rootCmd"
  "flags_of update_path = cm_flags newWGUpdateCmd @ cm_persistent rootCmd"
  by (simp_all add: flags_of_def rootCmd_def proxyCmd_def socksCmd_def versionCmd_def wgCmd_def newWGRegisterCmd_def
      newWGGenerateCmd_def newWGUpdateCmd_def)

text \<open>The configuration is not loaded for \<open>socks\<close> and for \<open>wg\<close> with its commands, and for no other command.\<close>

lemma skipped_commands:
  "map fst (filter (\<lambda>c. shouldSkipConfigLoad (fst c)) (command_paths [] [] rootCmd)) =
     [socks_path, [''wg'', ''uscf''], register_path, generate_path, update_path]"
  by (simp add: rootCmd_def proxyCmd_def socksCmd_def versionCmd_def wgCmd_def newWGRegisterCmd_def newWGGenerateCmd_def
      newWGUpdateCmd_def shouldSkipConfigLoad_def)

lemmas cm_defs = proxyCmd_def socksCmd_def newWGRegisterCmd_def newWGGenerateCmd_def newWGUpdateCmd_def rootCmd_def auth_flags_def DefaultLocale_def DefaultModel_def defaultWGRunKeepalive_def

text \<open>The defaults of the flags the code reads.\<close>

lemma proxy_strings:
  "default_of (flags_of proxy_path) ''config'' = Some (FlagString [])" "default_of (flags_of proxy_path) ''license'' = Some (FlagString [])"
  "default_of (flags_of proxy_path) ''jwt'' = Some (FlagString [])" "default_of (flags_of proxy_path) ''name'' = Some (FlagString [])"
  "default_of (flags_of proxy_path) ''locale'' = Some (FlagString ''en_US'')" "default_of (flags_of proxy_path) ''model'' = Some (FlagString ''PC'')"
  "default_of (flags_of proxy_path) ''bind-address'' = Some (FlagString [])" "default_of (flags_of proxy_path) ''port'' = Some (FlagString [])"
  "default_of (flags_of proxy_path) ''username'' = Some (FlagString [])" "default_of (flags_of proxy_path) ''password'' = Some (FlagString [])"
  "default_of (flags_of proxy_path) ''l4-udp'' = Some (FlagString [])" "default_of (flags_of proxy_path) ''wg-account'' = Some (FlagString ''wg-account.json'')"
  by (simp_all add: default_of_def command_flags cm_defs)

lemma proxy_bools:
  "default_of (flags_of proxy_path) ''reset-config'' = Some (FlagBool False)" "default_of (flags_of proxy_path) ''accept-tos'' = Some (FlagBool True)"
  "default_of (flags_of proxy_path) ''use-ipv6'' = Some (FlagBool False)" "default_of (flags_of proxy_path) ''http2'' = Some (FlagBool False)"
  "default_of (flags_of proxy_path) ''l4'' = Some (FlagBool False)" "default_of (flags_of proxy_path) ''wg'' = Some (FlagBool False)"
  "default_of (flags_of proxy_path) ''experimental'' = Some (FlagBool False)"
  by (simp_all add: default_of_def command_flags cm_defs)

lemma proxy_int: "default_of (flags_of proxy_path) ''wg-keepalive'' = Some (FlagInt 25)"
  by (simp add: default_of_def command_flags cm_defs)

lemma socks_strings:
  "default_of (flags_of socks_path) ''config'' = Some (FlagString [])" "default_of (flags_of socks_path) ''bind-address'' = Some (FlagString [])"
  "default_of (flags_of socks_path) ''port'' = Some (FlagString [])" "default_of (flags_of socks_path) ''username'' = Some (FlagString [])"
  "default_of (flags_of socks_path) ''password'' = Some (FlagString [])"
  by (simp_all add: default_of_def command_flags cm_defs)

lemma socks_undeclared:
  "default_of (flags_of socks_path) ''use-ipv6'' = None" "default_of (flags_of socks_path) ''http2'' = None" "default_of (flags_of socks_path) ''l4'' = None" "default_of (flags_of socks_path) ''wg'' = None" "default_of (flags_of socks_path) ''l4-udp'' = None"
  by (simp_all add: default_of_def command_flags cm_defs)

lemma overrides_fst:
  "fst (string_override v n BindAddress_update r) = BindAddress_update (\<lambda>x. if v = [] then x else v) (fst r)"
  "fst (string_override v n Port_update r) = Port_update (\<lambda>x. if v = [] then x else v) (fst r)"
  "fst (string_override v n Username_update r) = Username_update (\<lambda>x. if v = [] then x else v) (fst r)"
  "fst (string_override v n Password_update r) = Password_update (\<lambda>x. if v = [] then x else v) (fst r)"
  by (cases r, cases v, simp_all add: string_override_def)+

lemma string_override_set: "set (snd (string_override v n upd r)) \<subseteq> A \<longleftrightarrow> set (snd r) \<subseteq> A \<and> (v \<noteq> [] \<longrightarrow> n \<in> A)"
  by (cases r) (auto simp: string_override_def)

lemma listener_updates:
  "\<exists>b p u w. cfg\<lparr>Socks := Password_update f4 (Username_update f3 (Port_update f2 (BindAddress_update f1 c)))\<rparr> =
     cfg\<lparr>Socks := c\<lparr>BindAddress := b, Port := p, Username := u, Password := w\<rparr>\<rparr>"
  by (rule exI [of _ "f1 (BindAddress c)"], rule exI [of _ "f2 (Port c)"], rule exI [of _ "f3 (Username c)"], rule exI [of _ "f4 (Password c)"])
    (cases c, simp)

text \<open>The reads of the account commands.\<close>

lemma wg_register_reads:
  assumes "parsed (flags_of register_path) given fs" "well_given (flags_of register_path) given"
  shows "read_wg_register fs =
    (string_value given ''wg-account'' ''wg-account.json'',
     \<lparr>opt_name = string_value given ''name'' [], opt_model = string_value given ''model'' ''PC'', opt_key = string_value given ''key'' [],
      opt_license = string_value given ''license'' [], opt_jwt = string_value given ''jwt'' [], opt_acceptTOS = bool_value given ''accept-tos'' False\<rparr>)"
proof -
  have s: "default_of (flags_of register_path) ''wg-account'' = Some (FlagString ''wg-account.json'')"
    "default_of (flags_of register_path) ''name'' = Some (FlagString [])" "default_of (flags_of register_path) ''model'' = Some (FlagString ''PC'')"
    "default_of (flags_of register_path) ''key'' = Some (FlagString [])" "default_of (flags_of register_path) ''license'' = Some (FlagString [])"
    "default_of (flags_of register_path) ''jwt'' = Some (FlagString [])" by (simp_all add: default_of_def command_flags cm_defs)
  have "default_of (flags_of register_path) ''accept-tos'' = Some (FlagBool False)" by (simp add: default_of_def command_flags cm_defs)
  from s [THEN parsed_reads(1) [OF assms]] parsed_reads(2) [OF assms this] show ?thesis by (simp add: read_wg_register_def Let_def)
qed

lemma wg_generate_reads:
  assumes "parsed (flags_of generate_path) given fs" "well_given (flags_of generate_path) given"
  shows "read_wg_generate fs = (string_value given ''wg-account'' ''wg-account.json'', string_value given ''profile'' ''wg-profile.conf'')"
proof -
  have s: "default_of (flags_of generate_path) ''wg-account'' = Some (FlagString ''wg-account.json'')"
    "default_of (flags_of generate_path) ''profile'' = Some (FlagString ''wg-profile.conf'')" by (simp_all add: default_of_def command_flags cm_defs)
  from s [THEN parsed_reads(1) [OF assms]] show ?thesis by (simp add: read_wg_generate_def)
qed

text \<open>Without a license \<open>wg update\<close> stops before it reads or sends anything.\<close>

lemma wg_update_needs_license:
  assumes "parsed (flags_of update_path) given fs" "well_given (flags_of update_path) given" "given ''license'' = None"
  shows "case read_wg_update fs of (account, license) \<Rightarrow> runWGUpdateCmd env account license w = (w, Some (EText ''license is required''))"
proof -
  have "default_of (flags_of update_path) ''license'' = Some (FlagString [])" by (simp add: default_of_def command_flags cm_defs)
  from parsed_reads(1) [OF assms(1,2) this] assms(3) show ?thesis
    by (simp add: read_wg_update_def string_value_def runWGUpdateCmd_def TrimSpace_def)
qed

section \<open>Properties\<close>


definition given_set :: "flag list \<Rightarrow> (string \<rightharpoonup> flag_value) \<Rightarrow> flag_set" where
  "given_set decls given =
     \<lparr>fs_GetString = (\<lambda>n. case flag_lookup decls given n of Some (FlagString s) \<Rightarrow> Inr s | _ \<Rightarrow> Inl ECanceled),
      fs_GetBool = (\<lambda>n. case flag_lookup decls given n of Some (FlagBool b) \<Rightarrow> Inr b | _ \<Rightarrow> Inl ECanceled),
      fs_GetInt = (\<lambda>n. case flag_lookup decls given n of Some (FlagInt i) \<Rightarrow> Inr i | _ \<Rightarrow> Inl ECanceled),
      fs_Changed = (\<lambda>n. given n \<noteq> None)\<rparr>"

lemma given_set_parsed: "parsed decls given (given_set decls given)"
  by (auto simp: parsed_def given_set_def split: option.splits flag_value.splits)

lemma sample_given: "well_given (flags_of proxy_path) [''http2'' \<mapsto> FlagBool True]"
  using proxy_bools by (auto simp: well_given_def default_of_def)


text \<open>
  The SOCKS-only command cannot change the mode: whatever is given to it, at most the listener and the credentials
  of the configuration are overridden. Without any flag, neither command changes the configuration.
\<close>

theorem socks_flags_override_listener_only:
  assumes "parsed (flags_of socks_path) given fs" "well_given (flags_of socks_path) given"
  shows "\<exists>fl. read_flags fs = Inr fl \<and>
    (\<exists>b p u w. fst (applySocksFlagOverrides fl cfg) =
       cfg\<lparr>Socks := (Socks cfg)\<lparr>BindAddress := b, Port := p, Username := u, Password := w\<rparr>\<rparr>) \<and>
    set (snd (snd (applySocksFlagOverrides fl cfg))) \<subseteq> {''bind_address'', ''port'', ''username'', ''password''} \<and>
    (given = Map.empty \<longrightarrow> applySocksFlagOverrides fl cfg = (cfg, False, []))"
proof -
  obtain fl where fl: "read_flags fs = Inr fl" using parsed_reads(1) [OF assms socks_strings(1)] by (simp add: read_flags_def Let_def)
  have none: "given n = None" if "default_of (flags_of socks_path) n = None" for n
  proof (rule ccontr)
    assume "given n \<noteq> None"
    then obtain v where "given n = Some v" by auto
    with assms(2) obtain d where "default_of (flags_of socks_path) n = Some d" unfolding well_given_def default_of_def by meson
    with that show False by simp
  qed
  have modes: "fl_use_ipv6 fl = None" "fl_http2 fl = None" "fl_l4 fl = None" "fl_wg fl = None" "fl_l4_udp fl = None"
    using fl socks_undeclared [THEN none] by (auto simp: read_flags_def bind_res_eq_Inr when_changed_def parsed_reads(4) [OF assms] Let_def)
  have empty: "fl_bind_address fl = []" "fl_port fl = []" "fl_username fl = []" "fl_password fl = []" if "given = Map.empty"
    using fl that socks_strings(2-5) [THEN parsed_reads(1) [OF assms]]
    by (auto simp: read_flags_def bind_res_eq_Inr string_value_def Let_def)
  let ?c = "string_override (fl_password fl) ''password'' Password_update (string_override (fl_username fl) ''username'' Username_update
      (string_override (fl_port fl) ''port'' Port_update (string_override (fl_bind_address fl) ''bind_address'' BindAddress_update (Socks cfg, []))))"
  have app: "applySocksFlagOverrides fl cfg = (cfg\<lparr>Socks := fst ?c\<rparr>, snd ?c \<noteq> [], snd ?c)"
    by (cases ?c) (simp add: applySocksFlagOverrides_def modes bool_override_def l4_udp_override_def)
  have "\<exists>b p u w. fst (applySocksFlagOverrides fl cfg) = cfg\<lparr>Socks := (Socks cfg)\<lparr>BindAddress := b, Port := p, Username := u, Password := w\<rparr>\<rparr>"
    unfolding app
    unfolding fst_conv overrides_fst by (rule listener_updates)
  moreover have "set (snd (snd (applySocksFlagOverrides fl cfg))) \<subseteq> {''bind_address'', ''port'', ''username'', ''password''}" 
    unfolding app by (simp add: string_override_set)
  moreover have "applySocksFlagOverrides fl cfg = (cfg, False, [])" if "given = Map.empty"
    unfolding app using empty [OF that] by (simp add: string_override_def)
  ultimately show ?thesis using fl by blast
qed

theorem socks_flags_override_listener_only_witness:
  "\<exists>fl. read_flags (given_set (flags_of socks_path) Map.empty) = Inr fl \<and> fst (applySocksFlagOverrides fl sample_config) = sample_config"
proof -
  have "well_given (flags_of socks_path) Map.empty" by (simp add: well_given_def)
  from socks_flags_override_listener_only [OF given_set_parsed this, of sample_config]
  obtain fl where "read_flags (given_set (flags_of socks_path) Map.empty) = Inr fl"
    "applySocksFlagOverrides fl sample_config = (sample_config, False, [])" by blast
  then show ?thesis by simp
qed

end
