(* ===== verification/Spec2Isabelle.thy ===== *)
theory Spec2Isabelle
  imports Route_Policy Socks_Runtime Resolver Timeout_Conn L4_Pool Forwarding Tunnel Udp_Association Wg_Run
    Tun_Adapter Ec_Keys Tunnel_Sessions Connect_Path Command_Line
begin

text \<open>
  A verification development for uscf, a SOCKS5 proxy whose connections leave through Cloudflare WARP:
  through a connect-ip tunnel over HTTP/3 or HTTP/2 (the tunnel modes), as streams of one shared HTTP/3
  connection (the L4 mode), through an in-process WireGuard device, or directly (the SOCKS-only command).

  \<^bold>\<open>The program and its theories.\<close> Sources are paths under \<open>src/\<close>.

  \<^item> \<open>Prelude\<close>, \<open>Go_Strings\<close>, \<open>Go_Netip\<close>, \<open>Go_Duration\<close>, \<open>Go_Json\<close>, \<open>Go_Base64\<close>, \<open>Go_Sync\<close>: what the code uses of Go and
    its library. Errors are the datatype \<open>gerr\<close>, fallible calls return \<open>(gerr, 'a) result\<close>, \<open>nil\<close> slices are
    \<open>None\<close>, strings are lists of bytes, durations are integers of nanoseconds; addresses, prefixes, base64
    and hex are parsed and printed as the library does; \<open>Ip_Text\<close> proves that every address, compressed IPv6 included,
    is read back from its text. \<open>Go_Sync\<close> holds the contracts of the small
    synchronisation idioms as locales (a wake-up token, a tunnel gate on top of it, a close that
    runs once, a counting semaphore); each is interpreted on every component that has one.
  \<^item> \<open>Config\<close> (\<open>config/config.go\<close>, \<open>config/wg_account.go\<close>): the configuration record, its normalisation, the public
    and the key file, migrations, over an explicit file system; the YAML library is an argument.
  \<^item> \<open>Route_Policy\<close> (\<open>cmd/bypass_domain.go\<close>, \<open>cmd/route_policy.go\<close>), \<open>Resolver\<close> (\<open>api/resolver.go\<close>): which names and
    ports bypass the tunnel, the caching, local and tunnel resolvers.
  \<^item> \<open>Socks_Runtime\<close> (\<open>cmd/socks_runtime.go\<close>, \<open>cmd/tunnel_health_state.go\<close>): the gate, the demand token, the tracked
    connections and the state file of the health check, with every operation other goroutines run.
  \<^item> \<open>Timeout_Conn\<close> (\<open>models/net.go\<close>): the idle-timeout connection, with a change of the timeout racing a read.
  \<^item> \<open>Socks_Adapter\<close>, \<open>Udp_Association\<close> (\<open>cmd/socks_adapter.go\<close>): CONNECT with its replies and relays; UDP
    associations as a transition system of flows, slots, dials and closes.
  \<^item> \<open>L4_Proxy\<close>, \<open>L4_Pool\<close> (\<open>api/l4proxy.go\<close>, \<open>api/l4pool.go\<close>): the shared connection, its streams, rebuilds and close,
    and the pool that spreads clients over shards.
  \<^item> \<open>Tunnel_Log\<close>, \<open>Tunnel\<close>, \<open>Forwarding\<close> (\<open>api/tunnel_log.go\<close>, \<open>api/tunnel.go\<close>, \<open>api/forwarding_supervisor.go\<close>): the reasons of
    a disconnect, the backoff and the maintenance loop as a step relation, the packet pumps and
    their sessions.
  \<^item> \<open>Api_Models\<close>, \<open>Cloudflare_Api\<close> (\<open>models/\<close>, \<open>api/cloudflare.go\<close>, \<open>api/wireguard.go\<close>, \<open>internal/\<close>): the documents of the
    registration service and every request to it; the service is a state with a function.
  \<^item> \<open>Device_Names\<close>, \<open>Endpoints\<close>, \<open>Startup\<close> (\<open>cmd/proxy.go\<close>): device names, endpoints and network settings, the decision
    between a stored account and a registration, the registration, the flags.
  \<^item> \<open>Egress\<close>, \<open>Serving\<close>, \<open>Proxy_Run\<close> (\<open>cmd/proxy.go\<close>, \<open>cmd/l4.go\<close>, \<open>cmd/l3_udp_tunnel.go\<close>, \<open>cmd/socks.go\<close>): the dialers and
    resolvers of the runtimes, the tunnel and the runtime running side by side, the setup of the
    modes and the accept loop.
  \<^item> \<open>Wireguard\<close>, \<open>Wg_Account\<close>, \<open>Wg_Supervisor\<close>, \<open>Commands\<close>, \<open>Wg_Run\<close> (\<open>wireguard/\<close>, \<open>cmd/wg_register.go\<close>, \<open>cmd/wg_update.go\<close>,
    \<open>cmd/wg_generate.go\<close>, \<open>cmd/wg_transport.go\<close>, \<open>cmd/wg_runtime.go\<close>, \<open>cmd/root.go\<close>, \<open>cmd/socks.go\<close>,
    \<open>internal/logging/logging.go\<close>): keys and configuration texts, the account commands, the watchdog of
    the session, the commands around the proxy and serving over WireGuard.

  \<^item> \<open>Netstack\<close>, \<open>Net_Dns\<close>, \<open>Net_Dial\<close> (\<open>internal/netstack/tun.go\<close>): the virtual device with its packet queue and ICMP
    sockets, its DNS client and its dialer. \<open>Tun_Adapter\<close> (\<open>api/tunnel.go\<close>) puts the device under the packet
    pumps through the locale \<open>tunnel_device\<close>, the interface the forwarding relies on.
  \<^item> \<open>Masque\<close> (\<open>api/masque.go\<close>), \<open>Ec_Keys\<close> (\<open>internal/utils.go\<close>, \<open>config/config.go\<close>): opening a connect-ip session over
    HTTP/3 or HTTP/2 with the sockets it owns, the pinned key; \<open>Tunnel_Sessions\<close> (\<open>api/tunnel.go\<close>) runs the maintenance
    loop over these sessions; key pairs, their storage, the
    TLS setup of the proxy on them and on the modelled device.
  \<^item> \<open>Connect_Path\<close> (\<open>cmd/socks_adapter.go\<close>, \<open>cmd/proxy.go\<close>, \<open>internal/netstack/tun.go\<close>): one CONNECT from the request to the
    socket of the device. \<open>Command_Line\<close> (\<open>cmd/\<close>, the \<open>init\<close> functions): the commands, their flags, the reads of the flags.

  \<^bold>\<open>How the parts interact.\<close> The SOCKS adapter resolves a request and dials through the runtime, which
  refuses while its gate is closed; the gate is driven by the callbacks of the tunnel maintenance loop,
  by the WireGuard watchdog, or is open from the start. A refused client leaves a token on which a
  lazily reconnecting loop wakes. A dial inside the tunnel gets a resolved address from the adapter; for a name the device's own DNS
  client would look it up over the device's sockets. The packets of these sockets reach the session through the device
  queue, the adapter and the pump. Losing the tunnel closes every tracked connection. The gate is mirrored in the state file.

  \<^bold>\<open>State and concurrency.\<close> Sequential code is a function on an explicit state. Where goroutines meet,
  the model is a step relation, or a function with arguments for what the others do at the points
  where they can (\<open>dialConn\<close>, \<open>tc_Read\<close>, \<open>forwardFromClient\<close>, \<open>rt_DialContext\<close>), and the properties hold for all of it.
  \<open>Serving\<close> puts the maintenance loop, its callbacks, the accept loop and the connections together; only the
  read of the gate and the tracking of a connection are separate steps there, as in the code.

  \<^bold>\<open>What the lemmas show.\<close> Nothing leaks: connections are tracked until they are closed once, slots of datagram
  flows are counted exactly, streams and sockets of the L4 mode are released on every path, losing a
  race with \<open>Close\<close> included, the maintenance loop holds one session at most and gives all of it back, the WireGuard device is closed on every return. Nothing leaves on the wrong path:
  direct dials, local lookups and datagrams happen exactly where the policy and the mode say.
  The gate, the state file and the sessions agree: callbacks alternate, the loop and the runtime refine an
  abstract life of a tunnel, a sleeping tunnel is dialled only when wanted and can always be woken,
  the watchdog finds a session that sends and receives nothing and leaves one that answers alone.
  Configurations, accounts and keys survive their files; paid accounts are not replaced; the license flow does what it
  reports and sends nothing else. The enrolled key is the one that authenticates later, and only the pinned server is
  accepted. A CONNECT reaches exactly the
  address asked for, without a second lookup. Packets keep their order from the stack to the session. A lookup returns, accepts only answers to its own
  question, asks only the configured servers a bounded number of times and does not depend on which lane is first.
  Bounds: reconnect attempts, backoffs, cache size, accept pauses, device names.

  \<^bold>\<open>Bounds and fuel.\<close> The models are total functions except for two. The loops over the answers of a DNS message
  are partial functions into an option, since they end only when the parser advances; that they return is proved from what the
  package documents of its parser (\<open>dns_parser_laws\<close>). The polling loop of the first handshake has fuel: with a ticker of 250 milliseconds \<open>timeout\<close> divided by it plus two polls are enough, and that is proved. The byte
  counters, ports and packet sizes whose wrap-around matters are words; times are unbounded integers, the
  program's being far from the range of 64 bits.

  \<^bold>\<open>Not modelled.\<close> Third-party code: the gVisor stack and its socket adapter, the DNS message, QUIC, HTTP, connect-ip,
  WireGuard, YAML and command line packages, and the curve and certificate arithmetic; their results are arguments, and what a
  property needs of them is among its hypotheses. The log output has no logic to state.
\<close>

end
